(* ===== verification/Prelude.thy ===== *)
theory Prelude
  imports Main "HOL-Library.Word" "HOL-Library.Monad_Syntax"
begin

text \<open>
  Shared vocabulary of the development. The C sources under \<^verbatim>\<open>src/qjs\<close> work on machine words and on
  raw memory. Machine words are \<open>'n word\<close>; a block of memory is a list; a read or a write outside
  its block is undefined behaviour in C and is the value \<open>None\<close> here, so that a memory-safety
  theorem has the form "the operation returns \<open>Some\<close>". The theory also holds the little-endian
  view of words that the byte code and the packed accessors of \<^verbatim>\<open>cutils.h\<close> use, and the generic
  list lemmas the components share.
\<close>

unbundle bit_operations_syntax

type_synonym u8 = "8 word"
type_synonym u16 = "16 word"
type_synonym u32 = "32 word"
type_synonym u64 = "64 word"

named_theorems mem_simps \<open>unfolding rules for reads and writes of memory blocks\<close>

section \<open>Memory blocks\<close>

definition rd :: "'a list \<Rightarrow> nat \<Rightarrow> 'a option" where
  "rd m i = (if i < length m then Some (m ! i) else None)"

definition wr :: "'a list \<Rightarrow> nat \<Rightarrow> 'a \<Rightarrow> 'a list option" where
  "wr m i v = (if i < length m then Some (m[i := v]) else None)"

definition rd_n :: "'a list \<Rightarrow> nat \<Rightarrow> nat \<Rightarrow> 'a list option" where
  "rd_n m i n = (if i + n \<le> length m then Some (take n (drop i m)) else None)"

text \<open>\<open>memcpy m i xs\<close> stores the bytes \<open>xs\<close> at offset \<open>i\<close>; as every source range is read before
  the store, it is also \<^verbatim>\<open>memmove\<close>.\<close>

definition memcpy :: "'a list \<Rightarrow> nat \<Rightarrow> 'a list \<Rightarrow> 'a list option" where
  "memcpy m i xs =
     (if i + length xs \<le> length m then Some (take i m @ xs @ drop (i + length xs) m) else None)"

text \<open>The contents of a reallocated block: the old bytes up to the smaller size, then \<open>z\<close>.\<close>

definition resize :: "'a \<Rightarrow> 'a list \<Rightarrow> nat \<Rightarrow> 'a list" where
  "resize z m n = take n m @ replicate (n - length m) z"

lemma rd_Some [mem_simps]: "rd m i = Some v \<longleftrightarrow> i < length m \<and> v = m ! i"
  by (auto simp: rd_def)

lemma wr_Some [mem_simps]: "wr m i v = Some m' \<longleftrightarrow> i < length m \<and> m' = m[i := v]"
  by (auto simp: wr_def)

lemma rd_n_Some [mem_simps]:
  "rd_n m i n = Some xs \<longleftrightarrow> i + n \<le> length m \<and> xs = take n (drop i m)"
  by (auto simp: rd_n_def)

lemma memcpy_Some [mem_simps]:
  "memcpy m i xs = Some m' \<longleftrightarrow>
     i + length xs \<le> length m \<and> m' = take i m @ xs @ drop (i + length xs) m"
  by (auto simp: memcpy_def)

lemma length_resize [simp]: "length (resize z m n) = n"
  by (simp add: resize_def)

lemma take_resize: "k \<le> n \<Longrightarrow> k \<le> length m \<Longrightarrow> take k (resize z m n) = take k m"
  by (simp add: resize_def)

lemma memcpy_length: "memcpy m i xs = Some m' \<Longrightarrow> length m' = length m"
  by (auto simp: mem_simps)

lemma memcpy_take: "memcpy m i xs = Some m' \<Longrightarrow> take (i + length xs) m' = take i m @ xs"
  by (cases xs) (auto simp: mem_simps min_def)

lemma memcpy_nth:
  "memcpy m i xs = Some m' \<Longrightarrow> k < length m \<Longrightarrow>
     m' ! k = (if i \<le> k \<and> k < i + length xs then xs ! (k - i) else m ! k)"
  by (auto simp: mem_simps nth_append min_def)

lemma memcpy_fits: "i + length xs \<le> length m \<Longrightarrow> \<exists>m'. memcpy m i xs = Some m'"
  by (simp add: memcpy_def)

lemma rd_n_fits: "i + n \<le> length m \<Longrightarrow> rd_n m i n = Some (take n (drop i m))"
  by (simp add: rd_n_def)

section \<open>Little-endian bytes of a word\<close>

definition le_bytes :: "nat \<Rightarrow> 'a::len word \<Rightarrow> u8 list" where
  "le_bytes n w = map (\<lambda>i. ucast (drop_bit (8 * i) w)) [0..<n]"

fun of_le :: "u8 list \<Rightarrow> 'a::len word" where
  "of_le [] = 0"
| "of_le (b # bs) = ucast b OR push_bit 8 (of_le bs)"

lemma length_le_bytes [simp]: "length (le_bytes n w) = n"
  by (simp add: le_bytes_def)

lemma bit_of_le:
  "bit (of_le bs :: 'a::len word) k \<longleftrightarrow>
     k < LENGTH('a) \<and> k div 8 < length bs \<and> bit (bs ! (k div 8)) (k mod 8)"
proof (induction bs arbitrary: k)
  case Nil
  then show ?case by simp
next
  case (Cons b bs)
  show ?case
  proof (cases "k < 8")
    case True
    then show ?thesis
      by (simp add: bit_simps)
  next
    case False
    then obtain j where j: "k = j + 8" by (metis add.commute le_add_diff_inverse not_less)
    have div: "k div 8 = Suc (j div 8)" and md: "k mod 8 = j mod 8"
      by (simp_all add: j)
    have "\<not> bit b k"
      using False by (auto dest: bit_imp_le_length)
    then show ?thesis
      using Cons.IH [of j] False by (simp add: bit_simps div md) (auto simp: j)
  qed
qed

lemma of_le_le_bytes:
  assumes "LENGTH('a::len) = 8 * n"
  shows "of_le (le_bytes n (w :: 'a word)) = w"
proof (rule bit_word_eqI)
  fix k assume k: "k < LENGTH('a)"
  then have "k div 8 < n" using assms by (simp add: less_mult_imp_div_less mult.commute)
  then show "bit (of_le (le_bytes n w) :: 'a word) k \<longleftrightarrow> bit w k"
    using k by (simp add: bit_of_le le_bytes_def bit_simps)
qed

lemma le_bytes_of_le:
  assumes "LENGTH('a::len) = 8 * length bs"
  shows "le_bytes (length bs) (of_le bs :: 'a word) = bs"
proof (rule nth_equalityI)
  show "length (le_bytes (length bs) (of_le bs :: 'a word)) = length bs" by simp
next
  fix i assume "i < length (le_bytes (length bs) (of_le bs :: 'a word))"
  then have i: "i < length bs" by simp
  show "le_bytes (length bs) (of_le bs :: 'a word) ! i = bs ! i"
  proof (rule bit_word_eqI)
    fix k assume "k < LENGTH(8)"
    then have k: "k < 8" by simp
    have "8 * i + k < 8 * length bs" using i k by linarith
    then show "bit (le_bytes (length bs) (of_le bs :: 'a word) ! i) k = bit (bs ! i) k"
      using i k assms by (simp add: le_bytes_def bit_simps bit_of_le)
  qed
qed

section \<open>Lists\<close>

lemma take_drop_split: "i \<le> j \<Longrightarrow> take j xs = take i xs @ take (j - i) (drop i xs)"
  by (metis le_add_diff_inverse take_add)

lemma takeWhile_neq_append [simp]:
  "z \<notin> set xs \<Longrightarrow> takeWhile (\<lambda>c. c \<noteq> z) (xs @ z # ys) = xs"
  by (induction xs) auto

section \<open>Words as integers\<close>

lemma uint_add_lt: "uint (x :: u32) + uint y < 2 ^ 32 \<Longrightarrow> uint (x + y) = uint x + uint y"
  by (simp add: uint_word_ariths mod_pos_pos_trivial)

lemma uint_Suc_lt: "uint (x :: u32) + 1 < 2 ^ 32 \<Longrightarrow> uint (x + 1) = uint x + 1"
  using uint_add_lt [of x 1] by simp

lemma uint_or_shift:
  assumes "uint (x :: u32) * 2 ^ k + uint y < 2 ^ 32" "uint (y :: u32) < 2 ^ k" "k < 32"
  shows "uint (push_bit k x OR y) = uint x * 2 ^ k + uint y"
proof -
  have disj: "push_bit k x AND y = 0"
  proof (rule bit_word_eqI)
    fix n assume n: "n < LENGTH(32)"
    have "\<not> bit y n" if "k \<le> n"
    proof -
      have "uint y < 2 ^ n" using assms(2) that by (smt (verit) power_increasing)
      then have "uint y = take_bit n (uint y)" by (simp add: take_bit_int_eq_self)
      then have "\<not> bit (uint y) n" by (metis bit_take_bit_iff less_irrefl)
      then show ?thesis using n by (simp add: bit_uint_iff)
    qed
    then show "bit (push_bit k x AND y) n \<longleftrightarrow> bit (0 :: u32) n" by (auto simp: bit_simps)
  qed
  have push: "uint (push_bit k x) = take_bit 32 (push_bit k (uint x))" by (simp add: unsigned_push_bit_eq)
  have "uint x * 2 ^ k < 2 ^ 32" using assms(1) uint_ge_0 [of y] by linarith
  then have p: "uint (push_bit k x) = uint x * 2 ^ k"
    using push by (simp add: push_bit_eq_mult [of k "uint x"] take_bit_int_eq_self)
  have "push_bit k x OR y = push_bit k x + y" using disj by (simp add: disjunctive_add_eq_or)
  then show ?thesis using p assms(1) by (simp add: uint_word_ariths)
qed

end
