(* ===== verification/Cutils.thy ===== *)
theory Cutils
  imports Prelude
begin

text \<open>
  The string helpers, integer helpers and packed little-endian accessors of
  \<^verbatim>\<open>src/qjs/cutils.c\<close> and \<^verbatim>\<open>src/qjs/cutils.h\<close>. A C string is a memory block that contains its
  terminating zero; a read past the end of the block is \<open>None\<close>.
\<close>

section \<open>Strings\<close>

definition cstr :: "u8 list \<Rightarrow> u8 list" where
  "cstr m = takeWhile (\<lambda>c. c \<noteq> 0) m"

text \<open>\<^verbatim>\<open>strlen\<close> of the C library: defined when the block holds a terminator.\<close>

definition strlen :: "u8 list \<Rightarrow> nat option" where
  "strlen m = (if 0 \<in> set m then Some (length (cstr m)) else None)"

fun pstrcpy_loop :: "u8 list \<Rightarrow> nat \<Rightarrow> nat \<Rightarrow> u8 list \<Rightarrow> u8 list option" where
  "pstrcpy_loop buf q lim [] = None"
| "pstrcpy_loop buf q lim (c # str) =
     (if c = 0 \<or> q \<ge> lim then wr buf q 0
      else do { buf' \<leftarrow> wr buf q c; pstrcpy_loop buf' (q + 1) lim str })"

definition pstrcpy :: "u8 list \<Rightarrow> int \<Rightarrow> u8 list \<Rightarrow> u8 list option" where
  "pstrcpy buf buf_size str =
     (if buf_size \<le> 0 then Some buf else pstrcpy_loop buf 0 (nat buf_size - 1) str)"

text \<open>\<open>pstrcat\<close> keeps the length in an \<^verbatim>\<open>int\<close>, the low 32 bits of the result of \<^verbatim>\<open>strlen\<close>; a negative one would put the
  copy in front of the block.\<close>

definition pstrcat :: "u8 list \<Rightarrow> int \<Rightarrow> u8 list \<Rightarrow> u8 list option" where
  "pstrcat buf buf_size s = do {
     n \<leftarrow> strlen buf;
     let len = sint (of_nat n :: u32);
     if len < buf_size
     then if len < 0 then None
     else do {
       tl' \<leftarrow> pstrcpy (drop (nat len) buf) (buf_size - len) s;
       Some (take (nat len) buf @ tl') }
     else Some buf }"

text \<open>The result of \<open>strstart\<close>: \<open>Some p\<close> is the return value 1 with \<^verbatim>\<open>*ptr = str + p\<close>, and
  \<open>None\<close> inside the outer \<open>Some\<close> is the return value 0.\<close>

fun strstart_loop :: "u8 list \<Rightarrow> u8 list \<Rightarrow> nat \<Rightarrow> nat option option" where
  "strstart_loop str [] p = None"
| "strstart_loop str (q # val) p =
     (if q = 0 then Some (Some p)
      else case str of
        [] \<Rightarrow> None
      | c # str' \<Rightarrow> if c \<noteq> q then Some None else strstart_loop str' val (p + 1))"

definition strstart :: "u8 list \<Rightarrow> u8 list \<Rightarrow> nat option option" where
  "strstart str val = strstart_loop str val 0"

definition has_suffix :: "u8 list \<Rightarrow> u8 list \<Rightarrow> bool option" where
  "has_suffix str suffix = do {
     len \<leftarrow> strlen str;
     slen \<leftarrow> strlen suffix;
     if len \<ge> slen
     then do {
       a \<leftarrow> rd_n str (len - slen) slen;
       b \<leftarrow> rd_n suffix 0 slen;
       Some (a = b) }
     else Some False }"

section \<open>Integers\<close>

definition max_int :: "int \<Rightarrow> int \<Rightarrow> int" where
  "max_int a b = (if a > b then a else b)"

definition min_int :: "int \<Rightarrow> int \<Rightarrow> int" where
  "min_int a b = (if a < b then a else b)"

definition max_uint32 :: "u32 \<Rightarrow> u32 \<Rightarrow> u32" where
  "max_uint32 a b = (if a > b then a else b)"

definition min_uint32 :: "u32 \<Rightarrow> u32 \<Rightarrow> u32" where
  "min_uint32 a b = (if a < b then a else b)"

definition max_int64 :: "int \<Rightarrow> int \<Rightarrow> int" where
  "max_int64 a b = (if a > b then a else b)"

definition min_int64 :: "int \<Rightarrow> int \<Rightarrow> int" where
  "min_int64 a b = (if a < b then a else b)"

section \<open>Packed accessors, little-endian\<close>

definition get_u64 :: "u8 list \<Rightarrow> nat \<Rightarrow> u64 option" where
  "get_u64 tab p = do { bs \<leftarrow> rd_n tab p 8; Some (of_le bs) }"

definition get_i64 :: "u8 list \<Rightarrow> nat \<Rightarrow> int option" where
  "get_i64 tab p = do { bs \<leftarrow> rd_n tab p 8; Some (sint (of_le bs :: u64)) }"

definition put_u64 :: "u8 list \<Rightarrow> nat \<Rightarrow> u64 \<Rightarrow> u8 list option" where
  "put_u64 tab p val = memcpy tab p (le_bytes 8 val)"

definition get_u32 :: "u8 list \<Rightarrow> nat \<Rightarrow> u32 option" where
  "get_u32 tab p = do { bs \<leftarrow> rd_n tab p 4; Some (of_le bs) }"

definition get_i32 :: "u8 list \<Rightarrow> nat \<Rightarrow> int option" where
  "get_i32 tab p = do { bs \<leftarrow> rd_n tab p 4; Some (sint (of_le bs :: u32)) }"

definition put_u32 :: "u8 list \<Rightarrow> nat \<Rightarrow> u32 \<Rightarrow> u8 list option" where
  "put_u32 tab p val = memcpy tab p (le_bytes 4 val)"

text \<open>\<^verbatim>\<open>get_u16\<close> returns the value in a \<^verbatim>\<open>uint32_t\<close>, \<^verbatim>\<open>get_i16\<close> sign-extended in an
  \<^verbatim>\<open>int32_t\<close>.\<close>

definition get_u16 :: "u8 list \<Rightarrow> nat \<Rightarrow> u32 option" where
  "get_u16 tab p = do { bs \<leftarrow> rd_n tab p 2; Some (ucast (of_le bs :: u16)) }"

definition get_i16 :: "u8 list \<Rightarrow> nat \<Rightarrow> int option" where
  "get_i16 tab p = do { bs \<leftarrow> rd_n tab p 2; Some (sint (of_le bs :: u16)) }"

definition put_u16 :: "u8 list \<Rightarrow> nat \<Rightarrow> u16 \<Rightarrow> u8 list option" where
  "put_u16 tab p val = memcpy tab p (le_bytes 2 val)"

definition get_u8 :: "u8 list \<Rightarrow> nat \<Rightarrow> u32 option" where
  "get_u8 tab p = do { b \<leftarrow> rd tab p; Some (ucast b) }"

definition get_i8 :: "u8 list \<Rightarrow> nat \<Rightarrow> int option" where
  "get_i8 tab p = do { b \<leftarrow> rd tab p; Some (sint b) }"

definition put_u8 :: "u8 list \<Rightarrow> nat \<Rightarrow> u8 \<Rightarrow> u8 list option" where
  "put_u8 tab p val = wr tab p val"

definition bswap16 :: "u16 \<Rightarrow> u16" where
  "bswap16 x = drop_bit 8 x OR push_bit 8 x"

definition bswap32 :: "u32 \<Rightarrow> u32" where
  "bswap32 v =
     drop_bit 24 (v AND 0xff000000) OR drop_bit 8 (v AND 0x00ff0000) OR
     push_bit 8 (v AND 0x0000ff00) OR push_bit 24 (v AND 0x000000ff)"

definition bswap64 :: "u64 \<Rightarrow> u64" where
  "bswap64 v =
     drop_bit (7 * 8) (v AND push_bit (7 * 8) 0xff) OR
     drop_bit (5 * 8) (v AND push_bit (6 * 8) 0xff) OR
     drop_bit (3 * 8) (v AND push_bit (5 * 8) 0xff) OR
     drop_bit (1 * 8) (v AND push_bit (4 * 8) 0xff) OR
     push_bit (1 * 8) (v AND push_bit (3 * 8) 0xff) OR
     push_bit (3 * 8) (v AND push_bit (2 * 8) 0xff) OR
     push_bit (5 * 8) (v AND push_bit (1 * 8) 0xff) OR
     push_bit (7 * 8) (v AND push_bit (0 * 8) 0xff)"

section \<open>Hexadecimal digits\<close>

definition from_hex :: "int \<Rightarrow> int" where
  "from_hex c =
     (if c \<ge> 48 \<and> c \<le> 57 then c - 48
      else if c \<ge> 65 \<and> c \<le> 70 then c - 65 + 10
      else if c \<ge> 97 \<and> c \<le> 102 then c - 97 + 10
      else -1)"

section \<open>Lemmas on strings\<close>

lemma cstr_append_zero [simp]: "0 \<notin> set s \<Longrightarrow> cstr (s @ 0 # r) = s"
  by (simp add: cstr_def)

lemma cstr_no_zero [simp]: "0 \<notin> set (cstr m)"
  by (auto simp: cstr_def dest: set_takeWhileD)

lemma cstr_split: "0 \<in> set m \<Longrightarrow> \<exists>r. m = cstr m @ 0 # r"
proof (induction m)
  case Nil
  then show ?case by simp
next
  case (Cons c m)
  then show ?case by (cases "c = 0") (auto simp: cstr_def)
qed

lemma strlen_Some: "strlen m = Some n \<longleftrightarrow> (\<exists>r. m = cstr m @ 0 # r) \<and> n = length (cstr m)"
proof
  assume "strlen m = Some n"
  then show "(\<exists>r. m = cstr m @ 0 # r) \<and> n = length (cstr m)"
    by (auto simp: strlen_def cstr_split split: if_splits)
next
  assume "(\<exists>r. m = cstr m @ 0 # r) \<and> n = length (cstr m)"
  then obtain r where "m = cstr m @ 0 # r" and n: "n = length (cstr m)" by blast
  then have "0 \<in> set m" by (metis in_set_conv_decomp)
  with n show "strlen m = Some n" by (simp add: strlen_def)
qed

lemma pstrcpy_loop_eq:
  assumes "0 \<notin> set s" and "q \<le> lim" and "lim < length buf"
  shows "pstrcpy_loop buf q lim (s @ 0 # r) =
    Some (take q buf @ take (lim - q) s @ 0 # drop (q + length (take (lim - q) s) + 1) buf)"
  using assms
proof (induction s arbitrary: buf q)
  case Nil
  then show ?case
    by (auto simp: wr_def upd_conv_take_nth_drop)
next
  case (Cons c s)
  show ?case
  proof (cases "q \<ge> lim")
    case True
    then show ?thesis
      using Cons.prems by (auto simp: wr_def upd_conv_take_nth_drop)
  next
    case False
    then obtain d where d: "lim - q = Suc d" by (metis Suc_diff_Suc not_le)
    then have d': "lim - Suc q = d" by simp
    have "take (Suc q) (buf[q := c]) = take q buf @ [c]"
      using False Cons.prems by (simp add: take_Suc_conv_app_nth)
    then show ?thesis
      using Cons.prems False Cons.IH [of "Suc q" "buf[q := c]"]
      by (simp add: wr_def d d' drop_update_cancel)
  qed
qed

lemma pstrcpy_eq:
  assumes "0 \<notin> set s" and "0 < n" and "n \<le> int (length buf)"
  shows "pstrcpy buf n (s @ 0 # r) =
    Some (take (nat n - 1) s @ 0 # drop (length (take (nat n - 1) s) + 1) buf)"
  using assms pstrcpy_loop_eq [of s 0 "nat n - 1" buf r]
  by (simp add: pstrcpy_def)

lemma strstart_loop_eq:
  assumes "0 \<notin> set s" and "0 \<notin> set v"
  shows "strstart_loop (s @ 0 # r) (v @ 0 # r') p =
    Some (if take (length v) s = v then Some (p + length v) else None)"
  using assms
proof (induction v arbitrary: s p)
  case Nil
  then show ?case by simp
next
  case (Cons q v)
  then show ?case
    by (cases s) auto
qed


lemma has_suffix_eq:
  assumes "0 \<notin> set s" and "0 \<notin> set v"
  shows "has_suffix (s @ 0 # r) (v @ 0 # r') =
    Some (length v \<le> length s \<and> drop (length s - length v) s = v)"
  using assms by (auto simp: has_suffix_def strlen_def rd_n_def)

lemma cstr_cases:
  assumes "0 \<in> set m"
  obtains s r where "m = s @ 0 # r" and "0 \<notin> set s" and "cstr m = s"
  using cstr_split [OF assms] cstr_no_zero [of m] by metis

section \<open>Lemmas on packed accessors\<close>

lemma byte_masks:
  "(0xff000000 :: u32) = push_bit 24 (mask 8)" "(0x00ff0000 :: u32) = push_bit 16 (mask 8)"
  "(0x0000ff00 :: u32) = push_bit 8 (mask 8)" "(0x000000ff :: u32) = mask 8"
  "(0xff :: u64) = mask 8"
  by (simp_all add: mask_eq_exp_minus_1)

lemma le_bytes_2: "le_bytes 2 w = [ucast w, ucast (drop_bit 8 w)]"
  by (simp add: le_bytes_def upt_rec)

lemma le_bytes_4:
  "le_bytes 4 w = [ucast w, ucast (drop_bit 8 w), ucast (drop_bit 16 w), ucast (drop_bit 24 w)]"
  by (simp add: le_bytes_def upt_rec)

lemma le_bytes_8:
  "le_bytes 8 w =
     [ucast w, ucast (drop_bit 8 w), ucast (drop_bit 16 w), ucast (drop_bit 24 w),
      ucast (drop_bit 32 w), ucast (drop_bit 40 w), ucast (drop_bit 48 w), ucast (drop_bit 56 w)]"
  by (simp add: le_bytes_def upt_rec)

lemma le_bytes_bswap16: "le_bytes 2 (bswap16 v) = rev (le_bytes 2 v)"
  unfolding le_bytes_2 bswap16_def
  by (auto intro!: bit_word_eqI simp: bit_simps dest: bit_imp_le_length)

lemma le_bytes_bswap32: "le_bytes 4 (bswap32 v) = rev (le_bytes 4 v)"
  unfolding le_bytes_4 bswap32_def byte_masks
  by (auto intro!: bit_word_eqI simp: bit_simps dest: bit_imp_le_length)

lemma byte_and: "bit (v AND push_bit i (mask 8) :: u64) k \<longleftrightarrow> i \<le> k \<and> k < i + 8 \<and> bit v k"
  by (auto simp: bit_simps dest: bit_imp_le_length)

lemma bit_byte: "bit (ucast (drop_bit n (w :: 'a::len word)) :: u8) k \<longleftrightarrow> k < 8 \<and> bit w (n + k)"
  by (simp add: bit_simps)

lemma byte_of_drop:
  "ucast (drop_bit (8 * j) (drop_bit (8 * d) (v AND push_bit (8 * i) (mask 8)) :: u64)) =
     (if j + d = i then ucast (drop_bit (8 * i) v) else (0 :: u8))"
proof (rule bit_word_eqI)
  fix k assume "k < LENGTH(8)"
  then have k: "k < 8" by simp
  have "8 * i \<le> 8 * d + (8 * j + k) \<and> 8 * d + (8 * j + k) < 8 * i + 8 \<longleftrightarrow> j + d = i"
    using k by presburger
  then show "bit (ucast (drop_bit (8 * j) (drop_bit (8 * d) (v AND push_bit (8 * i) (mask 8)) :: u64)) :: u8) k
    = bit (if j + d = i then ucast (drop_bit (8 * i) v) else (0 :: u8)) k"
    unfolding bit_byte bit_drop_bit_eq comp_apply byte_and using k
    by (auto simp: bit_byte distrib_left ac_simps)
qed

lemma byte_of_push:
  assumes "j < 8"
  shows "ucast (drop_bit (8 * j) (push_bit (8 * d) (v AND push_bit (8 * i) (mask 8)) :: u64)) =
     (if j = i + d then ucast (drop_bit (8 * i) v) else (0 :: u8))"
proof (rule bit_word_eqI)
  fix k assume "k < LENGTH(8)"
  then have k: "k < 8" by simp
  have "8 * i + 8 * d \<le> 8 * j + k \<and> 8 * j + k < 8 * i + 8 * d + 8 \<longleftrightarrow> j = i + d"
    using k by presburger
  then have "8 * d \<le> 8 * j + k \<and> 8 * i \<le> 8 * j + k - 8 * d \<and> 8 * j + k - 8 * d < 8 * i + 8 \<longleftrightarrow> j = i + d"
    by linarith
  moreover have "8 * j + k < 64" using assms k by linarith
  ultimately show "bit (ucast (drop_bit (8 * j) (push_bit (8 * d) (v AND push_bit (8 * i) (mask 8)) :: u64)) :: u8) k
    = bit (if j = i + d then ucast (drop_bit (8 * i) v) else (0 :: u8)) k"
    unfolding bit_byte bit_push_bit_iff byte_and using k
    by (auto simp: bit_byte distrib_left bit_simps ac_simps)
qed

lemma bswap64_alt: "bswap64 v =
     drop_bit (8 * 7) (v AND push_bit (8 * 7) (mask 8)) OR
     drop_bit (8 * 5) (v AND push_bit (8 * 6) (mask 8)) OR
     drop_bit (8 * 3) (v AND push_bit (8 * 5) (mask 8)) OR
     drop_bit (8 * 1) (v AND push_bit (8 * 4) (mask 8)) OR
     push_bit (8 * 1) (v AND push_bit (8 * 3) (mask 8)) OR
     push_bit (8 * 3) (v AND push_bit (8 * 2) (mask 8)) OR
     push_bit (8 * 5) (v AND push_bit (8 * 1) (mask 8)) OR
     push_bit (8 * 7) (v AND push_bit (8 * 0) (mask 8))"
  unfolding bswap64_def byte_masks by (simp only: mult.commute)

lemma byte_bswap64:
  "j < 8 \<Longrightarrow> ucast (drop_bit (8 * j) (bswap64 v)) = (ucast (drop_bit (8 * (7 - j)) v) :: u8)"
proof -
  assume "j < 8"
  then have "j \<in> {0, 1, 2, 3, 4, 5, 6, 7}" by auto
  then show ?thesis
    unfolding bswap64_alt drop_bit_or unsigned_or_eq byte_of_drop 
    by (elim insertE emptyE) (simp_all only: byte_of_push, simp_all)
qed

lemma rev_le_bytes_8: "i < 8 \<Longrightarrow> rev (le_bytes 8 v) ! i = ucast (drop_bit (8 * (7 - i)) v)"
  by (subst rev_nth) (auto simp: le_bytes_def nth_map)

lemma le_bytes_bswap64: "le_bytes 8 (bswap64 v) = rev (le_bytes 8 v)"
  by (rule nth_equalityI) (simp_all add: rev_le_bytes_8, simp add: le_bytes_def byte_bswap64)

lemma le_bytes_inj:
  fixes v w :: "'a::len word"
  assumes "LENGTH('a) = 8 * n" and "le_bytes n v = le_bytes n w"
  shows "v = w"
  using of_le_le_bytes [OF assms(1)] assms(2) by metis

lemma memcpy_rd_n: "memcpy tab p xs = Some tab' \<Longrightarrow> rd_n tab' p (length xs) = Some xs"
  by (auto simp: mem_simps)

section \<open>Properties\<close>

text \<open>\<open>pstrcpy\<close> into a block of at least \<open>buf_size\<close> bytes never leaves the block, always
  leaves a terminated string there which is the source cut to \<open>buf_size - 1\<close> bytes, and changes no
  byte at or after \<open>buf_size\<close>.\<close>

theorem pstrcpy_truncates:
  assumes "0 \<in> set str" and "0 < buf_size" and "buf_size \<le> int (length buf)"
  shows "\<exists>buf'. pstrcpy buf buf_size str = Some buf' \<and> length buf' = length buf \<and>
    strlen buf' = Some (min (nat buf_size - 1) (length (cstr str))) \<and>
    cstr buf' = take (nat buf_size - 1) (cstr str) \<and>
    drop (nat buf_size) buf' = drop (nat buf_size) buf"
proof -
  obtain s r where str: "str = s @ 0 # r" and s: "0 \<notin> set s" "cstr str = s"
    using assms(1) by (rule cstr_cases)
  let ?t = "take (nat buf_size - 1) s"
  have nz: "0 \<notin> set ?t" using s by (auto dest: in_set_takeD)
  have len: "length ?t + 1 \<le> nat buf_size" using assms(2) by simp
  have "pstrcpy buf buf_size str = Some (?t @ 0 # drop (length ?t + 1) buf)"
    using pstrcpy_eq [OF s(1) assms(2,3)] by (simp add: str)
  moreover have "length (?t @ 0 # drop (length ?t + 1) buf) = length buf"
    using assms(2,3) len by simp
  moreover have "drop (nat buf_size) (?t @ 0 # drop (length ?t + 1) buf) = drop (nat buf_size) buf"
    using len by (auto simp: drop_Cons' min_def)
  ultimately show ?thesis
    using nz s by (auto simp: strlen_def min.commute)
qed

theorem pstrcpy_truncates_witness:
  "pstrcpy [9, 9, 9, 9] 3 [104, 105, 106, 0] = Some [104, 105, 0, 9] \<and>
   strlen [104, 105, 0, 9] = Some 2 \<and> cstr [104, 105, 0, 9] = [104, 105]"
proof -
  have "pstrcpy [9, 9, 9, 9] 3 [104, 105, 106, 0] = Some [104, 105, 0, 9]"
    by (simp add: pstrcpy_def wr_def)
  then show ?thesis
    using pstrcpy_truncates [of "[104, 105, 106, 0]" 3 "[9, 9, 9, 9]"] by (simp add: cstr_def)
qed

text \<open>\<open>strstart\<close> on two C strings answers exactly whether the second is a prefix of the first,
  and then points just behind the prefix; \<open>has_suffix\<close> answers exactly whether the second is a
  suffix. Neither reads outside its strings.\<close>

theorem strstart_has_suffix_correct:
  assumes "0 \<in> set str" and "0 \<in> set val"
  shows "strstart str val =
      Some (if \<exists>t. cstr str = cstr val @ t then Some (length (cstr val)) else None) \<and>
    has_suffix str val = Some (\<exists>t. cstr str = t @ cstr val)"
proof -
  obtain s r where str: "str = s @ 0 # r" "0 \<notin> set s" "cstr str = s"
    using assms(1) by (rule cstr_cases)
  obtain v r' where val: "val = v @ 0 # r'" "0 \<notin> set v" "cstr val = v"
    using assms(2) by (rule cstr_cases)
  have "take (length v) s = v \<longleftrightarrow> (\<exists>t. s = v @ t)"
    by (metis append_eq_conv_conj append_take_drop_id)
  moreover have "length v \<le> length s \<and> drop (length s - length v) s = v \<longleftrightarrow> (\<exists>t. s = t @ v)"
    by (metis append_eq_conv_conj append_take_drop_id diff_add_inverse2 le_add2 length_append)
  ultimately show ?thesis
    using strstart_loop_eq [OF str(2) val(2), of r r' 0] has_suffix_eq [OF str(2) val(2), of r r']
    by (simp only: str(3) val(3) strstart_def) (simp add: str(1) val(1))
qed

theorem strstart_has_suffix_correct_witness:
  "strstart [97, 98, 99, 0] [97, 98, 0] = Some (Some 2) \<and>
   has_suffix [97, 98, 99, 0] [98, 99, 0] = Some True"
proof -
  have "cstr [97, 98, 99, 0] = [97, 98, 99]" "cstr [97, 98, 0] = [97, 98]" "cstr [98, 99, 0] = [98, 99]"
    by (simp_all add: cstr_def)
  then show ?thesis
    using strstart_has_suffix_correct [of "[97, 98, 99, 0]" "[97, 98, 0]"]
      strstart_has_suffix_correct [of "[97, 98, 99, 0]" "[98, 99, 0]"]
    by (simp add: numeral_2_eq_2)
qed

text \<open>A value stored with \<open>put_u16\<close>, \<open>put_u32\<close> or \<open>put_u64\<close> is read back unchanged at the
  same offset, and the bytes around it are not touched.\<close>

lemma put_get_roundtrip:
  assumes "p + 8 \<le> length tab"
  shows "\<exists>tab2 tab4 tab8.
    put_u16 tab p a = Some tab2 \<and> get_u16 tab2 p = Some (ucast a) \<and>
      take p tab2 = take p tab \<and> drop (p + 2) tab2 = drop (p + 2) tab \<and>
    put_u32 tab p b = Some tab4 \<and> get_u32 tab4 p = Some b \<and>
      take p tab4 = take p tab \<and> drop (p + 4) tab4 = drop (p + 4) tab \<and>
    put_u64 tab p c = Some tab8 \<and> get_u64 tab8 p = Some c \<and>
      take p tab8 = take p tab \<and> drop (p + 8) tab8 = drop (p + 8) tab"
  using assms
  by (simp add: put_u16_def put_u32_def put_u64_def get_u16_def get_u32_def get_u64_def
      memcpy_def rd_n_def of_le_le_bytes)

text \<open>The byte-swap functions reverse the bytes of their operand, and so undo themselves.\<close>

theorem bswap_reverses_bytes:
  "le_bytes 2 (bswap16 x) = rev (le_bytes 2 x) \<and> le_bytes 4 (bswap32 y) = rev (le_bytes 4 y) \<and>
   le_bytes 8 (bswap64 z) = rev (le_bytes 8 z) \<and>
   bswap16 (bswap16 x) = x \<and> bswap32 (bswap32 y) = y \<and> bswap64 (bswap64 z) = z"
  by (auto simp: le_bytes_bswap16 le_bytes_bswap32 le_bytes_bswap64
      intro: le_bytes_inj [where n = 2] le_bytes_inj [where n = 4] le_bytes_inj [where n = 8])

end
