(* ===== verification/Dyn_Buf.thy ===== *)
theory Dyn_Buf
  imports Cutils
begin

text \<open>
  The dynamic buffer of \<^verbatim>\<open>src/qjs/cutils.c\<close> (\<^verbatim>\<open>DynBuf\<close>) and \<^verbatim>\<open>dbuf_insert\<close> of
  \<^verbatim>\<open>src/qjs/libregexp.c\<close>. The block \<^verbatim>\<open>buf\<close> is a list of \<open>allocated_size\<close> bytes (a null pointer
  is the empty list). The allocator is user code: the field \<open>realloc_func\<close> says whether a request
  for a number of bytes is granted; a null function pointer is \<open>None\<close>, and calling it is undefined
  behaviour. What one buffer asks for grows strictly until the first refusal, and after a refusal
  it never asks again, so a predicate on sizes covers every behaviour of a stateful allocator
  towards one buffer. Sizes are \<^verbatim>\<open>size_t\<close>: natural numbers with the wrap-around at \<open>2 ^ 64\<close>
  written out. Operations return \<open>None\<close> where the C would access memory outside the block.
\<close>

section \<open>State and operations\<close>

record DynBuf =
  db_buf :: "u8 list"
  db_size :: nat
  allocated_size :: nat
  db_error :: bool
  realloc_func :: "(nat \<Rightarrow> bool) option"

definition size_add :: "nat \<Rightarrow> nat \<Rightarrow> nat" where
  "size_add a b = (a + b) mod 2 ^ 64"

definition size_mul :: "nat \<Rightarrow> nat \<Rightarrow> nat" where
  "size_mul a b = (a * b) mod 2 ^ 64"

definition dbuf_init2 :: "(nat \<Rightarrow> bool) \<Rightarrow> DynBuf" where
  "dbuf_init2 f =
     \<lparr>db_buf = [], db_size = 0, allocated_size = 0, db_error = False, realloc_func = Some f\<rparr>"

text \<open>\<open>dbuf_init\<close> falls back on the C library's \<^verbatim>\<open>realloc\<close>, the parameter \<open>libc_realloc\<close>.\<close>

definition dbuf_init :: "(nat \<Rightarrow> bool) \<Rightarrow> DynBuf" where
  "dbuf_init libc_realloc = dbuf_init2 libc_realloc"

definition dbuf_realloc :: "DynBuf \<Rightarrow> nat \<Rightarrow> (int \<times> DynBuf) option" where
  "dbuf_realloc s new_size =
     (if new_size > allocated_size s then
        if db_error s then Some (-1, s)
        else let size = size_mul (allocated_size s) 3 div 2;
                 new_size' = (if size > new_size then size else new_size)
             in case realloc_func s of
                  None \<Rightarrow> None
                | Some f \<Rightarrow>
                    if \<not> f new_size' then Some (-1, s\<lparr>db_error := True\<rparr>)
                    else Some (0, s\<lparr>db_buf := resize 0 (db_buf s) new_size',
                                    allocated_size := new_size'\<rparr>)
      else Some (0, s))"

definition dbuf_write :: "DynBuf \<Rightarrow> nat \<Rightarrow> u8 list \<Rightarrow> (int \<times> DynBuf) option" where
  "dbuf_write s offset data = (let end = size_add offset (length data) in do {
     (r, s) \<leftarrow> dbuf_realloc s end;
     if r \<noteq> 0 then Some (-1, s)
     else do {
       b \<leftarrow> memcpy (db_buf s) offset data;
       let s = s\<lparr>db_buf := b\<rparr>;
       Some (0, if end > db_size s then s\<lparr>db_size := end\<rparr> else s) } })"

definition dbuf_grow :: "DynBuf \<Rightarrow> nat \<Rightarrow> (int \<times> DynBuf) option" where
  "dbuf_grow s len =
     (if size_add (db_size s) len > allocated_size s
      then dbuf_realloc s (size_add (db_size s) len) else Some (0, s))"

definition dbuf_put :: "DynBuf \<Rightarrow> u8 list \<Rightarrow> (int \<times> DynBuf) option" where
  "dbuf_put s data = do {
     (r, s) \<leftarrow> dbuf_grow s (length data);
     if r \<noteq> 0 then Some (-1, s)
     else do {
       b \<leftarrow> memcpy (db_buf s) (db_size s) data;
       Some (0, s\<lparr>db_buf := b, db_size := size_add (db_size s) (length data)\<rparr>) } }"

definition dbuf_put_self :: "DynBuf \<Rightarrow> nat \<Rightarrow> nat \<Rightarrow> (int \<times> DynBuf) option" where
  "dbuf_put_self s offset len = do {
     (r, s) \<leftarrow> dbuf_grow s len;
     if r \<noteq> 0 then Some (-1, s)
     else do {
       data \<leftarrow> rd_n (db_buf s) offset len;
       b \<leftarrow> memcpy (db_buf s) (db_size s) data;
       Some (0, s\<lparr>db_buf := b, db_size := size_add (db_size s) len\<rparr>) } }"

definition dbuf_putc :: "DynBuf \<Rightarrow> u8 \<Rightarrow> (int \<times> DynBuf) option" where
  "dbuf_putc s c = dbuf_put s [c]"

definition dbuf_putstr :: "DynBuf \<Rightarrow> u8 list \<Rightarrow> (int \<times> DynBuf) option" where
  "dbuf_putstr s str = do { n \<leftarrow> strlen str; dbuf_put s (take n str) }"

definition dbuf_put_u16 :: "DynBuf \<Rightarrow> u16 \<Rightarrow> (int \<times> DynBuf) option" where
  "dbuf_put_u16 s val = dbuf_put s (le_bytes 2 val)"

definition dbuf_put_u32 :: "DynBuf \<Rightarrow> u32 \<Rightarrow> (int \<times> DynBuf) option" where
  "dbuf_put_u32 s val = dbuf_put s (le_bytes 4 val)"

definition dbuf_put_u64 :: "DynBuf \<Rightarrow> u64 \<Rightarrow> (int \<times> DynBuf) option" where
  "dbuf_put_u64 s val = dbuf_put s (le_bytes 8 val)"

text \<open>\<open>out\<close> is the text that \<^verbatim>\<open>vsnprintf\<close> produces for the format and its arguments. The first
  call writes it to a local array of 128 bytes; when it does not fit there, the second call writes
  it, cut to the free space and followed by a zero, behind the data.\<close>

definition dbuf_printf :: "DynBuf \<Rightarrow> u8 list \<Rightarrow> (int \<times> DynBuf) option" where
  "dbuf_printf s out = (let len = length out in
     if len < 128 then dbuf_put s out
     else do {
       (r, s) \<leftarrow> dbuf_realloc s (size_add (size_add (db_size s) len) 1);
       if r \<noteq> 0 then Some (-1, s)
       else do {
         b \<leftarrow> memcpy (db_buf s) (db_size s)
               (take (allocated_size s - db_size s - 1) out @ [0]);
         Some (0, s\<lparr>db_buf := b, db_size := size_add (db_size s) len\<rparr>) } })"

definition dbuf_free :: "DynBuf \<Rightarrow> DynBuf option" where
  "dbuf_free s =
     (if db_buf s \<noteq> [] \<and> realloc_func s = None then None
      else Some \<lparr>db_buf = [], db_size = 0, allocated_size = 0, db_error = False,
                 realloc_func = None\<rparr>)"

definition dbuf_error :: "DynBuf \<Rightarrow> bool" where
  "dbuf_error s = db_error s"

definition dbuf_set_error :: "DynBuf \<Rightarrow> DynBuf" where
  "dbuf_set_error s = s\<lparr>db_error := True\<rparr>"

text \<open>\<open>dbuf_insert\<close> opens a gap of \<open>len\<close> bytes at \<open>pos\<close> by \<^verbatim>\<open>memmove\<close>; the gap keeps the bytes
  that were there.\<close>

definition dbuf_insert :: "DynBuf \<Rightarrow> nat \<Rightarrow> nat \<Rightarrow> (int \<times> DynBuf) option" where
  "dbuf_insert s pos len = do {
     (r, s) \<leftarrow> dbuf_realloc s (size_add (db_size s) len);
     if r \<noteq> 0 then Some (-1, s)
     else do {
       data \<leftarrow> rd_n (db_buf s) pos (db_size s - pos);
       b \<leftarrow> memcpy (db_buf s) (pos + len) data;
       Some (0, s\<lparr>db_buf := b, db_size := size_add (db_size s) len\<rparr>) } }"

section \<open>Invariant and abstraction\<close>

definition dbuf_inv :: "DynBuf \<Rightarrow> bool" where
  "dbuf_inv s \<longleftrightarrow> length (db_buf s) = allocated_size s \<and> db_size s \<le> allocated_size s \<and>
     allocated_size s < 2 ^ 64 \<and> realloc_func s \<noteq> None"

definition dbuf_data :: "DynBuf \<Rightarrow> u8 list" where
  "dbuf_data s = take (db_size s) (db_buf s)"

lemma length_dbuf_data [simp]: "dbuf_inv s \<Longrightarrow> length (dbuf_data s) = db_size s"
  by (simp add: dbuf_inv_def dbuf_data_def)

lemma size_add_id [simp]: "a + b < 2 ^ 64 \<Longrightarrow> size_add a b = a + b"
  by (simp add: size_add_def)

lemma dbuf_init2_inv [simp]: "dbuf_inv (dbuf_init2 f)" "dbuf_data (dbuf_init2 f) = []"
  by (simp_all add: dbuf_inv_def dbuf_init2_def dbuf_data_def)

lemma dbuf_realloc_spec:
  assumes "dbuf_inv s" and "n < 2 ^ 64"
  obtains r s' where "dbuf_realloc s n = Some (r, s')" "dbuf_inv s'" "dbuf_data s' = dbuf_data s"
    "db_size s' = db_size s" "realloc_func s' = realloc_func s"
    "r = 0 \<and> n \<le> allocated_size s' \<and> db_error s' = db_error s \<or> r = -1 \<and> db_error s'"
proof (cases "n > allocated_size s \<and> \<not> db_error s")
  case False
  then show ?thesis
    using that assms by (cases "n > allocated_size s") (auto simp: dbuf_realloc_def)
next
  case True
  let ?m = "size_mul (allocated_size s) 3 div 2"
  let ?n = "if ?m > n then ?m else n"
  obtain f where f: "realloc_func s = Some f"
    using assms(1) by (auto simp: dbuf_inv_def)
  have n: "?n < 2 ^ 64" "n \<le> ?n" "allocated_size s \<le> ?n"
    using assms(2) True by (auto simp: size_mul_def)
  show ?thesis
  proof (cases "f ?n")
    case False
    then show ?thesis
      using that assms True f by (auto simp: dbuf_realloc_def dbuf_inv_def dbuf_data_def Let_def)
  next
    case ok: True
    let ?s = "s\<lparr>db_buf := resize 0 (db_buf s) ?n, allocated_size := ?n\<rparr>"
    have "dbuf_realloc s n = Some (0, ?s)"
      using True ok f by (simp add: dbuf_realloc_def Let_def)
    moreover have "dbuf_inv ?s" "dbuf_data ?s = dbuf_data s"
      using assms(1) n by (auto simp: dbuf_inv_def dbuf_data_def take_resize)
    ultimately show ?thesis
      using that n by auto
  qed
qed

lemma dbuf_grow_spec:
  assumes "dbuf_inv s" and "db_size s + n < 2 ^ 64"
  obtains r s' where "dbuf_grow s n = Some (r, s')" "dbuf_inv s'" "dbuf_data s' = dbuf_data s"
    "db_size s' = db_size s" "realloc_func s' = realloc_func s"
    "r = 0 \<and> db_size s + n \<le> allocated_size s' \<and> db_error s' = db_error s \<or> r = -1 \<and> db_error s'"
proof (cases "db_size s + n > allocated_size s")
  case True
  with assms show ?thesis
    using dbuf_realloc_spec [of s "db_size s + n" thesis] that
    by (simp add: dbuf_grow_def)
next
  case False
  with assms show ?thesis using that by (simp add: dbuf_grow_def)
qed

lemma dbuf_store:
  assumes "dbuf_inv s" and "db_size s + length xs \<le> allocated_size s"
  shows "\<exists>b. memcpy (db_buf s) (db_size s) xs = Some b \<and>
    dbuf_inv (s\<lparr>db_buf := b, db_size := db_size s + length xs\<rparr>) \<and>
    dbuf_data (s\<lparr>db_buf := b, db_size := db_size s + length xs\<rparr>) = dbuf_data s @ xs"
  using assms
  by (cases xs) (auto simp: dbuf_inv_def dbuf_data_def memcpy_def min_def)

lemma dbuf_put_spec:
  assumes "dbuf_inv s" and "db_size s + length xs < 2 ^ 64"
  shows "\<exists>r s'. dbuf_put s xs = Some (r, s') \<and> dbuf_inv s' \<and> realloc_func s' = realloc_func s \<and>
    (r = 0 \<and> dbuf_data s' = dbuf_data s @ xs \<and> db_error s' = db_error s \<or>
     r = -1 \<and> dbuf_data s' = dbuf_data s \<and> db_error s')"
proof -
  obtain r s1 where s1: "dbuf_grow s (length xs) = Some (r, s1)" "dbuf_inv s1"
    "dbuf_data s1 = dbuf_data s" "db_size s1 = db_size s" "realloc_func s1 = realloc_func s"
    "r = 0 \<and> db_size s + length xs \<le> allocated_size s1 \<and> db_error s1 = db_error s \<or>
     r = -1 \<and> db_error s1"
    using assms by (rule dbuf_grow_spec)
  show ?thesis
  proof (cases "r = 0")
    case True
    with s1 obtain b where "memcpy (db_buf s1) (db_size s1) xs = Some b"
      "dbuf_inv (s1\<lparr>db_buf := b, db_size := db_size s1 + length xs\<rparr>)"
      "dbuf_data (s1\<lparr>db_buf := b, db_size := db_size s1 + length xs\<rparr>) = dbuf_data s1 @ xs"
      using dbuf_store [of s1 xs] by auto
    with True s1 assms(2) show ?thesis by (simp add: dbuf_put_def)
  next
    case False
    with s1 show ?thesis by (simp add: dbuf_put_def)
  qed
qed

section \<open>What a client of an append-only buffer relies on\<close>

text \<open>
  The users of a \<open>DynBuf\<close> (the regular expression compiler, the normaliser of
  \<^verbatim>\<open>libunicode.c\<close>) append pieces without looking at the results and test the error flag
  once at the end. The interface below is what makes that sound.
\<close>

fun put_all :: "('s \<Rightarrow> u8 list \<Rightarrow> (int \<times> 's) option) \<Rightarrow> 's \<Rightarrow> u8 list list \<Rightarrow> 's option" where
  "put_all put s [] = Some s"
| "put_all put s (xs # xss) = do { (_, s) \<leftarrow> put s xs; put_all put s xss }"

locale append_buffer =
  fixes inv :: "'s \<Rightarrow> bool"
    and data :: "'s \<Rightarrow> u8 list"
    and failed :: "'s \<Rightarrow> bool"
    and put :: "'s \<Rightarrow> u8 list \<Rightarrow> (int \<times> 's) option"
  assumes put_spec: "inv s \<Longrightarrow> length (data s) + length xs < 2 ^ 64 \<Longrightarrow>
    \<exists>r s'. put s xs = Some (r, s') \<and> inv s' \<and>
      (r = 0 \<and> data s' = data s @ xs \<and> failed s' = failed s \<or>
       r = -1 \<and> data s' = data s \<and> failed s')"
begin

lemma put_all_spec:
  assumes "inv s" and "length (data s) + length (concat xss) < 2 ^ 64"
  shows "\<exists>s'. put_all put s xss = Some s' \<and> inv s' \<and> (failed s \<longrightarrow> failed s') \<and>
    (\<not> failed s' \<longrightarrow> data s' = data s @ concat xss)"
  using assms
proof (induction xss arbitrary: s)
  case Nil
  then show ?case by simp
next
  case (Cons xs xss)
  then have "length (data s) + length xs < 2 ^ 64" by simp
  with Cons.prems obtain r s1 where s1: "put s xs = Some (r, s1)" "inv s1"
    "r = 0 \<and> data s1 = data s @ xs \<and> failed s1 = failed s \<or>
     r = -1 \<and> data s1 = data s \<and> failed s1"
    using put_spec by blast
  have "length (data s1) + length (concat xss) < 2 ^ 64"
    using s1(3) Cons.prems(2) by auto
  then obtain s2 where "put_all put s1 xss = Some s2" "inv s2" "failed s1 \<longrightarrow> failed s2"
    "\<not> failed s2 \<longrightarrow> data s2 = data s1 @ concat xss"
    using Cons.IH [OF s1(2)] by auto
  with s1 show ?case by auto
qed

end

interpretation db: append_buffer dbuf_inv dbuf_data db_error dbuf_put
  using dbuf_put_spec by unfold_locales fastforce

text \<open>An allocator that always succeeds never sets the error flag.\<close>

definition granted :: "DynBuf \<Rightarrow> bool" where
  "granted s \<longleftrightarrow> realloc_func s = Some (\<lambda>_. True) \<and> \<not> db_error s"

lemma dbuf_realloc_granted: "granted s \<Longrightarrow> dbuf_realloc s n = Some (r, s') \<Longrightarrow> r = 0 \<and> granted s'"
  by (auto simp: granted_def dbuf_realloc_def Let_def split: if_splits)

lemma dbuf_put_granted: "granted s \<Longrightarrow> dbuf_put s xs = Some (r, s') \<Longrightarrow> granted s'"
proof -
  assume s: "granted s" and p: "dbuf_put s xs = Some (r, s')"
  then obtain r1 s1 where "dbuf_grow s (length xs) = Some (r1, s1)" by (auto simp: dbuf_put_def split: bind_splits)
  moreover from this have "r1 = 0 \<and> granted s1"
    using s dbuf_realloc_granted [OF s] by (auto simp: dbuf_grow_def split: if_splits)
  ultimately show "granted s'" using p by (auto simp: dbuf_put_def granted_def split: bind_splits)
qed

lemma put_all_granted: "granted s \<Longrightarrow> put_all dbuf_put s xss = Some s' \<Longrightarrow> granted s'"
  by (induction dbuf_put s xss rule: put_all.induct) (auto dest: dbuf_put_granted split: bind_splits)

section \<open>Properties\<close>

text \<open>C39: appending never leaves the block and keeps the invariant; it either appends exactly the
  given bytes and leaves the error flag alone, or leaves the contents alone and sets the flag.\<close>

theorem dbuf_put_correct:
  assumes "dbuf_inv s" and "db_size s + length xs < 2 ^ 64"
  shows "\<exists>r s'. dbuf_put s xs = Some (r, s') \<and> dbuf_inv s' \<and>
    (r = 0 \<and> dbuf_data s' = dbuf_data s @ xs \<and> db_error s' = db_error s \<or>
     r = -1 \<and> dbuf_data s' = dbuf_data s \<and> db_error s')"
  using dbuf_put_spec [OF assms] by blast

theorem dbuf_put_correct_witness:
  "\<exists>r s'. dbuf_put (dbuf_init2 (\<lambda>n. n \<le> 10)) [1, 2] = Some (r, s') \<and> dbuf_inv s' \<and>
    (r = 0 \<and> dbuf_data s' = [1, 2] \<or> r = -1 \<and> db_error s')"
  using dbuf_put_correct [of "dbuf_init2 (\<lambda>n. n \<le> 10)" "[1, 2]"]
  by (auto simp: dbuf_init2_def dbuf_inv_def dbuf_data_def)

text \<open>C40: a client may append any number of pieces without testing the results: if the error flag is
  not set afterwards, the buffer holds all the pieces in order; a refused allocation is never lost,
  however many appends follow it.\<close>

theorem dbuf_put_all_or_error:
  assumes "dbuf_inv s" and "db_size s + length (concat xss) < 2 ^ 64"
  shows "\<exists>s'. put_all dbuf_put s xss = Some s' \<and> dbuf_inv s' \<and>
    (db_error s \<longrightarrow> dbuf_error s') \<and> (\<not> dbuf_error s' \<longrightarrow> dbuf_data s' = dbuf_data s @ concat xss)"
  using db.put_all_spec [of s xss] assms by (simp add: dbuf_error_def)

theorem dbuf_put_all_or_error_witness:
  "\<exists>s'. put_all dbuf_put (dbuf_init2 (\<lambda>_. True)) [[1], [2, 3]] = Some s' \<and> dbuf_inv s' \<and>
    (\<not> dbuf_error s' \<longrightarrow> dbuf_data s' = [1, 2, 3])"
  using dbuf_put_all_or_error [of "dbuf_init2 (\<lambda>_. True)" "[[1], [2, 3]]"]
  by (auto simp: dbuf_init2_def dbuf_inv_def dbuf_data_def)

end
