(* ===== verification/Utf8.thy ===== *)
theory Utf8
  imports Cutils
begin

text \<open>
  The UTF-8 encoder and decoder of \<^verbatim>\<open>src/qjs/cutils.c\<close>. \<open>unicode_to_utf8 c\<close> is the list of bytes
  written, whose length is the value returned. \<open>unicode_from_utf8 m p max_len\<close> decodes at offset
  \<open>p\<close> of the block \<open>m\<close>: it returns the code point and the new offset, or \<open>(-1, p)\<close> on malformed
  input, and is \<open>None\<close> where the C reads outside the block.
\<close>

section \<open>Encoder and decoder\<close>

definition utf8_cont_byte :: "nat \<Rightarrow> u32 \<Rightarrow> u8" where
  "utf8_cont_byte n c = ucast ((drop_bit n c AND 0x3f) OR 0x80)"

definition unicode_to_utf8 :: "u32 \<Rightarrow> u8 list" where
  "unicode_to_utf8 c =
     (if c < 0x80 then [ucast c]
      else if c < 0x800 then [ucast (drop_bit 6 c OR 0xc0), utf8_cont_byte 0 c]
      else if c < 0x10000 then
        [ucast (drop_bit 12 c OR 0xe0), utf8_cont_byte 6 c, utf8_cont_byte 0 c]
      else if c < 0x00200000 then
        [ucast (drop_bit 18 c OR 0xf0), utf8_cont_byte 12 c, utf8_cont_byte 6 c,
         utf8_cont_byte 0 c]
      else if c < 0x04000000 then
        [ucast (drop_bit 24 c OR 0xf8), utf8_cont_byte 18 c, utf8_cont_byte 12 c,
         utf8_cont_byte 6 c, utf8_cont_byte 0 c]
      else if c < 0x80000000 then
        [ucast (drop_bit 30 c OR 0xfc), utf8_cont_byte 24 c, utf8_cont_byte 18 c,
         utf8_cont_byte 12 c, utf8_cont_byte 6 c, utf8_cont_byte 0 c]
      else [])"

definition utf8_min_code :: "u32 list" where
  "utf8_min_code = [0x80, 0x800, 0x10000, 0x00200000, 0x04000000]"

definition utf8_first_code_mask :: "u32 list" where
  "utf8_first_code_mask = [0x1f, 0xf, 0x7, 0x3, 0x1]"

text \<open>The \<^verbatim>\<open>switch\<close> on the first byte: the number of continuation bytes, or none for a byte that
  starts no sequence.\<close>

definition utf8_tail_len :: "u8 \<Rightarrow> nat option" where
  "utf8_tail_len c =
     (if 0xc0 \<le> c \<and> c \<le> 0xdf then Some 1
      else if 0xe0 \<le> c \<and> c \<le> 0xef then Some 2
      else if 0xf0 \<le> c \<and> c \<le> 0xf7 then Some 3
      else if 0xf8 \<le> c \<and> c \<le> 0xfb then Some 4
      else if 0xfc \<le> c \<and> c \<le> 0xfd then Some 5
      else None)"

fun utf8_tail :: "u8 list \<Rightarrow> nat \<Rightarrow> nat \<Rightarrow> u32 \<Rightarrow> u32 option option" where
  "utf8_tail m p 0 c = Some (Some c)"
| "utf8_tail m p (Suc l) c = do {
     b \<leftarrow> rd m p;
     if b < 0x80 \<or> b \<ge> 0xc0 then Some None
     else utf8_tail m (p + 1) l (push_bit 6 c OR (ucast b AND 0x3f)) }"

definition unicode_from_utf8 :: "u8 list \<Rightarrow> nat \<Rightarrow> int \<Rightarrow> (int \<times> nat) option" where
  "unicode_from_utf8 m p max_len = do {
     c \<leftarrow> rd m p;
     if c < 0x80 then Some (uint c, p + 1)
     else case utf8_tail_len c of
       None \<Rightarrow> Some (-1, p)
     | Some l \<Rightarrow>
         if int l > max_len - 1 then Some (-1, p)
         else do {
           r \<leftarrow> utf8_tail m (p + 1) l (ucast c AND utf8_first_code_mask ! (l - 1));
           case r of
             None \<Rightarrow> Some (-1, p)
           | Some c' \<Rightarrow>
               if c' < utf8_min_code ! (l - 1) then Some (-1, p)
               else Some (sint c', p + 1 + l) } }"

section \<open>Bits of the bytes\<close>

lemma mask_numerals:
  "(0x3f :: u32) = mask 6" "(0x1f :: u32) = mask 5" "(0xf :: u32) = mask 4" "(0x7 :: u32) = mask 3"
  "(0x3 :: u32) = mask 2" "(0x1 :: u32) = mask 1"
  by (simp_all add: mask_eq_exp_minus_1)

lemma lead_numerals:
  "(0xc0 :: u32) = push_bit 5 6" "(0xe0 :: u32) = push_bit 4 14" "(0xf0 :: u32) = push_bit 3 30"
  "(0xf8 :: u32) = push_bit 2 62" "(0xfc :: u32) = push_bit 1 126" "(0x80 :: u32) = push_bit 7 1"
  by simp_all

lemma bit_0x80: "bit (0x80 :: 'a::len word) k \<longleftrightarrow> k = 7 \<and> k < LENGTH('a)"
  using bit_exp_iff [of 7 k, where 'a = "'a word"] by auto

lemma bit_0x80_int: "bit (0x80 :: int) k \<longleftrightarrow> k = 7"
  using bit_exp_iff [of 7 k, where 'a = int] by auto

lemma unat_mask_less: "unat (x AND mask n :: 'a::len word) < 2 ^ n"
  by (simp only: unsigned_take_bit_eq take_bit_nat_less_exp flip: take_bit_eq_mask)

lemma take_bit_unat_less: "unat (x :: 'a::len word) < 2 ^ j \<Longrightarrow> take_bit j x = x"
  by (rule unsigned_word_eqI [where 'a = nat]) (simp add: unsigned_take_bit_eq take_bit_nat_eq_self)

lemma utf8_step:
  "push_bit 6 (drop_bit (n + 6) c) OR (ucast (utf8_cont_byte n c) AND mask 6) = (drop_bit n c :: u32)"
proof (rule bit_word_eqI)
  fix k assume "k < LENGTH(32)"
  then show "bit (push_bit 6 (drop_bit (n + 6) c) OR (ucast (utf8_cont_byte n c) AND mask 6)) k =
    bit (drop_bit n c) k"
    unfolding utf8_cont_byte_def mask_numerals
    by (cases "k < 6") (auto simp: bit_simps bit_0x80 bit_0x80_int ac_simps)
qed

lemma ucast_byte_mask:
  assumes "j \<le> 8"
  shows "ucast (ucast (x OR push_bit j l :: u32) :: u8) AND mask j = x AND (mask j :: u32)"
proof (rule bit_word_eqI)
  fix k assume "k < LENGTH(32)"
  then show "bit (ucast (ucast (x OR push_bit j l :: u32) :: u8) AND mask j :: u32) k =
    bit (x AND mask j) k"
    using assms by (auto simp: bit_simps)
qed

lemma drop_bit_mask:
  assumes "unat c < 2 ^ (n + j)"
  shows "drop_bit n c AND mask j = (drop_bit n c :: u32)"
proof -
  have "unat c div 2 ^ n < 2 ^ j"
    using assms by (simp add: less_mult_imp_div_less power_add mult.commute)
  then have "unat (drop_bit n c) < 2 ^ j" by (simp only: unat_drop_bit_eq) (simp only: drop_bit_eq_div)
  then show ?thesis by (simp only: take_bit_unat_less flip: take_bit_eq_mask)
qed

lemma utf8_lead_mask:
  assumes "j \<le> 8" and "unat c < 2 ^ (n + j)"
  shows "ucast (ucast (drop_bit n c OR push_bit j l :: u32) :: u8) AND mask j = (drop_bit n c :: u32)"
  using ucast_byte_mask [OF assms(1), of "drop_bit n c" l] drop_bit_mask [OF assms(2)] by simp

lemma or_push_bit_add:
  assumes "unat x < 2 ^ j"
  shows "x OR push_bit j l = x + push_bit j (l :: u32)"
proof (rule disjunctive_add_eq_or [symmetric], rule bit_word_eqI)
  fix k assume "k < LENGTH(32)"
  have "\<not> bit x k" if "j \<le> k"
    using take_bit_unat_less [OF assms] that by (metis bit_take_bit_iff not_le)
  then show "bit (x AND push_bit j l) k = bit 0 k" by (auto simp: bit_simps)
qed

lemma unat_or_lead:
  assumes "unat x < 2 ^ j" and "2 ^ j + unat (push_bit j l :: u32) \<le> 256"
  shows "unat (ucast (x OR push_bit j l :: u32) :: u8) = unat x + unat (push_bit j l :: u32)"
proof -
  have "unat (x + push_bit j l) = unat x + unat (push_bit j l :: u32)"
    using assms by (simp add: unat_word_ariths)
  then show ?thesis
    using assms by (simp only: or_push_bit_add) (simp add: unsigned_ucast_eq take_bit_eq_mod)
qed

lemma unat_cont_byte: "unat (utf8_cont_byte n c) = 0x80 + unat (drop_bit n c AND mask 6)"
proof -
  have "unat (drop_bit n c AND mask 6) < 64"
    using unat_mask_less [of _ 6] by simp
  then show ?thesis
    unfolding utf8_cont_byte_def mask_numerals lead_numerals
    using unat_or_lead [of "drop_bit n c AND mask 6" 7 1] by simp
qed

lemma cont_byte_range: "0x80 \<le> utf8_cont_byte n c" "utf8_cont_byte n c < 0xc0"
proof -
  have "unat (drop_bit n c AND mask 6) < 64"
    using unat_mask_less [of _ 6] by simp
  then show "0x80 \<le> utf8_cont_byte n c" "utf8_cont_byte n c < 0xc0"
    by (simp_all add: word_le_nat_alt word_less_nat_alt unat_cont_byte)
qed

section \<open>Decoding what was encoded\<close>

lemma utf8_tail_encoded:
  assumes "\<And>i. i < l \<Longrightarrow> p + i < length m \<and> m ! (p + i) = utf8_cont_byte (6 * (l - 1 - i)) c"
  shows "utf8_tail m p l (drop_bit (6 * l) c) = Some (Some c)"
  using assms
proof (induction l arbitrary: p)
  case 0
  then show ?case by simp
next
  case (Suc l)
  have b: "rd m p = Some (utf8_cont_byte (6 * l) c)"
    using Suc.prems [of 0] by (simp add: rd_def)
  have "utf8_tail m (p + 1) l (drop_bit (6 * l) c) = Some (Some c)"
  proof (rule Suc.IH)
    fix i assume "i < l"
    then show "p + 1 + i < length m \<and> m ! (p + 1 + i) = utf8_cont_byte (6 * (l - 1 - i)) c"
      using Suc.prems [of "Suc i"] by simp
  qed
  then show ?case
    using b cont_byte_range [of "6 * l" c] utf8_step [of "6 * l" c]
    by (simp add: mask_numerals add.commute not_less not_le)
qed

lemma sint_eq_uint_small: "c < 0x80000000 \<Longrightarrow> sint (c :: u32) = uint c"
  by (simp add: sint_uint signed_take_bit_int_eq_self_iff word_less_def)
    (rule order_trans [OF _ uint_nonnegative], simp)

lemma unicode_from_utf8_encoded:
  assumes "rd m p = Some b" and "\<not> b < 0x80" and "utf8_tail_len b = Some l"
    and "ucast b AND utf8_first_code_mask ! (l - 1) = drop_bit (6 * l) c"
    and "\<And>i. i < l \<Longrightarrow> p + 1 + i < length m \<and> m ! (p + 1 + i) = utf8_cont_byte (6 * (l - 1 - i)) c"
    and "\<not> c < utf8_min_code ! (l - 1)" and "c < 0x80000000" and "int l < max_len"
  shows "unicode_from_utf8 m p max_len = Some (uint c, p + 1 + l)"
proof -
  have "utf8_tail m (p + 1) l (drop_bit (6 * l) c) = Some (Some c)"
    using assms(5) by (rule utf8_tail_encoded)
  then show ?thesis
    using assms by (simp add: unicode_from_utf8_def sint_eq_uint_small)
qed

text \<open>The first byte of an encoded sequence: \<open>l\<close> continuation bytes, \<open>j\<close> payload bits.\<close>

definition utf8_forms :: "(nat \<times> nat \<times> u32) set" where
  "utf8_forms = {(1, 5, 6), (2, 4, 14), (3, 3, 30), (4, 2, 62), (5, 1, 126)}"

lemma utf8_lead_byte:
  assumes "(l, j, k) \<in> utf8_forms"
    and "unat c < 2 ^ (6 * l + j)"
  defines "b \<equiv> ucast (drop_bit (6 * l) c OR push_bit j k :: u32) :: u8"
  shows "\<not> b < 0x80" and "utf8_tail_len b = Some l"
    and "ucast b AND utf8_first_code_mask ! (l - 1) = drop_bit (6 * l) c"
proof -
  have small: "unat (drop_bit (6 * l) c) < 2 ^ j"
    using assms(2) by (simp only: unat_drop_bit_eq)
      (simp add: drop_bit_eq_div less_mult_imp_div_less power_add mult.commute)
  have j: "2 ^ j + unat (push_bit j k :: u32) \<le> 256" "j \<le> 8"
    using assms(1) by (auto simp: utf8_forms_def)
  have ub: "unat b = unat (drop_bit (6 * l) c) + unat (push_bit j k :: u32)"
    unfolding b_def using small j(1) by (rule unat_or_lead)
  from assms(1) consider "l = 1" "j = 5" "k = 6" | "l = 2" "j = 4" "k = 14" | "l = 3" "j = 3" "k = 30"
    | "l = 4" "j = 2" "k = 62" | "l = 5" "j = 1" "k = 126"
    by (auto simp: utf8_forms_def)
  then have "\<not> b < 0x80 \<and> utf8_tail_len b = Some l"
    by cases (use small ub in \<open>simp_all add: word_less_nat_alt word_le_nat_alt utf8_tail_len_def\<close>)
  then show "\<not> b < 0x80" "utf8_tail_len b = Some l" by simp_all
  have "utf8_first_code_mask ! (l - 1) = mask j"
    using assms(1) by (auto simp: utf8_first_code_mask_def utf8_forms_def mask_numerals [symmetric])
  then show "ucast b AND utf8_first_code_mask ! (l - 1) = drop_bit (6 * l) c"
    unfolding b_def using utf8_lead_mask [OF j(2) assms(2)] by simp
qed

lemma utf8_shape:
  assumes "\<not> c < 0x80" and "c < 0x80000000"
  obtains l j k where "(l, j, k) \<in> utf8_forms" "unat c < 2 ^ (6 * l + j)"
    "\<not> c < utf8_min_code ! (l - 1)"
    "unicode_to_utf8 c = ucast (drop_bit (6 * l) c OR push_bit j k) #
       map (\<lambda>i. utf8_cont_byte (6 * (l - 1 - i)) c) [0..<l]"
proof -
  consider "c < 0x800" | "\<not> c < 0x800" "c < 0x10000" | "\<not> c < 0x10000" "c < 0x00200000"
    | "\<not> c < 0x00200000" "c < 0x04000000" | "\<not> c < 0x04000000"
    by blast
  then show ?thesis
  proof cases
    case 1
    show ?thesis
      by (rule that [of 1 5 6])
        (use assms 1 in \<open>simp_all add: utf8_forms_def utf8_min_code_def unicode_to_utf8_def upt_rec word_less_nat_alt\<close>)
  next
    case 2
    show ?thesis
      by (rule that [of 2 4 14])
        (use assms 2 in \<open>simp_all add: utf8_forms_def utf8_min_code_def unicode_to_utf8_def upt_rec word_less_nat_alt\<close>)
  next
    case 3
    show ?thesis
      by (rule that [of 3 3 30])
        (use assms 3 in \<open>simp_all add: utf8_forms_def utf8_min_code_def unicode_to_utf8_def upt_rec word_less_nat_alt\<close>)
  next
    case 4
    show ?thesis
      by (rule that [of 4 2 62])
        (use assms 4 in \<open>simp_all add: utf8_forms_def utf8_min_code_def unicode_to_utf8_def upt_rec word_less_nat_alt\<close>)
  next
    case 5
    show ?thesis
      by (rule that [of 5 1 126])
        (use assms 5 in \<open>simp_all add: utf8_forms_def utf8_min_code_def unicode_to_utf8_def upt_rec word_less_nat_alt\<close>)
  qed
qed

lemma unicode_from_utf8_append:
  assumes "c < 0x80000000" and "int (length (unicode_to_utf8 c)) \<le> max_len"
  shows "unicode_from_utf8 (pre @ unicode_to_utf8 c @ post) (length pre) max_len =
    Some (uint c, length pre + length (unicode_to_utf8 c))"
proof (cases "c < 0x80")
  case True
  then have u: "uint c < 0x80" by (simp add: word_less_def)
  then have "uint (ucast c :: u8) = uint c" by (simp add: unsigned_ucast_eq take_bit_eq_mod)
  moreover from this u have "(ucast c :: u8) < 0x80" by (simp add: word_less_def)
  ultimately show ?thesis
    using True by (simp add: unicode_from_utf8_def unicode_to_utf8_def rd_def)
next
  case False
  then obtain l j k where f: "(l, j, k) \<in> utf8_forms" "unat c < 2 ^ (6 * l + j)"
    "\<not> c < utf8_min_code ! (l - 1)" and
    enc: "unicode_to_utf8 c = ucast (drop_bit (6 * l) c OR push_bit j k) #
       map (\<lambda>i. utf8_cont_byte (6 * (l - 1 - i)) c) [0..<l]"
    using assms(1) by (rule utf8_shape)
  have "unicode_from_utf8 (pre @ unicode_to_utf8 c @ post) (length pre) max_len =
    Some (uint c, length pre + 1 + l)"
    by (rule unicode_from_utf8_encoded [OF _ utf8_lead_byte [OF f(1,2)] _ f(3) assms(1)])
      (use assms(2) in \<open>simp_all add: enc rd_def nth_append\<close>)
  then show ?thesis by (simp add: enc)
qed

section \<open>Only encodings are decoded\<close>

lemma unat_less_iff_take_bit: "unat (x :: 'a::len word) < 2 ^ j \<longleftrightarrow> take_bit j x = x"
  by (metis take_bit_eq_mask take_bit_unat_less unat_mask_less)

lemma mod_add_block: "q * d \<le> n \<Longrightarrow> n < q * d + d \<Longrightarrow> n mod d + q * d = (n :: nat)"
  using div_nat_eqI [of d q n] div_mult_mod_eq [of n d] by (simp add: algebra_simps)

lemma cont_byte_id:
  assumes "\<not> (b < 0x80 \<or> b \<ge> (0xc0 :: u8))"
  shows "ucast ((ucast b AND mask 6 :: u32) OR 0x80) = b"
proof -
  have u: "unat (ucast b AND mask 6 :: u32) = unat b mod 64"
    using unsigned_less [of b, where 'a = nat]
    by (simp only: unsigned_take_bit_eq unsigned_ucast_eq flip: take_bit_eq_mask)
      (simp add: take_bit_eq_mod)
  have "unat (ucast ((ucast b AND mask 6 :: u32) OR push_bit 7 1) :: u8) = unat b mod 64 + 128"
    by (subst unat_or_lead) (simp_all add: u)
  moreover have "unat b mod 64 + 128 = unat b"
    using assms mod_add_block [of 2 64 "unat b"] by (simp add: word_less_nat_alt word_le_nat_alt)
  ultimately show ?thesis by (simp add: word_unat_eq_iff)
qed

lemma utf8_step_inv:
  fixes c x :: u32
  assumes "unat c < 2 ^ j" and "j + 6 \<le> 32"
  defines "c1 \<equiv> push_bit 6 c OR (x AND mask 6)"
  shows "unat c1 < 2 ^ (j + 6)" and "drop_bit 6 c1 = c" and "c1 AND mask 6 = x AND mask 6"
proof -
  have hi: "\<not> bit c n" if "j \<le> n" for n
    using assms(1) that by (metis unat_less_iff_take_bit bit_take_bit_iff not_le)
  have "take_bit (j + 6) c1 = c1"
    using hi by (auto intro!: bit_word_eqI simp: c1_def bit_simps)
  then show "unat c1 < 2 ^ (j + 6)" by (simp add: unat_less_iff_take_bit)
  show "drop_bit 6 c1 = c"
    using hi assms(2) by (auto intro!: bit_word_eqI simp: c1_def bit_simps)
      (meson le_trans not_le add_le_cancel_right)
  show "c1 AND mask 6 = x AND mask 6"
    by (auto intro!: bit_word_eqI simp: c1_def bit_simps)
qed

lemma utf8_tail_decoded:
  assumes "utf8_tail m p l c = Some (Some c')" and "unat c < 2 ^ j" and "j + 6 * l \<le> 32"
  shows "drop_bit (6 * l) c' = c \<and>
    (\<forall>i<l. p + i < length m \<and> m ! (p + i) = utf8_cont_byte (6 * (l - 1 - i)) c')"
  using assms
proof (induction l arbitrary: p c j)
  case 0
  then show ?case by simp
next
  case (Suc l)
  from Suc.prems(1) obtain b where b: "p < length m" "b = m ! p" "\<not> (b < 0x80 \<or> b \<ge> 0xc0)"
    and tail: "utf8_tail m (p + 1) l (push_bit 6 c OR (ucast b AND mask 6)) = Some (Some c')"
    by (auto simp: bind_eq_Some_conv mem_simps mask_numerals split: if_splits)
  let ?c1 = "push_bit 6 c OR (ucast b AND mask 6) :: u32"
  have c1: "unat ?c1 < 2 ^ (j + 6)" "drop_bit 6 ?c1 = c" "?c1 AND mask 6 = ucast b AND mask 6"
    using utf8_step_inv [OF Suc.prems(2), of "ucast b"] Suc.prems(3) by auto
  have IH: "drop_bit (6 * l) c' = ?c1"
    "\<forall>i<l. p + 1 + i < length m \<and> m ! (p + 1 + i) = utf8_cont_byte (6 * (l - 1 - i)) c'"
    using Suc.IH [OF tail c1(1)] Suc.prems(3) by auto
  have "drop_bit (6 * Suc l) c' = c"
    using c1(2) IH(1) by (metis drop_bit_drop_bit mult_Suc_right)
  moreover have "utf8_cont_byte (6 * l) c' = m ! p"
    unfolding utf8_cont_byte_def IH(1) mask_numerals c1(3)
    using cont_byte_id [OF b(3)] b(2) by simp
  ultimately show ?case
    using b(1) IH(2) by (auto simp: less_Suc_eq_0_disj)
qed

lemma utf8_shape_conv:
  assumes "(l, j, k) \<in> utf8_forms" and "unat c < 2 ^ (6 * l + j)" and "\<not> c < utf8_min_code ! (l - 1)"
  shows "unicode_to_utf8 c = ucast (drop_bit (6 * l) c OR push_bit j k) #
       map (\<lambda>i. utf8_cont_byte (6 * (l - 1 - i)) c) [0..<l]" and "c < 0x80000000"
  using assms
  by (auto simp: utf8_forms_def utf8_min_code_def unicode_to_utf8_def upt_rec word_less_nat_alt)

lemma lead_byte_id:
  assumes "(l, j, k) \<in> utf8_forms" and "utf8_tail_len b = Some l"
  shows "ucast ((ucast b AND mask j :: u32) OR push_bit j k) = b"
proof -
  have u: "unat (ucast b AND mask j :: u32) = unat b mod 2 ^ j"
    using unsigned_less [of b, where 'a = nat]
    by (simp only: unsigned_take_bit_eq unsigned_ucast_eq flip: take_bit_eq_mask)
      (simp add: take_bit_eq_mod)
  have "2 ^ j + unat (push_bit j k :: u32) \<le> 256"
    using assms(1) by (auto simp: utf8_forms_def)
  then have "unat (ucast ((ucast b AND mask j :: u32) OR push_bit j k) :: u8) =
    unat b mod 2 ^ j + unat (push_bit j k :: u32)"
    by (subst unat_or_lead) (simp_all only: u, simp)
  moreover have "unat b mod 2 ^ j + unat (push_bit j k :: u32) = unat b"
    using assms mod_add_block [of 6 32 "unat b"] mod_add_block [of 14 16 "unat b"]
      mod_add_block [of 30 8 "unat b"] mod_add_block [of 62 4 "unat b"] mod_add_block [of 126 2 "unat b"]
    by (auto simp: utf8_forms_def utf8_tail_len_def word_le_nat_alt split: if_splits)
  ultimately show ?thesis by (simp add: word_unat_eq_iff)
qed

lemma utf8_tail_len_forms: "utf8_tail_len b = Some l \<Longrightarrow> \<exists>j k. (l, j, k) \<in> utf8_forms"
  by (auto simp: utf8_tail_len_def utf8_forms_def split: if_splits)

lemma unicode_from_utf8_elim:
  assumes "unicode_from_utf8 m p max_len = Some (r, p')"
  obtains (fail) "r = -1" "p' = p"
  | (ascii) "p < length m" "m ! p < 0x80" "r = uint (m ! p)" "p' = p + 1"
  | (multi) l c where "p < length m" "utf8_tail_len (m ! p) = Some l"
      "utf8_tail m (p + 1) l (ucast (m ! p) AND utf8_first_code_mask ! (l - 1)) = Some (Some c)"
      "\<not> c < utf8_min_code ! (l - 1)" "r = sint c" "p' = p + 1 + l"
proof (cases "p < length m \<and> \<not> m ! p < 0x80 \<and> utf8_tail_len (m ! p) \<noteq> None")
  case True
  then obtain l where l: "utf8_tail_len (m ! p) = Some l" by auto
  let ?t = "utf8_tail m (p + 1) l (ucast (m ! p) AND utf8_first_code_mask ! (l - 1))"
  have u: "unicode_from_utf8 m p max_len =
    (if int l > max_len - 1 then Some (-1, p)
     else Option.bind ?t (\<lambda>r. case r of None \<Rightarrow> Some (-1, p)
       | Some c' \<Rightarrow> if c' < utf8_min_code ! (l - 1) then Some (-1, p) else Some (sint c', p + 1 + l)))"
    using True l by (simp only: unicode_from_utf8_def rd_def) simp
  show ?thesis
  proof (cases "int l > max_len - 1 \<or> ?t = Some None \<or>
      (\<exists>c. ?t = Some (Some c) \<and> c < utf8_min_code ! (l - 1))")
    case True
    with u assms show ?thesis by (intro that(1)) (auto split: if_splits)
  next
    case False
    with u assms obtain c where c: "?t = Some (Some c)" by (cases ?t) (auto split: option.splits)
    have "r = sint c" "p' = p + 1 + l"
      using False c u assms by (simp_all split: if_splits)
    with that(3) [OF _ l c] True False c show ?thesis by blast
  qed
next
  case False
  with assms show ?thesis
    using that(1,2) by (auto simp: unicode_from_utf8_def rd_def split: if_splits)
qed

lemma unicode_from_utf8_canonical:
  assumes "unicode_from_utf8 m p max_len = Some (r, p')" and "\<not> (r = -1 \<and> p' = p)"
  shows "\<exists>c. r = uint c \<and> c < 0x80000000 \<and> p' = p + length (unicode_to_utf8 c) \<and>
    take (length (unicode_to_utf8 c)) (drop p m) = unicode_to_utf8 c"
  using assms(1)
proof (cases rule: unicode_from_utf8_elim)
  case fail
  with assms(2) show ?thesis by simp
next
  case ascii
  let ?b = "m ! p"
  have u: "uint ?b < 0x80" using ascii(2) by (simp add: word_less_def)
  then have uc: "uint (ucast ?b :: u32) = uint ?b" by (simp add: unsigned_ucast_eq take_bit_eq_mod)
  then have lt: "(ucast ?b :: u32) < 0x80" using u by (simp add: word_less_def)
  then have enc: "unicode_to_utf8 (ucast ?b) = [?b]"
    by (auto simp: unicode_to_utf8_def bit_simps intro!: bit_word_eqI)
  have "(ucast ?b :: u32) < 0x80000000" using lt by (simp add: word_less_def)
  moreover have "take 1 (drop p m) = [?b]"
    using ascii(1) by (simp flip: Cons_nth_drop_Suc)
  ultimately show ?thesis
    using ascii by (intro exI [of _ "ucast ?b"] conjI) (simp_all only: enc uc list.size One_nat_def add_0)
next
  case (multi l c)
  note l = multi(2) and tail = multi(3) and c = multi(4,5,6)
  let ?b = "m ! p"
  obtain j k where f: "(l, j, k) \<in> utf8_forms" using utf8_tail_len_forms [OF l] by blast
  have mask: "utf8_first_code_mask ! (l - 1) = mask j"
    using f by (auto simp: utf8_first_code_mask_def utf8_forms_def mask_numerals [symmetric])
  have jl: "j + 6 * l \<le> 32" using f by (auto simp: utf8_forms_def)
  have dec: "drop_bit (6 * l) c = ucast ?b AND mask j"
    "\<forall>i<l. p + 1 + i < length m \<and> m ! (p + 1 + i) = utf8_cont_byte (6 * (l - 1 - i)) c"
    using utf8_tail_decoded [OF tail [unfolded mask] unat_mask_less jl] by auto
  have "unat (drop_bit (6 * l) c) < 2 ^ j" unfolding dec(1) by (rule unat_mask_less)
  then have "unat c < 2 ^ (6 * l + j)"
    by (simp only: unat_drop_bit_eq) (simp add: drop_bit_eq_div power_add div_less_iff_less_mult mult.commute)
  note shape = utf8_shape_conv [OF f this c(1)]
  have "unicode_to_utf8 c = ?b # map (\<lambda>i. m ! (p + 1 + i)) [0..<l]"
    unfolding shape(1) dec(1) using lead_byte_id [OF f l] dec(2) by simp
  moreover have "take (Suc l) (drop p m) = ?b # map (\<lambda>i. m ! (p + 1 + i)) [0..<l]"
  proof (rule nth_equalityI)
    show "length (take (Suc l) (drop p m)) = length (?b # map (\<lambda>i. m ! (p + 1 + i)) [0..<l])"
      using dec(2) multi(1) by (cases l) auto
  qed (use multi(1) dec(2) in \<open>auto simp: nth_Cons split: nat.splits\<close>)
  ultimately show ?thesis
    using c shape(2) by (intro exI [of _ c]) (simp add: sint_eq_uint_small)
qed

section \<open>Memory safety\<close>

lemma utf8_tail_safe:
  assumes "p < length m" and "last m = 0"
  shows "\<exists>r. utf8_tail m p l c = Some r \<and> (r \<noteq> None \<longrightarrow> p + l < length m)"
  using assms
proof (induction l arbitrary: p c)
  case 0
  then show ?case by simp
next
  case (Suc l)
  show ?case
  proof (cases "p + 1 < length m")
    case True
    then show ?thesis
      using Suc.IH [of "p + 1" "push_bit 6 c OR (ucast (m ! p) AND 0x3f)"] Suc.prems
      by (auto simp: rd_def)
  next
    case False
    then have "p = length m - 1" using Suc.prems(1) by simp
    then have "m ! p = 0" using Suc.prems by (metis last_conv_nth length_0_conv less_nat_zero_code)
    then show ?thesis using Suc.prems by (simp add: rd_def)
  qed
qed

lemma unicode_from_utf8_total:
  assumes "p < length m" and "last m = 0"
  shows "\<exists>r p'. unicode_from_utf8 m p max_len = Some (r, p') \<and> p' \<le> length m"
proof (cases "m ! p < 0x80 \<or> utf8_tail_len (m ! p) = None")
  case True
  then show ?thesis using assms(1) by (auto simp: unicode_from_utf8_def rd_def)
next
  case False
  then obtain l where l: "utf8_tail_len (m ! p) = Some l" "\<not> m ! p < 0x80" by auto
  then have "m ! p \<noteq> 0" by auto
  then have "p \<noteq> length m - 1" using assms by (metis last_conv_nth length_0_conv less_nat_zero_code)
  then have "p + 1 < length m" using assms(1) by linarith
  then obtain r where r: "utf8_tail m (p + 1) l (ucast (m ! p) AND utf8_first_code_mask ! (l - 1)) = Some r"
    "r \<noteq> None \<longrightarrow> p + 1 + l < length m"
    using utf8_tail_safe assms(2) by blast
  then show ?thesis
    using l assms(1) by (cases r) (auto simp: unicode_from_utf8_def rd_def)
qed

section \<open>Properties\<close>

text \<open>C33: decoding the encoding of any code point below \<open>2 ^ 31\<close>, wherever it stands in memory,
  gives the code point back and moves the pointer just behind its bytes; at most six bytes are
  written.\<close>

theorem utf8_encode_decode:
  assumes "c < 0x80000000" and "6 \<le> max_len"
  shows "unicode_from_utf8 (pre @ unicode_to_utf8 c @ post) (length pre) max_len =
      Some (uint c, length pre + length (unicode_to_utf8 c)) \<and>
    1 \<le> length (unicode_to_utf8 c) \<and> length (unicode_to_utf8 c) \<le> 6"
proof -
  have "1 \<le> length (unicode_to_utf8 c) \<and> length (unicode_to_utf8 c) \<le> 6"
    using assms(1) by (simp add: unicode_to_utf8_def)
  with unicode_from_utf8_append [OF assms(1)] assms(2) show ?thesis by force
qed

theorem utf8_encode_decode_witness:
  "unicode_from_utf8 [0x41, 0xe2, 0x82, 0xac, 0] 1 6 = Some (0x20ac, 4)"
  using utf8_encode_decode [of "0x20ac" 6 "[0x41]" "[0]"]
  by (simp add: unicode_to_utf8_def utf8_cont_byte_def)

text \<open>C34: the decoder accepts only what the encoder writes: an accepted sequence is exactly the
  encoding of the value returned, so overlong forms, stray continuation bytes and truncated
  sequences are all rejected.\<close>

theorem utf8_decode_canonical:
  assumes "unicode_from_utf8 m p max_len = Some (r, p')" and "r \<noteq> -1"
  shows "\<exists>c. r = uint c \<and> c < 0x80000000 \<and> p' = p + length (unicode_to_utf8 c) \<and>
    take (length (unicode_to_utf8 c)) (drop p m) = unicode_to_utf8 c"
  using unicode_from_utf8_canonical [OF assms(1)] assms(2) by blast

theorem utf8_decode_canonical_witness:
  "\<exists>c. (0x20ac :: int) = uint (c :: u32) \<and> c < 0x80000000 \<and>
    take (length (unicode_to_utf8 c)) [0xe2, 0x82, 0xac, 0] = unicode_to_utf8 c"
proof -
  have "unicode_from_utf8 [0xe2, 0x82, 0xac, 0] 0 6 = Some (0x20ac, 3)"
    by code_simp
  from utf8_decode_canonical [OF this] show ?thesis by auto
qed

text \<open>C35: on a block that ends with a zero byte the decoder never reads outside the block, whatever
  the bytes before are; on failure the pointer does not move.\<close>

theorem utf8_decode_safe:
  assumes "p < length m" and "last m = 0"
  shows "\<exists>r p'. unicode_from_utf8 m p max_len = Some (r, p') \<and> p' \<le> length m \<and>
    (r = -1 \<longrightarrow> p' = p) \<and> (r \<noteq> -1 \<longrightarrow> p < p')"
proof -
  obtain r p' where u: "unicode_from_utf8 m p max_len = Some (r, p')" "p' \<le> length m"
    using unicode_from_utf8_total [OF assms] by blast
  show ?thesis
  proof (cases "r = -1 \<and> p' = p")
    case True
    with u show ?thesis by simp
  next
    case False
    from unicode_from_utf8_canonical [OF u(1) False] obtain c where
      c: "r = uint c" "c < 0x80000000" "p' = p + length (unicode_to_utf8 c)" by blast
    have "r \<noteq> -1" using c(1) uint_nonnegative [of c] by linarith
    moreover have "p < p'" using c(2,3) by (simp add: unicode_to_utf8_def)
    ultimately show ?thesis using u by blast
  qed
qed

theorem utf8_decode_safe_witness:
  "\<exists>r p'. unicode_from_utf8 [0xe2, 0] 0 6 = Some (r, p') \<and> p' \<le> Suc (Suc 0) \<and>
    (r = -1 \<longrightarrow> p' = 0) \<and> (r \<noteq> -1 \<longrightarrow> 0 < p')"
  using utf8_decode_safe [of 0 "[0xe2, 0]" 6] by simp

end
