(* ===== verification/Char_Range.thy ===== *)
theory Char_Range
  imports Dyn_Buf
begin

text \<open>
  The character range package of \<^verbatim>\<open>src/qjs/libunicode.c\<close> and \<^verbatim>\<open>libunicode.h\<close>: a set of code
  points as a sorted array of interval bounds, its set operations and its in-place compression.
  The array \<open>cr_points\<close> has \<open>cr_size\<close> elements, of which the first \<open>cr_len\<close> are in use. The
  field \<open>cr_realloc_func\<close> says whether a request for a number of bytes is granted. An operation
  returns its \<^verbatim>\<open>int\<close> result with the new range, or \<open>None\<close> for an access outside the array.

  The counters \<^verbatim>\<open>len\<close> and \<^verbatim>\<open>size\<close> are of type \<^verbatim>\<open>int\<close> in C and natural numbers here. The two agree as long as no
  request exceeds 715827882 points (\<open>cr_realloc_int\<close>), where \<^verbatim>\<open>cr->size * 3\<close> stays below \<^verbatim>\<open>INT_MAX\<close>; a range of
  code points up to 0x110000 has at most 1114113 points (\<open>canonical_length\<close>).
\<close>

section \<open>State and operations\<close>

record CharRange =
  cr_len :: nat
  cr_size :: nat
  cr_points :: "u32 list"
  cr_realloc_func :: "nat \<Rightarrow> bool"

datatype CharRangeOpEnum = CR_OP_UNION | CR_OP_INTER | CR_OP_XOR

definition cr_init :: "(nat \<Rightarrow> bool) \<Rightarrow> CharRange" where
  "cr_init f = \<lparr>cr_len = 0, cr_size = 0, cr_points = [], cr_realloc_func = f\<rparr>"

definition cr_realloc :: "CharRange \<Rightarrow> nat \<Rightarrow> int \<times> CharRange" where
  "cr_realloc cr req =
     (if req > cr_size cr then
        let new_size = nat (max_int (int req) (int (cr_size cr * 3 div 2)))
        in if \<not> cr_realloc_func cr (new_size * 4) then (-1, cr)
           else (0, cr\<lparr>cr_points := resize 0 (cr_points cr) new_size, cr_size := new_size\<rparr>)
      else (0, cr))"

definition cr_copy :: "CharRange \<Rightarrow> CharRange \<Rightarrow> (int \<times> CharRange) option" where
  "cr_copy cr cr1 =
     (case cr_realloc cr (cr_len cr1) of (r, cr) \<Rightarrow>
        if r \<noteq> 0 then Some (-1, cr)
        else do {
          data \<leftarrow> rd_n (cr_points cr1) 0 (cr_len cr1);
          pts \<leftarrow> memcpy (cr_points cr) 0 data;
          Some (0, cr\<lparr>cr_points := pts, cr_len := cr_len cr1\<rparr>) })"

definition cr_add_point :: "CharRange \<Rightarrow> u32 \<Rightarrow> (int \<times> CharRange) option" where
  "cr_add_point cr v =
     (case (if cr_len cr \<ge> cr_size cr then cr_realloc cr (cr_len cr + 1) else (0, cr)) of
        (r, cr) \<Rightarrow>
          if r \<noteq> 0 then Some (-1, cr)
          else do {
            pts \<leftarrow> wr (cr_points cr) (cr_len cr) v;
            Some (0, cr\<lparr>cr_points := pts, cr_len := cr_len cr + 1\<rparr>) })"

definition cr_add_interval :: "CharRange \<Rightarrow> u32 \<Rightarrow> u32 \<Rightarrow> (int \<times> CharRange) option" where
  "cr_add_interval cr c1 c2 =
     (case (if cr_len cr + 2 > cr_size cr then cr_realloc cr (cr_len cr + 2) else (0, cr)) of
        (r, cr) \<Rightarrow>
          if r \<noteq> 0 then Some (-1, cr)
          else do {
            pts \<leftarrow> wr (cr_points cr) (cr_len cr) c1;
            pts \<leftarrow> wr pts (cr_len cr + 1) c2;
            Some (0, cr\<lparr>cr_points := pts, cr_len := cr_len cr + 2\<rparr>) })"

text \<open>\<open>cr_compress\<close> merges consecutive intervals and removes empty ones, in place. The inner loop
  advances \<open>j\<close> over intervals that touch; the outer loop copies one interval from \<open>i\<close> and \<open>j\<close>
  down to \<open>k\<close>.\<close>

function compress_j :: "u32 list \<Rightarrow> nat \<Rightarrow> nat \<Rightarrow> nat" where
  "compress_j pt len j =
     (if j + 3 < len \<and> pt ! (j + 1) = pt ! (j + 2) then compress_j pt len (j + 2) else j)"
  by pat_completeness auto
termination by (relation "measure (\<lambda>(pt, len, j). len - j)") auto

declare compress_j.simps [simp del]

lemma compress_j_ge: "j \<le> compress_j pt len j"
proof (induction pt len j rule: compress_j.induct)
  case (1 pt len j)
  then show ?case by (subst compress_j.simps) (auto intro: order_trans [of _ "j + 2"])
qed

function compress_loop :: "u32 list \<Rightarrow> nat \<Rightarrow> nat \<Rightarrow> nat \<Rightarrow> u32 list \<times> nat" where
  "compress_loop pt len i k =
     (if i + 1 < len then
        if pt ! i = pt ! (i + 1) then compress_loop pt len (i + 2) k
        else let j = compress_j pt len i;
                 pt = pt[k := pt ! i];
                 pt = pt[k + 1 := pt ! (j + 1)]
             in compress_loop pt len (j + 2) (k + 2)
      else (pt, k))"
  by pat_completeness auto
termination
  by (relation "measure (\<lambda>(pt, len, i, k). len - i)")
    (use compress_j_ge in \<open>auto simp: diff_less_mono2 le_imp_less_Suc less_SucI\<close>)

declare compress_loop.simps [simp del]

definition cr_compress :: "CharRange \<Rightarrow> CharRange option" where
  "cr_compress cr =
     (if cr_len cr \<le> length (cr_points cr)
      then let (pt, k) = compress_loop (cr_points cr) (cr_len cr) 0 0
           in Some (cr\<lparr>cr_points := pt, cr_len := k\<rparr>)
      else None)"

definition cr_op_is_in :: "CharRangeOpEnum \<Rightarrow> nat \<Rightarrow> nat \<Rightarrow> bool" where
  "cr_op_is_in op a_idx b_idx =
     (case op of
        CR_OP_UNION \<Rightarrow> odd a_idx \<or> odd b_idx
      | CR_OP_INTER \<Rightarrow> odd a_idx \<and> odd b_idx
      | CR_OP_XOR \<Rightarrow> odd a_idx \<noteq> odd b_idx)"

text \<open>One round of the merging loop of \<open>cr_op\<close>: the next point in increasing order and the new
  positions, or nothing when both arrays are used up.\<close>

definition cr_op_next :: "u32 list \<Rightarrow> u32 list \<Rightarrow> nat \<Rightarrow> nat \<Rightarrow> (u32 \<times> nat \<times> nat) option" where
  "cr_op_next a_pt b_pt a_idx b_idx =
     (if a_idx < length a_pt \<and> b_idx < length b_pt then
        if a_pt ! a_idx < b_pt ! b_idx then Some (a_pt ! a_idx, a_idx + 1, b_idx)
        else if a_pt ! a_idx = b_pt ! b_idx then Some (a_pt ! a_idx, a_idx + 1, b_idx + 1)
        else Some (b_pt ! b_idx, a_idx, b_idx + 1)
      else if a_idx < length a_pt then Some (a_pt ! a_idx, a_idx + 1, b_idx)
      else if b_idx < length b_pt then Some (b_pt ! b_idx, a_idx, b_idx + 1)
      else None)"

lemma cr_op_next_decreases:
  "cr_op_next a b i j = Some (v, i', j') \<Longrightarrow>
     (length a - i') + (length b - j') < (length a - i) + (length b - j)"
  by (auto simp: cr_op_next_def split: if_splits)

function cr_op_loop ::
  "CharRange \<Rightarrow> u32 list \<Rightarrow> u32 list \<Rightarrow> CharRangeOpEnum \<Rightarrow> nat \<Rightarrow> nat \<Rightarrow> (int \<times> CharRange) option"
where
  "cr_op_loop cr a_pt b_pt op a_idx b_idx =
     (case cr_op_next a_pt b_pt a_idx b_idx of
        None \<Rightarrow> do { cr \<leftarrow> cr_compress cr; Some (0, cr) }
      | Some (v, a_idx, b_idx) \<Rightarrow>
          if cr_op_is_in op a_idx b_idx \<noteq> odd (cr_len cr) then do {
            (r, cr) \<leftarrow> cr_add_point cr v;
            if r \<noteq> 0 then Some (-1, cr) else cr_op_loop cr a_pt b_pt op a_idx b_idx }
          else cr_op_loop cr a_pt b_pt op a_idx b_idx)"
  by pat_completeness auto
termination
  by (relation "measure (\<lambda>(cr, a, b, op, i, j). (length a - i) + (length b - j))")
    (auto dest!: sym [of _ "cr_op_next _ _ _ _"] cr_op_next_decreases)

declare cr_op_loop.simps [simp del]

definition cr_op ::
  "CharRange \<Rightarrow> u32 list \<Rightarrow> u32 list \<Rightarrow> CharRangeOpEnum \<Rightarrow> (int \<times> CharRange) option" where
  "cr_op cr a_pt b_pt op = cr_op_loop cr a_pt b_pt op 0 0"

text \<open>The points in use, the argument pair \<^verbatim>\<open>cr->points, cr->len\<close> of the callers.\<close>

definition cr_pts :: "CharRange \<Rightarrow> u32 list" where
  "cr_pts cr = take (cr_len cr) (cr_points cr)"

definition cr_union1 :: "CharRange \<Rightarrow> u32 list \<Rightarrow> (int \<times> CharRange) option" where
  "cr_union1 cr b_pt =
     cr_op (cr\<lparr>cr_len := 0, cr_size := 0, cr_points := []\<rparr>) (cr_pts cr) b_pt CR_OP_UNION"

definition cr_union_interval :: "CharRange \<Rightarrow> u32 \<Rightarrow> u32 \<Rightarrow> (int \<times> CharRange) option" where
  "cr_union_interval cr c1 c2 = cr_union1 cr [c1, c2 + 1]"

definition UINT32_MAX :: u32 where
  "UINT32_MAX = 0xffffffff"

definition cr_invert :: "CharRange \<Rightarrow> (int \<times> CharRange) option" where
  "cr_invert cr = (let len = cr_len cr in
     case cr_realloc cr (len + 2) of (r, cr) \<Rightarrow>
       if r \<noteq> 0 then Some (-1, cr)
       else do {
         data \<leftarrow> rd_n (cr_points cr) 0 len;
         pts \<leftarrow> memcpy (cr_points cr) 1 data;
         pts \<leftarrow> wr pts 0 0;
         pts \<leftarrow> wr pts (len + 1) UINT32_MAX;
         cr \<leftarrow> cr_compress (cr\<lparr>cr_points := pts, cr_len := len + 2\<rparr>);
         Some (0, cr) })"

section \<open>The set a range stands for\<close>

fun cr_mem :: "u32 list \<Rightarrow> u32 \<Rightarrow> bool" where
  "cr_mem (a # b # pts) c \<longleftrightarrow> (a \<le> c \<and> c < b) \<or> cr_mem pts c"
| "cr_mem _ c \<longleftrightarrow> False"

text \<open>A range is well formed when its bounds come in pairs and increase strictly: the canonical
  form that \<open>cr_compress\<close> leaves.\<close>

definition cr_canonical :: "u32 list \<Rightarrow> bool" where
  "cr_canonical pts \<longleftrightarrow> even (length pts) \<and> sorted_wrt (<) pts"

definition cr_inv :: "CharRange \<Rightarrow> bool" where
  "cr_inv cr \<longleftrightarrow> length (cr_points cr) = cr_size cr \<and> cr_len cr \<le> cr_size cr"

definition cr_op_fun :: "CharRangeOpEnum \<Rightarrow> bool \<Rightarrow> bool \<Rightarrow> bool" where
  "cr_op_fun op x y =
     (case op of CR_OP_UNION \<Rightarrow> x \<or> y | CR_OP_INTER \<Rightarrow> x \<and> y | CR_OP_XOR \<Rightarrow> x \<noteq> y)"

text \<open>The \<^verbatim>\<open>int\<close> arithmetic of \<open>cr_realloc\<close> does not overflow below 715827882 points, and the new size is an \<^verbatim>\<open>int\<close>
  again.\<close>

lemma cr_realloc_int:
  assumes "req \<le> 715827882" "cr_size cr < 2 ^ 31"
  shows "req > cr_size cr \<Longrightarrow> cr_size cr * 3 < 2 ^ 31" "cr_size (snd (cr_realloc cr req)) < 2 ^ 31"
  using assms by (auto simp: cr_realloc_def max_int_def Let_def)

lemma canonical_length:
  assumes "cr_canonical pts" "\<forall>p\<in>set pts. p \<le> 0x110000"
  shows "length pts \<le> 1114113"
proof -
  have "distinct pts" using assms(1) by (simp add: cr_canonical_def strict_sorted_iff)
  then have "distinct (map unat pts)" by (auto simp: distinct_map inj_on_def word_unat_eq_iff)
  then have "length pts = card (set (map unat pts))" by (metis distinct_card length_map)
  also have "\<dots> \<le> card {..1114112 :: nat}"
    by (rule card_mono) (use assms(2) in \<open>auto simp: word_le_nat_alt\<close>)
  finally show ?thesis by simp
qed

lemma cr_op_is_in_eq: "cr_op_is_in op i j = cr_op_fun op (odd i) (odd j)"
  by (cases op) (auto simp: cr_op_is_in_def cr_op_fun_def)

lemma cr_op_fun_False [simp]: "\<not> cr_op_fun op False False"
  by (cases op) (auto simp: cr_op_fun_def)

lemma length_cr_pts [simp]: "cr_inv cr \<Longrightarrow> length (cr_pts cr) = cr_len cr"
  by (simp add: cr_inv_def cr_pts_def)

lemma cr_init_inv [simp]: "cr_inv (cr_init f)" "cr_pts (cr_init f) = []"
  by (simp_all add: cr_inv_def cr_init_def cr_pts_def)

text \<open>Counting bounds: in a sorted list of pairs, a code point is a member iff an odd number of
  bounds lies at or below it.\<close>

definition npts :: "u32 list \<Rightarrow> u32 \<Rightarrow> nat" where
  "npts pts c = length (filter (\<lambda>p. p \<le> c) pts)"

lemma npts_simps [simp]:
  "npts [] c = 0" "npts (p # pts) c = (if p \<le> c then Suc (npts pts c) else npts pts c)"
  "npts (xs @ ys) c = npts xs c + npts ys c"
  by (simp_all add: npts_def)

lemma npts_all: "(\<And>p. p \<in> set pts \<Longrightarrow> p \<le> c) \<Longrightarrow> npts pts c = length pts"
  by (simp add: npts_def)

lemma npts_none: "(\<And>p. p \<in> set pts \<Longrightarrow> c < p) \<Longrightarrow> npts pts c = 0"
  by (auto simp: npts_def filter_empty_conv not_le)

lemma cr_mem_npts: "sorted pts \<Longrightarrow> even (length pts) \<Longrightarrow> cr_mem pts c \<longleftrightarrow> odd (npts pts c)"
proof (induction pts c rule: cr_mem.induct)
  case (1 a b pts c)
  show ?case
  proof (cases "b \<le> c")
    case True
    then have "a \<le> c" using "1.prems" by (auto intro: order_trans)
    with True 1 show ?thesis by (simp add: leD)
  next
    case False
    then have "npts pts c = 0"
      using "1.prems" by (intro npts_none) (auto simp: not_le intro: less_le_trans)
    with False 1 show ?thesis by auto
  qed
qed auto

section \<open>Compression\<close>

text \<open>What the two loops compute, on lists.\<close>

fun absorb :: "u32 \<Rightarrow> u32 list \<Rightarrow> u32 \<times> u32 list" where
  "absorb e (c # d # pts) = (if e = c then absorb d pts else (e, c # d # pts))"
| "absorb e pts = (e, pts)"

lemma absorb_length: "length (snd (absorb e pts)) \<le> length pts"
  by (induction e pts rule: absorb.induct) auto

function compress_list :: "u32 list \<Rightarrow> u32 list" where
  "compress_list (a # b # pts) =
     (if a = b then compress_list pts
      else a # fst (absorb b pts) # compress_list (snd (absorb b pts)))"
| "compress_list [] = []"
| "compress_list [a] = []"
  by pat_completeness auto
termination
  by (relation "measure length") (use absorb_length in \<open>auto simp: le_imp_less_Suc less_SucI\<close>)

lemma drop_two: "Suc k < length xs \<Longrightarrow> drop k xs = xs ! k # xs ! Suc k # drop (Suc (Suc k)) xs"
  by (simp add: Cons_nth_drop_Suc)

lemma absorb_short: "length pts \<le> 1 \<Longrightarrow> absorb e pts = (e, pts)"
  by (cases pts rule: compress_list.cases) auto

lemma compress_j_absorb:
  assumes "len \<le> length pt" and "i + 1 < len"
  shows "compress_j pt len i + 1 < len \<and>
    absorb (pt ! (i + 1)) (drop (i + 2) (take len pt)) =
      (pt ! (compress_j pt len i + 1), drop (compress_j pt len i + 2) (take len pt))"
  using assms
proof (induction pt len i rule: compress_j.induct)
  case (1 pt len i)
  show ?case
  proof (cases "i + 3 < len \<and> pt ! (i + 1) = pt ! (i + 2)")
    case True
    then have "drop (i + 2) (take len pt) = pt ! (i + 2) # pt ! (i + 3) # drop (i + 4) (take len pt)"
      using "1.prems" drop_two [of "i + 2" "take len pt"] by (simp add: eval_nat_numeral)
    with True 1 show ?thesis
      by (subst (1 2 3) compress_j.simps) (simp add: eval_nat_numeral)
  next
    case False
    then have j: "compress_j pt len i = i" by (subst compress_j.simps) auto
    show ?thesis
    proof (cases "i + 3 < len")
      case True
      then have "drop (i + 2) (take len pt) = pt ! (i + 2) # pt ! (i + 3) # drop (i + 4) (take len pt)"
        using "1.prems" drop_two [of "i + 2" "take len pt"] by (simp add: eval_nat_numeral)
      with True False "1.prems" j show ?thesis by auto
    next
      case False
      then have "length (drop (i + 2) (take len pt)) \<le> 1" using "1.prems" by simp
      with j "1.prems" show ?thesis by (simp add: absorb_short)
    qed
  qed
qed

lemma compress_loop_list:
  assumes "len \<le> length pt" and "k \<le> i" and "i \<le> len"
  shows "case compress_loop pt len i k of (pt', k') \<Rightarrow> length pt' = length pt \<and> k' \<le> len \<and>
    take k' pt' = take k pt @ compress_list (drop i (take len pt))"
  using assms
proof (induction pt len i k rule: compress_loop.induct)
  case (1 pt len i k)
  show ?case
  proof (cases "i + 1 < len")
    case False
    then have "length (drop i (take len pt)) \<le> 1" using "1.prems" by simp
    then have "compress_list (drop i (take len pt)) = []"
      by (cases "drop i (take len pt)" rule: compress_list.cases) auto
    with False "1.prems" show ?thesis by (subst compress_loop.simps) simp
  next
    case True
    have d: "drop i (take len pt) = pt ! i # pt ! (i + 1) # drop (i + 2) (take len pt)"
      using drop_two [of i "take len pt"] True "1.prems" by simp
    show ?thesis
    proof (cases "pt ! i = pt ! (i + 1)")
      case eq: True
      with True 1 d show ?thesis by (subst compress_loop.simps) simp
    next
      case neq: False
      let ?j = "compress_j pt len i"
      let ?pt = "pt[k := pt ! i, k + 1 := pt ! (?j + 1)]"
      have j: "i \<le> ?j" "?j + 1 < len"
        and ab: "absorb (pt ! (i + 1)) (drop (i + 2) (take len pt)) =
          (pt ! (?j + 1), drop (?j + 2) (take len pt))"
        using compress_j_ge compress_j_absorb [OF "1.prems"(1) True] by auto
      have loop: "compress_loop pt len i k = compress_loop ?pt len (?j + 2) (k + 2)"
        using True neq j "1.prems" by (subst compress_loop.simps) (simp add: Let_def)
      have "drop (?j + 2) (take len ?pt) = drop (?j + 2) (take len pt)"
        using j "1.prems" by (simp add: take_update_swap)
      moreover have "take (k + 2) ?pt = take k pt @ [pt ! i, pt ! (?j + 1)]"
        using j "1.prems" by (simp add: take_Suc_conv_app_nth)
      ultimately show ?thesis
        using "1.IH"(2) [OF True neq refl refl refl] j "1.prems" d neq ab loop
        by (simp add: split_beta)
    qed
  qed
qed

lemma absorb_sorted:
  assumes "sorted (e # pts)" and "even (length pts)" and "absorb e pts = (e', r)"
  shows "e \<le> e' \<and> sorted r \<and> even (length r) \<and> (\<forall>p\<in>set r. e' < p) \<and> set r \<subseteq> set pts \<and>
    (\<forall>a c. a \<le> e \<longrightarrow> (a \<le> c \<and> c < e' \<or> cr_mem r c) = (a \<le> c \<and> c < e \<or> cr_mem pts c))"
  using assms
proof (induction e pts arbitrary: e' r rule: absorb.induct)
  case (1 e c d pts)
  show ?case
  proof (cases "e = c")
    case True
    then have "e \<le> d" using "1.prems" by simp
    have "sorted (d # pts)" "even (length pts)" "absorb d pts = (e', r)"
      using "1.prems" True by simp_all
    note IH = "1.IH" [OF True this]
    show ?thesis
    proof (intro conjI allI impI)
      fix a x assume "a \<le> e"
      then have "(a \<le> x \<and> x < e' \<or> cr_mem r x) = (a \<le> x \<and> x < d \<or> cr_mem pts x)"
        using IH order_trans [OF \<open>a \<le> e\<close> \<open>e \<le> d\<close>] by blast
      also have "\<dots> = (a \<le> x \<and> x < e \<or> cr_mem (c # d # pts) x)"
        using True \<open>a \<le> e\<close> \<open>e \<le> d\<close> by (auto intro: order_trans less_le_trans simp: not_less)
      finally show "(a \<le> x \<and> x < e' \<or> cr_mem r x) = (a \<le> x \<and> x < e \<or> cr_mem (c # d # pts) x)" .
    qed (use IH \<open>e \<le> d\<close> in \<open>auto intro: order_trans\<close>)
  next
    case False
    with "1.prems" have "e < c" by auto
    moreover have "\<forall>p\<in>set (c # d # pts). c \<le> p" using "1.prems" by auto
    ultimately have "\<forall>p\<in>set (c # d # pts). e < p" using less_le_trans by blast
    with False "1.prems" show ?thesis by auto
  qed
qed auto

lemma compress_list_correct:
  assumes "sorted pts" and "even (length pts)"
  shows "cr_canonical (compress_list pts) \<and> set (compress_list pts) \<subseteq> {hd pts..} \<and>
    (\<forall>c. cr_mem (compress_list pts) c = cr_mem pts c)"
  using assms
proof (induction pts rule: compress_list.induct)
  case (1 a b pts)
  show ?case
  proof (cases "a = b")
    case True
    have "{hd pts..} \<subseteq> {a..}" if "compress_list pts \<noteq> []"
      using "1.prems" that by (cases pts) auto
    moreover have "compress_list (a # b # pts) = compress_list pts" using True by simp
    moreover have "cr_mem (a # b # pts) c = cr_mem pts c" for c using True by auto
    ultimately show ?thesis using 1 True by (cases "compress_list pts = []") auto
  next
    case False
    obtain e r where er: "absorb b pts = (e, r)" by fastforce
    have ab: "b \<le> e" "sorted r" "even (length r)" "\<forall>p\<in>set r. e < p"
      "\<And>x c. x \<le> b \<Longrightarrow> (x \<le> c \<and> c < e \<or> cr_mem r c) = (x \<le> c \<and> c < b \<or> cr_mem pts c)"
      using absorb_sorted [OF _ _ er] "1.prems" by auto
    have IH: "cr_canonical (compress_list r)" "set (compress_list r) \<subseteq> {hd r..}"
      "\<And>c. cr_mem (compress_list r) c = cr_mem r c"
      using "1.IH"(2) [OF False] ab(2,3) er by auto
    have "a < b" using "1.prems" False by auto
    moreover have "\<forall>p\<in>set (compress_list r). e < p"
      using IH(2) ab(4) by (cases r) (auto intro: less_le_trans)
    ultimately show ?thesis
      using False er IH(1,3) ab(1) ab(5) [of a]
      by (auto simp: cr_canonical_def intro: order_trans less_trans less_le_trans)
  qed
qed (auto simp: cr_canonical_def)

section \<open>Operations keep the invariant\<close>

text \<open>How a fallible operation ends: it keeps the array invariant and the allocator, answers 0 or
  -1, answers 0 when every request is granted, and then satisfies \<open>Q\<close>.\<close>

definition cr_result ::
  "CharRange \<Rightarrow> (u32 list \<Rightarrow> bool) \<Rightarrow> (int \<times> CharRange) option \<Rightarrow> bool" where
  "cr_result cr Q res \<longleftrightarrow> (\<exists>r cr'. res = Some (r, cr') \<and> cr_inv cr' \<and>
     cr_realloc_func cr' = cr_realloc_func cr \<and> (r = 0 \<or> r = -1) \<and>
     ((\<forall>n. cr_realloc_func cr n) \<longrightarrow> r = 0) \<and> (r = 0 \<longrightarrow> Q (cr_pts cr')))"

lemma cr_realloc_spec:
  assumes "cr_inv cr"
  obtains r cr' where "cr_realloc cr n = (r, cr')" "cr_inv cr'" "cr_pts cr' = cr_pts cr"
    "cr_len cr' = cr_len cr" "cr_realloc_func cr' = cr_realloc_func cr"
    "r = 0 \<and> n \<le> cr_size cr' \<or> r = -1 \<and> \<not> (\<forall>n. cr_realloc_func cr n)"
proof (cases "n > cr_size cr")
  case False
  with that assms show ?thesis by (simp add: cr_realloc_def)
next
  case True
  let ?n = "nat (max_int (int n) (int (cr_size cr * 3 div 2)))"
  have n: "n \<le> ?n" "cr_size cr \<le> ?n" using True by (auto simp: max_int_def)
  show ?thesis
  proof (cases "cr_realloc_func cr (?n * 4)")
    case False
    with that assms True show ?thesis by (auto simp: cr_realloc_def Let_def)
  next
    case ok: True
    let ?cr = "cr\<lparr>cr_points := resize 0 (cr_points cr) ?n, cr_size := ?n\<rparr>"
    have "cr_inv ?cr" "cr_pts ?cr = cr_pts cr"
      using assms n by (auto simp: cr_inv_def cr_pts_def take_resize)
    moreover have "cr_realloc cr n = (0, ?cr)"
      using True ok by (simp add: cr_realloc_def Let_def)
    ultimately show ?thesis using that n by simp
  qed
qed

lemma cr_add_point_spec:
  assumes "cr_inv cr"
  shows "cr_result cr (\<lambda>pts. pts = cr_pts cr @ [v]) (cr_add_point cr v)"
proof -
  obtain r cr' where cr': "(if cr_len cr \<ge> cr_size cr then cr_realloc cr (cr_len cr + 1) else (0, cr)) = (r, cr')"
    "cr_inv cr'" "cr_pts cr' = cr_pts cr" "cr_len cr' = cr_len cr"
    "cr_realloc_func cr' = cr_realloc_func cr"
    "r = 0 \<and> Suc (cr_len cr) \<le> cr_size cr' \<or> r = -1 \<and> \<not> (\<forall>n. cr_realloc_func cr n)"
    using cr_realloc_spec [OF assms, of "cr_len cr + 1" thesis] assms
    by (cases "cr_len cr \<ge> cr_size cr") auto
  show ?thesis
  proof (cases "r = 0")
    case True
    with cr' show ?thesis
      by (auto simp: cr_add_point_def cr_result_def wr_def cr_inv_def cr_pts_def take_Suc_conv_app_nth)
  next
    case False
    with cr' show ?thesis by (auto simp: cr_add_point_def cr_result_def)
  qed
qed

lemma cr_add_interval_spec:
  assumes "cr_inv cr"
  shows "cr_result cr (\<lambda>pts. pts = cr_pts cr @ [c1, c2]) (cr_add_interval cr c1 c2)"
proof -
  obtain r cr' where cr': "(if cr_len cr + 2 > cr_size cr then cr_realloc cr (cr_len cr + 2) else (0, cr)) = (r, cr')"
    "cr_inv cr'" "cr_pts cr' = cr_pts cr" "cr_len cr' = cr_len cr"
    "cr_realloc_func cr' = cr_realloc_func cr"
    "r = 0 \<and> cr_len cr + 2 \<le> cr_size cr' \<or> r = -1 \<and> \<not> (\<forall>n. cr_realloc_func cr n)"
    using cr_realloc_spec [OF assms, of "cr_len cr + 2" thesis] assms
    by (cases "cr_len cr + 2 > cr_size cr") auto
  show ?thesis
  proof (cases "r = 0")
    case True
    with cr' show ?thesis
      by (auto simp: cr_add_interval_def cr_result_def wr_def cr_inv_def cr_pts_def take_Suc_conv_app_nth)
  next
    case False
    with cr' show ?thesis by (auto simp: cr_add_interval_def cr_result_def)
  qed
qed

lemma cr_compress_spec:
  assumes "cr_inv cr"
  shows "\<exists>cr'. cr_compress cr = Some cr' \<and> cr_inv cr' \<and> cr_realloc_func cr' = cr_realloc_func cr \<and>
    cr_pts cr' = compress_list (cr_pts cr)"
  using compress_loop_list [of "cr_len cr" "cr_points cr" 0 0] assms
  by (auto simp: cr_compress_def cr_inv_def cr_pts_def split: prod.splits)

section \<open>The merging loop\<close>

definition cr_op_inv :: "u32 list \<Rightarrow> u32 list \<Rightarrow> CharRangeOpEnum \<Rightarrow> nat \<Rightarrow> nat \<Rightarrow> u32 list \<Rightarrow> bool" where
  "cr_op_inv a b op i j out \<longleftrightarrow> i \<le> length a \<and> j \<le> length b \<and> sorted out \<and>
     (\<forall>x \<in> set out \<union> set (take i a) \<union> set (take j b). \<forall>y \<in> set (drop i a) \<union> set (drop j b). x \<le> y) \<and>
     (\<forall>c. odd (npts out c) = cr_op_fun op (odd (npts (take i a) c)) (odd (npts (take j b) c)))"

lemma cr_op_next_cases:
  assumes "cr_op_next a b i j = Some (v, i', j')" and "sorted a" and "sorted b"
  shows "take i' a = take i a @ replicate (i' - i) v \<and> take j' b = take j b @ replicate (j' - j) v \<and>
    i \<le> i' \<and> j \<le> j' \<and> i' \<le> max i (length a) \<and> j' \<le> max j (length b) \<and>
    v \<in> set (drop i a) \<union> set (drop j b) \<and>
    (\<forall>y \<in> set (drop i' a) \<union> set (drop j' b). v \<le> y) \<and>
    set (drop i' a) \<subseteq> set (drop i a) \<and> set (drop j' b) \<subseteq> set (drop j b)"
proof -
  have a: "drop i a = a ! i # drop (Suc i) a" "\<forall>y\<in>set (drop i a). a ! i \<le> y" if "i < length a"
  proof -
    show d: "drop i a = a ! i # drop (Suc i) a" using that by (rule Cons_nth_drop_Suc [symmetric])
    show "\<forall>y\<in>set (drop i a). a ! i \<le> y"
      using sorted_wrt_drop [OF assms(2), of i] unfolding d by auto
  qed
  have b: "drop j b = b ! j # drop (Suc j) b" "\<forall>y\<in>set (drop j b). b ! j \<le> y" if "j < length b"
  proof -
    show d: "drop j b = b ! j # drop (Suc j) b" using that by (rule Cons_nth_drop_Suc [symmetric])
    show "\<forall>y\<in>set (drop j b). b ! j \<le> y"
      using sorted_wrt_drop [OF assms(3), of j] unfolding d by auto
  qed
  show ?thesis
    using assms(1) a b
    by (auto simp: cr_op_next_def take_Suc_conv_app_nth not_less split: if_splits
        intro: order_trans less_imp_le)
qed

lemma npts_replicate [simp]: "npts (replicate n v) c = (if v \<le> c then n else 0)"
  by (simp add: npts_def)

lemma cr_op_inv_step:
  assumes "cr_op_inv a b op i j out" and "cr_op_next a b i j = Some (v, i', j')"
    and "sorted a" and "sorted b"
  shows "cr_op_inv a b op i' j'
    (if cr_op_is_in op i' j' \<noteq> odd (length out) then out @ [v] else out)"
proof -
  let ?out = "if cr_op_is_in op i' j' \<noteq> odd (length out) then out @ [v] else out"
  note nx = cr_op_next_cases [OF assms(2-4)]
  have bounds: "i \<le> length a" "j \<le> length b" "i' \<le> length a" "j' \<le> length b"
    using assms(1) nx by (auto simp: cr_op_inv_def)
  have le: "\<forall>x \<in> set out \<union> set (take i a) \<union> set (take j b). x \<le> v"
    using assms(1) nx unfolding cr_op_inv_def by blast
  have le': "\<forall>x \<in> set out \<union> set (take i' a) \<union> set (take j' b). x \<le> v"
    using le nx by auto
  have "odd (npts ?out c) = cr_op_fun op (odd (npts (take i' a) c)) (odd (npts (take j' b) c))" for c
  proof (cases "v \<le> c")
    case True
    with le' have "\<forall>x \<in> set out \<union> set (take i' a) \<union> set (take j' b). x \<le> c"
      using order_trans by blast
    then have "npts out c = length out" "npts (take i' a) c = i'" "npts (take j' b) c = j'"
      using bounds by (simp_all add: npts_all)
    with True show ?thesis by (auto simp: cr_op_is_in_eq)
  next
    case False
    then show ?thesis using assms(1) nx by (auto simp: cr_op_inv_def)
  qed
  moreover have "sorted ?out" using assms(1) le by (auto simp: cr_op_inv_def sorted_append)
  moreover have "\<forall>x \<in> set ?out \<union> set (take i' a) \<union> set (take j' b).
      \<forall>y \<in> set (drop i' a) \<union> set (drop j' b). x \<le> y"
  proof (intro ballI)
    fix x y assume "x \<in> set ?out \<union> set (take i' a) \<union> set (take j' b)"
      and y: "y \<in> set (drop i' a) \<union> set (drop j' b)"
    then have "x \<le> v" using le' by (auto split: if_splits)
    with y nx show "x \<le> y" using order_trans by blast
  qed
  ultimately show ?thesis using bounds unfolding cr_op_inv_def by blast
qed

lemma cr_op_inv_end:
  assumes "cr_op_inv a b op i j out" and "cr_op_next a b i j = None"
    and "sorted a" "sorted b" "even (length a)" "even (length b)"
  shows "sorted out \<and> even (length out) \<and>
    (\<forall>c. cr_mem out c = cr_op_fun op (cr_mem a c) (cr_mem b c))"
proof -
  have "i = length a" "j = length b"
    using assms(1,2) by (auto simp: cr_op_inv_def cr_op_next_def split: if_splits)
  then have n: "odd (npts out c) = cr_op_fun op (odd (npts a c)) (odd (npts b c))" for c
    using assms(1) by (simp add: cr_op_inv_def)
  have all: "npts pts (- 1) = length pts" for pts by (rule npts_all) simp
  have "even (length out)" using n [of "- 1"] assms(5,6) by (simp add: all)
  then show ?thesis
    using n assms cr_mem_npts by (auto simp: cr_op_inv_def)
qed

lemma cr_op_loop_spec:
  assumes "cr_op_inv a b op i j (cr_pts cr)" and "cr_inv cr"
    and "sorted a" "sorted b" "even (length a)" "even (length b)"
  shows "cr_result cr
    (\<lambda>pts. cr_canonical pts \<and> (\<forall>c. cr_mem pts c = cr_op_fun op (cr_mem a c) (cr_mem b c)))
    (cr_op_loop cr a b op i j)"
  using assms
proof (induction cr a b op i j rule: cr_op_loop.induct)
  case (1 cr a b op i j)
  show ?case
  proof (cases "cr_op_next a b i j")
    case None
    obtain cr' where "cr_compress cr = Some cr'" "cr_inv cr'"
      "cr_realloc_func cr' = cr_realloc_func cr" "cr_pts cr' = compress_list (cr_pts cr)"
      using cr_compress_spec [OF "1.prems"(2)] by blast
    with None cr_op_inv_end [OF "1.prems"(1) None] "1.prems" compress_list_correct [of "cr_pts cr"]
    show ?thesis by (subst cr_op_loop.simps) (simp add: cr_result_def)
  next
    case (Some t)
    obtain v i' j' where t: "t = (v, i', j')" by (cases t)
    note step = cr_op_inv_step [OF "1.prems"(1) Some [unfolded t] "1.prems"(3,4)]
    have len: "length (cr_pts cr) = cr_len cr" using "1.prems"(2) by simp
    show ?thesis
    proof (cases "cr_op_is_in op i' j' \<noteq> odd (cr_len cr)")
      case False
      with step len have "cr_op_inv a b op i' j' (cr_pts cr)" by simp
      with False Some t "1.IH"(2) [OF Some t [symmetric] refl] "1.prems" show ?thesis
        by (subst cr_op_loop.simps) simp
    next
      case True
      obtain r cr' where ap: "cr_add_point cr v = Some (r, cr')" "cr_inv cr'" "r = 0 \<or> r = -1"
        "cr_realloc_func cr' = cr_realloc_func cr" "(\<forall>n. cr_realloc_func cr n) \<longrightarrow> r = 0"
        "r = 0 \<longrightarrow> cr_pts cr' = cr_pts cr @ [v]"
        using cr_add_point_spec [OF "1.prems"(2), of v] by (auto simp: cr_result_def)
      show ?thesis
      proof (cases "r = 0")
        case False
        with ap True Some t show ?thesis by (subst cr_op_loop.simps) (auto simp: cr_result_def)
      next
        case r: True
        with step len True ap have "cr_op_inv a b op i' j' (cr_pts cr')" by simp
        then have "cr_result cr' (\<lambda>pts. cr_canonical pts \<and>
            (\<forall>c. cr_mem pts c = cr_op_fun op (cr_mem a c) (cr_mem b c))) (cr_op_loop cr' a b op i' j')"
          using "1.IH"(1) [OF Some t [symmetric] refl] True ap r "1.prems" by auto
        with ap True Some t r show ?thesis
          by (subst cr_op_loop.simps) (auto simp: cr_result_def)
      qed
    qed
  qed
qed

lemma cr_op_spec:
  assumes "cr_inv cr" and "cr_len cr = 0"
    and "sorted a" "sorted b" "even (length a)" "even (length b)"
  shows "cr_result cr
    (\<lambda>pts. cr_canonical pts \<and> (\<forall>c. cr_mem pts c = cr_op_fun op (cr_mem a c) (cr_mem b c)))
    (cr_op cr a b op)"
  unfolding cr_op_def
  by (rule cr_op_loop_spec) (use assms in \<open>auto simp: cr_op_inv_def cr_pts_def\<close>)

lemma cr_canonicalD: "cr_canonical pts \<Longrightarrow> sorted pts \<and> even (length pts)"
  by (simp add: cr_canonical_def strict_sorted_imp_sorted)

lemma cr_union1_spec:
  assumes "cr_canonical (cr_pts cr)" and "sorted b" "even (length b)"
  shows "cr_result cr (\<lambda>pts. cr_canonical pts \<and> (\<forall>c. cr_mem pts c = (cr_mem (cr_pts cr) c \<or> cr_mem b c)))
    (cr_union1 cr b)"
  unfolding cr_union1_def
  using cr_op_spec [of "cr\<lparr>cr_len := 0, cr_size := 0, cr_points := []\<rparr>" "cr_pts cr" b CR_OP_UNION]
    assms cr_canonicalD [OF assms(1)]
  by (simp add: cr_inv_def cr_result_def cr_op_fun_def)

lemma cr_union_interval_spec:
  assumes "cr_canonical (cr_pts cr)" and "c1 \<le> c2" and "c2 < UINT32_MAX"
  shows "cr_result cr (\<lambda>pts. cr_canonical pts \<and>
      (\<forall>c. cr_mem pts c = (cr_mem (cr_pts cr) c \<or> c1 \<le> c \<and> c \<le> c2)))
    (cr_union_interval cr c1 c2)"
proof -
  have c2: "unat c2 < 0xffffffff" using assms(3) by (simp add: UINT32_MAX_def word_less_nat_alt)
  then have u: "unat (c2 + 1) = unat c2 + 1" by (simp add: unat_word_ariths)
  have "c1 \<le> c2 + 1" using assms(2) u by (simp add: word_le_nat_alt)
  moreover have "c < c2 + 1 \<longleftrightarrow> c \<le> c2" for c using u by (simp add: word_le_nat_alt word_less_nat_alt less_Suc_eq_le)
  ultimately show ?thesis
    using cr_union1_spec [OF assms(1), of "[c1, c2 + 1]"] by (simp add: cr_union_interval_def)
qed

lemma UINT32_MAX_ge [simp]: "p \<le> UINT32_MAX"
  using unsigned_less [of p, where 'a = nat] by (simp add: UINT32_MAX_def word_le_nat_alt)

lemma cr_mem_invert:
  assumes "sorted pts" and "even (length pts)" and "c \<noteq> UINT32_MAX"
  shows "cr_mem (0 # pts @ [UINT32_MAX]) c \<longleftrightarrow> \<not> cr_mem pts c"
proof -
  have "sorted (0 # pts @ [UINT32_MAX])" using assms(1) by (simp add: sorted_append)
  moreover have "\<not> UINT32_MAX \<le> c" using UINT32_MAX_ge [of c] assms(3) by (auto simp: order.antisym)
  ultimately show ?thesis using assms(1,2) by (subst (1 2) cr_mem_npts) auto
qed

lemma cr_invert_sorted:
  assumes "cr_inv cr" and "sorted (cr_pts cr)" "even (length (cr_pts cr))"
  shows "cr_result cr (\<lambda>pts. cr_canonical pts \<and>
      (\<forall>c. c \<noteq> UINT32_MAX \<longrightarrow> cr_mem pts c = (\<not> cr_mem (cr_pts cr) c)))
    (cr_invert cr)"
proof -
  let ?n = "cr_len cr"
  obtain r cr1 where cr1: "cr_realloc cr (?n + 2) = (r, cr1)" "cr_inv cr1" "cr_pts cr1 = cr_pts cr"
    "cr_len cr1 = ?n" "cr_realloc_func cr1 = cr_realloc_func cr"
    "r = 0 \<and> ?n + 2 \<le> cr_size cr1 \<or> r = -1 \<and> \<not> (\<forall>n. cr_realloc_func cr n)"
    using assms(1) by (rule cr_realloc_spec)
  show ?thesis
  proof (cases "r = 0")
    case False
    with cr1 show ?thesis by (auto simp: cr_invert_def cr_result_def Let_def)
  next
    case True
    let ?p = "cr_points cr1"
    let ?q = "0 # take ?n ?p @ UINT32_MAX # drop (?n + 2) ?p"
    let ?cr2 = "cr1\<lparr>cr_points := ?q, cr_len := ?n + 2\<rparr>"
    have size: "length ?p = cr_size cr1" "?n + 2 \<le> cr_size cr1"
      using True cr1 by (auto simp: cr_inv_def)
    then have p: "?p = ?p ! 0 # drop 1 ?p" "drop (?n + 1) ?p = ?p ! (?n + 1) # drop (?n + 2) ?p"
      using Cons_nth_drop_Suc [of 0 ?p] Cons_nth_drop_Suc [of "?n + 1" ?p] by auto
    have q: "(((take 1 ?p @ take ?n ?p @ drop (1 + ?n) ?p)[0 := 0])[?n + 1 := UINT32_MAX]) = ?q"
      using size p(2) by (cases ?p) (auto simp: list_update_append)
    have inv: "cr_inv ?cr2" using size by (simp add: cr_inv_def)
    have pts: "cr_pts ?cr2 = 0 # cr_pts cr @ [UINT32_MAX]"
      using size cr1(3,4) assms(1) by (simp add: cr_pts_def cr_inv_def)
    obtain cr3 where cr3: "cr_compress ?cr2 = Some cr3" "cr_inv cr3"
      "cr_realloc_func cr3 = cr_realloc_func cr" "cr_pts cr3 = compress_list (0 # cr_pts cr @ [UINT32_MAX])"
      using cr_compress_spec [OF inv] cr1(5) unfolding pts by auto
    have "cr_invert cr = Some (0, cr3)"
      using True cr1(1,4) size q cr3(1)
      by (simp add: cr_invert_def Let_def rd_n_def memcpy_def wr_def)
    moreover have "sorted (0 # cr_pts cr @ [UINT32_MAX])" "even (length (0 # cr_pts cr @ [UINT32_MAX]))"
      using assms(2,3) by (simp_all add: sorted_append)
    ultimately show ?thesis
      using cr3 compress_list_correct cr_mem_invert assms(2,3)
      by (simp add: cr_result_def)
  qed
qed

lemma cr_invert_spec:
  assumes "cr_inv cr" and "cr_canonical (cr_pts cr)"
  shows "cr_result cr (\<lambda>pts. cr_canonical pts \<and>
      (\<forall>c. c \<noteq> UINT32_MAX \<longrightarrow> cr_mem pts c = (\<not> cr_mem (cr_pts cr) c)))
    (cr_invert cr)"
  using cr_invert_sorted [OF assms(1)] cr_canonicalD [OF assms(2)] by blast

lemma cr_copy_spec:
  assumes "cr_inv cr" and "cr_inv cr1"
  shows "cr_result cr (\<lambda>pts. pts = cr_pts cr1) (cr_copy cr cr1)"
proof -
  obtain r cr' where "cr_realloc cr (cr_len cr1) = (r, cr')" "cr_inv cr'"
    "cr_realloc_func cr' = cr_realloc_func cr"
    "r = 0 \<and> cr_len cr1 \<le> cr_size cr' \<or> r = -1 \<and> \<not> (\<forall>n. cr_realloc_func cr n)"
    using cr_realloc_spec [OF assms(1), of "cr_len cr1"] by metis
  with assms(2) show ?thesis
    by (auto simp: cr_copy_def cr_result_def rd_n_def memcpy_def cr_inv_def cr_pts_def)
qed

section \<open>What a client of ranges relies on\<close>

text \<open>
  A user of ranges (the character class parser of the regular expression compiler) starts from the
  empty range, adds closed intervals one after the other, and finally may complement the result.
\<close>

fun add_ranges ::
  "('r \<Rightarrow> u32 \<Rightarrow> u32 \<Rightarrow> (int \<times> 'r) option) \<Rightarrow> 'r \<Rightarrow> (u32 \<times> u32) list \<Rightarrow> (int \<times> 'r) option" where
  "add_ranges add r [] = Some (0, r)"
| "add_ranges add r ((lo, hi) # rs) = do {
     (e, r) \<leftarrow> add r lo hi;
     if e \<noteq> 0 then Some (-1, r) else add_ranges add r rs }"

definition build_class ::
  "('r \<Rightarrow> u32 \<Rightarrow> u32 \<Rightarrow> (int \<times> 'r) option) \<Rightarrow> ('r \<Rightarrow> (int \<times> 'r) option) \<Rightarrow> 'r \<Rightarrow>
   (u32 \<times> u32) list \<Rightarrow> bool \<Rightarrow> (int \<times> 'r) option" where
  "build_class add complement r rs negate = do {
     (e, r) \<leftarrow> add_ranges add r rs;
     if e \<noteq> 0 then Some (-1, r) else if negate then complement r else Some (0, r) }"

locale interval_set =
  fixes wf :: "'r \<Rightarrow> bool"
    and granting :: "'r \<Rightarrow> bool"
    and mem :: "'r \<Rightarrow> u32 \<Rightarrow> bool"
    and add :: "'r \<Rightarrow> u32 \<Rightarrow> u32 \<Rightarrow> (int \<times> 'r) option"
    and complement :: "'r \<Rightarrow> (int \<times> 'r) option"
  assumes add_ok: "wf r \<Longrightarrow> lo \<le> hi \<Longrightarrow> hi < UINT32_MAX \<Longrightarrow>
      \<exists>e r'. add r lo hi = Some (e, r') \<and> (granting r \<longrightarrow> e = 0) \<and> granting r' = granting r \<and>
        (e = 0 \<longrightarrow> wf r' \<and> (\<forall>c. mem r' c = (mem r c \<or> lo \<le> c \<and> c \<le> hi)))"
    and complement_ok: "wf r \<Longrightarrow> \<exists>e r'. complement r = Some (e, r') \<and> (granting r \<longrightarrow> e = 0) \<and>
        (e = 0 \<longrightarrow> wf r' \<and> (\<forall>c. c \<noteq> UINT32_MAX \<longrightarrow> mem r' c = (\<not> mem r c)))"
begin

lemma add_ranges_ok:
  assumes "wf r" and "\<forall>(lo, hi) \<in> set rs. lo \<le> hi \<and> hi < UINT32_MAX"
  shows "\<exists>e r'. add_ranges add r rs = Some (e, r') \<and> (granting r \<longrightarrow> e = 0) \<and> granting r' = granting r \<and>
    (e = 0 \<longrightarrow> wf r' \<and> (\<forall>c. mem r' c = (mem r c \<or> (\<exists>(lo, hi) \<in> set rs. lo \<le> c \<and> c \<le> hi))))"
  using assms
proof (induction rs arbitrary: r)
  case Nil
  then show ?case by simp
next
  case (Cons x rs)
  obtain lo hi where x: "x = (lo, hi)" by (cases x)
  obtain e r1 where r1: "add r lo hi = Some (e, r1)" "granting r \<longrightarrow> e = 0" "granting r1 = granting r"
    "e = 0 \<Longrightarrow> wf r1 \<and> (\<forall>c. mem r1 c = (mem r c \<or> lo \<le> c \<and> c \<le> hi))"
    using add_ok [of r lo hi] Cons.prems x by auto
  show ?case
  proof (cases "e = 0")
    case False
    with r1 x show ?thesis by simp
  next
    case True
    then obtain e' r2 where r2: "add_ranges add r1 rs = Some (e', r2)"
      "granting r1 \<longrightarrow> e' = 0" "granting r2 = granting r1"
      "e' = 0 \<longrightarrow> wf r2 \<and> (\<forall>c. mem r2 c = (mem r1 c \<or> (\<exists>(lo, hi) \<in> set rs. lo \<le> c \<and> c \<le> hi)))"
      using Cons.IH [of r1] Cons.prems r1(4) by auto
    with True r1 x show ?thesis by auto
  qed
qed

lemma build_class_ok:
  assumes "wf r" and "\<And>c. \<not> mem r c" and "\<forall>(lo, hi) \<in> set rs. lo \<le> hi \<and> hi < UINT32_MAX"
  shows "\<exists>e r'. build_class add complement r rs negate = Some (e, r') \<and> (granting r \<longrightarrow> e = 0) \<and>
    (e = 0 \<longrightarrow> wf r' \<and> (\<forall>c. c \<noteq> UINT32_MAX \<longrightarrow>
      mem r' c = (negate \<noteq> (\<exists>(lo, hi) \<in> set rs. lo \<le> c \<and> c \<le> hi))))"
proof -
  obtain e r1 where r1: "add_ranges add r rs = Some (e, r1)"
    "granting r \<longrightarrow> e = 0" "granting r1 = granting r"
    "e = 0 \<longrightarrow> wf r1 \<and> (\<forall>c. mem r1 c = (mem r c \<or> (\<exists>(lo, hi) \<in> set rs. lo \<le> c \<and> c \<le> hi)))"
    using add_ranges_ok [OF assms(1,3)] by blast
  show ?thesis
  proof (cases "e = 0 \<and> negate")
    case True
    then obtain e' r2 where "complement r1 = Some (e', r2)" "granting r1 \<longrightarrow> e' = 0"
      "e' = 0 \<longrightarrow> wf r2 \<and> (\<forall>c. c \<noteq> UINT32_MAX \<longrightarrow> mem r2 c = (\<not> mem r1 c))"
      using complement_ok [of r1] r1(4) by blast
    with True r1 assms(2) show ?thesis by (auto simp: build_class_def)
  next
    case False
    with r1 assms(2) show ?thesis by (cases "e = 0") (auto simp: build_class_def)
  qed
qed

end

interpretation crs: interval_set "\<lambda>cr. cr_inv cr \<and> cr_canonical (cr_pts cr)"
  "\<lambda>cr. \<forall>n. cr_realloc_func cr n" "\<lambda>cr. cr_mem (cr_pts cr)" cr_union_interval cr_invert
proof
  fix r lo hi
  assume "cr_inv r \<and> cr_canonical (cr_pts r)" "lo \<le> hi" "hi < UINT32_MAX"
  then show "\<exists>e r'. cr_union_interval r lo hi = Some (e, r') \<and>
    ((\<forall>n. cr_realloc_func r n) \<longrightarrow> e = 0) \<and>
    (\<forall>n. cr_realloc_func r' n) = (\<forall>n. cr_realloc_func r n) \<and>
    (e = 0 \<longrightarrow> (cr_inv r' \<and> cr_canonical (cr_pts r')) \<and>
      (\<forall>c. cr_mem (cr_pts r') c = (cr_mem (cr_pts r) c \<or> lo \<le> c \<and> c \<le> hi)))"
    using cr_union_interval_spec [of r lo hi] by (auto simp: cr_result_def)
next
  fix r
  assume "cr_inv r \<and> cr_canonical (cr_pts r)"
  then show "\<exists>e r'. cr_invert r = Some (e, r') \<and> ((\<forall>n. cr_realloc_func r n) \<longrightarrow> e = 0) \<and>
    (e = 0 \<longrightarrow> (cr_inv r' \<and> cr_canonical (cr_pts r')) \<and>
      (\<forall>c. c \<noteq> UINT32_MAX \<longrightarrow> cr_mem (cr_pts r') c = (\<not> cr_mem (cr_pts r) c)))"
    using cr_invert_spec [of r] by (auto simp: cr_result_def)
qed

section \<open>Properties\<close>

text \<open>C36: \<open>cr_op\<close> on two canonical ranges computes their union, intersection or symmetric
  difference: whatever the allocator does it stays inside its arrays and returns 0 or -1, it returns
  0 when no allocation is refused, and with 0 the result is again canonical and contains exactly the
  code points the operation selects.\<close>

theorem cr_op_correct:
  assumes "cr_canonical a" and "cr_canonical b"
  shows "\<exists>r cr. cr_op (cr_init f) a b op = Some (r, cr) \<and> (r = 0 \<or> r = -1) \<and>
    ((\<forall>n. f n) \<longrightarrow> r = 0) \<and>
    (r = 0 \<longrightarrow> cr_inv cr \<and> cr_canonical (cr_pts cr) \<and>
      (\<forall>c. cr_mem (cr_pts cr) c = (case op of
          CR_OP_UNION \<Rightarrow> cr_mem a c \<or> cr_mem b c
        | CR_OP_INTER \<Rightarrow> cr_mem a c \<and> cr_mem b c
        | CR_OP_XOR \<Rightarrow> cr_mem a c \<noteq> cr_mem b c)))"
proof -
  have "cr_realloc_func (cr_init f) = f" "cr_len (cr_init f) = 0" by (simp_all add: cr_init_def)
  then show ?thesis
    using cr_op_spec [of "cr_init f" a b op] cr_canonicalD [OF assms(1)] cr_canonicalD [OF assms(2)]
    by (auto simp: cr_result_def cr_op_fun_def)
qed

theorem cr_op_correct_witness:
  "\<exists>cr. cr_op (cr_init (\<lambda>_. True)) [1, 5, 9, 12] [3, 10] CR_OP_XOR = Some (0, cr) \<and>
    cr_canonical (cr_pts cr)"
proof -
  have "cr_canonical [1, 5, 9, 12]" "cr_canonical [3, 10]" by (simp_all add: cr_canonical_def)
  from cr_op_correct [OF this, of "\<lambda>_. True" CR_OP_XOR] show ?thesis by auto
qed

text \<open>C37: \<open>cr_invert\<close> complements a canonical range: after a return value of 0, which it gives
  whenever the allocation is granted, every code point below \<^verbatim>\<open>UINT32_MAX\<close> is in the new range
  exactly when it was not in the old one, and the new range is canonical.\<close>

theorem cr_invert_correct:
  assumes "cr_inv cr" and "cr_canonical (cr_pts cr)"
  shows "\<exists>r cr'. cr_invert cr = Some (r, cr') \<and> (r = 0 \<or> r = -1) \<and>
    ((\<forall>n. cr_realloc_func cr n) \<longrightarrow> r = 0) \<and>
    (r = 0 \<longrightarrow> cr_inv cr' \<and> cr_canonical (cr_pts cr') \<and>
      (\<forall>c. c \<noteq> UINT32_MAX \<longrightarrow> cr_mem (cr_pts cr') c = (\<not> cr_mem (cr_pts cr) c)))"
  using cr_invert_spec [OF assms] by (auto simp: cr_result_def)

theorem cr_invert_correct_witness:
  "\<exists>cr'. cr_invert \<lparr>cr_len = 2, cr_size = 2, cr_points = [5, 9], cr_realloc_func = (\<lambda>_. True)\<rparr> =
      Some (0, cr') \<and> cr_canonical (cr_pts cr') \<and> cr_mem (cr_pts cr') 3 \<and> \<not> cr_mem (cr_pts cr') 7"
  using cr_invert_correct
    [of "\<lparr>cr_len = 2, cr_size = 2, cr_points = [5, 9], cr_realloc_func = (\<lambda>_. True)\<rparr>"]
  by (auto simp: cr_inv_def cr_canonical_def cr_pts_def UINT32_MAX_def)

text \<open>C38: a character class built as the regular expression compiler builds it, by adding closed
  intervals to the empty range with \<open>cr_union_interval\<close> and complementing it when it starts with a
  caret, contains exactly the code points of the intervals, or exactly the others; the array form
  stays canonical throughout.\<close>

theorem build_class_correct:
  assumes "\<forall>(lo, hi) \<in> set rs. lo \<le> hi \<and> hi < UINT32_MAX"
  shows "\<exists>e cr. build_class cr_union_interval cr_invert (cr_init f) rs negate = Some (e, cr) \<and>
    ((\<forall>n. f n) \<longrightarrow> e = 0) \<and>
    (e = 0 \<longrightarrow> (cr_inv cr \<and> cr_canonical (cr_pts cr)) \<and> (\<forall>c. c \<noteq> UINT32_MAX \<longrightarrow>
      cr_mem (cr_pts cr) c = (negate \<noteq> (\<exists>(lo, hi) \<in> set rs. lo \<le> c \<and> c \<le> hi))))"
  using crs.build_class_ok [of "cr_init f" rs negate] assms
  by (simp add: cr_canonical_def cr_init_def [of f, THEN arg_cong, of cr_realloc_func])

theorem build_class_correct_witness:
  "\<exists>cr. build_class cr_union_interval cr_invert (cr_init (\<lambda>_. True)) [(97, 122), (48, 57)] True = Some (0, cr) \<and>
    cr_inv cr \<and> cr_canonical (cr_pts cr) \<and> (\<forall>c. c \<noteq> UINT32_MAX \<longrightarrow>
      cr_mem (cr_pts cr) c = (\<not> (97 \<le> c \<and> c \<le> 122 \<or> 48 \<le> c \<and> c \<le> 57)))"
  using build_class_correct [of "[(97, 122), (48, 57)]" "\<lambda>_. True" True]
  by (auto simp: UINT32_MAX_def)

end
