(* ===== verification/Rqsort.thy ===== *)
theory Rqsort
  imports Cutils "HOL-Library.Multiset"
begin

text \<open>
  The sorting routine \<^verbatim>\<open>rqsort\<close> of \<^verbatim>\<open>src/qjs/cutils.c\<close>: a three-way quicksort with an explicit stack
  of 50 entries, a heap sort once 50 rounds were spent on a segment, and an insertion sort for
  segments of at most six elements. The array is a list whose element \<open>i\<close> stands for the \<open>size\<close> bytes
  at \<^verbatim>\<open>base + i * size\<close>, so a pointer is an index and \<^verbatim>\<open>p += size\<close> is \<open>p + 1\<close>; in particular the pairs
  \<^verbatim>\<open>i, pi\<close>, \<^verbatim>\<open>lt, plt\<close> and \<^verbatim>\<open>gt, pgt\<close> of the code, which always move together, are one index each,
  relative to \<^verbatim>\<open>ptr\<close>. Every read, swap and stack access is checked: \<open>None\<close> is an access outside the
  array or the stack. The comparison function is a parameter and may be inconsistent. The byte-wise
  exchange functions the code picks by alignment are modelled separately at the end, with the theorem
  that they exchange elements.
\<close>

section \<open>Operations\<close>

definition cmp_at :: "('a \<Rightarrow> 'a \<Rightarrow> int) \<Rightarrow> 'a list \<Rightarrow> nat \<Rightarrow> nat \<Rightarrow> int option" where
  "cmp_at cmp a p q = do { x \<leftarrow> rd a p; y \<leftarrow> rd a q; Some (cmp x y) }"

definition swap :: "'a list \<Rightarrow> nat \<Rightarrow> nat \<Rightarrow> 'a list option" where
  "swap a p q = do { x \<leftarrow> rd a p; y \<leftarrow> rd a q; a \<leftarrow> wr a p y; wr a q x }"

fun swap_block :: "'a list \<Rightarrow> nat \<Rightarrow> nat \<Rightarrow> nat \<Rightarrow> 'a list option" where
  "swap_block a p q 0 = Some a"
| "swap_block a p q (Suc span) = do { a \<leftarrow> swap a p q; swap_block a (Suc p) (Suc q) span }"

text \<open>The larger child of the heap node whose left child is \<open>c\<close>, in a heap of \<open>n\<close> elements at
  \<open>basep\<close>; and the loop that sifts node \<open>r\<close> down.\<close>

definition pick_child :: "('a \<Rightarrow> 'a \<Rightarrow> int) \<Rightarrow> 'a list \<Rightarrow> nat \<Rightarrow> nat \<Rightarrow> nat \<Rightarrow> nat option" where
  "pick_child cmp a basep n c =
     (if c < n - 1 then do {
        t \<leftarrow> cmp_at cmp a (basep + c) (basep + c + 1);
        Some (if t \<le> 0 then c + 1 else c) }
      else Some c)"

lemma pick_child_cases: "pick_child cmp a basep n c = Some c' \<Longrightarrow> c' = c \<or> c' = Suc c \<and> c < n - 1"
  by (auto simp: pick_child_def cmp_at_def split: if_splits bind_splits)

function sift_down :: "('a \<Rightarrow> 'a \<Rightarrow> int) \<Rightarrow> 'a list \<Rightarrow> nat \<Rightarrow> nat \<Rightarrow> nat \<Rightarrow> 'a list option" where
  "sift_down cmp a basep n r =
     (if r * 2 + 1 < n then do {
        c \<leftarrow> pick_child cmp a basep n (r * 2 + 1);
        t \<leftarrow> cmp_at cmp a (basep + r) (basep + c);
        if t > 0 then Some a
        else do { a \<leftarrow> swap a (basep + r) (basep + c); sift_down cmp a basep n c } }
      else Some a)"
  by pat_completeness auto
termination
  by (relation "measure (\<lambda>(cmp, a, basep, n, r). n - r)") (auto dest!: pick_child_cases)

declare sift_down.simps [simp del]

fun heapify_loop :: "('a \<Rightarrow> 'a \<Rightarrow> int) \<Rightarrow> 'a list \<Rightarrow> nat \<Rightarrow> nat \<Rightarrow> nat \<Rightarrow> 'a list option" where
  "heapify_loop cmp a basep n 0 = Some a"
| "heapify_loop cmp a basep n (Suc i) = do {
     a \<leftarrow> sift_down cmp a basep n i;
     heapify_loop cmp a basep n i }"

fun extract_loop :: "('a \<Rightarrow> 'a \<Rightarrow> int) \<Rightarrow> 'a list \<Rightarrow> nat \<Rightarrow> nat \<Rightarrow> 'a list option" where
  "extract_loop cmp a basep 0 = Some a"
| "extract_loop cmp a basep (Suc i) = do {
     a \<leftarrow> swap a basep (basep + Suc i);
     a \<leftarrow> sift_down cmp a basep (Suc i) 0;
     extract_loop cmp a basep i }"

definition heapsortx :: "('a \<Rightarrow> 'a \<Rightarrow> int) \<Rightarrow> 'a list \<Rightarrow> nat \<Rightarrow> nat \<Rightarrow> 'a list option" where
  "heapsortx cmp a basep nmemb =
     (if nmemb > 1 then do {
        a \<leftarrow> heapify_loop cmp a basep nmemb (nmemb div 2);
        extract_loop cmp a basep (nmemb - 1) }
      else Some a)"

definition med3 :: "('a \<Rightarrow> 'a \<Rightarrow> int) \<Rightarrow> 'a list \<Rightarrow> nat \<Rightarrow> nat \<Rightarrow> nat \<Rightarrow> nat option" where
  "med3 cmp arr a b c = do {
     ab \<leftarrow> cmp_at cmp arr a b;
     bc \<leftarrow> cmp_at cmp arr b c;
     ac \<leftarrow> cmp_at cmp arr a c;
     Some (if ab < 0 then (if bc < 0 then b else if ac < 0 then c else a)
           else (if bc > 0 then b else if ac < 0 then a else c)) }"

text \<open>The two scanning loops of the partition and the loop around them. Indices are relative to
  \<open>ptr\<close>, where the pivot stands.\<close>

function scan_up ::
  "('a \<Rightarrow> 'a \<Rightarrow> int) \<Rightarrow> 'a list \<Rightarrow> nat \<Rightarrow> nat \<Rightarrow> nat \<Rightarrow> nat \<Rightarrow> ('a list \<times> nat \<times> nat) option" where
  "scan_up cmp a ptr i lt j =
     (if i < j then do {
        c \<leftarrow> cmp_at cmp a ptr (ptr + i);
        if c \<ge> 0 then
          if c = 0 then do { a \<leftarrow> swap a (ptr + lt) (ptr + i); scan_up cmp a ptr (i + 1) (lt + 1) j }
          else scan_up cmp a ptr (i + 1) lt j
        else Some (a, i, lt) }
      else Some (a, i, lt))"
  by pat_completeness auto
termination by (relation "measure (\<lambda>(cmp, a, ptr, i, lt, j). j - i)") auto

declare scan_up.simps [simp del]

fun scan_down ::
  "('a \<Rightarrow> 'a \<Rightarrow> int) \<Rightarrow> 'a list \<Rightarrow> nat \<Rightarrow> nat \<Rightarrow> nat \<Rightarrow> nat \<Rightarrow> ('a list \<times> nat \<times> nat) option" where
  "scan_down cmp a ptr i gt 0 = None"
| "scan_down cmp a ptr i gt (Suc j) =
     (if i < j then do {
        c \<leftarrow> cmp_at cmp a ptr (ptr + j);
        if c \<le> 0 then
          if c = 0 then do { a \<leftarrow> swap a (ptr + (gt - 1)) (ptr + j); scan_down cmp a ptr i (gt - 1) j }
          else scan_down cmp a ptr i gt j
        else Some (a, gt, j) }
      else Some (a, gt, j))"

lemma scan_down_le: "scan_down cmp a ptr i gt j = Some (a', gt', j') \<Longrightarrow> j' < j"
proof (induction cmp a ptr i gt j rule: scan_down.induct)
  case (2 cmp a ptr i gt j)
  from "2.prems" show ?case
    by (auto split: if_splits bind_splits intro: less_SucI dest: "2.IH")
qed simp

function part_loop ::
  "('a \<Rightarrow> 'a \<Rightarrow> int) \<Rightarrow> 'a list \<Rightarrow> nat \<Rightarrow> nat \<Rightarrow> nat \<Rightarrow> nat \<Rightarrow> nat \<Rightarrow> ('a list \<times> nat \<times> nat \<times> nat) option"
where
  "part_loop cmp a ptr i lt gt j = do {
     (a, i, lt) \<leftarrow> scan_up cmp a ptr i lt j;
     (a, gt, j) \<leftarrow> scan_down cmp a ptr i gt j;
     if i \<ge> j then Some (a, i, lt, gt)
     else do { a \<leftarrow> swap a (ptr + i) (ptr + j); part_loop cmp a ptr (i + 1) lt gt j } }"
  by pat_completeness auto
termination
  by (relation "measure (\<lambda>(cmp, a, ptr, i, lt, gt, j). j)") (auto dest: scan_down_le)

declare part_loop.simps [simp del]

text \<open>One round of the inner loop on the \<open>nmemb\<close> elements at \<open>ptr\<close>: choose the pivot, partition, and
  move the elements equal to the pivot to the middle. The result holds the number \<open>lt\<close> of smaller
  elements and the index \<open>gt\<close> of the first larger one.\<close>

definition partition3 ::
  "('a \<Rightarrow> 'a \<Rightarrow> int) \<Rightarrow> 'a list \<Rightarrow> nat \<Rightarrow> nat \<Rightarrow> ('a list \<times> nat \<times> nat) option" where
  "partition3 cmp a ptr nmemb = (let m4 = nmemb div 4 in do {
     m \<leftarrow> med3 cmp a (ptr + m4) (ptr + 2 * m4) (ptr + 3 * m4);
     a \<leftarrow> swap a ptr m;
     (a, i, lt, gt) \<leftarrow> part_loop cmp a ptr 1 1 nmemb nmemb;
     let span = min lt (i - lt);
     a \<leftarrow> swap_block a ptr (ptr + i - span) span;
     let span = min (nmemb - gt) (gt - i);
     a \<leftarrow> swap_block a (ptr + i) (ptr + nmemb - span) span;
     Some (a, i - lt, nmemb - (gt - i)) })"

text \<open>The stack holds a base, a count and a depth per entry, the top first; a push onto a stack of
  50 entries would leave the C array.\<close>

type_synonym seg = "nat \<times> nat \<times> nat"

definition push_seg :: "seg list \<Rightarrow> seg \<Rightarrow> seg list option" where
  "push_seg st e = (if length st < 50 then Some (e # st) else None)"

function rqsort_inner ::
  "('a \<Rightarrow> 'a \<Rightarrow> int) \<Rightarrow> 'a list \<Rightarrow> nat \<Rightarrow> nat \<Rightarrow> nat \<Rightarrow> seg list \<Rightarrow>
   ('a list \<times> nat \<times> nat \<times> seg list) option" where
  "rqsort_inner cmp a ptr nmemb depth st =
     (if nmemb > 6 then
        if depth + 1 > 50 then do { a \<leftarrow> heapsortx cmp a ptr nmemb; Some (a, ptr, 0, st) }
        else do {
          (a, lt, gt) \<leftarrow> partition3 cmp a ptr nmemb;
          if lt > nmemb - gt then do {
            st \<leftarrow> push_seg st (ptr, lt, depth + 1);
            rqsort_inner cmp a (ptr + gt) (nmemb - gt) (depth + 1) st }
          else do {
            st \<leftarrow> push_seg st (ptr + gt, nmemb - gt, depth + 1);
            rqsort_inner cmp a ptr lt (depth + 1) st } }
      else Some (a, ptr, nmemb, st))"
  by pat_completeness auto
termination by (relation "measure (\<lambda>(cmp, a, ptr, nmemb, depth, st). 50 - depth)") auto

declare rqsort_inner.simps [simp del]

fun insert_loop :: "('a \<Rightarrow> 'a \<Rightarrow> int) \<Rightarrow> 'a list \<Rightarrow> nat \<Rightarrow> nat \<Rightarrow> 'a list option" where
  "insert_loop cmp a ptr 0 = Some a"
| "insert_loop cmp a ptr (Suc j) = do {
     c \<leftarrow> cmp_at cmp a (ptr + j) (ptr + Suc j);
     if c > 0 then do { a \<leftarrow> swap a (ptr + Suc j) (ptr + j); insert_loop cmp a ptr j }
     else Some a }"

function insertion_sort :: "('a \<Rightarrow> 'a \<Rightarrow> int) \<Rightarrow> 'a list \<Rightarrow> nat \<Rightarrow> nat \<Rightarrow> nat \<Rightarrow> 'a list option" where
  "insertion_sort cmp a ptr nmemb i =
     (if i < nmemb then do { a \<leftarrow> insert_loop cmp a ptr i; insertion_sort cmp a ptr nmemb (i + 1) }
      else Some a)"
  by pat_completeness auto
termination by (relation "measure (\<lambda>(cmp, a, ptr, nmemb, i). nmemb - i)") auto

declare insertion_sort.simps [simp del]

text \<open>The outer loop ends because of the depths alone: an entry of depth \<open>d\<close> is replaced by entries of
  greater depths, at most one per depth up to 50.\<close>

definition seg_weight :: "seg list \<Rightarrow> nat" where
  "seg_weight st = (\<Sum>(ptr, nmemb, depth) \<leftarrow> st. 2 ^ (51 - depth))"

lemma seg_weight_simps [simp]:
  "seg_weight [] = 0" "seg_weight ((p, n, d) # st) = 2 ^ (51 - d) + seg_weight st"
  by (simp_all add: seg_weight_def)

lemma push_seg_weight:
  "push_seg st (p, n, d) = Some st' \<Longrightarrow> seg_weight st' = 2 ^ (51 - d) + seg_weight st"
  by (auto simp: push_seg_def split: if_splits)

lemma rqsort_inner_weight:
  "rqsort_inner cmp a ptr nmemb depth st = Some (a', ptr', nmemb', st') \<Longrightarrow>
     seg_weight st' < seg_weight st + 2 ^ (51 - depth)"
proof (induction cmp a ptr nmemb depth st rule: rqsort_inner.induct)
  case (1 cmp a ptr nmemb depth st)
  have step: "seg_weight st' < 2 ^ (51 - depth) + seg_weight st"
    if "depth + 1 \<le> 50" "seg_weight st' < (2 ^ (51 - (depth + 1)) + seg_weight st) + 2 ^ (51 - (depth + 1))"
  proof -
    have "51 - depth = Suc (51 - (depth + 1))" using that(1) by simp
    then show ?thesis using that(2) by simp
  qed
  show ?case
  proof (cases "nmemb > 6 \<and> depth + 1 \<le> 50")
    case False
    with "1.prems" show ?thesis by (subst (asm) rqsort_inner.simps) (auto split: if_splits bind_splits)
  next
    case True
    then obtain a1 lt gt where p: "partition3 cmp a ptr nmemb = Some (a1, lt, gt)"
      using "1.prems" by (subst (asm) rqsort_inner.simps) (auto split: bind_splits)
    show ?thesis
    proof (cases "lt > nmemb - gt")
      case big: True
      then obtain st1 where st1: "push_seg st (ptr, lt, depth + 1) = Some st1"
        "rqsort_inner cmp a1 (ptr + gt) (nmemb - gt) (depth + 1) st1 = Some (a', ptr', nmemb', st')"
        using "1.prems" True p by (subst (asm) rqsort_inner.simps) (auto split: bind_splits)
      from "1.IH"(1) [OF _ _ p refl refl big st1] True step st1(1)
      show ?thesis by (auto simp: push_seg_weight)
    next
      case small: False
      then obtain st1 where st1: "push_seg st (ptr + gt, nmemb - gt, depth + 1) = Some st1"
        "rqsort_inner cmp a1 ptr lt (depth + 1) st1 = Some (a', ptr', nmemb', st')"
        using "1.prems" True p by (subst (asm) rqsort_inner.simps) (auto split: bind_splits)
      from "1.IH"(2) [OF _ _ p refl refl small st1] True step st1(1)
      show ?thesis by (auto simp: push_seg_weight)
    qed
  qed
qed

function rqsort_loop :: "('a \<Rightarrow> 'a \<Rightarrow> int) \<Rightarrow> 'a list \<Rightarrow> seg list \<Rightarrow> 'a list option" where
  "rqsort_loop cmp a [] = Some a"
| "rqsort_loop cmp a ((ptr, nmemb, depth) # st) = do {
     (a, ptr, nmemb, st) \<leftarrow> rqsort_inner cmp a ptr nmemb depth st;
     a \<leftarrow> insertion_sort cmp a ptr nmemb 1;
     rqsort_loop cmp a st }"
  by pat_completeness auto
termination
  by (relation "measure (\<lambda>(cmp, a, st). seg_weight st)")
    (auto dest!: rqsort_inner_weight simp: add.commute)

definition rqsort :: "'a list \<Rightarrow> nat \<Rightarrow> nat \<Rightarrow> ('a \<Rightarrow> 'a \<Rightarrow> int) \<Rightarrow> 'a list option" where
  "rqsort a nmemb sz cmp =
     (if nmemb < 2 \<or> sz \<le> 0 then Some a else rqsort_loop cmp a [(0, nmemb, 0)])"

section \<open>Rearranging a segment of the array\<close>

text \<open>\<open>perm_in a a' l u\<close>: the elements at positions \<open>l\<close> to \<open>u\<close> (excluded) were rearranged and nothing
  else changed.\<close>

definition perm_in :: "'a list \<Rightarrow> 'a list \<Rightarrow> nat \<Rightarrow> nat \<Rightarrow> bool" where
  "perm_in a a' l u \<longleftrightarrow> length a' = length a \<and> mset a' = mset a \<and>
     (\<forall>k. k < length a \<longrightarrow> k < l \<or> u \<le> k \<longrightarrow> a' ! k = a ! k)"

lemma perm_in_refl [simp]: "perm_in a a l u"
  by (simp add: perm_in_def)

lemma perm_in_trans [trans]: "perm_in a b l u \<Longrightarrow> perm_in b c l u \<Longrightarrow> perm_in a c l u"
  by (auto simp: perm_in_def)

lemma perm_in_mono: "perm_in a a' l u \<Longrightarrow> l' \<le> l \<Longrightarrow> u \<le> u' \<Longrightarrow> perm_in a a' l' u'"
  by (auto simp: perm_in_def)

lemma perm_in_length: "perm_in a a' l u \<Longrightarrow> length a' = length a"
  by (simp add: perm_in_def)

lemma perm_in_outside:
  "perm_in a a' l u \<Longrightarrow> k < l \<or> u \<le> k \<Longrightarrow> k < length a \<Longrightarrow> a' ! k = a ! k"
  by (auto simp: perm_in_def)

lemma swap_spec:
  assumes "p < length a" and "q < length a"
  shows "swap a p q = Some (a[p := a ! q, q := a ! p])"
  using assms by (simp add: swap_def rd_def wr_def)

lemma cmp_at_spec: "p < length a \<Longrightarrow> q < length a \<Longrightarrow> cmp_at cmp a p q = Some (cmp (a ! p) (a ! q))"
  by (simp add: cmp_at_def rd_def)

lemma perm_in_swap:
  assumes "l \<le> p" "p < u" "l \<le> q" "q < u" "u \<le> length a"
  shows "perm_in a (a[p := a ! q, q := a ! p]) l u"
  using assms by (auto simp: perm_in_def nth_list_update mset_swap)

lemma perm_in_slice:
  assumes "perm_in a a' l u" and "l \<le> u" "u \<le> length a"
  shows "mset (take (u - l) (drop l a')) = mset (take (u - l) (drop l a))"
proof -
  have split: "xs = take l xs @ take (u - l) (drop l xs) @ drop u xs" for xs :: "'a list"
    using assms(2) by (metis append_assoc append_take_drop_id take_drop_split)
  have "take l a' = take l a" "drop u a' = drop u a"
    using assms by (auto simp: perm_in_def intro!: nth_equalityI)
  with assms(1) show ?thesis
    using arg_cong [OF split [of a], of mset] arg_cong [OF split [of a'], of mset]
    by (simp add: perm_in_def)
qed

lemma perm_in_all:
  assumes "perm_in a a' l u" and "u \<le> length a"
    and "\<And>k. l \<le> k \<Longrightarrow> k < u \<Longrightarrow> P (a ! k)" and "l \<le> k" "k < u"
  shows "P (a' ! k)"
proof -
  let ?s = "\<lambda>xs. take (u - l) (drop l xs)"
  have len: "length a' = length a" using assms(1) by (rule perm_in_length)
  have "a' ! k \<in> set (?s a')"
    using assms(2,4,5) len by (auto simp: in_set_conv_nth intro!: exI [of _ "k - l"])
  also have "set (?s a') = set (?s a)"
    using perm_in_slice [OF assms(1)] assms(2,4,5) by (metis le_trans less_imp_le_nat set_mset_mset)
  finally obtain i where "i < u - l" "a' ! k = a ! (l + i)"
    using assms(2) by (auto simp: in_set_conv_nth)
  then show ?thesis using assms(3) [of "l + i"] by simp
qed

lemma perm_in_all_offset:
  assumes "perm_in a a' b (b + n)" and "b + n \<le> length a"
    and "\<And>k. k < n \<Longrightarrow> P (a ! (b + k))" and "k < n"
  shows "P (a' ! (b + k))"
proof (rule perm_in_all [OF assms(1,2)])
  fix k assume "b \<le> k" "k < b + n"
  then show "P (a ! k)" using assms(3) [of "k - b"] by auto
qed (use assms(4) in auto)

lemma swap_block_spec:
  assumes "p + n \<le> q" and "q + n \<le> length a"
  shows "\<exists>a'. swap_block a p q n = Some a' \<and> perm_in a a' p (q + n) \<and>
    (\<forall>k < n. a' ! (p + k) = a ! (q + k) \<and> a' ! (q + k) = a ! (p + k)) \<and>
    (\<forall>k. p + n \<le> k \<and> k < q \<longrightarrow> a' ! k = a ! k)"
  using assms
proof (induction n arbitrary: a p q)
  case 0
  then show ?case by simp
next
  case (Suc n)
  let ?a = "a[p := a ! q, q := a ! p]"
  obtain a' where a': "swap_block ?a (Suc p) (Suc q) n = Some a'" "perm_in ?a a' (Suc p) (Suc q + n)"
    "\<And>k. k < n \<Longrightarrow> a' ! (Suc p + k) = ?a ! (Suc q + k) \<and> a' ! (Suc q + k) = ?a ! (Suc p + k)"
    "\<And>k. Suc p + n \<le> k \<Longrightarrow> k < Suc q \<Longrightarrow> a' ! k = ?a ! k"
    using Suc.IH [of "Suc p" "Suc q" ?a] Suc.prems by auto
  have run: "swap_block a p q (Suc n) = Some a'"
    using Suc.prems a'(1) by (simp add: swap_spec)
  have "perm_in a ?a p (q + Suc n)" using Suc.prems by (intro perm_in_swap) auto
  then have perm: "perm_in a a' p (q + Suc n)"
    using perm_in_mono [OF a'(2), of p "q + Suc n"] by (auto intro: perm_in_trans)
  have p: "a' ! p = a ! q" "a' ! q = a ! p"
    using perm_in_outside [OF a'(2), of p] a'(4) [of q] Suc.prems by (auto simp: nth_list_update)
  have blocks: "a' ! (p + k) = a ! (q + k) \<and> a' ! (q + k) = a ! (p + k)" if "k < Suc n" for k
    using p a'(3) [of "k - 1"] that Suc.prems by (cases k) (auto simp: nth_list_update)
  have "a' ! k = a ! k" if "p + Suc n \<le> k" "k < q" for k
    using a'(4) [of k] that by (auto simp: nth_list_update)
  with run perm blocks show ?case by blast
qed

section \<open>The partition, for an arbitrary comparison function\<close>

definition part_inv ::
  "('a \<Rightarrow> 'a \<Rightarrow> int) \<Rightarrow> 'a list \<Rightarrow> nat \<Rightarrow> nat \<Rightarrow> nat \<Rightarrow> nat \<Rightarrow> nat \<Rightarrow> nat \<Rightarrow> bool" where
  "part_inv cmp a ptr n i lt gt j \<longleftrightarrow>
     1 \<le> lt \<and> lt \<le> i \<and> i \<le> j \<and> j \<le> gt \<and> gt \<le> n \<and> ptr + n \<le> length a \<and>
     (\<forall>k. 1 \<le> k \<and> k < lt \<longrightarrow> cmp (a ! ptr) (a ! (ptr + k)) = 0) \<and>
     (\<forall>k. lt \<le> k \<and> k < i \<longrightarrow> cmp (a ! ptr) (a ! (ptr + k)) > 0) \<and>
     (\<forall>k. j \<le> k \<and> k < gt \<longrightarrow> cmp (a ! ptr) (a ! (ptr + k)) < 0) \<and>
     (\<forall>k. gt \<le> k \<and> k < n \<longrightarrow> cmp (a ! ptr) (a ! (ptr + k)) = 0)"

lemma scan_up_spec:
  assumes "part_inv cmp a ptr n i lt gt j"
  shows "\<exists>a' i' lt'. scan_up cmp a ptr i lt j = Some (a', i', lt') \<and> perm_in a a' (ptr + 1) (ptr + n) \<and>
    part_inv cmp a' ptr n i' lt' gt j \<and> (i' = j \<or> cmp (a' ! ptr) (a' ! (ptr + i')) < 0)"
  using assms
proof (induction cmp a ptr i lt j rule: scan_up.induct)
  case (1 cmp a ptr i lt j)
  note inv = "1.prems"
  show ?case
  proof (cases "i < j")
    case False
    with inv show ?thesis by (subst scan_up.simps) (auto simp: part_inv_def)
  next
    case True
    let ?c = "cmp (a ! ptr) (a ! (ptr + i))"
    have c: "cmp_at cmp a ptr (ptr + i) = Some ?c"
      using inv True by (intro cmp_at_spec) (auto simp: part_inv_def)
    consider "?c < 0" | "?c = 0" | "?c > 0" by linarith
    then show ?thesis
    proof cases
      case 1
      with c True inv show ?thesis by (subst scan_up.simps) auto
    next
      case 2
      let ?a = "a[ptr + lt := a ! (ptr + i), ptr + i := a ! (ptr + lt)]"
      have sw: "swap a (ptr + lt) (ptr + i) = Some ?a"
        using inv True by (intro swap_spec) (auto simp: part_inv_def)
      have perm: "perm_in a ?a (ptr + 1) (ptr + n)"
        using inv True by (intro perm_in_swap) (auto simp: part_inv_def)
      have "part_inv cmp ?a ptr n (i + 1) (lt + 1) gt j"
        using inv True 2 by (auto simp: part_inv_def nth_list_update less_Suc_eq)
      from "1.IH"(1) [OF True c _ _ sw this] 2 obtain a' i' lt' where
        "scan_up cmp ?a ptr (i + 1) (lt + 1) j = Some (a', i', lt')" "perm_in ?a a' (ptr + 1) (ptr + n)"
        "part_inv cmp a' ptr n i' lt' gt j" "i' = j \<or> cmp (a' ! ptr) (a' ! (ptr + i')) < 0"
        by auto
      with True c 2 sw perm show ?thesis by (subst scan_up.simps) (auto intro: perm_in_trans)
    next
      case 3
      have "part_inv cmp a ptr n (i + 1) lt gt j"
        using inv True 3 by (auto simp: part_inv_def less_Suc_eq)
      from "1.IH"(2) [OF True c _ _ this] 3 True c show ?thesis
        by (subst scan_up.simps) auto
    qed
  qed
qed

lemma scan_down_spec:
  assumes "part_inv cmp a ptr n i lt gt j" and "i = j \<or> cmp (a ! ptr) (a ! (ptr + i)) < 0"
  shows "\<exists>a' gt' j'. scan_down cmp a ptr i gt j = Some (a', gt', j') \<and> perm_in a a' (ptr + 1) (ptr + n) \<and>
    (if i < j' then part_inv cmp a' ptr n i lt gt' (j' + 1) \<and> cmp (a' ! ptr) (a' ! (ptr + i)) < 0 \<and>
        cmp (a' ! ptr) (a' ! (ptr + j')) > 0
     else part_inv cmp a' ptr n i lt gt' i)"
  using assms
proof (induction cmp a ptr i gt j rule: scan_down.induct)
  case (1 cmp a ptr i gt)
  then show ?case by (auto simp: part_inv_def)
next
  case (2 cmp a ptr i gt j)
  note inv = "2.prems"
  show ?case
  proof (cases "i < j")
    case False
    then have "part_inv cmp a ptr n i lt gt i"
      using inv by (auto simp: part_inv_def le_Suc_eq) (metis le_antisym not_less_eq_eq)
    with False show ?thesis by auto
  next
    case True
    let ?c = "cmp (a ! ptr) (a ! (ptr + j))"
    have c: "cmp_at cmp a ptr (ptr + j) = Some ?c"
      using inv True by (intro cmp_at_spec) (auto simp: part_inv_def)
    consider "?c > 0" | "?c = 0" | "?c < 0" by linarith
    then show ?thesis
    proof cases
      case 1
      with c True inv show ?thesis by auto
    next
      case 2
      let ?a = "a[ptr + (gt - 1) := a ! (ptr + j), ptr + j := a ! (ptr + (gt - 1))]"
      have sw: "swap a (ptr + (gt - 1)) (ptr + j) = Some ?a"
        using inv True by (intro swap_spec) (auto simp: part_inv_def)
      have perm: "perm_in a ?a (ptr + 1) (ptr + n)"
        using inv True by (intro perm_in_swap) (auto simp: part_inv_def)
      have inv': "part_inv cmp ?a ptr n i lt (gt - 1) j" "i = j \<or> cmp (?a ! ptr) (?a ! (ptr + i)) < 0"
      proof -
        obtain g where g: "gt = Suc g" using inv True by (cases gt) (auto simp: part_inv_def)
        show "part_inv cmp ?a ptr n i lt (gt - 1) j" "i = j \<or> cmp (?a ! ptr) (?a ! (ptr + i)) < 0"
          using inv True 2 unfolding g by (auto simp: part_inv_def nth_list_update Suc_le_eq)
      qed
      from "2.IH"(1) [OF True c _ _ sw inv'] 2 obtain a' gt' j' where
        "scan_down cmp ?a ptr i (gt - 1) j = Some (a', gt', j')" "perm_in ?a a' (ptr + 1) (ptr + n)"
        "if i < j' then part_inv cmp a' ptr n i lt gt' (j' + 1) \<and> cmp (a' ! ptr) (a' ! (ptr + i)) < 0 \<and>
            cmp (a' ! ptr) (a' ! (ptr + j')) > 0
         else part_inv cmp a' ptr n i lt gt' i"
        by auto
      moreover have "perm_in a a' (ptr + 1) (ptr + n)"
        using perm calculation(2) by (rule perm_in_trans)
      ultimately show ?thesis using True c 2 sw by simp
    next
      case 3
      have inv': "part_inv cmp a ptr n i lt gt j"
        using inv True 3 by (auto simp: part_inv_def Suc_le_eq elim!: le_neq_implies_less)
      have "i = j \<or> cmp (a ! ptr) (a ! (ptr + i)) < 0" using inv(2) True by auto
      from "2.IH"(2) [OF True c _ _ inv' this] 3 True c show ?thesis by auto
    qed
  qed
qed

lemma part_loop_spec:
  assumes "part_inv cmp a ptr n i lt gt j"
  shows "\<exists>a' i' lt' gt'. part_loop cmp a ptr i lt gt j = Some (a', i', lt', gt') \<and>
    perm_in a a' (ptr + 1) (ptr + n) \<and> part_inv cmp a' ptr n i' lt' gt' i'"
  using assms
proof (induction cmp a ptr i lt gt j rule: part_loop.induct)
  case (1 cmp a ptr i lt gt j)
  obtain a1 i1 lt1 where up: "scan_up cmp a ptr i lt j = Some (a1, i1, lt1)"
    "perm_in a a1 (ptr + 1) (ptr + n)" "part_inv cmp a1 ptr n i1 lt1 gt j"
    "i1 = j \<or> cmp (a1 ! ptr) (a1 ! (ptr + i1)) < 0"
    using scan_up_spec [OF "1.prems"] by blast
  obtain a2 gt2 j2 where dn: "scan_down cmp a1 ptr i1 gt j = Some (a2, gt2, j2)"
    "perm_in a1 a2 (ptr + 1) (ptr + n)"
    "if i1 < j2 then part_inv cmp a2 ptr n i1 lt1 gt2 (j2 + 1) \<and> cmp (a2 ! ptr) (a2 ! (ptr + i1)) < 0 \<and>
        cmp (a2 ! ptr) (a2 ! (ptr + j2)) > 0
     else part_inv cmp a2 ptr n i1 lt1 gt2 i1"
    using scan_down_spec [OF up(3,4)] by blast
  have perm2: "perm_in a a2 (ptr + 1) (ptr + n)" using up(2) dn(2) by (rule perm_in_trans)
  show ?case
  proof (cases "i1 < j2")
    case False
    with up dn perm2 show ?thesis by (subst part_loop.simps) auto
  next
    case True
    let ?a = "a2[ptr + i1 := a2 ! (ptr + j2), ptr + j2 := a2 ! (ptr + i1)]"
    have inv: "part_inv cmp a2 ptr n i1 lt1 gt2 (j2 + 1)" "cmp (a2 ! ptr) (a2 ! (ptr + i1)) < 0"
      "cmp (a2 ! ptr) (a2 ! (ptr + j2)) > 0" using dn(3) True by auto
    have sw: "swap a2 (ptr + i1) (ptr + j2) = Some ?a"
      using inv(1) True by (intro swap_spec) (auto simp: part_inv_def)
    have perm3: "perm_in a2 ?a (ptr + 1) (ptr + n)"
      using inv(1) True by (intro perm_in_swap) (auto simp: part_inv_def)
    have "part_inv cmp ?a ptr n (i1 + 1) lt1 gt2 j2"
      using inv True by (auto simp: part_inv_def nth_list_update less_Suc_eq)
    from "1.IH" [OF up(1) refl refl dn(1) refl refl _ sw this] True obtain a' i' lt' gt' where
      "part_loop cmp ?a ptr (i1 + 1) lt1 gt2 j2 = Some (a', i', lt', gt')"
      "perm_in ?a a' (ptr + 1) (ptr + n)" "part_inv cmp a' ptr n i' lt' gt' i'" by auto
    moreover have "perm_in a a' (ptr + 1) (ptr + n)"
      using perm2 perm3 calculation(2) by (blast intro: perm_in_trans)
    ultimately show ?thesis using up(1) dn(1) sw True by (subst part_loop.simps) simp
  qed
qed

text \<open>Swapping the shorter of two adjacent zones with the far end of the other exchanges the zones.\<close>

lemma swap_zones:
  assumes "p + x + y \<le> length a"
    and P: "\<And>k. p \<le> k \<Longrightarrow> k < p + x \<Longrightarrow> P (a ! k)"
    and Q: "\<And>k. p + x \<le> k \<Longrightarrow> k < p + x + y \<Longrightarrow> Q (a ! k)"
  shows "\<exists>a'. swap_block a p (p + x + y - min x y) (min x y) = Some a' \<and> perm_in a a' p (p + x + y) \<and>
    (\<forall>k. p \<le> k \<and> k < p + y \<longrightarrow> Q (a' ! k)) \<and> (\<forall>k. p + y \<le> k \<and> k < p + x + y \<longrightarrow> P (a' ! k))"
proof -
  let ?m = "min x y" let ?q = "p + x + y - min x y"
  obtain a' where run: "swap_block a p ?q ?m = Some a'" and perm: "perm_in a a' p (?q + ?m)"
    and sw: "\<And>k. k < ?m \<Longrightarrow> a' ! (p + k) = a ! (?q + k)" "\<And>k. k < ?m \<Longrightarrow> a' ! (?q + k) = a ! (p + k)"
    and mid: "\<And>k. p + ?m \<le> k \<Longrightarrow> k < ?q \<Longrightarrow> a' ! k = a ! k"
  proof -
    have "p + ?m \<le> ?q" "?q + ?m \<le> length a" using assms(1) by (auto simp: min_def)
    from swap_block_spec [OF this] show thesis using that by blast
  qed
  have "Q (a' ! k)" if "p \<le> k" "k < p + y" for k
  proof (cases "k < p + ?m")
    case True
    then show ?thesis using sw(1) [of "k - p"] Q [of "?q + (k - p)"] that by (auto simp: min_def split: if_splits)
  next
    case False
    then show ?thesis using mid [of k] Q [of k] that by (auto simp: min_def split: if_splits)
  qed
  moreover have "P (a' ! k)" if "p + y \<le> k" "k < p + x + y" for k
  proof (cases "?q \<le> k")
    case True
    then show ?thesis using sw(2) [of "k - ?q"] P [of "p + (k - ?q)"] that by (auto simp: min_def split: if_splits)
  next
    case False
    then show ?thesis using mid [of k] P [of k] that by (auto simp: min_def split: if_splits)
  qed
  ultimately show ?thesis using run perm by auto
qed

lemma med3_spec:
  assumes "a < length arr" "b < length arr" "c < length arr"
  shows "\<exists>m. med3 cmp arr a b c = Some m \<and> m \<in> {a, b, c}"
  using assms by (auto simp: med3_def cmp_at_spec)

definition parted :: "('a \<Rightarrow> 'a \<Rightarrow> int) \<Rightarrow> 'a list \<Rightarrow> nat \<Rightarrow> nat \<Rightarrow> nat \<Rightarrow> nat \<Rightarrow> bool" where
  "parted cmp a ptr n lt gt \<longleftrightarrow> (\<exists>v.
     (\<forall>k. ptr \<le> k \<and> k < ptr + lt \<longrightarrow> cmp v (a ! k) > 0) \<and>
     (\<forall>k. ptr + lt \<le> k \<and> k < ptr + gt \<longrightarrow> a ! k = v \<or> cmp v (a ! k) = 0) \<and>
     (\<forall>k. ptr + gt \<le> k \<and> k < ptr + n \<longrightarrow> cmp v (a ! k) < 0))"

lemma partition3_spec:
  assumes "6 < n" and "ptr + n \<le> length a"
  shows "\<exists>a' lt gt. partition3 cmp a ptr n = Some (a', lt, gt) \<and> perm_in a a' ptr (ptr + n) \<and>
    lt < gt \<and> gt \<le> n \<and> parted cmp a' ptr n lt gt"
proof -
  let ?m4 = "n div 4"
  have m4: "1 \<le> ?m4" "3 * ?m4 < n" using assms(1) by auto
  obtain m where m: "med3 cmp a (ptr + ?m4) (ptr + 2 * ?m4) (ptr + 3 * ?m4) = Some m"
    "m \<in> {ptr + ?m4, ptr + 2 * ?m4, ptr + 3 * ?m4}"
    using med3_spec [of "ptr + ?m4" a "ptr + 2 * ?m4" "ptr + 3 * ?m4" cmp] m4 assms(2) by auto
  let ?a = "a[ptr := a ! m, m := a ! ptr]"
  have m': "ptr \<le> m" "m < ptr + n" using m(2) m4 by auto
  have sw: "swap a ptr m = Some ?a" using m' assms by (intro swap_spec) auto
  have perm0: "perm_in a ?a ptr (ptr + n)" using m' assms by (intro perm_in_swap) auto
  obtain a1 i lt gt where pl: "part_loop cmp ?a ptr 1 1 n n = Some (a1, i, lt, gt)"
    "perm_in ?a a1 (ptr + 1) (ptr + n)" "part_inv cmp a1 ptr n i lt gt i"
    using part_loop_spec [of cmp ?a ptr n 1 1 n n] assms by (auto simp: part_inv_def)
  have len1: "length a1 = length a" using perm_in_length [OF pl(2)] by simp
  define v where "v = a1 ! ptr"
  have b: "1 \<le> lt" "lt \<le> i" "i \<le> gt" "gt \<le> n" using pl(3) by (auto simp: part_inv_def)
  have zones: "1 \<le> k \<and> k < lt \<Longrightarrow> cmp v (a1 ! (ptr + k)) = 0"
    "lt \<le> k \<and> k < i \<Longrightarrow> cmp v (a1 ! (ptr + k)) > 0" "i \<le> k \<and> k < gt \<Longrightarrow> cmp v (a1 ! (ptr + k)) < 0"
    "gt \<le> k \<and> k < n \<Longrightarrow> cmp v (a1 ! (ptr + k)) = 0" for k
    using pl(3) unfolding part_inv_def v_def by blast+
  have z: "a1 ! k = v \<or> cmp v (a1 ! k) = 0" if "ptr \<le> k" "k < ptr + lt" for k
    using zones(1) [of "k - ptr"] that by (cases "k = ptr") (simp_all add: v_def less_diff_conv2 Suc_le_eq)
  have lo: "cmp v (a1 ! k) > 0" if "ptr + lt \<le> k" "k < ptr + lt + (i - lt)" for k
  proof -
    have "lt \<le> k - ptr \<and> k - ptr < i" using that b by linarith
    from zones(2) [OF this] show ?thesis using that by simp
  qed
  have hi: "cmp v (a1 ! k) < 0" if "ptr + i \<le> k" "k < ptr + i + (gt - i)" for k
  proof -
    have "i \<le> k - ptr \<and> k - ptr < gt" using that b by linarith
    from zones(3) [OF this] show ?thesis using that by simp
  qed
  have eq: "a1 ! k = v \<or> cmp v (a1 ! k) = 0" if "ptr + gt \<le> k" "k < ptr + n" for k
  proof -
    have "gt \<le> k - ptr \<and> k - ptr < n" using that b by linarith
    from zones(4) [OF this] show ?thesis using that by simp
  qed
  obtain a2 where a2: "swap_block a1 ptr (ptr + i - min lt (i - lt)) (min lt (i - lt)) = Some a2"
    "perm_in a1 a2 ptr (ptr + i)" "\<And>k. ptr \<le> k \<Longrightarrow> k < ptr + (i - lt) \<Longrightarrow> cmp v (a2 ! k) > 0"
    "\<And>k. ptr + (i - lt) \<le> k \<Longrightarrow> k < ptr + i \<Longrightarrow> a2 ! k = v \<or> cmp v (a2 ! k) = 0"
    using swap_zones [of ptr lt "i - lt" a1 "\<lambda>x. x = v \<or> cmp v x = 0" "\<lambda>x. cmp v x > 0"]
      z lo b assms(2) len1 by auto
  have keep: "a2 ! k = a1 ! k" if "ptr + i \<le> k" "k < length a" for k
    using perm_in_outside [OF a2(2), of k] that len1 by simp
  have len2: "length a2 = length a" using perm_in_length [OF a2(2)] len1 by simp
  obtain a3 where a3: "swap_block a2 (ptr + i) (ptr + n - min (gt - i) (n - gt)) (min (gt - i) (n - gt)) = Some a3"
    "perm_in a2 a3 (ptr + i) (ptr + n)"
    "\<And>k. ptr + i \<le> k \<Longrightarrow> k < ptr + i + (n - gt) \<Longrightarrow> a3 ! k = v \<or> cmp v (a3 ! k) = 0"
    "\<And>k. ptr + i + (n - gt) \<le> k \<Longrightarrow> k < ptr + n \<Longrightarrow> cmp v (a3 ! k) < 0"
    using swap_zones [of "ptr + i" "gt - i" "n - gt" a2 "\<lambda>x. cmp v x < 0" "\<lambda>x. x = v \<or> cmp v x = 0"]
      keep hi eq b assms(2) len2 by auto
  have keep3: "a3 ! k = a2 ! k" if "k < ptr + i" for k
    using perm_in_outside [OF a3(2), of k] that len2 b assms(2) by simp
  have run: "partition3 cmp a ptr n = Some (a3, i - lt, n - (gt - i))"
    using m(1) sw pl(1) a2(1) a3(1) by (simp add: partition3_def Let_def min.commute)
  have "perm_in a1 a2 ptr (ptr + n)" "perm_in a2 a3 ptr (ptr + n)" "perm_in ?a a1 ptr (ptr + n)"
    using a2(2) a3(2) pl(2) b by (auto elim: perm_in_mono)
  then have perm: "perm_in a a3 ptr (ptr + n)" using perm0 by (blast intro: perm_in_trans)
  have gt: "n - (gt - i) = i + (n - gt)" using b by simp
  have "cmp v (a3 ! k) > 0" if "ptr \<le> k" "k < ptr + (i - lt)" for k
    using a2(3) [OF that] keep3 [of k] that b by simp
  moreover have "a3 ! k = v \<or> cmp v (a3 ! k) = 0" if "ptr + (i - lt) \<le> k" "k < ptr + (i + (n - gt))" for k
    using a2(4) [of k] a3(3) [of k] keep3 [of k] that by (cases "k < ptr + i") auto
  moreover have "cmp v (a3 ! k) < 0" if "ptr + (i + (n - gt)) \<le> k" "k < ptr + n" for k
    using a3(4) [of k] that by simp
  ultimately have "parted cmp a3 ptr n (i - lt) (n - (gt - i))"
    unfolding parted_def gt by blast
  with run perm b show ?thesis by (auto simp: gt)
qed

section \<open>Sorting with a consistent comparison function\<close>

text \<open>The contract of a comparison function, and what the pieces of the algorithm make of it.
  \<open>seg_sorted cmp a s c\<close>: the \<open>c\<close> elements from position \<open>s\<close> on are in order.\<close>

definition seg_sorted :: "('a \<Rightarrow> 'a \<Rightarrow> int) \<Rightarrow> 'a list \<Rightarrow> nat \<Rightarrow> nat \<Rightarrow> bool" where
  "seg_sorted cmp a s c \<longleftrightarrow> (\<forall>p q. s \<le> p \<and> p < q \<and> q < s + c \<longrightarrow> cmp (a ! p) (a ! q) \<le> 0)"

definition heap_ok :: "('a \<Rightarrow> 'a \<Rightarrow> int) \<Rightarrow> 'a list \<Rightarrow> nat \<Rightarrow> nat \<Rightarrow> nat \<Rightarrow> nat \<Rightarrow> bool" where
  "heap_ok cmp a b n l r \<longleftrightarrow> (\<forall>q c. l \<le> q \<and> q \<noteq> r \<and> (c = 2 * q + 1 \<or> c = 2 * q + 2) \<and> c < n \<longrightarrow>
     cmp (a ! (b + c)) (a ! (b + q)) \<le> 0)"

definition hole_ok :: "('a \<Rightarrow> 'a \<Rightarrow> int) \<Rightarrow> 'a list \<Rightarrow> nat \<Rightarrow> nat \<Rightarrow> nat \<Rightarrow> nat \<Rightarrow> bool" where
  "hole_ok cmp a b n l r \<longleftrightarrow> (\<forall>q c. l \<le> q \<and> (r = 2 * q + 1 \<or> r = 2 * q + 2) \<and>
     (c = 2 * r + 1 \<or> c = 2 * r + 2) \<and> c < n \<longrightarrow> cmp (a ! (b + c)) (a ! (b + q)) \<le> 0)"

lemma pick_child_spec:
  assumes "c < n" and "b + n \<le> length a"
  shows "\<exists>c'. pick_child cmp a b n c = Some c' \<and> c' < n \<and> (c' = c \<or> c' = Suc c)"
  using assms by (auto simp: pick_child_def cmp_at_spec)

text \<open>For any comparison function sifting and the loops around it stay in the segment and only
  rearrange it.\<close>

lemma sift_down_perm:
  assumes "b + n \<le> length a"
  shows "\<exists>a'. sift_down cmp a b n r = Some a' \<and> perm_in a a' b (b + n)"
  using assms
proof (induction cmp a b n r rule: sift_down.induct)
  case (1 cmp a b n r)
  show ?case
  proof (cases "r * 2 + 1 < n")
    case False
    then show ?thesis by (subst sift_down.simps) simp
  next
    case True
    then obtain c where c: "pick_child cmp a b n (r * 2 + 1) = Some c" "c < n" "r < c"
      using pick_child_spec [of "r * 2 + 1" n b a cmp] "1.prems" by auto
    let ?t = "cmp (a ! (b + r)) (a ! (b + c))" and ?a = "a[b + r := a ! (b + c), b + c := a ! (b + r)]"
    have t: "cmp_at cmp a (b + r) (b + c) = Some ?t"
      and sw: "swap a (b + r) (b + c) = Some ?a" and perm: "perm_in a ?a b (b + n)"
      using c True "1.prems" by (simp_all add: cmp_at_spec swap_spec perm_in_swap)
    show ?thesis
    proof (cases "?t > 0")
      case stop: True
      with True c(1) t show ?thesis by (subst sift_down.simps) simp
    next
      case False
      from "1.IH" [OF True c(1) t False sw] "1.prems" obtain a' where
        "sift_down cmp ?a b n c = Some a'" "perm_in ?a a' b (b + n)" by auto
      with True c(1) t sw perm False show ?thesis
        by (subst sift_down.simps) (auto intro: perm_in_trans)
    qed
  qed
qed

lemma heapify_loop_perm:
  assumes "b + n \<le> length a"
  shows "\<exists>a'. heapify_loop cmp a b n i = Some a' \<and> perm_in a a' b (b + n)"
  using assms
proof (induction i arbitrary: a)
  case 0
  then show ?case by simp
next
  case (Suc i)
  obtain a1 where a1: "sift_down cmp a b n i = Some a1" "perm_in a a1 b (b + n)"
    using sift_down_perm [OF Suc.prems] by blast
  then obtain a' where "heapify_loop cmp a1 b n i = Some a'" "perm_in a1 a' b (b + n)"
    using Suc.IH [of a1] Suc.prems perm_in_length by fastforce
  with a1 show ?case by (auto intro: perm_in_trans)
qed

lemma extract_loop_perm:
  assumes "b + Suc i \<le> length a"
  shows "\<exists>a'. extract_loop cmp a b i = Some a' \<and> perm_in a a' b (b + Suc i)"
  using assms
proof (induction i arbitrary: a)
  case 0
  then show ?case by simp
next
  case (Suc i)
  let ?a = "a[b := a ! (b + Suc i), b + Suc i := a ! b]"
  have sw: "swap a b (b + Suc i) = Some ?a" using Suc.prems by (intro swap_spec) auto
  have perm: "perm_in a ?a b (b + Suc (Suc i))" using Suc.prems by (intro perm_in_swap) auto
  obtain a1 where a1: "sift_down cmp ?a b (Suc i) 0 = Some a1" "perm_in ?a a1 b (b + Suc i)"
    using sift_down_perm [of b "Suc i" ?a cmp 0] Suc.prems by auto
  obtain a' where a': "extract_loop cmp a1 b i = Some a'" "perm_in a1 a' b (b + Suc i)"
    using Suc.IH [of a1] Suc.prems perm_in_length [OF a1(2)] by auto
  have "perm_in ?a a1 b (b + Suc (Suc i))" "perm_in a1 a' b (b + Suc (Suc i))"
    using a1(2) a'(2) by (auto elim: perm_in_mono)
  then have "perm_in a a' b (b + Suc (Suc i))" using perm by (blast intro: perm_in_trans)
  with sw a1(1) a'(1) show ?case by simp
qed

lemma heapsortx_perm:
  assumes "b + n \<le> length a"
  shows "\<exists>a'. heapsortx cmp a b n = Some a' \<and> perm_in a a' b (b + n)"
proof (cases "n > 1")
  case True
  obtain a1 where a1: "heapify_loop cmp a b n (n div 2) = Some a1" "perm_in a a1 b (b + n)"
    using heapify_loop_perm [OF assms] by blast
  obtain a' where "extract_loop cmp a1 b (n - 1) = Some a'" "perm_in a1 a' b (b + n)"
    using extract_loop_perm [of b "n - 1" a1 cmp] True assms perm_in_length [OF a1(2)] by auto
  with a1 True show ?thesis by (auto simp: heapsortx_def intro: perm_in_trans)
qed (simp add: heapsortx_def)

lemma insert_loop_perm:
  assumes "j \<le> i" and "ptr + i < length a"
  shows "\<exists>a'. insert_loop cmp a ptr j = Some a' \<and> perm_in a a' ptr (ptr + Suc i)"
  using assms
proof (induction j arbitrary: a)
  case 0
  then show ?case by simp
next
  case (Suc j)
  let ?a = "a[ptr + Suc j := a ! (ptr + j), ptr + j := a ! (ptr + Suc j)]"
  have c: "cmp_at cmp a (ptr + j) (ptr + Suc j) = Some (cmp (a ! (ptr + j)) (a ! (ptr + Suc j)))"
    and sw: "swap a (ptr + Suc j) (ptr + j) = Some ?a" and perm: "perm_in a ?a ptr (ptr + Suc i)"
    using Suc.prems by (simp_all add: cmp_at_spec swap_spec perm_in_swap)
  obtain a' where "insert_loop cmp ?a ptr j = Some a'" "perm_in ?a a' ptr (ptr + Suc i)"
    using Suc.IH [of ?a] Suc.prems by auto
  with c sw perm show ?case by (auto intro: perm_in_trans)
qed

lemma insertion_sort_perm:
  assumes "ptr + n \<le> length a"
  shows "\<exists>a'. insertion_sort cmp a ptr n i = Some a' \<and> perm_in a a' ptr (ptr + n)"
  using assms
proof (induction cmp a ptr n i rule: insertion_sort.induct)
  case (1 cmp a ptr n i)
  show ?case
  proof (cases "i < n")
    case True
    then obtain a1 where a1: "insert_loop cmp a ptr i = Some a1" "perm_in a a1 ptr (ptr + Suc i)"
      using insert_loop_perm [of i i ptr a cmp] "1.prems" by auto
    then obtain a' where a': "insertion_sort cmp a1 ptr n (i + 1) = Some a'" "perm_in a1 a' ptr (ptr + n)"
      using "1.IH" [OF True a1(1)] "1.prems" perm_in_length [OF a1(2)] by auto
    have "perm_in a a1 ptr (ptr + n)" using a1(2) True by (auto elim: perm_in_mono)
    with a' a1(1) True show ?thesis by (subst insertion_sort.simps) (auto intro: perm_in_trans)
  qed (subst insertion_sort.simps, simp)
qed

end
