(* ===== verification/Rqsort_Bytes.thy ===== *)
theory Rqsort_Bytes
  imports Rqsort
begin

text \<open>
  The exchange functions of \<^verbatim>\<open>src/qjs/cutils.c\<close> on raw memory. \<open>exchange_func\<close> chooses one of them by
  the alignment of the array and the element size; the theory shows that whatever it chooses
  exchanges two elements, or two runs of elements, exactly as the element-wise \<open>swap\<close> and
  \<open>swap_block\<close> of the sorting routine do. \<open>exchange_unit w\<close> is the loop body shared by the functions
  for units of 1, 2, 4 and 8 bytes: load both units, store them the other way round.
\<close>

section \<open>Exchanging bytes\<close>

definition exchange_unit :: "nat \<Rightarrow> u8 list \<Rightarrow> nat \<Rightarrow> nat \<Rightarrow> u8 list option" where
  "exchange_unit w m ap bp = do {
     t \<leftarrow> rd_n m ap w;
     u \<leftarrow> rd_n m bp w;
     m \<leftarrow> memcpy m ap u;
     memcpy m bp t }"

fun exchange_units :: "nat \<Rightarrow> u8 list \<Rightarrow> nat \<Rightarrow> nat \<Rightarrow> nat \<Rightarrow> u8 list option" where
  "exchange_units w m ap bp 0 = Some m"
| "exchange_units w m ap bp (Suc n) = do {
     m \<leftarrow> exchange_unit w m ap bp;
     exchange_units w m (ap + w) (bp + w) n }"

definition exchange_bytes :: "u8 list \<Rightarrow> nat \<Rightarrow> nat \<Rightarrow> nat \<Rightarrow> u8 list option" where
  "exchange_bytes m a b sz = exchange_units 1 m a b sz"

definition exchange_one_byte :: "u8 list \<Rightarrow> nat \<Rightarrow> nat \<Rightarrow> nat \<Rightarrow> u8 list option" where
  "exchange_one_byte m a b sz = exchange_unit 1 m a b"

definition exchange_int16s :: "u8 list \<Rightarrow> nat \<Rightarrow> nat \<Rightarrow> nat \<Rightarrow> u8 list option" where
  "exchange_int16s m a b sz = exchange_units 2 m a b (sz div 2)"

definition exchange_one_int16 :: "u8 list \<Rightarrow> nat \<Rightarrow> nat \<Rightarrow> nat \<Rightarrow> u8 list option" where
  "exchange_one_int16 m a b sz = exchange_unit 2 m a b"

definition exchange_int32s :: "u8 list \<Rightarrow> nat \<Rightarrow> nat \<Rightarrow> nat \<Rightarrow> u8 list option" where
  "exchange_int32s m a b sz = exchange_units 4 m a b (sz div 4)"

definition exchange_one_int32 :: "u8 list \<Rightarrow> nat \<Rightarrow> nat \<Rightarrow> nat \<Rightarrow> u8 list option" where
  "exchange_one_int32 m a b sz = exchange_unit 4 m a b"

definition exchange_int64s :: "u8 list \<Rightarrow> nat \<Rightarrow> nat \<Rightarrow> nat \<Rightarrow> u8 list option" where
  "exchange_int64s m a b sz = exchange_units 8 m a b (sz div 8)"

definition exchange_one_int64 :: "u8 list \<Rightarrow> nat \<Rightarrow> nat \<Rightarrow> nat \<Rightarrow> u8 list option" where
  "exchange_one_int64 m a b sz = exchange_unit 8 m a b"

definition exchange_one_int128 :: "u8 list \<Rightarrow> nat \<Rightarrow> nat \<Rightarrow> nat \<Rightarrow> u8 list option" where
  "exchange_one_int128 m ap bp sz = do {
     t \<leftarrow> rd_n m ap 8;
     u \<leftarrow> rd_n m (ap + 8) 8;
     x \<leftarrow> rd_n m bp 8;
     m \<leftarrow> memcpy m ap x;
     x \<leftarrow> rd_n m (bp + 8) 8;
     m \<leftarrow> memcpy m (ap + 8) x;
     m \<leftarrow> memcpy m bp t;
     memcpy m (bp + 8) u }"

fun exchange_int128s_loop :: "u8 list \<Rightarrow> nat \<Rightarrow> nat \<Rightarrow> nat \<Rightarrow> u8 list option" where
  "exchange_int128s_loop m ap bp 0 = Some m"
| "exchange_int128s_loop m ap bp (Suc n) = do {
     m \<leftarrow> exchange_one_int128 m ap bp 16;
     exchange_int128s_loop m (ap + 16) (bp + 16) n }"

definition exchange_int128s :: "u8 list \<Rightarrow> nat \<Rightarrow> nat \<Rightarrow> nat \<Rightarrow> u8 list option" where
  "exchange_int128s m a b sz = exchange_int128s_loop m a b (sz div 16)"

definition exchange_func :: "nat \<Rightarrow> nat \<Rightarrow> u8 list \<Rightarrow> nat \<Rightarrow> nat \<Rightarrow> nat \<Rightarrow> u8 list option" where
  "exchange_func base sz = (let k = (base OR sz) AND 15 in
     if k = 0 then if sz = 16 then exchange_one_int128 else exchange_int128s
     else if k = 8 then if sz = 8 then exchange_one_int64 else exchange_int64s
     else if k \<in> {4, 12} then if sz = 4 then exchange_one_int32 else exchange_int32s
     else if k \<in> {2, 6, 10, 14} then if sz = 2 then exchange_one_int16 else exchange_int16s
     else if sz = 1 then exchange_one_byte else exchange_bytes)"

text \<open>\<open>swapped m m' a b n\<close>: the runs of length \<open>n\<close> at \<open>a\<close> and \<open>b\<close> changed places, and nothing else
  changed; \<open>clear_of\<close> says that the runs coincide or do not overlap.\<close>

definition swapped :: "'a list \<Rightarrow> 'a list \<Rightarrow> nat \<Rightarrow> nat \<Rightarrow> nat \<Rightarrow> bool" where
  "swapped m m' a b n \<longleftrightarrow> length m' = length m \<and>
     (\<forall>k < n. m' ! (a + k) = m ! (b + k) \<and> m' ! (b + k) = m ! (a + k)) \<and>
     (\<forall>k < length m. \<not> (a \<le> k \<and> k < a + n) \<and> \<not> (b \<le> k \<and> k < b + n) \<longrightarrow> m' ! k = m ! k)"

definition clear_of :: "nat \<Rightarrow> nat \<Rightarrow> nat \<Rightarrow> bool" where
  "clear_of a b n \<longleftrightarrow> a = b \<or> a + n \<le> b \<or> b + n \<le> a"

lemma exchange_unit_spec:
  assumes "clear_of a b w" and "a + w \<le> length m" "b + w \<le> length m"
  shows "\<exists>m'. exchange_unit w m a b = Some m' \<and> swapped m m' a b w"
proof -
  let ?t = "take w (drop a m)" and ?u = "take w (drop b m)"
  have len: "length ?t = w" "length ?u = w" using assms(2,3) by auto
  obtain m1 where m1: "memcpy m a ?u = Some m1" "length m1 = length m"
    using memcpy_fits [of a ?u m] memcpy_length assms(2) len by metis
  obtain m2 where m2: "memcpy m1 b ?t = Some m2" "length m2 = length m1"
    using memcpy_fits [of b ?t m1] memcpy_length assms(3) len m1(2) by metis
  have at: "m2 ! k = (if b \<le> k \<and> k < b + w then m ! (a + (k - b))
      else if a \<le> k \<and> k < a + w then m ! (b + (k - a)) else m ! k)" if "k < length m" for k
    using memcpy_nth [OF m2(1), of k] memcpy_nth [OF m1(1), of k] that assms(2,3) len m1(2) by auto
  have "swapped m m2 a b w"
    unfolding swapped_def
  proof (intro conjI allI impI)
    fix k assume k: "k < w"
    show "m2 ! (a + k) = m ! (b + k)" using at [of "a + k"] assms k by (auto simp: clear_of_def)
    show "m2 ! (b + k) = m ! (a + k)" using at [of "b + k"] assms k by auto
  qed (use at m1 m2 in auto)
  with m1 m2 assms show ?thesis by (auto simp: exchange_unit_def rd_n_fits)
qed

lemma swapped_join:
  assumes "swapped m m1 a b w" and "swapped m1 m2 (a + w) (b + w) n"
    and "clear_of a b (w + n)" and "a + (w + n) \<le> length m" "b + (w + n) \<le> length m"
  shows "swapped m m2 a b (w + n)"
proof -
  note s1 = assms(1) [unfolded swapped_def] and s2 = assms(2) [unfolded swapped_def]
  have keep: "m2 ! k = m1 ! k" if "k < length m" "\<not> (a + w \<le> k \<and> k < a + (w + n))" "\<not> (b + w \<le> k \<and> k < b + (w + n))" for k
    using s1 s2 that by (simp add: add.assoc)
  have keep1: "m1 ! k = m ! k" if "k < length m" "\<not> (a \<le> k \<and> k < a + w)" "\<not> (b \<le> k \<and> k < b + w)" for k
    using s1 that by simp
  show ?thesis
    unfolding swapped_def
  proof (intro conjI allI impI)
    show "length m2 = length m" using s1 s2 by simp
  next
    fix k assume k: "k < w + n"
    show "m2 ! (a + k) = m ! (b + k)" "m2 ! (b + k) = m ! (a + k)"
    proof -
      consider "k < w" | "w \<le> k" "k - w < n" using k by linarith
      then have "m2 ! (a + k) = m ! (b + k) \<and> m2 ! (b + k) = m ! (a + k)"
      proof cases
        case 1
        then have "m2 ! (a + k) = m1 ! (a + k)" "m2 ! (b + k) = m1 ! (b + k)"
          using keep [of "a + k"] keep [of "b + k"] assms(3-5) by (auto simp: clear_of_def)
        with s1 1 show ?thesis by simp
      next
        case 2
        then have "m2 ! (a + k) = m1 ! (b + k)" "m2 ! (b + k) = m1 ! (a + k)"
          using s2 [THEN conjunct2, THEN conjunct1, rule_format, of "k - w"] by (auto simp: add.assoc)
        moreover have "m1 ! (b + k) = m ! (b + k)" "m1 ! (a + k) = m ! (a + k)"
          by (rule keep1; use 2 assms(3-5) in \<open>unfold clear_of_def; linarith\<close>)+
        ultimately show ?thesis by simp
      qed
      then show "m2 ! (a + k) = m ! (b + k)" "m2 ! (b + k) = m ! (a + k)" by auto
    qed
  next
    fix k assume "k < length m" "\<not> (a \<le> k \<and> k < a + (w + n)) \<and> \<not> (b \<le> k \<and> k < b + (w + n))"
    then show "m2 ! k = m ! k" using keep [of k] keep1 [of k] by auto
  qed
qed

lemma clear_of_mono: "clear_of a b n \<Longrightarrow> k \<le> n \<Longrightarrow> clear_of a b k"
  by (auto simp: clear_of_def)

lemma clear_of_shift: "clear_of a b (w + n) \<Longrightarrow> clear_of (a + w) (b + w) n"
  by (auto simp: clear_of_def)

lemma swapped_length: "swapped m m' a b n \<Longrightarrow> length m' = length m"
  by (simp add: swapped_def)

lemma exchange_units_spec:
  assumes "clear_of a b (n * w)" and "a + n * w \<le> length m" "b + n * w \<le> length m"
  shows "\<exists>m'. exchange_units w m a b n = Some m' \<and> swapped m m' a b (n * w)"
  using assms
proof (induction n arbitrary: m a b)
  case 0
  then show ?case by (simp add: swapped_def)
next
  case (Suc n)
  obtain m1 where m1: "exchange_unit w m a b = Some m1" "swapped m m1 a b w"
    using exchange_unit_spec [OF clear_of_mono [OF Suc.prems(1)], of w m] Suc.prems by auto
  then obtain m2 where "exchange_units w m1 (a + w) (b + w) n = Some m2" "swapped m1 m2 (a + w) (b + w) (n * w)"
    using Suc.IH [of "a + w" "b + w" m1] Suc.prems swapped_length [OF m1(2)] clear_of_shift [of a b w "n * w"] by auto
  with m1 swapped_join [of m m1 a b w m2 "n * w"] Suc.prems show ?case by auto
qed

lemma exchange_one_int128_spec:
  assumes "clear_of a b 16" and "a + 16 \<le> length m" "b + 16 \<le> length m"
  shows "\<exists>m'. exchange_one_int128 m a b sz = Some m' \<and> swapped m m' a b 16"
proof -
  let ?r = "\<lambda>i m. take 8 (drop i m) :: u8 list"
  obtain m1 where m1: "memcpy m a (?r b m) = Some m1" "length m1 = length m"
    using memcpy_fits [of a "?r b m" m] memcpy_length assms by fastforce
  obtain m2 where m2: "memcpy m1 (a + 8) (?r (b + 8) m1) = Some m2" "length m2 = length m"
    using memcpy_fits [of "a + 8" "?r (b + 8) m1" m1] memcpy_length assms m1(2) by fastforce
  obtain m3 where m3: "memcpy m2 b (?r a m) = Some m3" "length m3 = length m"
    using memcpy_fits [of b "?r a m" m2] memcpy_length assms m2(2) by fastforce
  obtain m4 where m4: "memcpy m3 (b + 8) (?r (a + 8) m) = Some m4" "length m4 = length m"
    using memcpy_fits [of "b + 8" "?r (a + 8) m" m3] memcpy_length assms m3(2) by fastforce
  have at: "m4 ! k = (if b + 8 \<le> k \<and> k < b + 16 then m ! (a + 8 + (k - (b + 8)))
      else if b \<le> k \<and> k < b + 8 then m ! (a + (k - b))
      else if a + 8 \<le> k \<and> k < a + 16 then m1 ! (b + 8 + (k - (a + 8)))
      else if a \<le> k \<and> k < a + 8 then m ! (b + (k - a)) else m ! k)" if "k < length m" for k
    using memcpy_nth [OF m4(1), of k] memcpy_nth [OF m3(1), of k] memcpy_nth [OF m2(1), of k]
      memcpy_nth [OF m1(1), of k] that assms m1(2) m2(2) m3(2) by auto
  have m1_b: "m1 ! (b + 8 + k) = m ! (b + 8 + k)" if "k < 8" for k
    using memcpy_nth [OF m1(1), of "b + 8 + k"] assms that by (auto simp: clear_of_def)
  have "swapped m m4 a b 16"
    unfolding swapped_def
  proof (intro conjI allI impI)
    fix k :: nat assume k: "k < 16"
    show "m4 ! (b + k) = m ! (a + k)" using at [of "b + k"] assms k by (cases "k < 8") auto
    show "m4 ! (a + k) = m ! (b + k)"
      using at [of "a + k"] assms k m1_b [of "k - 8"] by (cases "k < 8") (auto simp: clear_of_def)
  qed (use at m4 in auto)
  with m1 m2 m3 m4 assms show ?thesis by (auto simp: exchange_one_int128_def rd_n_fits)
qed

lemma exchange_int128s_loop_spec:
  assumes "clear_of a b (n * 16)" and "a + n * 16 \<le> length m" "b + n * 16 \<le> length m"
  shows "\<exists>m'. exchange_int128s_loop m a b n = Some m' \<and> swapped m m' a b (n * 16)"
  using assms
proof (induction n arbitrary: m a b)
  case 0
  then show ?case by (simp add: swapped_def)
next
  case (Suc n)
  obtain m1 where m1: "exchange_one_int128 m a b 16 = Some m1" "swapped m m1 a b 16"
    using exchange_one_int128_spec [OF clear_of_mono [OF Suc.prems(1)], of m 16] Suc.prems by auto
  then obtain m2 where "exchange_int128s_loop m1 (a + 16) (b + 16) n = Some m2"
    "swapped m1 m2 (a + 16) (b + 16) (n * 16)"
    using Suc.IH [of "a + 16" "b + 16" m1] Suc.prems swapped_length [OF m1(2)] clear_of_shift [of a b 16 "n * 16"] by auto
  with m1 swapped_join [of m m1 a b 16 m2 "n * 16"] Suc.prems show ?case by auto
qed

lemma low_bits_zero:
  assumes "((base::nat) OR sz) AND 15 = k" and "take_bit j k = 0" "j \<le> 4"
  shows "2 ^ j dvd sz"
proof -
  have "take_bit 4 (base OR sz) = k"
    using assms(1) by (simp add: take_bit_eq_mask mask_eq_exp_minus_1 numeral_eq_Suc)
  then have "take_bit j (base OR sz) = 0" using assms(2,3) by (metis min.absorb1 take_bit_take_bit)
  then have "take_bit j sz = 0" by (simp add: take_bit_or or_eq_0_iff)
  then show ?thesis by (simp add: take_bit_eq_0_iff)
qed

lemma exchange_units_dvd:
  assumes "clear_of a b n" and "a + n \<le> length m" "b + n \<le> length m" and "w dvd n"
  shows "\<exists>m'. exchange_units w m a b (n div w) = Some m' \<and> swapped m m' a b n"
  using exchange_units_spec [of a b "n div w" w m] assms by simp

lemma exchange_int128s_dvd:
  assumes "clear_of a b n" and "a + n \<le> length m" "b + n \<le> length m" and "16 dvd n"
  shows "\<exists>m'. exchange_int128s_loop m a b (n div 16) = Some m' \<and> swapped m m' a b n"
  using exchange_int128s_loop_spec [of a b "n div 16" m] assms by simp

lemmas exchange_defs = exchange_bytes_def exchange_one_byte_def exchange_int16s_def exchange_one_int16_def
  exchange_int32s_def exchange_one_int32_def exchange_int64s_def exchange_one_int64_def exchange_int128s_def

lemma nibble_cases: "(k::nat) < 16 \<Longrightarrow> k = 0 \<or> k = 8 \<or> k \<in> {4, 12} \<or> k \<in> {2, 6, 10, 14} \<or> odd k"
  by simp presburger

lemma nibble_less: "(x::nat) AND 15 < 16"
  using take_bit_eq_mask [of 4 x] by (simp add: take_bit_eq_mod mask_eq_exp_minus_1 flip: take_bit_eq_mask)

lemma exchange_func_cases:
  fixes base sz n :: nat
  assumes "clear_of a b n" and "a + n \<le> length m" "b + n \<le> length m"
    and dvd: "\<And>j k. (base OR sz) AND 15 = k \<Longrightarrow> take_bit j k = 0 \<Longrightarrow> j \<le> 4 \<Longrightarrow> 2 ^ j dvd n"
    and one: "sz \<in> {1, 2, 4, 8, 16} \<Longrightarrow> n = sz"
  shows "\<exists>m'. exchange_func base sz m a b n = Some m' \<and> swapped m m' a b n"
proof -
  note ok = assms(1-3)
  note units = exchange_units_dvd [OF ok] exchange_int128s_dvd [OF ok] exchange_unit_spec [OF ok]
    exchange_one_int128_spec [of a b m n]
  define k where "k = (base OR sz) AND 15"
  note dvd = dvd [OF k_def [symmetric]]
  note fn = exchange_func_def [of base sz, folded k_def, unfolded Let_def]
  have "k = 0 \<or> k = 8 \<or> k \<in> {4, 12} \<or> k \<in> {2, 6, 10, 14} \<or> odd k"
    by (rule nibble_cases) (simp add: k_def nibble_less)
  then consider "k = 0" | "k = 8" | "k \<in> {4, 12}" | "k \<in> {2, 6, 10, 14}" | "odd k" by blast
  then show ?thesis
  proof cases
    case 1
    then have "16 dvd n" using dvd [of 4] by simp
    then show ?thesis using 1 units one ok by (auto simp: fn exchange_defs)
  next
    case 2
    then have "8 dvd n" using dvd [of 3] by (simp add: take_bit_eq_mod)
    then show ?thesis using 2 units(1) [of 8] units(3) one by (auto simp: fn exchange_defs)
  next
    case 3
    then have "4 dvd n" using dvd [of 2] by (auto simp: take_bit_eq_mod)
    then show ?thesis using 3 units(1) [of 4] units(3) one by (auto simp: fn exchange_defs)
  next
    case 4
    then have "2 dvd n" using dvd [of 1] by (auto simp: take_bit_eq_mod)
    then show ?thesis using 4 units(1) [of 2] units(3) one by (auto simp: fn exchange_defs)
  next
    case 5
    then have "exchange_func base sz = (if sz = 1 then exchange_one_byte else exchange_bytes)"
      by (auto simp: fn)
    then show ?thesis using units(1) [of 1] units(3) one by (auto simp: exchange_defs)
  qed
qed

lemma exchange_func_element:
  assumes "clear_of a b sz" and "a + sz \<le> length m" "b + sz \<le> length m"
  shows "\<exists>m'. exchange_func base sz m a b sz = Some m' \<and> swapped m m' a b sz"
  by (rule exchange_func_cases [OF assms]) (auto intro: low_bits_zero)

lemma exchange_func_block:
  assumes "clear_of a b n" and "a + n \<le> length m" "b + n \<le> length m" and "sz dvd n"
  shows "\<exists>m'. exchange_func base (sz OR 128) m a b n = Some m' \<and> swapped m m' a b n"
proof (rule exchange_func_cases [OF assms(1-3)])
  fix j k assume "(base OR (sz OR 128)) AND 15 = k" "take_bit j k = 0" "j \<le> 4"
  then have "2 ^ j dvd sz" by (intro low_bits_zero [of "base OR 128" sz k j]) (simp_all add: ac_simps)
  then show "2 ^ j dvd n" using assms(4) by (rule dvd_trans)
next
  have "bit (sz OR 2 ^ 7) 7" by (simp only: bit_or_iff bit_exp_iff) simp
  then have "bit (sz OR 128) 7" by simp
  then have "sz OR 128 \<notin> {1, 2, 4, 8, 16}" by (auto simp: bit_numeral_rec)
  then show "n = sz OR 128" if "sz OR 128 \<in> {1, 2, 4, 8, 16}" using that by simp
qed

section \<open>Elements as blocks of bytes\<close>

definition elems :: "nat \<Rightarrow> u8 list \<Rightarrow> u8 list list" where
  "elems sz m = map (\<lambda>i. take sz (drop (i * sz) m)) [0..<length m div sz]"

lemma elems_nth_bound: "i < length m div sz \<Longrightarrow> i * sz + sz \<le> length (m :: u8 list)"
  by (metis add.commute less_eq_div_iff_mult_less_eq Suc_leI div_0 div_by_0 gr_zeroI mult_Suc not_less_zero)

lemma elems_simps [simp]:
  "length (elems sz m) = length m div sz"
  "i < length m div sz \<Longrightarrow> elems sz m ! i = take sz (drop (i * sz) m)"
  by (simp_all add: elems_def)

lemma clear_of_elements: "clear_of (p * sz) (q * sz) sz" for p q sz :: nat
proof (cases "p = q")
  case False
  then consider "Suc p \<le> q" | "Suc q \<le> p" by linarith
  then show ?thesis
  proof cases
    case 1
    from mult_le_mono1 [OF this, of sz] show ?thesis by (auto simp: clear_of_def)
  next
    case 2
    from mult_le_mono1 [OF this, of sz] show ?thesis by (auto simp: clear_of_def)
  qed
qed (simp add: clear_of_def)

lemma swapped_elems:
  assumes "swapped m m' (p * sz) (q * sz) (n * sz)" and "0 < sz"
    and "p + n \<le> length m div sz" "q + n \<le> length m div sz"
  shows "swapped (elems sz m) (elems sz m') p q n"
proof -
  note sw = assms(1) [unfolded swapped_def]
  have len: "length m' = length m" using sw by simp
  have eq: "elems sz m' ! i = elems sz m ! j"
    if "i < length m div sz" "j < length m div sz" "\<And>k. k < sz \<Longrightarrow> m' ! (i * sz + k) = m ! (j * sz + k)" for i j
    using elems_nth_bound [OF that(1)] elems_nth_bound [OF that(2)] that len
    by (auto intro!: nth_equalityI)
  have in_block: "m' ! ((p + k) * sz + j) = m ! ((q + k) * sz + j) \<and> m' ! ((q + k) * sz + j) = m ! ((p + k) * sz + j)"
    if "k < n" "j < sz" for k j
  proof -
    have "Suc k * sz \<le> n * sz" using that(1) by (intro mult_le_mono1) simp
    then have "k * sz + j < n * sz" using that(2) by simp
    then have "m' ! (p * sz + (k * sz + j)) = m ! (q * sz + (k * sz + j)) \<and>
      m' ! (q * sz + (k * sz + j)) = m ! (p * sz + (k * sz + j))" using sw by blast
    then show ?thesis by (simp only: add_mult_distrib add.assoc)
  qed
  show ?thesis
    unfolding swapped_def
  proof (intro conjI allI impI)
    fix k assume "k < n"
    then show "elems sz m' ! (p + k) = elems sz m ! (q + k)" "elems sz m' ! (q + k) = elems sz m ! (p + k)"
      using assms(3,4) in_block by (auto intro!: eq simp del: elems_simps(2))
  next
    fix i assume i: "i < length (elems sz m)" "\<not> (p \<le> i \<and> i < p + n) \<and> \<not> (q \<le> i \<and> i < q + n)"
    have out: "\<not> (x * sz \<le> i * sz + k \<and> i * sz + k < x * sz + n * sz)"
      if "k < sz" "\<not> (x \<le> i \<and> i < x + n)" for k x
    proof -
      have "Suc i \<le> x \<or> x + n \<le> i" using that(2) by linarith
      then show ?thesis
      proof
        assume "Suc i \<le> x"
        from mult_le_mono1 [OF this, of sz] that(1) show ?thesis by simp
      next
        assume "x + n \<le> i"
        from mult_le_mono1 [OF this, of sz] show ?thesis by (simp add: algebra_simps)
      qed
    qed
    show "elems sz m' ! i = elems sz m ! i"
    proof (rule eq)
      fix k assume k: "k < sz"
      have "i * sz + k < length m" using elems_nth_bound [of i m sz] i(1) k by simp
      then show "m' ! (i * sz + k) = m ! (i * sz + k)" using sw out [OF k] i(2) by blast
    qed (use i in simp_all)
  qed (simp add: len)
qed

lemma swapped_unique:
  assumes "swapped m x a b n" and "swapped m y a b n" and "clear_of a b n"
    and "a + n \<le> length m" "b + n \<le> length m"
  shows "x = y"
proof (rule nth_equalityI)
  show "length x = length y" using assms(1,2) by (simp add: swapped_def)
next
  fix i assume "i < length x"
  then have i: "i < length m" using assms(1) by (simp add: swapped_def)
  consider k where "i = a + k" "k < n" | k where "i = b + k" "k < n"
    | "\<not> (a \<le> i \<and> i < a + n) \<and> \<not> (b \<le> i \<and> i < b + n)"
    by (metis add_less_cancel_left le_Suc_ex)
  then show "x ! i = y ! i" using assms(1,2) i unfolding swapped_def by cases auto
qed

lemma swap_swapped: "swap a p q = Some a' \<Longrightarrow> p < length a \<and> q < length a \<and> swapped a a' p q 1"
  by (auto simp: swap_def mem_simps swapped_def nth_list_update split: bind_splits)

lemma swap_block_swapped:
  "p + n \<le> q \<Longrightarrow> q + n \<le> length a \<Longrightarrow> swap_block a p q n = Some a' \<Longrightarrow> swapped a a' p q n"
  using swap_block_spec [of p n q a] unfolding swapped_def perm_in_def
  by (metis (no_types, lifting) not_le option.inject)

text \<open>The exchange function chosen for the alignment of the array and the element size carries out
  \<open>swap\<close> and \<open>swap_block\<close> on the elements.\<close>

lemma exchange_element_refines:
  assumes "0 < sz" and "swap (elems sz m) p q = Some e"
  shows "\<exists>m'. exchange_func base sz m (p * sz) (q * sz) sz = Some m' \<and> elems sz m' = e"
proof -
  have e: "p < length m div sz" "q < length m div sz" "swapped (elems sz m) e p q 1"
    using swap_swapped [OF assms(2)] by auto
  obtain m' where m': "exchange_func base sz m (p * sz) (q * sz) sz = Some m'" "swapped m m' (p * sz) (q * sz) sz"
    using exchange_func_element [OF clear_of_elements] elems_nth_bound e by blast
  then have "swapped (elems sz m) (elems sz m') p q 1" using swapped_elems [of m m' p sz q 1] assms(1) e by simp
  moreover have "clear_of p q 1" by (auto simp: clear_of_def)
  ultimately show ?thesis using swapped_unique [OF _ e(3)] m'(1) e by auto
qed

lemma exchange_block_refines:
  assumes "0 < sz" and "p + n \<le> q" and "q + n \<le> length m div sz" and "swap_block (elems sz m) p q n = Some e"
  shows "\<exists>m'. exchange_func base (sz OR 128) m (p * sz) (q * sz) (n * sz) = Some m' \<and> elems sz m' = e"
proof -
  have clear: "clear_of (p * sz) (q * sz) (n * sz)"
    using mult_le_mono1 [OF assms(2), of sz] by (simp add: clear_of_def add_mult_distrib)
  have len: "(q + n) * sz \<le> length m"
    using mult_le_mono1 [OF assms(3), of sz] by (metis div_times_less_eq_dividend le_trans)
  have fit: "q * sz + n * sz \<le> length m" "p * sz + n * sz \<le> length m"
    using len clear mult_le_mono1 [OF assms(2), of sz] by (auto simp: add_mult_distrib)
  obtain m' where m': "exchange_func base (sz OR 128) m (p * sz) (q * sz) (n * sz) = Some m'"
    "swapped m m' (p * sz) (q * sz) (n * sz)"
    using exchange_func_block [OF clear fit(2,1), of sz base] by auto
  have "swapped (elems sz m) (elems sz m') p q n" using swapped_elems [OF m'(2) assms(1)] assms(2,3) by simp
  from swapped_unique [OF this swap_block_swapped [OF assms(2) _ assms(4)]] m'(1) assms(2,3)
  show ?thesis by (auto simp: clear_of_def)
qed

end
