(* ===== verification/Rqsort_Correct.thy ===== *)
theory Rqsort_Correct
  imports Rqsort Rqsort_Bytes
begin

text \<open>
  Correctness of \<open>rqsort\<close>. The locale \<open>comparator\<close> is the contract the callers' comparison functions
  have to meet; inside it heap sort, insertion sort and the partition put their segment in order.
  For the whole routine one invariant on the stack of pending segments gives memory safety and the
  rearrangement for every comparison function, and the order for consistent ones. The comparison
  functions that \<^verbatim>\<open>quickjs.c\<close> uses for typed arrays and for numeric property keys are shown to meet
  the contract.
\<close>

section \<open>The contract of a comparison function\<close>

locale comparator =
  fixes cmp :: "'a \<Rightarrow> 'a \<Rightarrow> int"
  assumes sign: "cmp x y > 0 \<longleftrightarrow> cmp y x < 0"
    and trans: "cmp x y \<le> 0 \<Longrightarrow> cmp y z \<le> 0 \<Longrightarrow> cmp x z \<le> 0"
begin

lemma refl [simp]: "cmp x x = 0"
  using sign [of x x] by linarith

lemma total: "cmp x y \<le> 0 \<or> cmp y x \<le> 0"
  using sign [of x y] by linarith

lemma sift_step:
  assumes heap: "heap_ok cmp a b n l r" and hole: "hole_ok cmp a b n l r"
    and len: "b + n \<le> length a" and c: "c = 2 * r + 1 \<or> c = 2 * r + 2" "c < n"
    and best: "\<And>d. d = 2 * r + 1 \<or> d = 2 * r + 2 \<Longrightarrow> d < n \<Longrightarrow> cmp (a ! (b + d)) (a ! (b + c)) \<le> 0"
    and le: "cmp (a ! (b + r)) (a ! (b + c)) \<le> 0" and l: "l \<le> r"
  defines "a1 \<equiv> a[b + r := a ! (b + c), b + c := a ! (b + r)]"
  shows "heap_ok cmp a1 b n l c" "hole_ok cmp a1 b n l c"
proof -
  have rc: "r < c" "r < n" "b + c < length a" using c len by auto
  have at: "a1 ! (b + k) = (if k = c then a ! (b + r) else if k = r then a ! (b + c) else a ! (b + k))" for k
    using rc by (auto simp: a1_def nth_list_update)
  show "heap_ok cmp a1 b n l c"
    unfolding heap_ok_def
  proof (intro allI impI)
    fix q d assume *: "l \<le> q \<and> q \<noteq> c \<and> (d = 2 * q + 1 \<or> d = 2 * q + 2) \<and> d < n"
    consider "q = r" | "q \<noteq> r" "d = r" | "q \<noteq> r" "d \<noteq> r" by blast
    then show "cmp (a1 ! (b + d)) (a1 ! (b + q)) \<le> 0"
    proof cases
      case 1
      with * best [of d] le rc show ?thesis by (auto simp: at)
    next
      case 2
      with * hole c have "cmp (a ! (b + c)) (a ! (b + q)) \<le> 0" by (auto simp: hole_ok_def)
      with 2 * rc show ?thesis by (auto simp: at)
    next
      case 3
      with * heap have "cmp (a ! (b + d)) (a ! (b + q)) \<le> 0" by (auto simp: heap_ok_def)
      moreover have "d \<noteq> c" using 3 * c by auto
      ultimately show ?thesis using 3 * by (auto simp: at)
    qed
  qed
  show "hole_ok cmp a1 b n l c"
    unfolding hole_ok_def
  proof (intro allI impI)
    fix q d assume *: "l \<le> q \<and> (c = 2 * q + 1 \<or> c = 2 * q + 2) \<and> (d = 2 * c + 1 \<or> d = 2 * c + 2) \<and> d < n"
    then have "q = r" using c by auto
    moreover have "cmp (a ! (b + d)) (a ! (b + c)) \<le> 0" using heap * rc l by (auto simp: heap_ok_def)
    ultimately show "cmp (a1 ! (b + d)) (a1 ! (b + q)) \<le> 0" using * rc by (auto simp: at)
  qed
qed

lemma pick_child_best:
  assumes "pick_child cmp a b n (2 * r + 1) = Some c" and "b + n \<le> length a" "2 * r + 1 < n"
    and "d = 2 * r + 1 \<or> d = 2 * r + 2" "d < n"
  shows "cmp (a ! (b + d)) (a ! (b + c)) \<le> 0"
proof (cases "2 * r + 1 < n - 1")
  case True
  then show ?thesis
    using assms sign [of "a ! (b + (2 * r + 1))" "a ! (b + (2 * r + 1) + 1)"]
    by (auto simp: pick_child_def cmp_at_spec add.assoc split: if_splits)
next
  case False
  then have "c = 2 * r + 1" "d = 2 * r + 1" using assms by (auto simp: pick_child_def)
  then show ?thesis by simp
qed

lemma heap_okD:
  "heap_ok cmp a b n l r \<Longrightarrow> l \<le> q \<Longrightarrow> q \<noteq> r \<Longrightarrow> c = 2 * q + 1 \<or> c = 2 * q + 2 \<Longrightarrow> c < n \<Longrightarrow>
     cmp (a ! (b + c)) (a ! (b + q)) \<le> 0"
  unfolding heap_ok_def by blast

lemma heap_okI:
  "(\<And>q c. l \<le> q \<Longrightarrow> q \<noteq> r \<Longrightarrow> c = 2 * q + 1 \<or> c = 2 * q + 2 \<Longrightarrow> c < n \<Longrightarrow>
     cmp (a ! (b + c)) (a ! (b + q)) \<le> 0) \<Longrightarrow> heap_ok cmp a b n l r"
  unfolding heap_ok_def by blast

lemma heap_ok_close:
  assumes "heap_ok cmp a b n l r"
    and "\<And>d. d = 2 * r + 1 \<or> d = 2 * r + 2 \<Longrightarrow> d < n \<Longrightarrow> cmp (a ! (b + d)) (a ! (b + r)) \<le> 0"
  shows "heap_ok cmp a b n l n"
  using assms unfolding heap_ok_def by metis

lemma sift_down_heap:
  assumes "b + n \<le> length a" and "l \<le> r" and "heap_ok cmp a b n l r" and "hole_ok cmp a b n l r"
    and "sift_down cmp a b n r = Some a'"
  shows "heap_ok cmp a' b n l n"
  using assms
proof (induction "n - r" arbitrary: a r rule: less_induct)
  case less
  note prems = less.prems
  show ?case
  proof (cases "r * 2 + 1 < n")
    case False
    then have "a' = a" using prems(5) by (subst (asm) sift_down.simps) simp
    with False prems(3) show ?thesis by (intro heap_ok_close [of a' b n l r]) auto
  next
    case True
    then obtain c where c: "pick_child cmp a b n (r * 2 + 1) = Some c" "c < n" "c = 2 * r + 1 \<or> c = 2 * r + 2"
      using pick_child_spec [of "r * 2 + 1" n b a cmp] prems(1) by auto
    let ?t = "cmp (a ! (b + r)) (a ! (b + c))" and ?a = "a[b + r := a ! (b + c), b + c := a ! (b + r)]"
    have best: "cmp (a ! (b + d)) (a ! (b + c)) \<le> 0" if "d = 2 * r + 1 \<or> d = 2 * r + 2" "d < n" for d
      using pick_child_best [of a b n r c d] c(1) True prems(1) that by (simp add: mult.commute)
    have t: "cmp_at cmp a (b + r) (b + c) = Some ?t" and sw: "swap a (b + r) (b + c) = Some ?a"
      using c True prems(1) by (auto simp: cmp_at_spec swap_spec)
    show ?thesis
    proof (cases "?t > 0")
      case stop: True
      then have "a' = a" using prems(5) True c(1) t by (subst (asm) sift_down.simps) simp
      moreover have "cmp (a ! (b + c)) (a ! (b + r)) \<le> 0" using stop sign by force
      ultimately show ?thesis using prems(3) best trans by (intro heap_ok_close [of a' b n l r]) blast+
    next
      case False
      then have "sift_down cmp ?a b n c = Some a'"
        using prems(5) True c(1) t sw by (subst (asm) sift_down.simps) simp
      moreover have "heap_ok cmp ?a b n l c" "hole_ok cmp ?a b n l c"
        using sift_step [OF prems(3,4,1) c(3,2) best _ prems(2)] False by auto
      moreover have "n - c < n - r" "l \<le> c" using c prems(2) by auto
      ultimately show ?thesis using less.hyps [of c ?a] prems(1) by simp
    qed
  qed
qed

lemma heapify_loop_heap:
  assumes "b + n \<le> length a" and "heap_ok cmp a b n i n" and "i \<le> n" and "heapify_loop cmp a b n i = Some a'"
  shows "heap_ok cmp a' b n 0 n"
  using assms
proof (induction i arbitrary: a)
  case 0
  then show ?case by simp
next
  case (Suc i)
  obtain a1 where a1: "sift_down cmp a b n i = Some a1" "perm_in a a1 b (b + n)"
    using sift_down_perm [OF Suc.prems(1)] by blast
  have "heap_ok cmp a b n i i"
    by (rule heap_okI, rule heap_okD [OF Suc.prems(2)]) auto
  moreover have "hole_ok cmp a b n i i" by (auto simp: hole_ok_def)
  ultimately have "heap_ok cmp a1 b n i n" using sift_down_heap [OF Suc.prems(1) _ _ _ a1(1)] by simp
  then show ?case using Suc.IH [of a1] Suc.prems a1 perm_in_length [OF a1(2)] by simp
qed

lemma heap_root: "heap_ok cmp a b n 0 n \<Longrightarrow> k < n \<Longrightarrow> cmp (a ! (b + k)) (a ! b) \<le> 0"
proof (induction k rule: less_induct)
  case (less k)
  show ?case
  proof (cases k)
    case (Suc j)
    let ?q = "j div 2"
    have "k = 2 * ?q + 1 \<or> k = 2 * ?q + 2" using Suc by presburger
    then have "cmp (a ! (b + k)) (a ! (b + ?q)) \<le> 0" using less.prems by (intro heap_okD [of a b n 0 n]) auto
    moreover have "cmp (a ! (b + ?q)) (a ! b) \<le> 0" using less.IH [of ?q] less.prems Suc by simp
    ultimately show ?thesis by (rule trans)
  qed simp
qed

lemma extract_loop_sorted:
  assumes "b + n \<le> length a" and "m < n" and "heap_ok cmp a b (Suc m) 0 (Suc m)"
    and "\<And>p q. p < q \<Longrightarrow> m < q \<Longrightarrow> q < n \<Longrightarrow> cmp (a ! (b + p)) (a ! (b + q)) \<le> 0"
    and "extract_loop cmp a b m = Some a'"
  shows "seg_sorted cmp a' b n"
  using assms
proof (induction m arbitrary: a)
  case 0
  have "cmp (a ! p) (a ! q) \<le> 0" if "b \<le> p" "p < q" "q < b + n" for p q
    using "0.prems"(4) [of "p - b" "q - b"] that by auto
  with "0.prems"(5) show ?case by (auto simp: seg_sorted_def)
next
  case (Suc m)
  note prems = Suc.prems
  let ?a = "a[b := a ! (b + Suc m), b + Suc m := a ! b]"
  have sw: "swap a b (b + Suc m) = Some ?a" using prems by (intro swap_spec) auto
  have perm0: "perm_in a ?a b (b + Suc (Suc m))" using prems by (intro perm_in_swap) auto
  obtain a1 where a1: "sift_down cmp ?a b (Suc m) 0 = Some a1" "perm_in ?a a1 b (b + Suc m)"
    using sift_down_perm [of b "Suc m" ?a cmp 0] prems by auto
  have len: "length a1 = length a" using perm_in_length [OF a1(2)] by simp
  have "heap_ok cmp ?a b (Suc m) 0 0"
  proof (rule heap_okI)
    fix q c :: nat
    assume *: "q \<noteq> 0" "c = 2 * q + 1 \<or> c = 2 * q + 2" "c < Suc m"
    then have "cmp (a ! (b + c)) (a ! (b + q)) \<le> 0" by (intro heap_okD [OF prems(3)]) auto
    with * prems(1,2) show "cmp (?a ! (b + c)) (?a ! (b + q)) \<le> 0" by (auto simp: nth_list_update)
  qed
  moreover have "hole_ok cmp ?a b (Suc m) 0 0" by (auto simp: hole_ok_def)
  ultimately have heap: "heap_ok cmp a1 b (Suc m) 0 (Suc m)"
    using sift_down_heap [OF _ _ _ _ a1(1), of 0] prems by simp
  have perm1: "perm_in a a1 b (b + Suc (Suc m))"
    using perm0 perm_in_mono [OF a1(2), of b "b + Suc (Suc m)"] by (auto intro: perm_in_trans)
  have "cmp (a1 ! (b + p)) (a1 ! (b + q)) \<le> 0" if *: "p < q" "m < q" "q < n" for p q
  proof (cases "q = Suc m")
    case True
    have q: "a1 ! (b + q) = a ! b"
      using perm_in_outside [OF a1(2), of "b + q"] True prems by simp
    have "cmp (a1 ! (b + p)) (a ! b) \<le> 0"
      using heap_root [OF prems(3)] * True prems(1,2)
      by (intro perm_in_all_offset [OF perm1, of "\<lambda>x. cmp x (a ! b) \<le> 0" p]) auto
    then show ?thesis by (simp add: q)
  next
    case False
    have q: "a1 ! (b + q) = a ! (b + q)"
      using perm_in_outside [OF perm1, of "b + q"] False * prems by simp
    show ?thesis
    proof (cases "p < Suc (Suc m)")
      case True
      have "cmp (a1 ! (b + p)) (a ! (b + q)) \<le> 0"
        using prems(4) [of _ q] True False * prems(1,2)
        by (intro perm_in_all_offset [OF perm1, of "\<lambda>x. cmp x (a ! (b + q)) \<le> 0" p]) auto
      then show ?thesis by (simp add: q)
    next
      case False
      then have "a1 ! (b + p) = a ! (b + p)" using perm_in_outside [OF perm1, of "b + p"] * prems by simp
      with q prems(4) [of p q] * False show ?thesis by simp
    qed
  qed
  then show ?case using Suc.IH [of a1] heap prems sw a1(1) len by simp
qed

lemma heapsortx_sorted:
  assumes "b + n \<le> length a" and "heapsortx cmp a b n = Some a'"
  shows "seg_sorted cmp a' b n"
proof (cases "n > 1")
  case True
  obtain a1 where a1: "heapify_loop cmp a b n (n div 2) = Some a1" "perm_in a a1 b (b + n)"
    using heapify_loop_perm [OF assms(1)] by blast
  have "heap_ok cmp a b n (n div 2) n" by (auto simp: heap_ok_def)
  then have "heap_ok cmp a1 b n 0 n" using heapify_loop_heap [OF assms(1) _ _ a1(1)] by simp
  then show ?thesis
    using extract_loop_sorted [of b n a1 "n - 1" a'] assms True a1 perm_in_length [OF a1(2)]
    by (auto simp: heapsortx_def)
qed (auto simp: seg_sorted_def)

lemma insert_loop_sorted:
  assumes "j \<le> i" and "ptr + i < length a"
    and "\<And>p q. p < q \<Longrightarrow> q \<le> i \<Longrightarrow> p \<noteq> j \<Longrightarrow> q \<noteq> j \<Longrightarrow> cmp (a ! (ptr + p)) (a ! (ptr + q)) \<le> 0"
    and "\<And>q. j < q \<Longrightarrow> q \<le> i \<Longrightarrow> cmp (a ! (ptr + j)) (a ! (ptr + q)) \<le> 0"
    and "insert_loop cmp a ptr j = Some a'" and "p < q" "q \<le> i"
  shows "cmp (a' ! (ptr + p)) (a' ! (ptr + q)) \<le> 0"
  using assms
proof (induction j arbitrary: a)
  case 0
  then show ?case by (cases "p = 0") auto
next
  case (Suc j)
  note prems = Suc.prems
  let ?a = "a[ptr + Suc j := a ! (ptr + j), ptr + j := a ! (ptr + Suc j)]"
  have c: "cmp_at cmp a (ptr + j) (ptr + Suc j) = Some (cmp (a ! (ptr + j)) (a ! (ptr + Suc j)))"
    and sw: "swap a (ptr + Suc j) (ptr + j) = Some ?a" using prems(1,2) by (simp_all add: cmp_at_spec swap_spec)
  have at: "?a ! (ptr + k) = (if k = j then a ! (ptr + Suc j) else if k = Suc j then a ! (ptr + j) else a ! (ptr + k))" for k
    using prems(1,2) by (auto simp: nth_list_update)
  show ?case
  proof (cases "cmp (a ! (ptr + j)) (a ! (ptr + Suc j)) > 0")
    case True
    then have run: "insert_loop cmp ?a ptr j = Some a'" using prems(5) c sw by simp
    have less: "cmp (a ! (ptr + Suc j)) (a ! (ptr + j)) \<le> 0" using True sign by force
    show ?thesis
    proof (rule Suc.IH [OF _ _ _ _ run prems(6,7)])
      show "j \<le> i" "ptr + i < length ?a" using prems(1,2) by auto
    next
      fix x y assume *: "x < y" "y \<le> i" "x \<noteq> j" "y \<noteq> j"
      then show "cmp (?a ! (ptr + x)) (?a ! (ptr + y)) \<le> 0"
        using prems(3) [of x y] prems(3) [of x j] prems(3) [of j y] prems(1) unfolding at by auto
    next
      fix y assume *: "j < y" "y \<le> i"
      then show "cmp (?a ! (ptr + j)) (?a ! (ptr + y)) \<le> 0"
        using prems(4) [of y] less unfolding at by auto
    qed
  next
    case False
    then have eq: "a' = a" using prems(5) c by simp
    have le: "cmp (a ! (ptr + x)) (a ! (ptr + Suc j)) \<le> 0" if "x \<le> j" for x
      using prems(3) [of x j] prems(1) False that trans [of _ "a ! (ptr + j)"] by (cases "x = j") auto
    show ?thesis
      using prems(3) [of p q] prems(4) [of q] le [of p] prems(6,7) unfolding eq
      by (cases "p = Suc j"; cases "q = Suc j") auto
  qed
qed

lemma insertion_sort_sorted:
  assumes "ptr + n \<le> length a" and "1 \<le> i" and "i \<le> n"
    and "\<And>p q. p < q \<Longrightarrow> q < i \<Longrightarrow> cmp (a ! (ptr + p)) (a ! (ptr + q)) \<le> 0"
    and "insertion_sort cmp a ptr n i = Some a'"
  shows "seg_sorted cmp a' ptr n"
  using assms
proof (induction "n - i" arbitrary: a i)
  case 0
  have "insertion_sort cmp a ptr n i = Some a" using "0.hyps" by (subst insertion_sort.simps) simp
  then have "a' = a" using "0.prems"(5) by simp
  moreover have "cmp (a ! p) (a ! q) \<le> 0" if "ptr \<le> p" "p < q" "q < ptr + n" for p q
    using "0.prems"(4) [of "p - ptr" "q - ptr"] "0.prems"(3) "0.hyps" that by auto
  ultimately show ?case by (auto simp: seg_sorted_def)
next
  case (Suc d)
  have i: "i < n" using Suc.hyps(2) by simp
  then obtain a1 where a1: "insert_loop cmp a ptr i = Some a1" "perm_in a a1 ptr (ptr + Suc i)"
    using insert_loop_perm [of i i ptr a cmp] Suc.prems(1) by auto
  have run: "insertion_sort cmp a1 ptr n (i + 1) = Some a'"
    using Suc.prems(5) a1(1) i by (subst (asm) insertion_sort.simps) simp
  have "cmp (a1 ! (ptr + p)) (a1 ! (ptr + q)) \<le> 0" if "p < q" "q < i + 1" for p q
    by (rule insert_loop_sorted [OF _ _ _ _ a1(1)]) (use Suc.prems i that in auto)
  with Suc.hyps Suc.prems i run perm_in_length [OF a1(2)] show ?case
    by (intro Suc.hyps(1) [of "i + 1" a1]) auto
qed

lemma parted_order:
  assumes "parted cmp a ptr n lt gt" and "lt \<le> gt" and "ptr \<le> p" "p < q" "q < ptr + n"
  shows "cmp (a ! p) (a ! q) \<le> 0 \<or> q < ptr + lt \<or> ptr + gt \<le> p"
proof -
  obtain v where v: "\<And>k. ptr \<le> k \<Longrightarrow> k < ptr + lt \<Longrightarrow> cmp v (a ! k) > 0"
    "\<And>k. ptr + lt \<le> k \<Longrightarrow> k < ptr + gt \<Longrightarrow> a ! k = v \<or> cmp v (a ! k) = 0"
    "\<And>k. ptr + gt \<le> k \<Longrightarrow> k < ptr + n \<Longrightarrow> cmp v (a ! k) < 0"
    using assms(1) unfolding parted_def by blast
  have below: "cmp (a ! k) v \<le> 0" if "ptr \<le> k" "k < ptr + gt" for k
    using v(1,2) [of k] that sign [of v "a ! k"] sign [of "a ! k" v]
    by (cases "k < ptr + lt") auto
  have above: "cmp v (a ! k) \<le> 0" if "ptr + lt \<le> k" "k < ptr + n" for k
    using v(2,3) [of k] that by (cases "k < ptr + gt") auto
  show ?thesis
    using trans [OF below above, of p q] assms(3-5) by (cases "q < ptr + lt \<or> ptr + gt \<le> p") auto
qed

end

section \<open>The stack of pending segments\<close>

text \<open>Pending segments lie inside the array and apart from each other, and the entry with \<open>k\<close> others
  below it has a depth of at least \<open>k\<close>. Two positions are in order unless one pending segment covers
  both.\<close>

definition apart :: "seg \<Rightarrow> seg \<Rightarrow> bool" where
  "apart e f = (case e of (s, c, d) \<Rightarrow> case f of (s', c', d') \<Rightarrow> s + c \<le> s' \<or> s' + c' \<le> s)"

fun stack_ok :: "nat \<Rightarrow> seg list \<Rightarrow> bool" where
  "stack_ok n [] \<longleftrightarrow> True"
| "stack_ok n ((s, c, d) # st) \<longleftrightarrow>
     s + c \<le> n \<and> length st \<le> d \<and> d \<le> 50 \<and> (\<forall>e \<in> set st. apart (s, c, d) e) \<and> stack_ok n st"

definition covered :: "nat \<Rightarrow> nat \<Rightarrow> seg list \<Rightarrow> bool" where
  "covered p q st \<longleftrightarrow> (\<exists>(s, c, d) \<in> set st. s \<le> p \<and> q < s + c)"

definition settled :: "('a \<Rightarrow> 'a \<Rightarrow> int) \<Rightarrow> 'a list \<Rightarrow> nat \<Rightarrow> seg list \<Rightarrow> bool" where
  "settled cmp a n st \<longleftrightarrow> (\<forall>p q. p < q \<and> q < n \<longrightarrow> cmp (a ! p) (a ! q) \<le> 0 \<or> covered p q st)"

lemma covered_simps [simp]:
  "\<not> covered p q []" "covered p q ((s, c, d) # st) \<longleftrightarrow> s \<le> p \<and> q < s + c \<or> covered p q st"
  by (auto simp: covered_def)

lemma not_covered_apart:
  "\<forall>e \<in> set st. apart (s, c, d) e \<Longrightarrow> s \<le> k \<Longrightarrow> k < s + c \<Longrightarrow> p \<le> k \<Longrightarrow> k \<le> q \<Longrightarrow> \<not> covered p q st"
  by (fastforce simp: covered_def apart_def)

lemma settled_refine:
  assumes "settled cmp a n ((s, c, d) # st)" and "perm_in a a' s (s + c)"
    and "s + c \<le> n" "n \<le> length a" and "\<forall>e \<in> set st. apart (s, c, d) e"
    and new: "\<And>p q. s \<le> p \<Longrightarrow> p < q \<Longrightarrow> q < s + c \<Longrightarrow> cmp (a' ! p) (a' ! q) \<le> 0 \<or> covered p q st'"
    and sub: "set st \<subseteq> set st'"
  shows "settled cmp a' n st'"
  unfolding settled_def
proof (intro allI impI)
  fix p q assume pq: "p < q \<and> q < n"
  have mono: "covered p q st \<Longrightarrow> covered p q st'" using sub by (auto simp: covered_def)
  have old: "cmp (a ! x) (a ! y) \<le> 0 \<or> s \<le> x \<and> y < s + c \<or> covered x y st" if "x < y" "y < n" for x y
    using assms(1) that by (simp add: settled_def)
  have out: "a' ! k = a ! k" if "k < s \<or> s + c \<le> k" "k < n" for k
    using perm_in_outside [OF assms(2)] that assms(4) by simp
  consider "s \<le> p" "q < s + c" | "s \<le> p" "p < s + c" "s + c \<le> q" | "p < s" "s \<le> q" "q < s + c"
    | "p < s \<or> s + c \<le> p" "q < s \<or> s + c \<le> q" by linarith
  then show "cmp (a' ! p) (a' ! q) \<le> 0 \<or> covered p q st'"
  proof cases
    case 1
    with new pq show ?thesis by blast
  next
    case 2
    have "cmp (a ! k) (a ! q) \<le> 0" if "s \<le> k" "k < s + c" for k
      using old [of k q] not_covered_apart [OF assms(5) that, of k q] that 2 pq by auto
    then have "cmp (a' ! p) (a ! q) \<le> 0"
      using perm_in_all [OF assms(2), of "\<lambda>x. cmp x (a ! q) \<le> 0"] 2 assms(3,4) by auto
    with out [of q] 2 pq show ?thesis by simp
  next
    case 3
    have "cmp (a ! p) (a ! k) \<le> 0" if "s \<le> k" "k < s + c" for k
      using old [of p k] not_covered_apart [OF assms(5) that, of p k] that 3 assms(3) by auto
    then have "cmp (a ! p) (a' ! q) \<le> 0"
      using perm_in_all [OF assms(2), of "\<lambda>x. cmp (a ! p) x \<le> 0"] 3 assms(3,4) by auto
    with out [of p] 3 pq show ?thesis by simp
  next
    case 4
    with old [of p q] out [of p] out [of q] mono pq show ?thesis by auto
  qed
qed

lemma apart_sub:
  "apart (s, c, d) e \<Longrightarrow> s \<le> s' \<Longrightarrow> s' + c' \<le> s + c \<Longrightarrow> apart (s', c', d') e"
  by (auto simp: apart_def split: prod.splits)

lemma stack_ok_split:
  assumes "stack_ok N ((ptr, n, depth) # st)" and "depth < 50" and "lt \<le> gt" "gt \<le> n"
  shows "stack_ok N ((ptr + gt, n - gt, Suc depth) # (ptr, lt, Suc depth) # st)"
    and "stack_ok N ((ptr, lt, Suc depth) # (ptr + gt, n - gt, Suc depth) # st)"
  using assms by (auto simp: apart_def split: prod.splits)

lemma rqsort_inner_spec:
  assumes "stack_ok N ((ptr, n, depth) # st)" and "N \<le> length a"
  shows "\<exists>a' ptr' n' st' d'. rqsort_inner cmp a ptr n depth st = Some (a', ptr', n', st') \<and>
    perm_in a a' 0 N \<and> stack_ok N ((ptr', n', d') # st') \<and>
    (comparator cmp \<longrightarrow> settled cmp a N ((ptr, n, depth) # st) \<longrightarrow> settled cmp a' N ((ptr', n', d') # st'))"
  using assms
proof (induction cmp a ptr n depth st rule: rqsort_inner.induct)
  case (1 cmp a ptr n depth st)
  note ok = "1.prems"
  have seg: "ptr + n \<le> N" "ptr + n \<le> length a" "depth \<le> 50" "length st \<le> depth"
    "\<forall>e \<in> set st. apart (ptr, n, depth) e" using ok by auto
  consider "n \<le> 6" | "6 < n" "\<not> depth < 50" | "6 < n" "depth < 50" by linarith
  then show ?case
  proof cases
    case 1
    with ok show ?thesis by (subst rqsort_inner.simps) auto
  next
    case 2
    obtain a' where a': "heapsortx cmp a ptr n = Some a'" "perm_in a a' ptr (ptr + n)"
      using heapsortx_perm [OF seg(2)] by blast
    have "settled cmp a' N ((ptr, 0, depth) # st)"
      if "comparator cmp" "settled cmp a N ((ptr, n, depth) # st)"
      by (rule settled_refine [OF that(2) a'(2) seg(1) ok(2) seg(5)])
        (use comparator.heapsortx_sorted [OF that(1) seg(2) a'(1)] in \<open>auto simp: seg_sorted_def\<close>)
    moreover have "stack_ok N ((ptr, 0, depth) # st)" using ok apart_sub by auto
    moreover have "perm_in a a' 0 N" using perm_in_mono [OF a'(2)] seg(1) by simp
    ultimately show ?thesis using a' 2 by (subst rqsort_inner.simps) (auto simp del: stack_ok.simps)
  next
    case 3
    obtain a1 lt gt where p: "partition3 cmp a ptr n = Some (a1, lt, gt)" "perm_in a a1 ptr (ptr + n)"
      "lt < gt" "gt \<le> n" "parted cmp a1 ptr n lt gt" using partition3_spec [OF 3(1) seg(2)] by blast
    have len: "N \<le> length a1" using perm_in_length [OF p(2)] ok(2) by simp
    have perm: "perm_in a a1 0 N" using perm_in_mono [OF p(2)] seg(1) by simp
    have push: "push_seg st e = Some (e # st)" for e using seg(4) 3(2) by (simp add: push_seg_def)
    have settled: "settled cmp a1 N (e # f # st)"
      if "comparator cmp" "settled cmp a N ((ptr, n, depth) # st)"
        "{e, f} = {(ptr, lt, depth + 1), (ptr + gt, n - gt, depth + 1)}" for e f
    proof (rule settled_refine [OF that(2) p(2) seg(1) ok(2) seg(5)])
      fix x y assume *: "ptr \<le> x" "x < y" "y < ptr + n"
      show "cmp (a1 ! x) (a1 ! y) \<le> 0 \<or> covered x y (e # f # st)"
        using comparator.parted_order [OF that(1) p(5) _ *] p(3,4) that(3) *
        by (auto simp: covered_def doubleton_eq_iff)
    qed auto
    show ?thesis
    proof (cases "lt > n - gt")
      case big: True
      have st: "stack_ok N ((ptr + gt, n - gt, depth + 1) # (ptr, lt, depth + 1) # st)"
        using stack_ok_split [OF ok(1) 3(2), of lt gt] p(3,4) by simp
      from "1.IH"(1) [OF 3(1) _ p(1) refl refl big push st len] 3 obtain a' ptr' n' st' d' where
        r: "rqsort_inner cmp a1 (ptr + gt) (n - gt) (depth + 1) ((ptr, lt, depth + 1) # st) = Some (a', ptr', n', st')"
        "perm_in a1 a' 0 N" "stack_ok N ((ptr', n', d') # st')"
        "comparator cmp \<Longrightarrow> settled cmp a1 N ((ptr + gt, n - gt, depth + 1) # (ptr, lt, depth + 1) # st) \<Longrightarrow>
          settled cmp a' N ((ptr', n', d') # st')" by (auto simp del: stack_ok.simps)
      have "rqsort_inner cmp a ptr n depth st = Some (a', ptr', n', st')"
        using r(1) 3 p(1) big push by (subst rqsort_inner.simps) simp
      moreover have "perm_in a a' 0 N" using perm r(2) by (rule perm_in_trans)
      ultimately show ?thesis using r(3,4) settled by blast
    next
      case small: False
      have st: "stack_ok N ((ptr, lt, depth + 1) # (ptr + gt, n - gt, depth + 1) # st)"
        using stack_ok_split [OF ok(1) 3(2), of lt gt] p(3,4) by simp
      from "1.IH"(2) [OF 3(1) _ p(1) refl refl small push st len] 3 obtain a' ptr' n' st' d' where
        r: "rqsort_inner cmp a1 ptr lt (depth + 1) ((ptr + gt, n - gt, depth + 1) # st) = Some (a', ptr', n', st')"
        "perm_in a1 a' 0 N" "stack_ok N ((ptr', n', d') # st')"
        "comparator cmp \<Longrightarrow> settled cmp a1 N ((ptr, lt, depth + 1) # (ptr + gt, n - gt, depth + 1) # st) \<Longrightarrow>
          settled cmp a' N ((ptr', n', d') # st')" by (auto simp del: stack_ok.simps)
      have "rqsort_inner cmp a ptr n depth st = Some (a', ptr', n', st')"
        using r(1) 3 p(1) small push by (subst rqsort_inner.simps) simp
      moreover have "perm_in a a' 0 N" using perm r(2) by (rule perm_in_trans)
      ultimately show ?thesis using r(3,4) settled by blast
    qed
  qed
qed

lemma rqsort_loop_spec:
  assumes "stack_ok N st" and "N \<le> length a"
  shows "\<exists>a'. rqsort_loop cmp a st = Some a' \<and> perm_in a a' 0 N \<and>
    (comparator cmp \<longrightarrow> settled cmp a N st \<longrightarrow> settled cmp a' N [])"
  using assms
proof (induction cmp a st rule: rqsort_loop.induct)
  case (1 cmp a)
  then show ?case by simp
next
  case (2 cmp a ptr n depth st)
  obtain a1 ptr' n' st' d' where r: "rqsort_inner cmp a ptr n depth st = Some (a1, ptr', n', st')"
    "perm_in a a1 0 N" "stack_ok N ((ptr', n', d') # st')"
    "comparator cmp \<Longrightarrow> settled cmp a N ((ptr, n, depth) # st) \<Longrightarrow> settled cmp a1 N ((ptr', n', d') # st')"
    using rqsort_inner_spec [OF "2.prems"] by (metis (no_types))
  have seg: "ptr' + n' \<le> N" "N \<le> length a1" "ptr' + n' \<le> length a1" "\<forall>e \<in> set st'. apart (ptr', n', d') e"
    "stack_ok N st'" using r(2,3) "2.prems"(2) perm_in_length [OF r(2)] by auto
  obtain a2 where a2: "insertion_sort cmp a1 ptr' n' 1 = Some a2" "perm_in a1 a2 ptr' (ptr' + n')"
    using insertion_sort_perm [OF seg(3)] by blast
  have len2: "N \<le> length a2" using perm_in_length [OF a2(2)] seg(2) by simp
  obtain a' where a': "rqsort_loop cmp a2 st' = Some a'" "perm_in a2 a' 0 N"
    "comparator cmp \<Longrightarrow> settled cmp a2 N st' \<Longrightarrow> settled cmp a' N []"
    using "2.IH" [OF r(1) refl refl refl a2(1) seg(5) len2] by blast
  have "perm_in a1 a2 0 N" using perm_in_mono [OF a2(2)] seg(1) by simp
  then have perm: "perm_in a a' 0 N" using r(2) a'(2) by (blast intro: perm_in_trans)
  have "settled cmp a2 N st'" if "comparator cmp" "settled cmp a N ((ptr, n, depth) # st)"
  proof (rule settled_refine [OF r(4) [OF that] a2(2) seg(1,2,4)])
    have "seg_sorted cmp a2 ptr' n'"
    proof (cases n')
      case (Suc m)
      then show ?thesis
        using comparator.insertion_sort_sorted [OF that(1) seg(3) _ _ _ a2(1)] by simp
    qed (simp add: seg_sorted_def)
    then show "cmp (a2 ! p) (a2 ! q) \<le> 0 \<or> covered p q st'" if "ptr' \<le> p" "p < q" "q < ptr' + n'" for p q
      using that by (simp add: seg_sorted_def)
  qed simp
  then show ?case using r(1) a2(1) a' perm by auto
qed

section \<open>Comparison functions of the engine\<close>

text \<open>The element comparison functions of typed arrays, on the bits of an element. A difference of two
  8-bit or 16-bit values fits an \<^verbatim>\<open>int\<close>; the wider types are compared with \<^verbatim>\<open>(y < x) - (y > x)\<close>.\<close>

definition js_TA_cmp_int8 :: "u8 \<Rightarrow> u8 \<Rightarrow> int" where
  "js_TA_cmp_int8 a b = sint a - sint b"

definition js_TA_cmp_uint8 :: "u8 \<Rightarrow> u8 \<Rightarrow> int" where
  "js_TA_cmp_uint8 a b = uint a - uint b"

definition js_TA_cmp_int16 :: "u16 \<Rightarrow> u16 \<Rightarrow> int" where
  "js_TA_cmp_int16 a b = sint a - sint b"

definition js_TA_cmp_uint16 :: "u16 \<Rightarrow> u16 \<Rightarrow> int" where
  "js_TA_cmp_uint16 a b = uint a - uint b"

definition js_TA_cmp_int32 :: "u32 \<Rightarrow> u32 \<Rightarrow> int" where
  "js_TA_cmp_int32 x y = of_bool (sint y < sint x) - of_bool (sint y > sint x)"

definition js_TA_cmp_uint32 :: "u32 \<Rightarrow> u32 \<Rightarrow> int" where
  "js_TA_cmp_uint32 x y = of_bool (y < x) - of_bool (y > x)"

definition js_TA_cmp_int64 :: "u64 \<Rightarrow> u64 \<Rightarrow> int" where
  "js_TA_cmp_int64 x y = of_bool (sint y < sint x) - of_bool (sint y > sint x)"

definition js_TA_cmp_uint64 :: "u64 \<Rightarrow> u64 \<Rightarrow> int" where
  "js_TA_cmp_uint64 x y = of_bool (y < x) - of_bool (y > x)"

text \<open>A \<^verbatim>\<open>double\<close> as its 64 bits: sign, exponent and fraction. The numbers are ordered as their
  magnitudes with the sign, and the two zeros compare equal.\<close>

definition dbl_signbit :: "u64 \<Rightarrow> bool" where
  "dbl_signbit x = bit x 63"

definition dbl_mag :: "u64 \<Rightarrow> int" where
  "dbl_mag x = uint (x AND 0x7fffffffffffffff)"

definition dbl_isnan :: "u64 \<Rightarrow> bool" where
  "dbl_isnan x = (dbl_mag x > 0x7ff0000000000000)"

definition dbl_key :: "u64 \<Rightarrow> int" where
  "dbl_key x = (if dbl_signbit x then - dbl_mag x else dbl_mag x)"

definition js_cmp_doubles :: "u64 \<Rightarrow> u64 \<Rightarrow> int" where
  "js_cmp_doubles x y =
     (if dbl_isnan x then (if dbl_isnan y then 0 else 1)
      else if dbl_isnan y then -1
      else if dbl_key x < dbl_key y then -1
      else if dbl_key x > dbl_key y then 1
      else if dbl_key x \<noteq> 0 then 0
      else if dbl_signbit x then (if dbl_signbit y then 0 else -1)
      else (if dbl_signbit y then 1 else 0))"

definition js_TA_cmp_float64 :: "u64 \<Rightarrow> u64 \<Rightarrow> int" where
  "js_TA_cmp_float64 a b = js_cmp_doubles a b"

text \<open>A \<^verbatim>\<open>float\<close> as its 32 bits, and the exact conversion to \<^verbatim>\<open>double\<close> that passing it to \<open>js_cmp_doubles\<close> implies, on
  magnitudes: infinity and NaN keep their fraction and have the largest exponent, the exponent of a normal number
  changes its bias from 127 to 1023, and a subnormal number becomes normal, with the exponent of its highest bit.\<close>

function top_bit :: "nat \<Rightarrow> nat" where
  "top_bit m = (if m < 2 then 0 else top_bit (m div 2) + 1)"
  by pat_completeness auto
termination by (relation "measure id") auto

declare top_bit.simps [simp del]

definition flt_signbit :: "u32 \<Rightarrow> bool" where
  "flt_signbit x = bit x 31"

definition flt_mag :: "u32 \<Rightarrow> nat" where
  "flt_mag x = unat (x AND 0x7fffffff)"

definition widen_mag :: "nat \<Rightarrow> nat" where
  "widen_mag m =
     (if 0x7f800000 \<le> m then 0x7ff0000000000000 + (m - 0x7f800000) * 2 ^ 29
      else if 0x800000 \<le> m then m * 2 ^ 29 + (1023 - 127) * 2 ^ 52
      else if m = 0 then 0
      else let k = top_bit m in (1023 - 149 + k) * 2 ^ 52 + (m - 2 ^ k) * 2 ^ (52 - k))"

definition double_of_float :: "u32 \<Rightarrow> u64" where
  "double_of_float x = of_nat (widen_mag (flt_mag x)) OR (if flt_signbit x then 0x8000000000000000 else 0)"

definition js_TA_cmp_float32 :: "u32 \<Rightarrow> u32 \<Rightarrow> int" where
  "js_TA_cmp_float32 a b = js_cmp_doubles (double_of_float a) (double_of_float b)"

text \<open>\<open>js_typed_array_sort\<close> without a comparison function of the script: the class of the array selects the comparator and
  the size of an element, and arrays of one element are left alone.\<close>

datatype typed_array =
    JS_CLASS_UINT8C_ARRAY "u8 list"
  | JS_CLASS_INT8_ARRAY "u8 list"
  | JS_CLASS_UINT8_ARRAY "u8 list"
  | JS_CLASS_INT16_ARRAY "u16 list"
  | JS_CLASS_UINT16_ARRAY "u16 list"
  | JS_CLASS_INT32_ARRAY "u32 list"
  | JS_CLASS_UINT32_ARRAY "u32 list"
  | JS_CLASS_BIG_INT64_ARRAY "u64 list"
  | JS_CLASS_BIG_UINT64_ARRAY "u64 list"
  | JS_CLASS_FLOAT32_ARRAY "u32 list"
  | JS_CLASS_FLOAT64_ARRAY "u64 list"

definition sort_elements :: "'a list \<Rightarrow> nat \<Rightarrow> ('a \<Rightarrow> 'a \<Rightarrow> int) \<Rightarrow> 'a list option" where
  "sort_elements a elt_size cmpfun = (if length a > 1 then rqsort a (length a) elt_size cmpfun else Some a)"

definition js_typed_array_sort :: "typed_array \<Rightarrow> typed_array option" where
  "js_typed_array_sort p =
     (case p of
        JS_CLASS_INT8_ARRAY a \<Rightarrow> map_option JS_CLASS_INT8_ARRAY (sort_elements a 1 js_TA_cmp_int8)
      | JS_CLASS_UINT8C_ARRAY a \<Rightarrow> map_option JS_CLASS_UINT8C_ARRAY (sort_elements a 1 js_TA_cmp_uint8)
      | JS_CLASS_UINT8_ARRAY a \<Rightarrow> map_option JS_CLASS_UINT8_ARRAY (sort_elements a 1 js_TA_cmp_uint8)
      | JS_CLASS_INT16_ARRAY a \<Rightarrow> map_option JS_CLASS_INT16_ARRAY (sort_elements a 2 js_TA_cmp_int16)
      | JS_CLASS_UINT16_ARRAY a \<Rightarrow> map_option JS_CLASS_UINT16_ARRAY (sort_elements a 2 js_TA_cmp_uint16)
      | JS_CLASS_INT32_ARRAY a \<Rightarrow> map_option JS_CLASS_INT32_ARRAY (sort_elements a 4 js_TA_cmp_int32)
      | JS_CLASS_UINT32_ARRAY a \<Rightarrow> map_option JS_CLASS_UINT32_ARRAY (sort_elements a 4 js_TA_cmp_uint32)
      | JS_CLASS_BIG_INT64_ARRAY a \<Rightarrow> map_option JS_CLASS_BIG_INT64_ARRAY (sort_elements a 8 js_TA_cmp_int64)
      | JS_CLASS_BIG_UINT64_ARRAY a \<Rightarrow> map_option JS_CLASS_BIG_UINT64_ARRAY (sort_elements a 8 js_TA_cmp_uint64)
      | JS_CLASS_FLOAT32_ARRAY a \<Rightarrow> map_option JS_CLASS_FLOAT32_ARRAY (sort_elements a 4 js_TA_cmp_float32)
      | JS_CLASS_FLOAT64_ARRAY a \<Rightarrow> map_option JS_CLASS_FLOAT64_ARRAY (sort_elements a 8 js_TA_cmp_float64))"

text \<open>Numeric property keys, once \<^verbatim>\<open>JS_AtomIsArrayIndex\<close> has given their values.\<close>

definition num_keys_cmp :: "u32 \<Rightarrow> u32 \<Rightarrow> int" where
  "num_keys_cmp v1 v2 = (if v1 < v2 then -1 else if v1 = v2 then 0 else 1)"

interpretation ta_int8: comparator js_TA_cmp_int8
  by unfold_locales (auto simp: js_TA_cmp_int8_def)

interpretation ta_uint8: comparator js_TA_cmp_uint8
  by unfold_locales (auto simp: js_TA_cmp_uint8_def)

interpretation ta_int16: comparator js_TA_cmp_int16
  by unfold_locales (auto simp: js_TA_cmp_int16_def)

interpretation ta_uint16: comparator js_TA_cmp_uint16
  by unfold_locales (auto simp: js_TA_cmp_uint16_def)

interpretation ta_int32: comparator js_TA_cmp_int32
  by unfold_locales (auto simp: js_TA_cmp_int32_def of_bool_def split: if_splits)

interpretation ta_uint32: comparator js_TA_cmp_uint32
  by unfold_locales (auto simp: js_TA_cmp_uint32_def of_bool_def split: if_splits)

interpretation ta_int64: comparator js_TA_cmp_int64
  by unfold_locales (auto simp: js_TA_cmp_int64_def of_bool_def split: if_splits)

interpretation ta_uint64: comparator js_TA_cmp_uint64
  by unfold_locales (auto simp: js_TA_cmp_uint64_def of_bool_def split: if_splits)

interpretation ta_float64: comparator js_TA_cmp_float64
  by unfold_locales (auto simp: js_TA_cmp_float64_def js_cmp_doubles_def split: if_splits)

interpretation ta_float32: comparator js_TA_cmp_float32
  by unfold_locales (auto simp: js_TA_cmp_float32_def js_cmp_doubles_def split: if_splits)

interpretation num_keys: comparator num_keys_cmp
  by unfold_locales (auto simp: num_keys_cmp_def split: if_splits)

section \<open>Properties\<close>

lemma rqsort_spec:
  assumes "nmemb \<le> length a" and "0 < sz"
  shows "\<exists>a'. rqsort a nmemb sz cmp = Some a' \<and> perm_in a a' 0 nmemb \<and>
    (comparator cmp \<longrightarrow> settled cmp a' nmemb [])"
proof (cases "nmemb < 2")
  case True
  then show ?thesis using assms by (auto simp: rqsort_def settled_def)
next
  case False
  then show ?thesis
    using rqsort_loop_spec [of nmemb "[(0, nmemb, 0)]" a cmp] assms
    by (auto simp: rqsort_def settled_def)
qed

text \<open>C4: whatever the comparison function returns, even if it is inconsistent, \<open>rqsort\<close> ends, never
  touches an element outside the array or an entry outside its stack of 50, and leaves a
  rearrangement of the \<open>nmemb\<close> elements, with the rest of the memory unchanged.\<close>

theorem rqsort_permutes:
  assumes "nmemb \<le> length a"
  shows "\<exists>a'. rqsort a nmemb sz cmp = Some a' \<and> mset (take nmemb a') = mset (take nmemb a) \<and>
    drop nmemb a' = drop nmemb a"
proof (cases "0 < sz")
  case True
  then obtain a' where a': "rqsort a nmemb sz cmp = Some a'" "perm_in a a' 0 nmemb"
    using rqsort_spec [OF assms True] by blast
  have "drop nmemb a' = drop nmemb a"
    using a'(2) by (intro nth_equalityI) (auto simp: perm_in_def)
  with a' perm_in_slice [OF a'(2)] assms show ?thesis by auto
qed (simp add: rqsort_def)

theorem rqsort_permutes_witness:
  "\<exists>a'. rqsort [3::int, 1, 2, 9, 8, 7, 6, 5] 8 4 (\<lambda>x y. 1) = Some a' \<and>
    mset (take 8 a') = mset [3, 1, 2, 9, 8, 7, 6, 5]"
  using rqsort_permutes [of 8 "[3::int, 1, 2, 9, 8, 7, 6, 5]" 4 "\<lambda>x y. 1"] by auto

text \<open>C3: with a consistent comparison function (its sign flips when the arguments change places, and
  it is transitive) \<open>rqsort\<close> returns with the \<open>nmemb\<close> elements in order; every pass through quicksort,
  heap sort and insertion sort is covered.\<close>

theorem rqsort_sorts:
  assumes "comparator cmp" and "nmemb \<le> length a" and "0 < sz"
  shows "\<exists>a'. rqsort a nmemb sz cmp = Some a' \<and> mset (take nmemb a') = mset (take nmemb a) \<and>
    sorted_wrt (\<lambda>x y. cmp x y \<le> 0) (take nmemb a')"
proof -
  obtain a' where a': "rqsort a nmemb sz cmp = Some a'" "perm_in a a' 0 nmemb" "settled cmp a' nmemb []"
    using rqsort_spec [OF assms(2,3)] assms(1) by blast
  have "sorted_wrt (\<lambda>x y. cmp x y \<le> 0) (take nmemb a')"
    using a'(3) by (auto simp: sorted_wrt_iff_nth_less settled_def)
  with a' perm_in_slice [OF a'(2)] assms(2) show ?thesis by auto
qed

theorem rqsort_sorts_witness:
  "\<exists>a'. rqsort [30, 1, 2, 9, 8, 7, 6, 5] 8 4 js_TA_cmp_uint32 = Some a' \<and>
    mset (take 8 a') = mset [30, 1, 2, 9, 8, 7, 6, 5] \<and>
    sorted_wrt (\<lambda>x y. js_TA_cmp_uint32 x y \<le> 0) (take 8 a')"
  using rqsort_sorts [OF ta_uint32.comparator_axioms, of 8 "[30, 1, 2, 9, 8, 7, 6, 5]" 4] by simp

text \<open>The order of the elements of a typed array: integers by their signed or unsigned value; floating point numbers in
  increasing order, the negative zeros before the positive ones and the NaNs last. The order of \<^verbatim>\<open>float\<close> is stated on its
  own 32 bits.\<close>

definition flt_isnan :: "u32 \<Rightarrow> bool" where
  "flt_isnan x \<longleftrightarrow> flt_mag x > 0x7f800000"

definition flt_key :: "u32 \<Rightarrow> int" where
  "flt_key x = (if flt_signbit x then - int (flt_mag x) else int (flt_mag x))"

definition number_order :: "('a \<Rightarrow> bool) \<Rightarrow> ('a \<Rightarrow> int) \<Rightarrow> ('a \<Rightarrow> bool) \<Rightarrow> 'a \<Rightarrow> 'a \<Rightarrow> bool" where
  "number_order isnan key negative x y \<longleftrightarrow>
     isnan y \<or> \<not> isnan x \<and> (key x < key y \<or> key x = key y \<and> (key x = 0 \<longrightarrow> negative y \<longrightarrow> negative x))"

definition sorts_to :: "('a \<Rightarrow> 'a \<Rightarrow> bool) \<Rightarrow> 'a list \<Rightarrow> 'a list \<Rightarrow> bool" where
  "sorts_to le a b \<longleftrightarrow> mset b = mset a \<and> sorted_wrt le b"

definition numeric_sort :: "typed_array \<Rightarrow> typed_array \<Rightarrow> bool" where
  "numeric_sort p q \<longleftrightarrow>
     (case (p, q) of
        (JS_CLASS_UINT8C_ARRAY a, JS_CLASS_UINT8C_ARRAY b) \<Rightarrow> sorts_to (\<lambda>x y. uint x \<le> uint y) a b
      | (JS_CLASS_INT8_ARRAY a, JS_CLASS_INT8_ARRAY b) \<Rightarrow> sorts_to (\<lambda>x y. sint x \<le> sint y) a b
      | (JS_CLASS_UINT8_ARRAY a, JS_CLASS_UINT8_ARRAY b) \<Rightarrow> sorts_to (\<lambda>x y. uint x \<le> uint y) a b
      | (JS_CLASS_INT16_ARRAY a, JS_CLASS_INT16_ARRAY b) \<Rightarrow> sorts_to (\<lambda>x y. sint x \<le> sint y) a b
      | (JS_CLASS_UINT16_ARRAY a, JS_CLASS_UINT16_ARRAY b) \<Rightarrow> sorts_to (\<lambda>x y. uint x \<le> uint y) a b
      | (JS_CLASS_INT32_ARRAY a, JS_CLASS_INT32_ARRAY b) \<Rightarrow> sorts_to (\<lambda>x y. sint x \<le> sint y) a b
      | (JS_CLASS_UINT32_ARRAY a, JS_CLASS_UINT32_ARRAY b) \<Rightarrow> sorts_to (\<lambda>x y. uint x \<le> uint y) a b
      | (JS_CLASS_BIG_INT64_ARRAY a, JS_CLASS_BIG_INT64_ARRAY b) \<Rightarrow> sorts_to (\<lambda>x y. sint x \<le> sint y) a b
      | (JS_CLASS_BIG_UINT64_ARRAY a, JS_CLASS_BIG_UINT64_ARRAY b) \<Rightarrow> sorts_to (\<lambda>x y. uint x \<le> uint y) a b
      | (JS_CLASS_FLOAT32_ARRAY a, JS_CLASS_FLOAT32_ARRAY b) \<Rightarrow> sorts_to (number_order flt_isnan flt_key flt_signbit) a b
      | (JS_CLASS_FLOAT64_ARRAY a, JS_CLASS_FLOAT64_ARRAY b) \<Rightarrow> sorts_to (number_order dbl_isnan dbl_key dbl_signbit) a b
      | _ \<Rightarrow> False)"

text \<open>Widening keeps the order of magnitudes.\<close>

lemma top_bit_bounds: "0 < m \<Longrightarrow> 2 ^ top_bit m \<le> m \<and> m < 2 ^ (top_bit m + 1)"
proof (induction m rule: top_bit.induct)
  case (1 m)
  show ?case
  proof (cases "m < 2")
    case False
    then have "2 ^ top_bit (m div 2) \<le> m div 2 \<and> m div 2 < 2 ^ (top_bit (m div 2) + 1)" using 1 by simp
    then show ?thesis using False by (subst (1 2) top_bit.simps) auto
  qed (use "1.prems" in \<open>auto simp: top_bit.simps\<close>)
qed

lemma widen_subnormal:
  assumes "0 < m" "m < 0x800000"
  shows "top_bit m \<le> 22" "(874 + top_bit m) * 2 ^ 52 \<le> widen_mag m" "widen_mag m < (875 + top_bit m) * 2 ^ 52"
    "widen_mag m = (874 + top_bit m) * 2 ^ 52 + (m - 2 ^ top_bit m) * 2 ^ (52 - top_bit m)"
proof -
  note b = top_bit_bounds [OF assms(1)]
  have "(2 :: nat) ^ top_bit m < 2 ^ 23" using b assms(2) by simp
  then have "top_bit m < 23" by (rule power_less_imp_less_exp [rotated]) simp
  then show k: "top_bit m \<le> 22" by simp
  show w: "widen_mag m = (874 + top_bit m) * 2 ^ 52 + (m - 2 ^ top_bit m) * 2 ^ (52 - top_bit m)"
    using assms by (simp add: widen_mag_def Let_def)
  have "(m - 2 ^ top_bit m) * 2 ^ (52 - top_bit m) < 2 ^ top_bit m * 2 ^ (52 - top_bit m)"
    using b by (intro mult_strict_right_mono) auto
  also have "\<dots> = 2 ^ 52" using k by (simp flip: power_add)
  finally show "widen_mag m < (875 + top_bit m) * 2 ^ 52" by (simp add: w)
  show "(874 + top_bit m) * 2 ^ 52 \<le> widen_mag m" by (simp add: w)
qed

lemma widen_mag_less:
  assumes "m < n"
  shows "widen_mag m < widen_mag n"
proof (cases "n < 0x800000 \<and> 0 < m")
  case True
  note m = widen_subnormal [of m] and n = widen_subnormal [of n]
  note bm = top_bit_bounds [of m] and bn = top_bit_bounds [of n]
  consider "top_bit m < top_bit n" | "top_bit m = top_bit n" | "top_bit n < top_bit m" by linarith
  then show ?thesis
  proof cases
    case 1
    then have "(875 + top_bit m) * 2 ^ 52 \<le> (874 + top_bit n) * (2 :: nat) ^ 52" by simp
    then show ?thesis using m(3) n(2) True assms by linarith
  next
    case 2
    have "(m - 2 ^ top_bit m) * 2 ^ (52 - top_bit m) < (n - 2 ^ top_bit m) * (2 :: nat) ^ (52 - top_bit m)"
      using bm True assms by (intro mult_strict_right_mono) auto
    then show ?thesis using m(4) n(4) True assms 2 by simp
  next
    case 3
    then have "(2 :: nat) ^ (top_bit n + 1) \<le> 2 ^ top_bit m" by (intro power_increasing) simp_all
    then show ?thesis using bm bn True assms by linarith
  qed
next
  case False
  show ?thesis
  proof (cases "m = 0")
    case True
    then show ?thesis using assms widen_subnormal(2) [of n] by (cases "n < 0x800000") (auto simp: widen_mag_def Let_def)
  next
    case pos: False
    then have n: "0x800000 \<le> n" using False by auto
    show ?thesis
    proof (cases "m < 0x800000")
      case True
      then have "widen_mag m < 897 * 2 ^ 52" using widen_subnormal(1,3) [of m] pos by (auto intro: less_le_trans)
      moreover have "897 * 2 ^ 52 \<le> widen_mag n" using n by (simp add: widen_mag_def)
      ultimately show ?thesis by simp
    next
      case normal: False
      then show ?thesis using assms diff_less_mono [OF assms, of "0x7f800000"] by (auto simp: widen_mag_def)
    qed
  qed
qed

lemma widen_mag_iff: "widen_mag m < widen_mag n \<longleftrightarrow> m < n" "widen_mag m = widen_mag n \<longleftrightarrow> m = n" "widen_mag m = 0 \<longleftrightarrow> m = 0"
proof -
  show *: "widen_mag m < widen_mag n \<longleftrightarrow> m < n" for m n
    using widen_mag_less by (metis less_irrefl linorder_neqE_nat order.strict_trans)
  show "widen_mag m = widen_mag n \<longleftrightarrow> m = n" for m n
    using * by (metis linorder_neqE_nat less_irrefl)
  from this [of m 0] show "widen_mag m = 0 \<longleftrightarrow> m = 0" by (simp add: widen_mag_def)
qed

lemma flt_mag_less: "flt_mag x < 2 ^ 31"
proof -
  have "x AND 0x7fffffff = take_bit 31 x" by (simp add: take_bit_eq_mask mask_eq_exp_minus_1)
  then show ?thesis using take_bit_nat_less_exp [of 31 "unat x"] by (simp add: flt_mag_def unsigned_take_bit_eq)
qed

lemma widen_mag_bound: "widen_mag (flt_mag x) < 2 ^ 63"
  using widen_mag_less [OF flt_mag_less [of x]] by (simp add: widen_mag_def)

lemma double_of_float_fields:
  "dbl_mag (double_of_float x) = int (widen_mag (flt_mag x))" "dbl_signbit (double_of_float x) = flt_signbit x"
proof -
  define w :: u64 where "w = of_nat (widen_mag (flt_mag x))"
  have uw: "unat w = widen_mag (flt_mag x)"
    using widen_mag_bound [of x] by (simp add: w_def unsigned_of_nat take_bit_nat_eq_self)
  have t: "take_bit 63 w = w" using widen_mag_bound [of x] uw
    by (simp add: word_unat_eq_iff unsigned_take_bit_eq take_bit_nat_eq_self)
  have m: "v AND 0x7fffffffffffffff = take_bit 63 v" for v :: u64 by (simp add: take_bit_eq_mask mask_eq_exp_minus_1)
  have h: "take_bit 63 (0x8000000000000000 :: u64) = 0" by code_simp
  have "take_bit 63 (double_of_float x) = w"
    by (simp add: double_of_float_def take_bit_or h t flip: w_def)
  then show "dbl_mag (double_of_float x) = int (widen_mag (flt_mag x))"
    by (simp add: dbl_mag_def m flip: uw)
  have "\<not> bit w 63" using t by (metis bit_take_bit_iff less_irrefl)
  moreover have "bit (0x8000000000000000 :: u64) 63" by code_simp
  ultimately show "dbl_signbit (double_of_float x) = flt_signbit x"
    by (simp add: dbl_signbit_def double_of_float_def bit_or_iff flip: w_def)
qed

lemma double_of_float_isnan: "dbl_isnan (double_of_float x) = flt_isnan x"
proof -
  have "widen_mag 0x7f800000 = 0x7ff0000000000000" by (simp add: widen_mag_def)
  then show ?thesis using widen_mag_iff(1) [of "0x7f800000" "flt_mag x"]
    by (simp add: dbl_isnan_def flt_isnan_def double_of_float_fields)
qed

lemma double_of_float_key:
  "dbl_key (double_of_float x) < dbl_key (double_of_float y) \<longleftrightarrow> flt_key x < flt_key y"
  "dbl_key (double_of_float x) = 0 \<longleftrightarrow> flt_key x = 0"
proof -
  have "- int a < int b \<longleftrightarrow> \<not> (a = 0 \<and> b = 0)" for a b by linarith
  then show "dbl_key (double_of_float x) < dbl_key (double_of_float y) \<longleftrightarrow> flt_key x < flt_key y"
    "dbl_key (double_of_float x) = 0 \<longleftrightarrow> flt_key x = 0"
    by (auto simp: dbl_key_def flt_key_def double_of_float_fields widen_mag_iff simp del: not_gr_zero neq0_conv)
qed

text \<open>What the comparators say, in terms of that order.\<close>

lemma cmp_doubles_order: "js_cmp_doubles x y \<le> 0 \<Longrightarrow> number_order dbl_isnan dbl_key dbl_signbit x y"
  by (auto simp: js_cmp_doubles_def number_order_def split: if_splits)

lemma cmp_float64_order: "js_TA_cmp_float64 x y \<le> 0 \<Longrightarrow> number_order dbl_isnan dbl_key dbl_signbit x y"
  using cmp_doubles_order by (simp add: js_TA_cmp_float64_def)

lemma cmp_floats_order:
  assumes "js_TA_cmp_float32 x y \<le> 0"
  shows "number_order flt_isnan flt_key flt_signbit x y"
  using cmp_doubles_order [OF assms [unfolded js_TA_cmp_float32_def]] double_of_float_key(1) [of x y] double_of_float_key(1) [of y x]
    double_of_float_key(2) [of x]
  by (auto simp: number_order_def double_of_float_isnan double_of_float_fields)

lemma sort_elements_sorts:
  assumes "comparator cmp" "0 < sz" "\<And>x y. cmp x y \<le> 0 \<Longrightarrow> le x y"
  shows "\<exists>b. sort_elements a sz cmp = Some b \<and> sorts_to le a b"
proof (cases "length a > 1")
  case True
  obtain b where b: "rqsort a (length a) sz cmp = Some b" "perm_in a b 0 (length a)" "settled cmp b (length a) []"
    using rqsort_spec [OF order_refl assms(2)] assms(1) by blast
  have len: "length b = length a" using b(2) by (simp add: perm_in_def)
  have "sorted_wrt le b" using b(3) assms(3) len by (auto simp: sorted_wrt_iff_nth_less settled_def)
  moreover have "mset b = mset a" using perm_in_slice [OF b(2)] len by simp
  ultimately show ?thesis using b(1) True by (simp add: sort_elements_def sorts_to_def)
next
  case False
  then have "sorted_wrt le a" by (cases a) auto
  then show ?thesis using False by (simp add: sort_elements_def sorts_to_def)
qed

lemma integer_orders:
  "js_TA_cmp_int8 a b \<le> 0 \<Longrightarrow> sint a \<le> sint b" "js_TA_cmp_uint8 a b \<le> 0 \<Longrightarrow> uint a \<le> uint b"
  "js_TA_cmp_int16 c d \<le> 0 \<Longrightarrow> sint c \<le> sint d" "js_TA_cmp_uint16 c d \<le> 0 \<Longrightarrow> uint c \<le> uint d"
  "js_TA_cmp_int32 e f \<le> 0 \<Longrightarrow> sint e \<le> sint f" "js_TA_cmp_uint32 e f \<le> 0 \<Longrightarrow> uint e \<le> uint f"
  "js_TA_cmp_int64 g h \<le> 0 \<Longrightarrow> sint g \<le> sint h" "js_TA_cmp_uint64 g h \<le> 0 \<Longrightarrow> uint g \<le> uint h"
  by (simp_all add: js_TA_cmp_int8_def js_TA_cmp_uint8_def js_TA_cmp_int16_def js_TA_cmp_uint16_def js_TA_cmp_int32_def
      js_TA_cmp_uint32_def js_TA_cmp_int64_def js_TA_cmp_uint64_def word_less_def split: if_splits)

lemmas element_orders = integer_orders cmp_floats_order cmp_float64_order

lemmas element_comparators =
  ta_int8.comparator_axioms ta_uint8.comparator_axioms ta_int16.comparator_axioms ta_uint16.comparator_axioms
  ta_int32.comparator_axioms ta_uint32.comparator_axioms ta_int64.comparator_axioms ta_uint64.comparator_axioms
  ta_float32.comparator_axioms ta_float64.comparator_axioms

lemma array_sorts:
  assumes "comparator cmp" "0 < sz" "\<And>x y. cmp x y \<le> 0 \<Longrightarrow> le x y" "\<And>b. numeric_sort (C a) (C b) \<longleftrightarrow> sorts_to le a b"
  shows "\<exists>q. map_option C (sort_elements a sz cmp) = Some q \<and> numeric_sort (C a) q"
proof -
  obtain b where "sort_elements a sz cmp = Some b" "sorts_to le a b"
    using sort_elements_sorts [OF assms(1,2), of le a] assms(3) by blast
  then show ?thesis using assms(4) by simp
qed

text \<open>C5: sorting a typed array. For each of the eleven classes of typed arrays \<open>js_typed_array_sort\<close>, called without a
  comparison function, returns the same elements in numeric order: signed and unsigned integers of 8 to 64 bits by their
  values, \<^verbatim>\<open>float\<close> and \<^verbatim>\<open>double\<close> numbers in increasing order, negative zeros before positive ones and NaNs last.\<close>

theorem typed_array_sort:
  "\<exists>q. js_typed_array_sort p = Some q \<and> numeric_sort p q"
  by (cases p; simp only: js_typed_array_sort_def typed_array.case; rule array_sorts)
    (auto simp: numeric_sort_def element_comparators element_orders)

text \<open>C6: on raw memory the exchange function that \<open>exchange_func\<close> selects for the base address and
  the element size carries out \<open>swap\<close> on the elements, and the one selected for \<^verbatim>\<open>size | 128\<close>
  carries out \<open>swap_block\<close>, for any alignment and any element size.\<close>

theorem exchange_func_refines_swap:
  assumes "0 < sz" and "swap (elems sz m) p q = Some e"
    and "r + n \<le> t" "t + n \<le> length m div sz" and "swap_block (elems sz m) r t n = Some f"
  shows "(\<exists>m'. exchange_func base sz m (p * sz) (q * sz) sz = Some m' \<and> elems sz m' = e) \<and>
    (\<exists>m'. exchange_func base (sz OR 128) m (r * sz) (t * sz) (n * sz) = Some m' \<and> elems sz m' = f)"
  using exchange_element_refines [OF assms(1,2)] exchange_block_refines [OF assms(1,3-5)] by blast

theorem exchange_func_refines_swap_witness:
  "(\<exists>m'. exchange_func 4 2 [1, 2, 3, 4, 5, 6, 7, 8] 0 4 2 = Some m' \<and>
      elems 2 m' = [[5, 6], [3, 4], [1, 2], [7, 8]]) \<and>
    (\<exists>m'. exchange_func 4 (2 OR 128) [1, 2, 3, 4, 5, 6, 7, 8] 0 4 4 = Some m' \<and>
      elems 2 m' = [[5, 6], [7, 8], [1, 2], [3, 4]])"
proof -
  have "swap (elems 2 [1, 2, 3, 4, 5, 6, 7, 8]) 0 2 = Some [[5, 6], [3, 4], [1, 2], [7, 8]]"
    "swap_block (elems 2 [1, 2, 3, 4, 5, 6, 7, 8]) 0 2 2 = Some [[5, 6], [7, 8], [1, 2], [3, 4]]"
    by code_simp+
  from exchange_func_refines_swap [OF _ this(1) _ _ this(2), of 4] show ?thesis by simp
qed

end
