(* ===== verification/List_Head.thy ===== *)
theory List_Head
  imports Prelude
begin

text \<open>
  The intrusive doubly linked lists of \<^verbatim>\<open>src/qjs/list.h\<close>, on an explicit heap. An address is a natural
  number, 0 is \<^verbatim>\<open>NULL\<close>; the heap maps the address of every live \<^verbatim>\<open>struct list_head\<close> to its two
  pointers. Dereferencing an address that is not in the heap is the value \<open>None\<close>. The header of a
  list is itself an element of the cycle.
\<close>

section \<open>Heap and operations\<close>

type_synonym addr = nat

record list_head =
  lh_prev :: addr
  lh_next :: addr

type_synonym heap = "addr \<Rightarrow> list_head option"

definition set_prev :: "heap \<Rightarrow> addr \<Rightarrow> addr \<Rightarrow> heap option" where
  "set_prev h p v = do { n \<leftarrow> h p; Some (h(p \<mapsto> n\<lparr>lh_prev := v\<rparr>)) }"

definition set_next :: "heap \<Rightarrow> addr \<Rightarrow> addr \<Rightarrow> heap option" where
  "set_next h p v = do { n \<leftarrow> h p; Some (h(p \<mapsto> n\<lparr>lh_next := v\<rparr>)) }"

definition init_list_head :: "heap \<Rightarrow> addr \<Rightarrow> heap option" where
  "init_list_head h head = do { h \<leftarrow> set_prev h head head; set_next h head head }"

definition list_add_between :: "heap \<Rightarrow> addr \<Rightarrow> addr \<Rightarrow> addr \<Rightarrow> heap option" where
  "list_add_between h el prev next = do {
     h \<leftarrow> set_next h prev el;
     h \<leftarrow> set_prev h el prev;
     h \<leftarrow> set_next h el next;
     set_prev h next el }"

definition list_add :: "heap \<Rightarrow> addr \<Rightarrow> addr \<Rightarrow> heap option" where
  "list_add h el head = do { n \<leftarrow> h head; list_add_between h el head (lh_next n) }"

definition list_add_tail :: "heap \<Rightarrow> addr \<Rightarrow> addr \<Rightarrow> heap option" where
  "list_add_tail h el head = do { n \<leftarrow> h head; list_add_between h el (lh_prev n) head }"

definition list_del :: "heap \<Rightarrow> addr \<Rightarrow> heap option" where
  "list_del h el = do {
     n \<leftarrow> h el;
     let prev = lh_prev n;
     let next = lh_next n;
     h \<leftarrow> set_next h prev next;
     h \<leftarrow> set_prev h next prev;
     h \<leftarrow> set_prev h el 0;
     set_next h el 0 }"

definition list_empty :: "heap \<Rightarrow> addr \<Rightarrow> bool option" where
  "list_empty h el = do { n \<leftarrow> h el; Some (lh_next n = el) }"

text \<open>The iteration macros. The body is a function on a state that holds the heap and whatever else it
  works on; \<open>fuel\<close> bounds the number of rounds. The plain macros read the link of \<open>el\<close> after the body
  ran, the safe ones have read it before.\<close>

fun for_each_from ::
  "(list_head \<Rightarrow> addr) \<Rightarrow> (addr \<Rightarrow> heap \<times> 's \<Rightarrow> (heap \<times> 's) option) \<Rightarrow> nat \<Rightarrow> addr \<Rightarrow> addr \<Rightarrow> heap \<times> 's \<Rightarrow> (heap \<times> 's) option"
where
  "for_each_from link body 0 head el st = None"
| "for_each_from link body (Suc fuel) head el st =
     (if el = head then Some st
      else do {
        (h, s) \<leftarrow> body el st;
        n \<leftarrow> h el;
        for_each_from link body fuel head (link n) (h, s) })"

definition list_for_each where
  "list_for_each body fuel head st = do { n \<leftarrow> fst st head; for_each_from lh_next body fuel head (lh_next n) st }"

definition list_for_each_prev where
  "list_for_each_prev body fuel head st = do { n \<leftarrow> fst st head; for_each_from lh_prev body fuel head (lh_prev n) st }"

fun for_each_safe_from ::
  "(list_head \<Rightarrow> addr) \<Rightarrow> (addr \<Rightarrow> heap \<times> 's \<Rightarrow> (heap \<times> 's) option) \<Rightarrow> nat \<Rightarrow> addr \<Rightarrow> addr \<Rightarrow> addr \<Rightarrow> heap \<times> 's \<Rightarrow> (heap \<times> 's) option"
where
  "for_each_safe_from link body 0 head el el1 st = None"
| "for_each_safe_from link body (Suc fuel) head el el1 st =
     (if el = head then Some st
      else do {
        (h, s) \<leftarrow> body el st;
        n \<leftarrow> h el1;
        for_each_safe_from link body fuel head el1 (link n) (h, s) })"

definition list_for_each_safe where
  "list_for_each_safe body fuel head st = do {
     n \<leftarrow> fst st head;
     n1 \<leftarrow> fst st (lh_next n);
     for_each_safe_from lh_next body fuel head (lh_next n) (lh_next n1) st }"

definition list_for_each_prev_safe where
  "list_for_each_prev_safe body fuel head st = do {
     n \<leftarrow> fst st head;
     n1 \<leftarrow> fst st (lh_prev n);
     for_each_safe_from lh_prev body fuel head (lh_prev n) (lh_prev n1) st }"

section \<open>Lists in the heap\<close>

text \<open>The two pointer maps of a heap, and the effect of the operations on them.\<close>

definition nx :: "heap \<Rightarrow> addr \<Rightarrow> addr option" where
  "nx h p = map_option lh_next (h p)"

definition pv :: "heap \<Rightarrow> addr \<Rightarrow> addr option" where
  "pv h p = map_option lh_prev (h p)"

lemma set_next_maps:
  assumes "p \<in> dom h"
  shows "\<exists>h'. set_next h p v = Some h' \<and> nx h' = (nx h)(p \<mapsto> v) \<and> pv h' = pv h \<and> dom h' = dom h"
proof -
  obtain n where n: "h p = Some n" using assms by blast
  let ?h = "h(p \<mapsto> n\<lparr>lh_next := v\<rparr>)"
  have "nx ?h = (nx h)(p \<mapsto> v)" "pv ?h = pv h" by (auto simp: nx_def pv_def n)
  then show ?thesis using n by (simp add: set_next_def dom_def) auto
qed

lemma set_prev_maps:
  assumes "p \<in> dom h"
  shows "\<exists>h'. set_prev h p v = Some h' \<and> pv h' = (pv h)(p \<mapsto> v) \<and> nx h' = nx h \<and> dom h' = dom h"
proof -
  obtain n where n: "h p = Some n" using assms by blast
  let ?h = "h(p \<mapsto> n\<lparr>lh_prev := v\<rparr>)"
  have "pv ?h = (pv h)(p \<mapsto> v)" "nx ?h = nx h" by (auto simp: nx_def pv_def n)
  then show ?thesis using n by (simp add: set_prev_def dom_def) auto
qed

lemma list_add_between_maps:
  assumes "{p, el, q} \<subseteq> dom h"
  shows "\<exists>h'. list_add_between h el p q = Some h' \<and> nx h' = (nx h)(p \<mapsto> el, el \<mapsto> q) \<and>
    pv h' = (pv h)(el \<mapsto> p, q \<mapsto> el) \<and> dom h' = dom h"
proof -
  obtain h1 where h1: "set_next h p el = Some h1" "nx h1 = (nx h)(p \<mapsto> el)" "pv h1 = pv h" "dom h1 = dom h"
    using set_next_maps [of p h el] assms by auto
  obtain h2 where h2: "set_prev h1 el p = Some h2" "pv h2 = (pv h1)(el \<mapsto> p)" "nx h2 = nx h1" "dom h2 = dom h1"
    using set_prev_maps assms h1(4) by (metis insert_subset)
  obtain h3 where h3: "set_next h2 el q = Some h3" "nx h3 = (nx h2)(el \<mapsto> q)" "pv h3 = pv h2" "dom h3 = dom h2"
    using set_next_maps assms h1(4) h2(4) by (metis insert_subset)
  obtain h4 where "set_prev h3 q el = Some h4" "pv h4 = (pv h3)(q \<mapsto> el)" "nx h4 = nx h3" "dom h4 = dom h3"
    using set_prev_maps assms h1(4) h2(4) h3(4) by (metis insert_subset)
  with h1 h2 h3 show ?thesis by (simp add: list_add_between_def)
qed

lemma list_del_maps:
  assumes "nx h el = Some q" and "pv h el = Some p" and "{p, el, q} \<subseteq> dom h"
  shows "\<exists>h'. list_del h el = Some h' \<and> nx h' = (nx h)(p \<mapsto> q, el \<mapsto> 0) \<and>
    pv h' = (pv h)(q \<mapsto> p, el \<mapsto> 0) \<and> dom h' = dom h"
proof -
  obtain n where n: "h el = Some n" "lh_next n = q" "lh_prev n = p" using assms(1,2) by (auto simp: nx_def pv_def)
  obtain h1 where h1: "set_next h p q = Some h1" "nx h1 = (nx h)(p \<mapsto> q)" "pv h1 = pv h" "dom h1 = dom h"
    using set_next_maps [of p h q] assms by auto
  obtain h2 where h2: "set_prev h1 q p = Some h2" "pv h2 = (pv h1)(q \<mapsto> p)" "nx h2 = nx h1" "dom h2 = dom h1"
    using set_prev_maps assms(3) h1(4) by (metis insert_subset)
  obtain h3 where h3: "set_prev h2 el 0 = Some h3" "pv h3 = (pv h2)(el \<mapsto> 0)" "nx h3 = nx h2" "dom h3 = dom h2"
    using set_prev_maps assms(3) h1(4) h2(4) by (metis insert_subset)
  obtain h4 where "set_next h3 el 0 = Some h4" "nx h4 = (nx h3)(el \<mapsto> 0)" "pv h4 = pv h3" "dom h4 = dom h3"
    using set_next_maps assms(3) h1(4) h2(4) h3(4) by (metis insert_subset)
  with n h1 h2 h3 show ?thesis by (simp add: list_del_def Let_def)
qed

text \<open>\<open>links h ps\<close>: each address of \<open>ps\<close> points forward to the next one, which points back to it. A
  list is a cycle of links through its header.\<close>

fun links :: "heap \<Rightarrow> addr list \<Rightarrow> bool" where
  "links h (p # q # ps) \<longleftrightarrow> nx h p = Some q \<and> pv h q = Some p \<and> links h (q # ps)"
| "links h ps \<longleftrightarrow> True"

definition dlist :: "heap \<Rightarrow> addr \<Rightarrow> addr list \<Rightarrow> bool" where
  "dlist h head xs \<longleftrightarrow> distinct (head # xs) \<and> links h (head # xs @ [head])"

lemma links_append: "links h (xs @ p # ys) \<longleftrightarrow> links h (xs @ [p]) \<and> links h (p # ys)"
proof (induction xs)
  case Nil
  then show ?case by simp
next
  case (Cons x xs)
  then show ?case by (cases xs) auto
qed

lemma links_cong:
  "links h ps \<Longrightarrow> \<forall>p \<in> set (butlast ps). nx h' p = nx h p \<Longrightarrow> \<forall>p \<in> set (tl ps). pv h' p = pv h p \<Longrightarrow> links h' ps"
proof (induction h ps rule: links.induct)
  case (1 h p q ps)
  then show ?case by (cases ps) auto
qed auto

lemma nx_dom: "nx h p = Some q \<Longrightarrow> p \<in> dom h"
  by (auto simp: nx_def)

lemma pv_dom: "pv h p = Some q \<Longrightarrow> p \<in> dom h"
  by (auto simp: pv_def)

lemma dlist_split:
  assumes "dlist h head xs" and "head # xs @ [head] = us @ p # q # vs"
  shows "nx h p = Some q" "pv h q = Some p" "links h (us @ [p])" "links h (q # vs)"
proof -
  have "links h (us @ p # q # vs)" using assms by (simp add: dlist_def)
  then have "links h (us @ [p])" "links h (p # q # vs)" using links_append [of h us p "q # vs"] by blast+
  then show "nx h p = Some q" "pv h q = Some p" "links h (us @ [p])" "links h (q # vs)" by auto
qed

text \<open>Inserting \<open>el\<close> between neighbours \<open>p\<close> and \<open>q\<close> of a chain, and joining them again.\<close>

lemma tl_subset: "x \<in> set (tl xs) \<Longrightarrow> x \<in> set xs"
  by (cases xs) auto

lemma links_insert:
  assumes "links h (us @ [p])" "links h (q # vs)" and "p \<notin> set us" "el \<notin> set (us @ [p])" "q \<notin> set (tl (us @ [p]))"
    and "p \<notin> set (butlast (q # vs))" "el \<notin> set (q # vs)" "q \<notin> set vs"
    and "nx h' = (nx h)(p \<mapsto> el, el \<mapsto> q)" "pv h' = (pv h)(el \<mapsto> p, q \<mapsto> el)"
  shows "links h' (us @ p # el # q # vs)"
proof -
  have "links h' (us @ [p])"
    by (rule links_cong [OF assms(1)]) (use assms(3-5,9,10) tl_subset [of el "us @ [p]"] in auto)
  moreover have "links h' (q # vs)"
    by (rule links_cong [OF assms(2)]) (use assms(6-10) in \<open>auto dest: in_set_butlastD\<close>)
  ultimately show ?thesis using assms(4,7,9,10) by (subst links_append) auto
qed

lemma links_remove:
  assumes "links h (us @ [p])" "links h (q # vs)" and "p \<notin> set us" "el \<notin> set (us @ [p])" "q \<notin> set (tl (us @ [p]))"
    and "p \<notin> set (butlast (q # vs))" "el \<notin> set (q # vs)" "q \<notin> set vs"
    and "nx h' = (nx h)(p \<mapsto> q, el \<mapsto> 0)" "pv h' = (pv h)(q \<mapsto> p, el \<mapsto> 0)"
  shows "links h' (us @ p # q # vs)"
proof -
  have "links h' (us @ [p])"
    by (rule links_cong [OF assms(1)]) (use assms(3-5,9,10) tl_subset [of el "us @ [p]"] in auto)
  moreover have "links h' (q # vs)"
    by (rule links_cong [OF assms(2)]) (use assms(6-10) in \<open>auto dest: in_set_butlastD\<close>)
  ultimately show ?thesis using assms(4,7,9,10) by (subst links_append) auto
qed

lemma init_list_head_spec:
  "h head \<noteq> None \<Longrightarrow> \<exists>h'. init_list_head h head = Some h' \<and> dlist h' head [] \<and> dom h' = dom h"
  by (auto simp: init_list_head_def set_prev_def set_next_def dlist_def nx_def pv_def)

lemma dlist_first:
  assumes "dlist h head xs"
  shows "nx h head = Some (hd (xs @ [head]))" "pv h (hd (xs @ [head])) = Some head"
    "links h (hd (xs @ [head]) # tl (xs @ [head]))"
  using dlist_split [OF assms, of "[]" head "hd (xs @ [head])" "tl (xs @ [head])"] by simp_all

lemma dlist_last:
  assumes "dlist h head xs"
  shows "pv h head = Some (last (head # xs))" "nx h (last (head # xs)) = Some head" "links h (head # xs)"
  using dlist_split [OF assms, of "[]" head head "[]"] dlist_split [OF assms, of "head # butlast xs" "last xs" head "[]"]
  by (cases xs rule: rev_cases; simp)+

lemma list_add_spec:
  assumes "dlist h head xs" and "el \<notin> set (head # xs)" and "el \<in> dom h"
  shows "\<exists>h'. list_add h el head = Some h' \<and> dlist h' head (el # xs) \<and> dom h' = dom h"
proof -
  let ?q = "hd (xs @ [head])" and ?vs = "tl (xs @ [head])"
  note first = dlist_first [OF assms(1)]
  have d: "distinct (head # xs)" using assms(1) by (simp add: dlist_def)
  have q: "?q # ?vs = xs @ [head]" by simp
  obtain h' where h': "list_add_between h el head ?q = Some h'" "nx h' = (nx h)(head \<mapsto> el, el \<mapsto> ?q)"
    "pv h' = (pv h)(el \<mapsto> head, ?q \<mapsto> el)" "dom h' = dom h"
    using list_add_between_maps [of head el ?q h] assms(3) nx_dom [OF first(1)] pv_dom [OF first(2)] by auto
  have "links h' ([] @ head # el # ?q # ?vs)"
    by (rule links_insert [OF _ first(3) _ _ _ _ _ _ h'(2,3)]) (use assms(2) d in \<open>cases xs; auto\<close>)+
  then have "links h' (head # el # xs @ [head])" by (simp only: q append_Nil)
  moreover have "list_add h el head = Some h'" using first(1) h'(1) by (auto simp: list_add_def nx_def)
  ultimately show ?thesis using h'(4) d assms(2) by (auto simp: dlist_def)
qed

lemma list_add_tail_spec:
  assumes "dlist h head xs" and "el \<notin> set (head # xs)" and "el \<in> dom h"
  shows "\<exists>h'. list_add_tail h el head = Some h' \<and> dlist h' head (xs @ [el]) \<and> dom h' = dom h"
proof -
  let ?p = "last (head # xs)" and ?us = "butlast (head # xs)"
  note last = dlist_last [OF assms(1)]
  have d: "distinct (head # xs)" using assms(1) by (simp add: dlist_def)
  have p: "?us @ [?p] = head # xs" by (rule append_butlast_last_id) simp
  then have "?p \<notin> set ?us" using d by (metis distinct_append distinct.simps(2) not_distinct_conv_prefix)
  obtain h' where h': "list_add_between h el ?p head = Some h'" "nx h' = (nx h)(?p \<mapsto> el, el \<mapsto> head)"
    "pv h' = (pv h)(el \<mapsto> ?p, head \<mapsto> el)" "dom h' = dom h"
    using list_add_between_maps [of ?p el head h] assms(3) nx_dom [OF last(2)] pv_dom [OF last(1)] by auto
  have "links h' (?us @ ?p # el # head # [])"
  proof (rule links_insert [OF _ _ \<open>?p \<notin> set ?us\<close> _ _ _ _ _ h'(2,3)])
    show "links h (?us @ [?p])" by (simp only: p last(3))
    show "el \<notin> set (?us @ [?p])" "head \<notin> set (tl (?us @ [?p]))" using assms(2) d by (simp_all only: p) auto
  qed (use assms(2) in auto)
  then have "links h' ((?us @ [?p]) @ [el, head])" by simp
  then have "links h' (head # (xs @ [el]) @ [head])" by (simp only: p append_Cons append_assoc append_Nil)
  moreover have "list_add_tail h el head = Some h'" using last(1) h'(1) by (auto simp: list_add_tail_def pv_def)
  ultimately show ?thesis using h'(4) d assms(2) by (auto simp: dlist_def)
qed

lemma list_del_spec:
  assumes "dlist h head (ys @ el # zs)"
  shows "\<exists>h'. list_del h el = Some h' \<and> dlist h' head (ys @ zs) \<and> dom h' = dom h \<and> nx h' el = Some 0 \<and> pv h' el = Some 0"
proof -
  let ?p = "last (head # ys)" and ?us = "butlast (head # ys)" and ?q = "hd (zs @ [head])" and ?vs = "tl (zs @ [head])"
  have d: "distinct (head # ys @ el # zs)" using assms by (simp add: dlist_def)
  have p: "?us @ [?p] = head # ys" by (rule append_butlast_last_id) simp
  have q: "?q # ?vs = zs @ [head]" by simp
  have cyc: "head # (ys @ el # zs) @ [head] = (?us @ [?p]) @ el # ?q # ?vs" by (simp only: p q) simp
  note s1 = dlist_split [OF assms, of ?us ?p el "?q # ?vs"] and s2 = dlist_split [OF assms, of "?us @ [?p]" el ?q ?vs]
  have lp: "nx h ?p = Some el" "pv h el = Some ?p" "links h (?us @ [?p])" using s1 cyc by simp_all
  have lq: "nx h el = Some ?q" "pv h ?q = Some el" "links h (?q # ?vs)" using s2 cyc by simp_all
  obtain h' where h': "list_del h el = Some h'" "nx h' = (nx h)(?p \<mapsto> ?q, el \<mapsto> 0)"
    "pv h' = (pv h)(?q \<mapsto> ?p, el \<mapsto> 0)" "dom h' = dom h"
    using list_del_maps [OF lq(1) lp(2)] nx_dom [OF lp(1)] pv_dom [OF lp(2)] pv_dom [OF lq(2)] by auto
  have "links h' (?us @ ?p # ?q # ?vs)"
  proof (rule links_remove [OF lp(3) lq(3) _ _ _ _ _ _ h'(2,3)])
    show "?p \<notin> set ?us" using d p by (metis distinct_append append_Cons not_distinct_conv_prefix)
    show "el \<notin> set (?us @ [?p])" "el \<notin> set (?q # ?vs)" using d by (simp_all only: p q) auto
    show "?q \<notin> set (tl (?us @ [?p]))" unfolding p using d by (cases zs) auto
    have "?p \<in> set (head # ys)" by (rule last_in_set) simp
    then show "?p \<notin> set (butlast (?q # ?vs))" unfolding q using d by auto
    show "?q \<notin> set ?vs" using d by (cases zs) auto
  qed
  then have "links h' ((?us @ [?p]) @ ?q # ?vs)" by simp
  then have "links h' (head # (ys @ zs) @ [head])" by (simp only: p q append_Cons append_assoc)
  then show ?thesis using h' d by (auto simp: dlist_def)
qed

lemma list_empty_spec: "dlist h head xs \<Longrightarrow> list_empty h head = Some (xs = [])"
  using dlist_first(1) [of h head xs] by (cases xs) (auto simp: list_empty_def nx_def dlist_def)

lemma dlist_next: "dlist h head (ys @ el # zs) \<Longrightarrow> nx h el = Some (hd (zs @ [head]))"
  using dlist_split(1) [of h head "ys @ el # zs" "head # ys" el "hd (zs @ [head])" "tl (zs @ [head])"] by simp

lemma dlist_prev: "dlist h head (ys @ el # zs) \<Longrightarrow> pv h el = Some (last (head # ys))"
  using dlist_split(2) [of h head "ys @ el # zs" "[]" head el "zs @ [head]"]
    dlist_split(2) [of h head "ys @ el # zs" "head # butlast ys" "last ys" el "zs @ [head]"]
  by (cases ys rule: rev_cases) simp_all

section \<open>Iteration\<close>

lemma for_each_next:
  assumes "dlist h head (ys @ zs)" and "length zs < fuel"
  shows "for_each_from lh_next (\<lambda>el (h, s). Some (h, f el s)) fuel head (hd (zs @ [head])) (h, s) = Some (h, fold f zs s)"
  using assms
proof (induction zs arbitrary: ys s fuel)
  case Nil
  then show ?case by (cases fuel) auto
next
  case (Cons z zs)
  then obtain g where g: "fuel = Suc g" by (cases fuel) auto
  obtain n where n: "h z = Some n" "lh_next n = hd (zs @ [head])"
    using dlist_next [of h head ys z zs] Cons.prems(1) by (auto simp: nx_def)
  moreover have "z \<noteq> head" using Cons.prems(1) by (auto simp: dlist_def)
  ultimately show ?case using Cons.IH [of "ys @ [z]" g "f z s"] Cons.prems g by simp
qed

lemma for_each_prev:
  assumes "dlist h head (zs @ ys)" and "length zs < fuel"
  shows "for_each_from lh_prev (\<lambda>el (h, s). Some (h, f el s)) fuel head (last (head # zs)) (h, s) =
    Some (h, fold f (rev zs) s)"
  using assms
proof (induction zs arbitrary: ys s fuel rule: rev_induct)
  case Nil
  then show ?case by (cases fuel) auto
next
  case (snoc z zs)
  then obtain g where g: "fuel = Suc g" by (cases fuel) auto
  obtain n where n: "h z = Some n" "lh_prev n = last (head # zs)"
    using dlist_prev [of h head zs z ys] snoc.prems(1) by (auto simp: pv_def)
  moreover have "z \<noteq> head" using snoc.prems(1) by (auto simp: dlist_def)
  ultimately show ?case using snoc.IH [of "z # ys" g "f z s"] snoc.prems g by simp
qed

definition del_if :: "(addr \<Rightarrow> bool) \<Rightarrow> addr \<Rightarrow> heap \<times> unit \<Rightarrow> (heap \<times> unit) option" where
  "del_if P el st = (if P el then do { h \<leftarrow> list_del (fst st) el; Some (h, ()) } else Some st)"

lemma for_each_safe_del:
  assumes "dlist h head (ys @ zs)" and "zs \<noteq> [] \<Longrightarrow> el1 = hd (tl zs @ [head])" and "length zs < fuel"
  shows "\<exists>h'. for_each_safe_from lh_next (del_if P) fuel head (hd (zs @ [head])) el1 (h, ()) = Some (h', ()) \<and>
    dlist h' head (ys @ filter (\<lambda>x. \<not> P x) zs) \<and> dom h' = dom h"
  using assms
proof (induction zs arbitrary: h ys el1 fuel)
  case Nil
  then show ?case by (cases fuel) auto
next
  case (Cons z zs)
  then obtain g where g: "fuel = Suc g" by (cases fuel) auto
  have z: "z \<noteq> head" using Cons.prems(1) by (auto simp: dlist_def)
  obtain h1 ws where h1: "del_if P z (h, ()) = Some (h1, ())" "dlist h1 head (ws @ zs)" "dom h1 = dom h"
    "ws = (if P z then ys else ys @ [z])"
    using list_del_spec [of h head ys z zs] Cons.prems(1) by (cases "P z") (auto simp: del_if_def)
  obtain n where n: "h1 el1 = Some n" "zs \<noteq> [] \<Longrightarrow> lh_next n = hd (tl zs @ [head])"
  proof (cases zs)
    case Nil
    then show thesis using that dlist_first(1) [OF h1(2)] Cons.prems(2) by (auto simp: nx_def)
  next
    case (Cons y zs')
    then show thesis using that dlist_next [of h1 head ws y zs'] h1(2) Cons.prems(2) by (auto simp: nx_def)
  qed
  obtain h' where "for_each_safe_from lh_next (del_if P) g head (hd (zs @ [head])) (lh_next n) (h1, ()) = Some (h', ())"
    "dlist h' head (ws @ filter (\<lambda>x. \<not> P x) zs)" "dom h' = dom h1"
    using Cons.IH [OF h1(2), of "lh_next n" g] n(2) Cons.prems(3) g by auto
  with h1 n(1) g z Cons.prems(2) show ?case by auto
qed

section \<open>A list as a queue\<close>

text \<open>The engine's queues (pending jobs, messages) append at the tail and take from the head. The
  contract of such a queue, and what a client that appends a batch and then drains it sees.\<close>

definition take_first :: "heap \<Rightarrow> addr \<Rightarrow> (addr \<times> heap) option" where
  "take_first h head = do { n \<leftarrow> h head; h \<leftarrow> list_del h (lh_next n); Some (lh_next n, h) }"

fun enqueue_all :: "('q \<Rightarrow> 'e \<Rightarrow> 'q option) \<Rightarrow> 'q \<Rightarrow> 'e list \<Rightarrow> 'q option" where
  "enqueue_all enq q [] = Some q"
| "enqueue_all enq q (e # es) = do { q \<leftarrow> enq q e; enqueue_all enq q es }"

fun drain :: "('q \<Rightarrow> bool option) \<Rightarrow> ('q \<Rightarrow> ('e \<times> 'q) option) \<Rightarrow> nat \<Rightarrow> 'q \<Rightarrow> ('e list \<times> 'q) option" where
  "drain is_empty deq 0 q = None"
| "drain is_empty deq (Suc fuel) q = do {
     b \<leftarrow> is_empty q;
     if b then Some ([], q)
     else do {
       (e, q) \<leftarrow> deq q;
       (es, q) \<leftarrow> drain is_empty deq fuel q;
       Some (e # es, q) } }"

locale fifo =
  fixes holds :: "'q \<Rightarrow> 'e list \<Rightarrow> bool"
    and fresh :: "'q \<Rightarrow> 'e \<Rightarrow> bool"
    and enq :: "'q \<Rightarrow> 'e \<Rightarrow> 'q option"
    and deq :: "'q \<Rightarrow> ('e \<times> 'q) option"
    and is_empty :: "'q \<Rightarrow> bool option"
  assumes enq_ok: "holds q es \<Longrightarrow> fresh q e \<Longrightarrow> e \<notin> set es \<Longrightarrow>
      \<exists>q'. enq q e = Some q' \<and> holds q' (es @ [e]) \<and> fresh q' = fresh q"
    and deq_ok: "holds q (e # es) \<Longrightarrow> \<exists>q'. deq q = Some (e, q') \<and> holds q' es \<and> fresh q' = fresh q"
    and empty_ok: "holds q es \<Longrightarrow> is_empty q = Some (es = [])"
begin

lemma enqueue_all_ok:
  "holds q es \<Longrightarrow> \<forall>e \<in> set xs. fresh q e \<Longrightarrow> distinct (es @ xs) \<Longrightarrow>
     \<exists>q'. enqueue_all enq q xs = Some q' \<and> holds q' (es @ xs) \<and> fresh q' = fresh q"
proof (induction xs arbitrary: q es)
  case (Cons x xs)
  obtain q1 where q1: "enq q x = Some q1" "holds q1 (es @ [x])" "fresh q1 = fresh q"
    using enq_ok [OF Cons.prems(1), of x] Cons.prems by auto
  then show ?case using Cons.IH [OF q1(2)] Cons.prems by auto
qed simp

lemma drain_ok: "holds q es \<Longrightarrow> length es < fuel \<Longrightarrow> \<exists>q'. drain is_empty deq fuel q = Some (es, q') \<and> holds q' []"
proof (induction es arbitrary: q fuel)
  case Nil
  then show ?case using empty_ok [OF Nil(1)] by (cases fuel) auto
next
  case (Cons e es)
  obtain q1 where q1: "deq q = Some (e, q1)" "holds q1 es" using deq_ok [OF Cons.prems(1)] by blast
  then show ?case using Cons.IH [OF q1(2), of "fuel - 1"] empty_ok [OF Cons.prems(1)] Cons.prems(2) by (cases fuel) auto
qed

lemma batch_ok:
  assumes "holds q []" and "\<forall>e \<in> set xs. fresh q e" "distinct xs" and "length xs < fuel"
  shows "\<exists>q' q''. enqueue_all enq q xs = Some q' \<and> drain is_empty deq fuel q' = Some (xs, q'') \<and> holds q'' []"
proof -
  obtain q' where q': "enqueue_all enq q xs = Some q'" "holds q' xs" using enqueue_all_ok [OF assms(1,2)] assms(3) by auto
  with drain_ok [OF q'(2) assms(4)] show ?thesis by blast
qed

end

interpretation lq: fifo "\<lambda>(h, head) es. dlist h head es" "\<lambda>(h, head) e. e \<in> dom h \<and> e \<noteq> head"
  "\<lambda>(h, head) e. do { h \<leftarrow> list_add_tail h e head; Some (h, head) }"
  "\<lambda>(h, head). do { (e, h) \<leftarrow> take_first h head; Some (e, h, head) }" "\<lambda>(h, head). list_empty h head"
proof (unfold_locales, goal_cases)
  case (1 q es e)
  then show ?case using list_add_tail_spec [of "fst q" "snd q" es e] by (auto split: prod.splits)
next
  case (2 q e es)
  obtain h head where q: "q = (h, head)" by (cases q)
  obtain n where n: "h head = Some n" "lh_next n = e"
    using dlist_first(1) [of h head "e # es"] 2 q by (auto simp: nx_def)
  then show ?case using 2 q list_del_spec [of h head "[]" e es] by (auto simp: take_first_def)
next
  case (3 q es)
  then show ?case using list_empty_spec by (auto split: prod.splits)
qed

section \<open>Properties\<close>

text \<open>C7: inserting at the head or at the tail and deleting any element keep the cycle well linked in
  both directions and do to the list of elements what their names say; every pointer they follow is
  valid, and a deleted element is left with null pointers.\<close>

theorem list_ops_correct:
  assumes "dlist h head (ys @ zs)" and "el \<in> dom h" and "el \<notin> set (head # ys @ zs)"
  shows "(\<exists>h'. list_add h el head = Some h' \<and> dlist h' head (el # ys @ zs)) \<and>
    (\<exists>h'. list_add_tail h el head = Some h' \<and> dlist h' head (ys @ zs @ [el])) \<and>
    (\<forall>z zs'. zs = z # zs' \<longrightarrow> (\<exists>h'. list_del h z = Some h' \<and> dlist h' head (ys @ zs') \<and>
       h' z = Some \<lparr>lh_prev = 0, lh_next = 0\<rparr>)) \<and>
    list_empty h head = Some (ys @ zs = [])"
proof (intro conjI allI impI)
  show "\<exists>h'. list_add h el head = Some h' \<and> dlist h' head (el # ys @ zs)"
    using list_add_spec [OF assms(1,3,2)] by blast
  show "\<exists>h'. list_add_tail h el head = Some h' \<and> dlist h' head (ys @ zs @ [el])"
    using list_add_tail_spec [OF assms(1,3,2)] by auto
  show "list_empty h head = Some (ys @ zs = [])" by (rule list_empty_spec [OF assms(1)])
next
  fix z zs' assume "zs = z # zs'"
  then obtain h' where "list_del h z = Some h'" "dlist h' head (ys @ zs')" "nx h' z = Some 0" "pv h' z = Some 0"
    using list_del_spec [of h head ys z zs'] assms(1) by blast
  then show "\<exists>h'. list_del h z = Some h' \<and> dlist h' head (ys @ zs') \<and> h' z = Some \<lparr>lh_prev = 0, lh_next = 0\<rparr>"
    by (auto simp: nx_def pv_def)
qed

definition sample_heap :: heap where
  "sample_heap = [1 \<mapsto> \<lparr>lh_prev = 2, lh_next = 2\<rparr>, 2 \<mapsto> \<lparr>lh_prev = 1, lh_next = 1\<rparr>, 3 \<mapsto> \<lparr>lh_prev = 0, lh_next = 0\<rparr>]"

theorem list_ops_correct_witness:
  "\<exists>h'. list_del sample_heap 2 = Some h' \<and> dlist h' 1 [] \<and> h' 2 = Some \<lparr>lh_prev = 0, lh_next = 0\<rparr>"
  using list_ops_correct [of sample_heap 1 "[]" "[2]" 3]
  by (auto simp: dlist_def sample_heap_def nx_def pv_def)

text \<open>C8: iterating with \<open>list_for_each\<close> or \<open>list_for_each_prev\<close> visits the elements in list order or in
  reverse, and \<open>list_for_each_safe\<close> may delete the elements it visits: deleting those that satisfy a
  condition leaves exactly the others, in order. All three end after at most one round per element
  and one for the header.\<close>

theorem list_iteration_correct:
  assumes "dlist h head xs" and "length xs < fuel"
  shows "list_for_each (\<lambda>el (h, s). Some (h, f el s)) fuel head (h, s) = Some (h, fold f xs s) \<and>
    list_for_each_prev (\<lambda>el (h, s). Some (h, f el s)) fuel head (h, s) = Some (h, fold f (rev xs) s) \<and>
    (\<exists>h'. list_for_each_safe (del_if P) fuel head (h, ()) = Some (h', ()) \<and> dlist h' head (filter (\<lambda>x. \<not> P x) xs))"
proof -
  obtain n where n: "h head = Some n" "lh_next n = hd (xs @ [head])" "lh_prev n = last (head # xs)"
    using dlist_first(1) [OF assms(1)] dlist_last(1) [OF assms(1)] by (auto simp: nx_def pv_def)
  obtain n1 where n1: "h (hd (xs @ [head])) = Some n1" "xs \<noteq> [] \<Longrightarrow> lh_next n1 = hd (tl xs @ [head])"
  proof (cases xs)
    case Nil
    then show thesis using that n by simp
  next
    case (Cons y ys)
    then show thesis using that dlist_next [of h head "[]" y ys] assms(1) by (auto simp: nx_def)
  qed
  show ?thesis
    using for_each_next [of h head "[]" xs fuel f s] for_each_prev [of h head xs "[]" fuel f s]
      for_each_safe_del [of h head "[]" xs "lh_next n1" fuel P] assms n n1
    by (auto simp: list_for_each_def list_for_each_prev_def list_for_each_safe_def)
qed

theorem list_iteration_correct_witness:
  "list_for_each (\<lambda>el (h, s). Some (h, s + el)) 2 1 (sample_heap, 40) = Some (sample_heap, 42) \<and>
   (\<exists>h'. list_for_each_safe (del_if (\<lambda>x. x = 2)) 2 1 (sample_heap, ()) = Some (h', ()) \<and> dlist h' 1 [])"
  using list_iteration_correct [of sample_heap 1 "[2]" 2 "\<lambda>el s. s + el" 40 "\<lambda>x. x = 2"]
  by (auto simp: dlist_def sample_heap_def nx_def pv_def)

text \<open>C9: a list used as a queue delivers a batch of elements in the order in which they were
  appended, and is empty afterwards.\<close>

theorem list_queue_fifo:
  assumes "dlist h head []" and "\<forall>e \<in> set xs. e \<in> dom h \<and> e \<noteq> head" and "distinct xs" and "length xs < fuel"
  shows "\<exists>q q'. enqueue_all (\<lambda>(h, head) e. do { h \<leftarrow> list_add_tail h e head; Some (h, head) }) (h, head) xs = Some q \<and>
    drain (\<lambda>(h, head). list_empty h head) (\<lambda>(h, head). do { (e, h) \<leftarrow> take_first h head; Some (e, h, head) }) fuel q =
      Some (xs, q') \<and> (case q' of (h', head') \<Rightarrow> dlist h' head' [])"
  using lq.batch_ok [of "(h, head)" xs fuel] assms by simp

theorem list_queue_fifo_witness:
  "\<exists>q q'. enqueue_all (\<lambda>(h, head) e. do { h \<leftarrow> list_add_tail h e head; Some (h, head) })
      ([1 \<mapsto> \<lparr>lh_prev = 1, lh_next = 1\<rparr>, 2 \<mapsto> \<lparr>lh_prev = 0, lh_next = 0\<rparr>, 3 \<mapsto> \<lparr>lh_prev = 0, lh_next = 0\<rparr>], 1) [3, 2] = Some q \<and>
    drain (\<lambda>(h, head). list_empty h head) (\<lambda>(h, head). do { (e, h) \<leftarrow> take_first h head; Some (e, h, head) }) 3 q =
      Some ([3, 2], q')"
  using list_queue_fifo [of "[1 \<mapsto> \<lparr>lh_prev = 1, lh_next = 1\<rparr>, 2 \<mapsto> \<lparr>lh_prev = 0, lh_next = 0\<rparr>, 3 \<mapsto> \<lparr>lh_prev = 0, lh_next = 0\<rparr>]" 1 "[3, 2]" 3]
  by (auto simp: dlist_def nx_def pv_def)

end
