(* ===== verification/Unicode_Case.thy ===== *)
theory Unicode_Case
  imports Cutils
begin

text \<open>
  Case conversion, \<open>lre_case_conv\<close> of \<^verbatim>\<open>src/qjs/libunicode.c\<close> with its tables from
  \<^verbatim>\<open>libunicode-table.h\<close>, and the canonicalisation of \<^verbatim>\<open>libregexp.c\<close> that builds on it. A table entry of
  \<open>case_conv_table1\<close> holds the first code point (17 bits), the length (7 bits) and the type (4 bits) of
  a run of code points, and with \<open>case_conv_table2\<close> 12 bits of data. A read outside a table is \<open>None\<close>.
\<close>

section \<open>Tables\<close>

definition case_conv_table1 :: "u32 list" where
  "case_conv_table1 = concat [
     [0x00209a30, 0x00309a00, 0x005a8173, 0x00601730, 0x006c0730, 0x006f81b3, 0x00701700, 0x007c0700, 0x007f8100],
     [0x00803040, 0x009801c3, 0x00988190, 0x00990640, 0x009c9040, 0x00a481b4, 0x00a52e40, 0x00bc0130, 0x00bc8640],
     [0x00bf8170, 0x00c00100, 0x00c08130, 0x00c10440, 0x00c30130, 0x00c38240, 0x00c48230, 0x00c58240, 0x00c70130],
     [0x00c78130, 0x00c80130, 0x00c88240, 0x00c98130, 0x00ca0130, 0x00ca8100, 0x00cb0130, 0x00cb8130, 0x00cc0240],
     [0x00cd0100, 0x00ce0130, 0x00ce8130, 0x00cf0100, 0x00cf8130, 0x00d00640, 0x00d30130, 0x00d38240, 0x00d48130],
     [0x00d60240, 0x00d70130, 0x00d78240, 0x00d88230, 0x00d98440, 0x00db8130, 0x00dc0240, 0x00de0240, 0x00df8100],
     [0x00e20350, 0x00e38350, 0x00e50350, 0x00e69040, 0x00ee8100, 0x00ef1240, 0x00f801b4, 0x00f88350, 0x00fa0240],
     [0x00fb0130, 0x00fb8130, 0x00fc2840, 0x01100130, 0x01111240, 0x011d0131, 0x011d8240, 0x011e8130, 0x011f0131],
     [0x011f8201, 0x01208240, 0x01218130, 0x01220130, 0x01228130, 0x01230a40, 0x01280101, 0x01288101, 0x01290101],
     [0x01298100, 0x012a0100, 0x012b0200, 0x012c8100, 0x012d8100, 0x012e0101, 0x01300100, 0x01308101, 0x01318100],
     [0x01328101, 0x01330101, 0x01340100, 0x01348100, 0x01350101, 0x01358101, 0x01360101, 0x01378100, 0x01388101],
     [0x01390100, 0x013a8100, 0x013e8101, 0x01400100, 0x01410101, 0x01418100, 0x01438101, 0x01440100, 0x01448100],
     [0x01450200, 0x01460100, 0x01490100, 0x014e8101, 0x014f0101, 0x01a28173, 0x01b80440, 0x01bb0240, 0x01bd8300],
     [0x01bf8130, 0x01c30130, 0x01c40330, 0x01c60130, 0x01c70230, 0x01c801d0, 0x01c89130, 0x01d18930, 0x01d60100],
     [0x01d68300, 0x01d801d3, 0x01d89100, 0x01e10173, 0x01e18900, 0x01e60100, 0x01e68200, 0x01e78130, 0x01e80173],
     [0x01e88173, 0x01ea8173, 0x01eb0173, 0x01eb8100, 0x01ec1840, 0x01f80173, 0x01f88173, 0x01f90100, 0x01f98100],
     [0x01fa01a0, 0x01fa8173, 0x01fb8240, 0x01fc8130, 0x01fd0240, 0x01fe8330, 0x02001030, 0x02082030, 0x02182000],
     [0x02281000, 0x02302240, 0x02453640, 0x02600130, 0x02608e40, 0x02678100, 0x02686040, 0x0298a630, 0x02b0a600],
     [0x02c381b5, 0x08502631, 0x08638131, 0x08668131, 0x08682b00, 0x087e8300, 0x09d05011, 0x09f80610, 0x09fc0620],
     [0x0e400174, 0x0e408174, 0x0e410174, 0x0e418174, 0x0e420174, 0x0e428174, 0x0e430174, 0x0e438180, 0x0e440180],
     [0x0e482b30, 0x0e5e8330, 0x0ebc8101, 0x0ebe8101, 0x0ec70101, 0x0f007e40, 0x0f3f1840, 0x0f4b01b5, 0x0f4b81b6],
     [0x0f4c01b6, 0x0f4c81b6, 0x0f4d01b7, 0x0f4d8180, 0x0f4f0130, 0x0f506040, 0x0f800800, 0x0f840830, 0x0f880600],
     [0x0f8c0630, 0x0f900800, 0x0f940830, 0x0f980800, 0x0f9c0830, 0x0fa00600, 0x0fa40630, 0x0fa801b0, 0x0fa88100],
     [0x0fa901d3, 0x0fa98100, 0x0faa01d3, 0x0faa8100, 0x0fab01d3, 0x0fab8100, 0x0fac8130, 0x0fad8130, 0x0fae8130],
     [0x0faf8130, 0x0fb00800, 0x0fb40830, 0x0fb80200, 0x0fb90400, 0x0fbb0200, 0x0fbc0201, 0x0fbd0201, 0x0fbe0201],
     [0x0fc008b7, 0x0fc40867, 0x0fc808b8, 0x0fcc0868, 0x0fd008b8, 0x0fd40868, 0x0fd80200, 0x0fd901b9, 0x0fd981b1],
     [0x0fda01b9, 0x0fdb01b1, 0x0fdb81d7, 0x0fdc0230, 0x0fdd0230, 0x0fde0161, 0x0fdf0173, 0x0fe101b9, 0x0fe181b2],
     [0x0fe201ba, 0x0fe301b2, 0x0fe381d8, 0x0fe40430, 0x0fe60162, 0x0fe80200, 0x0fe901d0, 0x0fe981d0, 0x0feb01b0],
     [0x0feb81d0, 0x0fec0230, 0x0fed0230, 0x0ff00201, 0x0ff101d3, 0x0ff181d3, 0x0ff201ba, 0x0ff28101, 0x0ff301b0],
     [0x0ff381d3, 0x0ff40230, 0x0ff50230, 0x0ff60131, 0x0ff901ba, 0x0ff981b2, 0x0ffa01bb, 0x0ffb01b2, 0x0ffb81d9],
     [0x0ffc0230, 0x0ffd0230, 0x0ffe0162, 0x109301a0, 0x109501a0, 0x109581a0, 0x10990131, 0x10a70101, 0x10b01031],
     [0x10b81001, 0x10c18240, 0x125b1a31, 0x12681a01, 0x16002f31, 0x16182f01, 0x16300240, 0x16310130, 0x16318130],
     [0x16320130, 0x16328100, 0x16330100, 0x16338640, 0x16368130, 0x16370130, 0x16378130, 0x16380130, 0x16390240],
     [0x163a8240, 0x163f0230, 0x16406440, 0x16758440, 0x16790240, 0x16802600, 0x16938100, 0x16968100, 0x53202e40],
     [0x53401c40, 0x53910e40, 0x53993e40, 0x53bc8440, 0x53be8130, 0x53bf0a40, 0x53c58240, 0x53c68130, 0x53c80440],
     [0x53ca0101, 0x53cb1440, 0x53d50130, 0x53d58130, 0x53d60130, 0x53d68130, 0x53d70130, 0x53d80130, 0x53d88130],
     [0x53d90130, 0x53d98131, 0x53da0c40, 0x53e10240, 0x53e20131, 0x53e28130, 0x53e30130, 0x53e38440, 0x53fa8240],
     [0x55a98101, 0x55b85020, 0x7d8001b2, 0x7d8081b2, 0x7d8101b2, 0x7d8181da, 0x7d8201da, 0x7d8281b3, 0x7d8301b3],
     [0x7d8981bb, 0x7d8a01bb, 0x7d8a81bb, 0x7d8b01bc, 0x7d8b81bb, 0x7f909a31, 0x7fa09a01, 0x82002831, 0x82142801],
     [0x82582431, 0x826c2401, 0x86403331, 0x86603301, 0x8c502031, 0x8c602001, 0xb7202031, 0xb7302001, 0xf4802231],
     [0xf4912201]]"

definition case_conv_table2 :: "u8 list" where
  "case_conv_table2 = concat [
     [0x01, 0x00, 0x9c, 0x06, 0x07, 0x4d, 0x03, 0x04, 0x10],
     [0x00, 0x8f, 0x0b, 0x00, 0x00, 0x11, 0x00, 0x08, 0x00],
     [0x53, 0x4a, 0x51, 0x00, 0x52, 0x00, 0x53, 0x00, 0x3a],
     [0x54, 0x55, 0x00, 0x57, 0x59, 0x3f, 0x5d, 0x5c, 0x00],
     [0x46, 0x61, 0x63, 0x42, 0x64, 0x00, 0x66, 0x00, 0x68],
     [0x00, 0x6a, 0x00, 0x6c, 0x00, 0x6e, 0x00, 0x00, 0x40],
     [0x00, 0x00, 0x00, 0x00, 0x1a, 0x00, 0x93, 0x00, 0x00],
     [0x20, 0x35, 0x00, 0x27, 0x00, 0x21, 0x00, 0x24, 0x22],
     [0x2a, 0x00, 0x13, 0x6b, 0x6d, 0x00, 0x26, 0x24, 0x27],
     [0x14, 0x16, 0x18, 0x1b, 0x1c, 0x3e, 0x1e, 0x3f, 0x1f],
     [0x39, 0x3d, 0x22, 0x21, 0x41, 0x1e, 0x40, 0x25, 0x25],
     [0x26, 0x28, 0x20, 0x2a, 0x49, 0x2c, 0x43, 0x2e, 0x4b],
     [0x30, 0x4c, 0x32, 0x44, 0x42, 0x99, 0x00, 0x00, 0x95],
     [0x8f, 0x7d, 0x7e, 0x83, 0x84, 0x12, 0x80, 0x82, 0x76],
     [0x77, 0x12, 0x7b, 0xa3, 0x7c, 0x78, 0x79, 0x8a, 0x92],
     [0x98, 0xa6, 0xa0, 0x85, 0x00, 0x9a, 0xa1, 0x93, 0x75],
     [0x33, 0x95, 0x00, 0x8e, 0x00, 0x74, 0x99, 0x98, 0x97],
     [0x96, 0x00, 0x00, 0x9e, 0x00, 0x9c, 0x00, 0xa1, 0xa0],
     [0x15, 0x2e, 0x2f, 0x30, 0xb4, 0xb5, 0x4e, 0xaa, 0xa9],
     [0x12, 0x14, 0x1e, 0x21, 0x22, 0x22, 0x2a, 0x34, 0x35],
     [0xa6, 0xa7, 0x36, 0x1f, 0x4a, 0x00, 0x00, 0x97, 0x01],
     [0x5a, 0xda, 0x1d, 0x36, 0x05, 0x00, 0xc4, 0xc3, 0xc6],
     [0xc5, 0xc8, 0xc7, 0xca, 0xc9, 0xcc, 0xcb, 0xc4, 0xd5],
     [0x45, 0xd6, 0x42, 0xd7, 0x46, 0xd8, 0xce, 0xd0, 0xd2],
     [0xd4, 0xda, 0xd9, 0xee, 0xf6, 0xfe, 0x0e, 0x07, 0x0f],
     [0x80, 0x9f, 0x00, 0x21, 0x80, 0xa3, 0xed, 0x00, 0xc0],
     [0x40, 0xc6, 0x60, 0xe7, 0xdb, 0xe6, 0x99, 0xc0, 0x00],
     [0x00, 0x06, 0x60, 0xdc, 0x29, 0xfd, 0x15, 0x12, 0x06],
     [0x16, 0xf8, 0xdd, 0x06, 0x15, 0x12, 0x84, 0x08, 0xc6],
     [0x16, 0xff, 0xdf, 0x03, 0xc0, 0x40, 0x00, 0x46, 0x60],
     [0xde, 0xe0, 0x6d, 0x37, 0x38, 0x39, 0x15, 0x14, 0x17],
     [0x16, 0x00, 0x1a, 0x19, 0x1c, 0x1b, 0x00, 0x5f, 0xb7],
     [0x65, 0x44, 0x47, 0x00, 0x4f, 0x62, 0x4e, 0x50, 0x00],
     [0x00, 0x48, 0x00, 0x00, 0x00, 0xa3, 0xa4, 0xa5, 0x00],
     [0x00, 0x00, 0x00, 0x00, 0xb6, 0x00, 0x00, 0x5a, 0x00],
     [0x48, 0x00, 0x5b, 0x56, 0x58, 0x60, 0x5e, 0x70, 0x69],
     [0x6f, 0x4d, 0x00, 0x00, 0x3b, 0x67, 0xb8, 0x00, 0x00],
     [0x45, 0xa8, 0x8a, 0x8b, 0x8c, 0xab, 0xac, 0x58, 0x58],
     [0xaf, 0x94, 0xb0, 0x6f, 0xb2, 0x5c, 0x5b, 0x5e, 0x5d],
     [0x60, 0x5f, 0x62, 0x61, 0x64, 0x63, 0x66, 0x65, 0x68],
     [0x67]]"

definition case_conv_ext :: "u16 list" where
  "case_conv_ext = [
     0x0399, 0x0308, 0x0301, 0x03a5, 0x0313, 0x0300, 0x0342, 0x0391, 0x0397, 0x03a9, 0x0046, 0x0049, 0x004c, 0x0053,
     0x0069, 0x0307, 0x02bc, 0x004e, 0x004a, 0x030c, 0x0535, 0x0552, 0x0048, 0x0331, 0x0054, 0x0057, 0x030a, 0x0059,
     0x0041, 0x02be, 0x1f08, 0x1f80, 0x1f28, 0x1f90, 0x1f68, 0x1fa0, 0x1fba, 0x0386, 0x1fb3, 0x1fca, 0x0389, 0x1fc3,
     0x03a1, 0x1ffa, 0x038f, 0x1ff3, 0x0544, 0x0546, 0x053b, 0x054e, 0x053d, 0x03b8, 0x0462, 0xa64a, 0x1e60, 0x03c9,
     0x006b, 0x00e5]"

section \<open>Operations\<close>

datatype run_type = RUN_TYPE_U | RUN_TYPE_L | RUN_TYPE_UF | RUN_TYPE_LF | RUN_TYPE_UL | RUN_TYPE_LSU
  | RUN_TYPE_U2L_399_EXT2 | RUN_TYPE_UF_D20 | RUN_TYPE_UF_D1_EXT | RUN_TYPE_U_EXT | RUN_TYPE_LF_EXT
  | RUN_TYPE_U_EXT2 | RUN_TYPE_L_EXT2 | RUN_TYPE_U_EXT3

text \<open>Decoding the four type bits; the \<^verbatim>\<open>default\<close> label of the switch is that of \<open>RUN_TYPE_U_EXT3\<close>.\<close>

definition run_type_of :: "u32 \<Rightarrow> run_type" where
  "run_type_of t =
     (if t = 0 then RUN_TYPE_U else if t = 1 then RUN_TYPE_L else if t = 2 then RUN_TYPE_UF
      else if t = 3 then RUN_TYPE_LF else if t = 4 then RUN_TYPE_UL else if t = 5 then RUN_TYPE_LSU
      else if t = 6 then RUN_TYPE_U2L_399_EXT2 else if t = 7 then RUN_TYPE_UF_D20
      else if t = 8 then RUN_TYPE_UF_D1_EXT else if t = 9 then RUN_TYPE_U_EXT
      else if t = 10 then RUN_TYPE_LF_EXT else if t = 11 then RUN_TYPE_U_EXT2
      else if t = 12 then RUN_TYPE_L_EXT2 else RUN_TYPE_U_EXT3)"

definition run_code :: "u32 \<Rightarrow> u32" where
  "run_code v = drop_bit (32 - 17) v"

definition run_len :: "u32 \<Rightarrow> u32" where
  "run_len v = drop_bit (32 - 17 - 7) v AND 0x7f"

definition run_kind :: "u32 \<Rightarrow> u32" where
  "run_kind v = drop_bit (32 - 17 - 7 - 4) v AND 0xf"

text \<open>The binary search shared by \<open>lre_case_conv\<close> and \<open>lre_is_cased\<close>: the index of the run that
  contains \<open>c\<close>, if there is one.\<close>

function case_conv_search :: "u32 \<Rightarrow> int \<Rightarrow> int \<Rightarrow> nat option option" where
  "case_conv_search c idx_min idx_max =
     (if idx_min \<le> idx_max then
        let idx = (idx_max + idx_min) div 2 in do {
          v \<leftarrow> rd case_conv_table1 (nat idx);
          if c < run_code v then case_conv_search c idx_min (idx - 1)
          else if c \<ge> run_code v + run_len v then case_conv_search c (idx + 1) idx_max
          else Some (Some (nat idx)) }
      else Some None)"
  by pat_completeness auto
termination
  by (relation "measure (\<lambda>(c, idx_min, idx_max). nat (idx_max + 1 - idx_min))") auto

declare case_conv_search.simps [simp del]

definition conv_ext :: "u32 \<Rightarrow> u32 option" where
  "conv_ext i = map_option ucast (rd case_conv_ext (unat i))"

text \<open>The switch on the type of the run. The result is the list \<open>res[0], \<dots>\<close> of converted code points.\<close>

definition case_conv_run :: "u32 \<Rightarrow> u32 \<Rightarrow> u32 \<Rightarrow> run_type \<Rightarrow> u32 \<Rightarrow> u32 \<Rightarrow> u32 list option" where
  "case_conv_run c conv_type code type kind data =
     (let is_lower = of_bool (conv_type \<noteq> 0) :: u32; a = c - code in
      case type of
        RUN_TYPE_UL \<Rightarrow>
          if a AND 1 \<noteq> 1 - is_lower then Some [c] else Some [(a XOR 1) + code]
      | RUN_TYPE_LSU \<Rightarrow>
          if a = 1 then Some [c + (2 * is_lower - 1)]
          else if a = (1 - is_lower) * 2 then Some [c + (2 * is_lower - 1) * 2]
          else Some [c]
      | RUN_TYPE_U2L_399_EXT2 \<Rightarrow>
          if is_lower = 0 then do { x \<leftarrow> conv_ext (drop_bit 6 data); Some [c - code + x, 0x399] }
          else do { x \<leftarrow> conv_ext (data AND 0x3f); Some [c - code + x] }
      | RUN_TYPE_UF_D20 \<Rightarrow>
          if conv_type = 1 then Some [c] else Some [data + of_bool (conv_type = 2) * 0x20]
      | RUN_TYPE_UF_D1_EXT \<Rightarrow>
          if conv_type = 1 then Some [c]
          else do { x \<leftarrow> conv_ext data; Some [x + of_bool (conv_type = 2)] }
      | RUN_TYPE_U_EXT \<Rightarrow> if is_lower \<noteq> 0 then Some [c] else do { x \<leftarrow> conv_ext data; Some [x] }
      | RUN_TYPE_LF_EXT \<Rightarrow> if is_lower \<noteq> 1 then Some [c] else do { x \<leftarrow> conv_ext data; Some [x] }
      | RUN_TYPE_U_EXT2 \<Rightarrow>
          if conv_type \<noteq> 0 then Some [c]
          else do { x \<leftarrow> conv_ext (drop_bit 6 data); y \<leftarrow> conv_ext (data AND 0x3f); Some [c - code + x, y] }
      | RUN_TYPE_L_EXT2 \<Rightarrow>
          if conv_type \<noteq> 1 then Some [c]
          else do { x \<leftarrow> conv_ext (drop_bit 6 data); y \<leftarrow> conv_ext (data AND 0x3f); Some [c - code + x, y] }
      | RUN_TYPE_U_EXT3 \<Rightarrow>
          if conv_type \<noteq> 0 then Some [c]
          else do {
            x \<leftarrow> conv_ext (drop_bit 8 data);
            y \<leftarrow> conv_ext (drop_bit 4 data AND 0xf);
            z \<leftarrow> conv_ext (data AND 0xf);
            Some [x, y, z] }
      | _ \<Rightarrow>
          if conv_type = kind AND 1 \<or> kind \<ge> 2 \<and> conv_type = 2
          then do { w \<leftarrow> rd case_conv_table1 (unat data); Some [c - code + run_code w] }
          else Some [c])"

definition lre_case_conv :: "u32 \<Rightarrow> u32 \<Rightarrow> u32 list option" where
  "lre_case_conv c conv_type =
     (if c < 128 then
        if conv_type \<noteq> 0 then
          if c \<ge> 65 \<and> c \<le> 90 then Some [c - 65 + 97] else Some [c]
        else if c \<ge> 97 \<and> c \<le> 122 then Some [c - 97 + 65] else Some [c]
      else do {
        hit \<leftarrow> case_conv_search c 0 (int (length case_conv_table1) - 1);
        case hit of
          None \<Rightarrow> Some [c]
        | Some idx \<Rightarrow> do {
            v \<leftarrow> rd case_conv_table1 idx;
            w \<leftarrow> rd case_conv_table2 idx;
            let data = push_bit 8 (v AND 0xf) OR ucast w;
            case_conv_run c conv_type (run_code v) (run_type_of (run_kind v)) (run_kind v) data } })"

definition lre_canonicalize :: "u32 \<Rightarrow> bool \<Rightarrow> u32 option" where
  "lre_canonicalize c is_utf16 =
     (if is_utf16 then
        if c < 128 then Some (if c \<ge> 65 \<and> c \<le> 90 then c - 65 + 97 else c)
        else do { res \<leftarrow> lre_case_conv c 2; rd res 0 }
      else
        if c < 128 then Some (if c \<ge> 97 \<and> c \<le> 122 then c - 97 + 65 else c)
        else do {
          res \<leftarrow> lre_case_conv c 0;
          r \<leftarrow> rd res 0;
          Some (if length res = 1 \<and> r \<ge> 128 then r else c) })"

section \<open>The tables\<close>

definition run_before :: "u32 \<Rightarrow> u32 \<Rightarrow> bool" where
  "run_before v w \<longleftrightarrow> uint (run_code v) + uint (run_len v) \<le> uint (run_code w)"

definition in_run :: "u32 \<Rightarrow> u32 \<Rightarrow> bool" where
  "in_run c v \<longleftrightarrow> run_code v \<le> c \<and> c < run_code v + run_len v"

lemma case_conv_table1_length [simp]: "length case_conv_table1 = 361"
  by (simp add: case_conv_table1_def)

lemma case_conv_table2_length [simp]: "length case_conv_table2 = 361"
  by (simp add: case_conv_table2_def)

lemma case_conv_ext_length [simp]: "length case_conv_ext = 58"
  by (simp add: case_conv_ext_def)

lemma case_conv_successive: "successively run_before case_conv_table1"
  by code_simp

lemma run_before_trans: "transp run_before"
proof (rule transpI)
  fix u v w
  assume "run_before u v" "run_before v w"
  then show "run_before u w" unfolding run_before_def using uint_ge_0 [of "run_len v"] by linarith
qed

lemma case_conv_sorted: "i < j \<Longrightarrow> j < 361 \<Longrightarrow> run_before (case_conv_table1 ! i) (case_conv_table1 ! j)"
  using case_conv_successive successively_conv_sorted_wrt [OF run_before_trans] sorted_wrt_nth_less by fastforce

text \<open>The data of a run.\<close>

definition run_data :: "u32 \<Rightarrow> u8 \<Rightarrow> u32" where
  "run_data v w = push_bit 8 (v AND 0xf) OR ucast w"

text \<open>The conversion data of every run stays inside the tables, whatever the code point.\<close>

definition run_data_ok :: "u32 \<Rightarrow> u8 \<Rightarrow> bool" where
  "run_data_ok v w =
     (let data = run_data v w in
      case run_type_of (run_kind v) of
        RUN_TYPE_UL \<Rightarrow> True
      | RUN_TYPE_LSU \<Rightarrow> True
      | RUN_TYPE_UF_D20 \<Rightarrow> True
      | RUN_TYPE_U2L_399_EXT2 \<Rightarrow> drop_bit 6 data < 58 \<and> data AND 0x3f < 58
      | RUN_TYPE_UF_D1_EXT \<Rightarrow> data < 58
      | RUN_TYPE_U_EXT \<Rightarrow> data < 58
      | RUN_TYPE_LF_EXT \<Rightarrow> data < 58
      | RUN_TYPE_U_EXT2 \<Rightarrow> drop_bit 6 data < 58 \<and> data AND 0x3f < 58
      | RUN_TYPE_L_EXT2 \<Rightarrow> drop_bit 6 data < 58 \<and> data AND 0x3f < 58
      | RUN_TYPE_U_EXT3 \<Rightarrow> drop_bit 8 data < 58
      | _ \<Rightarrow> data < 361)"

text \<open>The fields of an entry as integers.\<close>

lemma uint_drop_bit: "uint (drop_bit k (v :: u32)) = uint v div 2 ^ k"
proof -
  have "uint (drop_bit k v) = drop_bit k (uint v)"
    using uint_lt2p [of v] by (simp add: unsigned_drop_bit_eq take_bit_int_eq_self)
  then show ?thesis by (simp add: drop_bit_eq_div)
qed

lemma run_code_int: "uint (run_code v) = uint v div 32768"
  by (simp add: run_code_def uint_drop_bit)

lemma uint_field: "uint (take_bit n (drop_bit k (v :: u32))) = uint v div 2 ^ k mod 2 ^ n" if "n \<le> 32"
proof -
  have "uint (take_bit n (drop_bit k v)) = take_bit n (drop_bit k (uint v))"
    using uint_lt2p [of v] that by (simp add: unsigned_take_bit_eq unsigned_drop_bit_eq take_bit_int_eq_self)
  then show ?thesis by (simp add: drop_bit_eq_div take_bit_eq_mod)
qed

lemma run_len_int: "uint (run_len v) = uint v div 256 mod 128"
  using uint_field [of 7 8 v] by (simp add: run_len_def take_bit_eq_mask mask_eq_exp_minus_1)

lemma run_kind_int: "uint (run_kind v) = uint v div 16 mod 16"
  using uint_field [of 4 4 v] by (simp add: run_kind_def take_bit_eq_mask mask_eq_exp_minus_1)

lemma run_data_int: "uint (run_data v w) = uint v mod 16 * 256 + uint w"
proof -
  have w: "uint w < 256" using uint_lt2p [of w] by simp
  have n: "uint (v AND 0xf) = uint v mod 16"
    using uint_field [of 4 0 v] by (simp add: take_bit_eq_mask mask_eq_exp_minus_1)
  have u: "uint (ucast w :: u32) = uint w" by (simp add: uint_up_ucast is_up)
  show ?thesis
    unfolding run_data_def
    using uint_or_shift [of "v AND 0xf" 8 "ucast w"] n w u pos_mod_bound [of 16 "uint v"] by simp
qed

text \<open>A check of the tables in integers; \<open>i\<close> is the index of the run. The data of a run stay inside the
  tables and never map a code point to itself: runs of the first four types point to the run they
  are mapped to, so they only have to point elsewhere.\<close>

definition ext_at :: "int \<Rightarrow> int" where
  "ext_at k = uint (case_conv_ext ! nat k)"

definition run_check :: "int \<Rightarrow> int \<Rightarrow> int \<Rightarrow> bool" where
  "run_check i v w =
     (let code = v div 32768; len = v div 256 mod 128; kind = v div 16 mod 16; data = v mod 16 * 256 + w in
      0 < len \<and>
      (if kind < 4 then data \<noteq> i \<and> data < 361
       else if kind = 4 then even len
       else if kind = 5 then len = 3
       else if kind = 6 then data div 64 < 58 \<and> data mod 64 < 58 \<and> ext_at (data mod 64) \<noteq> code
       else if kind = 7 then len = 1 \<and> data \<noteq> code \<and> data + 32 \<noteq> code
       else if kind = 8 then len = 1 \<and> data < 58 \<and> ext_at data \<noteq> code \<and> ext_at data + 1 \<noteq> code
       else if kind < 11 then len = 1 \<and> data < 58 \<and> ext_at data \<noteq> code
       else if kind < 13 then data div 64 < 58 \<and> data mod 64 < 58
       else kind = 13))"

fun check_runs :: "int \<Rightarrow> int list \<Rightarrow> int list \<Rightarrow> int option" where
  "check_runs i [] [] = Some i"
| "check_runs i (v # vs) (w # ws) = (if run_check i v w then check_runs (i + 1) vs ws else None)"
| "check_runs i _ _ = None"

fun check_rows :: "int \<Rightarrow> u32 list list \<Rightarrow> u8 list list \<Rightarrow> int option" where
  "check_rows i [] [] = Some i"
| "check_rows i (vs # vss) (ws # wss) = do { i \<leftarrow> check_runs i (map uint vs) (map uint ws); check_rows i vss wss }"
| "check_rows i _ _ = None"

lemma check_runs_append:
  "check_runs i xs ys = Some j \<Longrightarrow> check_runs i (xs @ xs') (ys @ ys') = check_runs j xs' ys'"
  by (induction i xs ys rule: check_runs.induct) (auto split: if_splits)

lemma check_rows_concat:
  "check_rows i vss wss = Some j \<Longrightarrow> check_runs i (map uint (concat vss)) (map uint (concat wss)) = Some j"
  by (induction i vss wss rule: check_rows.induct) (auto simp: check_runs_append split: bind_splits)

lemma check_runs_nth:
  "check_runs i xs ys = Some j \<Longrightarrow> k < length xs \<Longrightarrow> run_check (i + int k) (xs ! k) (ys ! k)"
proof (induction i xs ys arbitrary: k rule: check_runs.induct)
  case (2 i v vs w ws)
  then show ?case by (cases k) (auto simp: add.commute add.left_commute split: if_splits)
qed auto

lemma check_runs_tables: "check_runs 0 (map uint case_conv_table1) (map uint case_conv_table2) = Some 361"
  unfolding case_conv_table1_def case_conv_table2_def by (rule check_rows_concat) code_simp

lemma case_conv_checked:
  "i < 361 \<Longrightarrow> run_check (int i) (uint (case_conv_table1 ! i)) (uint (case_conv_table2 ! i))"
  using check_runs_nth [OF check_runs_tables, of i] by simp

lemma run_type_of_kind:
  "run_type_of k = (if uint k = 0 then RUN_TYPE_U else if uint k = 1 then RUN_TYPE_L else if uint k = 2 then RUN_TYPE_UF
     else if uint k = 3 then RUN_TYPE_LF else if uint k = 4 then RUN_TYPE_UL else if uint k = 5 then RUN_TYPE_LSU
     else if uint k = 6 then RUN_TYPE_U2L_399_EXT2 else if uint k = 7 then RUN_TYPE_UF_D20
     else if uint k = 8 then RUN_TYPE_UF_D1_EXT else if uint k = 9 then RUN_TYPE_U_EXT
     else if uint k = 10 then RUN_TYPE_LF_EXT else if uint k = 11 then RUN_TYPE_U_EXT2
     else if uint k = 12 then RUN_TYPE_L_EXT2 else RUN_TYPE_U_EXT3)"
  by (simp add: run_type_of_def word_uint_eq_iff)

lemma data_parts:
  "uint (drop_bit 6 (d :: u32)) = uint d div 64" "uint (d AND 0x3f) = uint d mod 64" "uint (drop_bit 8 d) = uint d div 256"
  using uint_field [of 6 0 d] by (simp_all add: uint_drop_bit take_bit_eq_mask mask_eq_exp_minus_1)

lemma case_conv_data_ok:
  assumes "i < 361"
  shows "run_data_ok (case_conv_table1 ! i) (case_conv_table2 ! i)"
proof -
  let ?v = "case_conv_table1 ! i" and ?w = "case_conv_table2 ! i"
  note c = case_conv_checked [OF assms, unfolded run_check_def Let_def, folded run_data_int run_kind_int run_len_int run_code_int]
  have bound: "uint (run_data ?v ?w) div 256 < 58"
    using uint_lt2p [of ?w] pos_mod_bound [of 16 "uint ?v"] by (simp add: run_data_int)
  have 14: "uint (run_kind ?v) < 14" using c by (auto split: if_splits)
  have "k \<in> {0, 1, 2, 3, 4, 5, 6, 7, 8, 9, 10, 11, 12, 13}" if "0 \<le> k" "k < 14" for k :: int
    using that by simp presburger
  from this [OF uint_ge_0 14] show ?thesis
    using c bound unfolding run_data_ok_def Let_def run_type_of_kind
    by (elim insertE emptyE) (simp_all add: word_less_def data_parts)
qed

section \<open>The search\<close>

lemma run_code_bound: "uint (run_code v) < 131072"
  using uint_lt2p [of v] by (simp add: run_code_int)

lemma run_len_bound: "uint (run_len v) < 128"
  by (simp add: run_len_int)

lemma uint_run_end: "uint (run_code v + run_len v) = uint (run_code v) + uint (run_len v)"
  using run_code_bound [of v] run_len_bound [of v] by (subst uint_plus_simple_iff [THEN iffD1]) (auto simp: no_olen_add)

lemma run_before_code: "run_before v w \<Longrightarrow> uint (run_code v) \<le> uint (run_code w)"
  unfolding run_before_def using uint_ge_0 [of "run_len v"] by linarith

lemma in_run_uint: "in_run c v \<longleftrightarrow> uint (run_code v) \<le> uint c \<and> uint c < uint (run_code v) + uint (run_len v)"
  by (simp add: in_run_def word_le_def word_less_def uint_run_end)

lemma case_conv_search_spec:
  assumes "0 \<le> lo" and "hi < 361"
  shows "\<exists>r. case_conv_search c lo hi = Some r \<and>
    (case r of Some i \<Rightarrow> lo \<le> int i \<and> int i \<le> hi \<and> in_run c (case_conv_table1 ! i)
     | None \<Rightarrow> \<forall>i. lo \<le> int i \<and> int i \<le> hi \<longrightarrow> \<not> in_run c (case_conv_table1 ! i))"
  using assms
proof (induction c lo hi rule: case_conv_search.induct)
  case (1 c lo hi)
  show ?case
  proof (cases "lo \<le> hi")
    case False
    then show ?thesis by (subst case_conv_search.simps) auto
  next
    case True
    define idx where "idx = (hi + lo) div 2"
    define v where "v = case_conv_table1 ! nat idx"
    have idx: "lo \<le> idx" "idx \<le> hi" using True unfolding idx_def by auto
    have v: "rd case_conv_table1 (nat idx) = Some v" using idx "1.prems" by (simp add: rd_def v_def)
    have before: "run_before (case_conv_table1 ! i) v" if "int i < idx" for i
      using case_conv_sorted [of i "nat idx"] that idx "1.prems" by (simp add: v_def)
    have after: "run_before v (case_conv_table1 ! i)" if "idx < int i" "int i \<le> hi" for i
      using case_conv_sorted [of "nat idx" i] that idx "1.prems" by (simp add: v_def)
    have v': "case_conv_table1 ! i = v" if "int i = idx" for i using that by (auto simp: v_def)
    consider "c < run_code v" | "run_code v + run_len v \<le> c" "\<not> c < run_code v" | "in_run c v"
      by (force simp: in_run_def)
    then show ?thesis
    proof cases
      case 1
      have none: "\<not> in_run c (case_conv_table1 ! i)" if "idx \<le> int i" "int i \<le> hi" for i
        using 1 run_before_code [OF after [of i]] v' [of i] that
        by (cases "int i = idx") (auto simp: in_run_uint word_less_def)
      obtain r where r: "case_conv_search c lo (idx - 1) = Some r"
        "case r of Some i \<Rightarrow> lo \<le> int i \<and> int i \<le> idx - 1 \<and> in_run c (case_conv_table1 ! i)
         | None \<Rightarrow> \<forall>i. lo \<le> int i \<and> int i \<le> idx - 1 \<longrightarrow> \<not> in_run c (case_conv_table1 ! i)"
        using "1.IH"(1) [OF True idx_def v 1] "1.prems" idx by auto
      have "case_conv_search c lo hi = Some r"
        using True v 1 r(1) by (subst case_conv_search.simps) (simp add: idx_def [symmetric])
      then show ?thesis using r(2) none idx by (auto split: option.splits) (meson not_less zle_diff1_eq)
    next
      case 2
      have none: "\<not> in_run c (case_conv_table1 ! i)" if "int i \<le> idx" for i
        using 2 before [of i] v' [of i] that
        by (cases "int i = idx") (auto simp: in_run_uint run_before_def word_le_def word_less_def uint_run_end)
      obtain r where r: "case_conv_search c (idx + 1) hi = Some r"
        "case r of Some i \<Rightarrow> idx + 1 \<le> int i \<and> int i \<le> hi \<and> in_run c (case_conv_table1 ! i)
         | None \<Rightarrow> \<forall>i. idx + 1 \<le> int i \<and> int i \<le> hi \<longrightarrow> \<not> in_run c (case_conv_table1 ! i)"
        using "1.IH"(2) [OF True idx_def v 2(2,1)] "1.prems" idx by auto
      have "case_conv_search c lo hi = Some r"
        using True v 2 r(1) by (subst case_conv_search.simps) (simp add: idx_def [symmetric])
      then show ?thesis using r(2) none idx by (auto split: option.splits) (meson not_less zless_imp_add1_zle)
    next
      case 3
      then have "case_conv_search c lo hi = Some (Some (nat idx))"
        using True v by (subst case_conv_search.simps) (auto simp: idx_def [symmetric] in_run_def)
      then show ?thesis using 3 idx "1.prems" by (simp add: v_def)
    qed
  qed
qed

section \<open>The conversion\<close>

text \<open>A linear reading of the table.\<close>

definition find_run :: "u32 \<Rightarrow> nat option" where
  "find_run c = find (\<lambda>i. in_run c (case_conv_table1 ! i)) [0..<361]"

lemma in_run_unique:
  assumes "in_run c (case_conv_table1 ! i)" "in_run c (case_conv_table1 ! j)" "i < 361" "j < 361"
  shows "i = j"
proof (rule ccontr)
  assume "i \<noteq> j"
  then consider "i < j" | "j < i" by linarith
  then show False
    using case_conv_sorted [of i j] case_conv_sorted [of j i] assms by cases (auto simp: in_run_uint run_before_def)
qed

lemma case_conv_search_find: "case_conv_search c 0 360 = Some (find_run c)"
proof -
  obtain r where r: "case_conv_search c 0 360 = Some r"
    "case r of Some i \<Rightarrow> 0 \<le> int i \<and> int i \<le> 360 \<and> in_run c (case_conv_table1 ! i)
     | None \<Rightarrow> \<forall>i. 0 \<le> int i \<and> int i \<le> 360 \<longrightarrow> \<not> in_run c (case_conv_table1 ! i)"
    using case_conv_search_spec [of 0 360 c] by auto
  have "r = find_run c"
  proof (cases "find_run c")
    case None
    then have "\<forall>i < 361. \<not> in_run c (case_conv_table1 ! i)" by (auto simp: find_run_def find_None_iff simp del: upt_rec_numeral)
    then show ?thesis using r(2) None by (cases r) (auto dest: spec)
  next
    case (Some j)
    then have j: "j < 361" "in_run c (case_conv_table1 ! j)" by (auto simp: find_run_def find_Some_iff simp del: upt_rec_numeral)
    show ?thesis
    proof (cases r)
      case None
      then show ?thesis using r(2) j by auto
    next
      case (Some i)
      then have "i = j" using r(2) j by (intro in_run_unique [of c i j]) auto
      then show ?thesis using Some \<open>find_run c = Some j\<close> by simp
    qed
  qed
  then show ?thesis using r(1) by simp
qed

lemma conv_ext_ok: "i < 58 \<Longrightarrow> \<exists>x. conv_ext i = Some x"
  by (auto simp: conv_ext_def rd_def word_less_nat_alt)

lemma nibble_lt: "(x :: u32) AND 0xf < 58"
proof -
  have "x AND 0xf \<le> 0xf" by (rule word_and_le1)
  then show ?thesis by (rule order.strict_trans1) simp
qed

lemma case_conv_run_ok:
  assumes "run_data_ok v w"
  shows "\<exists>res. case_conv_run c t code (run_type_of (run_kind v)) kind (push_bit 8 (v AND 0xf) OR ucast w) = Some res \<and>
    1 \<le> length res \<and> length res \<le> 3"
proof -
  define data :: u32 where "data = push_bit 8 (v AND 0xf) OR ucast w"
  have nib: "\<exists>x. conv_ext (y AND 0xf) = Some x" for y by (rule conv_ext_ok [OF nibble_lt])
  have rd1: "\<exists>x. rd case_conv_table1 (unat data) = Some x" if "data < 361"
    using that by (auto simp: rd_def word_less_nat_alt)
  show ?thesis
    using assms conv_ext_ok [of "drop_bit 6 data"] conv_ext_ok [of "data AND 0x3f"] conv_ext_ok [of data]
      conv_ext_ok [of "drop_bit 8 data"] nib [of data] nib [of "drop_bit 4 data"] rd1
    unfolding run_data_ok_def run_data_def data_def [symmetric] Let_def case_conv_run_def
    by (cases "run_type_of (run_kind v)") auto
qed

text \<open>The conversion of a code point of the run with index \<open>i\<close>.\<close>

definition convert_in_run :: "u32 \<Rightarrow> u32 \<Rightarrow> nat \<Rightarrow> u32 list option" where
  "convert_in_run c t i =
     (let v = case_conv_table1 ! i; w = case_conv_table2 ! i in
      case_conv_run c t (run_code v) (run_type_of (run_kind v)) (run_kind v) (push_bit 8 (v AND 0xf) OR ucast w))"

lemma lre_case_conv_find:
  assumes "128 \<le> c"
  shows "lre_case_conv c t = (case find_run c of None \<Rightarrow> Some [c] | Some i \<Rightarrow> convert_in_run c t i)"
proof (cases "find_run c")
  case None
  then show ?thesis using assms by (simp add: lre_case_conv_def case_conv_search_find leD)
next
  case (Some i)
  then have "i < 361" by (auto simp: find_run_def find_Some_iff simp del: upt_rec_numeral)
  with Some show ?thesis
    using assms by (simp add: lre_case_conv_def case_conv_search_find leD rd_def convert_in_run_def Let_def)
qed

lemma lre_case_conv_total:
  "\<exists>res. lre_case_conv c t = Some res \<and> 1 \<le> length res \<and> length res \<le> 3"
proof (cases "c < 128")
  case True
  then show ?thesis by (simp add: lre_case_conv_def)
next
  case False
  show ?thesis
  proof (cases "find_run c")
    case None
    with False show ?thesis by (simp add: lre_case_conv_find)
  next
    case (Some i)
    then have "i < 361" by (auto simp: find_run_def find_Some_iff simp del: upt_rec_numeral)
    from case_conv_run_ok [OF case_conv_data_ok [OF this]] Some False show ?thesis
      by (simp add: lre_case_conv_find convert_in_run_def Let_def)
  qed
qed

lemma lre_canonicalize_total: "\<exists>r. lre_canonicalize c u = Some r"
proof -
  obtain r2 where "lre_case_conv c 2 = Some r2" "1 \<le> length r2" using lre_case_conv_total by blast
  moreover obtain r0 where "lre_case_conv c 0 = Some r0" "1 \<le> length r0" using lre_case_conv_total by blast
  ultimately show ?thesis by (auto simp: lre_canonicalize_def rd_def)
qed

section \<open>Properties\<close>

text \<open>C10: case conversion is defined for every code point and every conversion type: the binary search
  and the decoding of the run never read outside the tables, and the result has one to three code
  points, as \<^verbatim>\<open>LRE_CC_RES_LEN_MAX\<close> promises.\<close>

theorem lre_case_conv_bounded:
  "\<exists>res. lre_case_conv c conv_type = Some res \<and> 1 \<le> length res \<and> length res \<le> 3"
  by (rule lre_case_conv_total)

text \<open>C11: above ASCII the binary search of \<open>lre_case_conv\<close> agrees with a linear reading of the table: a
  code point is converted by the one run that contains it, and is left alone when no run does.\<close>

theorem lre_case_conv_reads_table:
  assumes "128 \<le> c"
  shows "lre_case_conv c conv_type =
      (case find (\<lambda>i. in_run c (case_conv_table1 ! i)) [0..<361] of
         None \<Rightarrow> Some [c] | Some i \<Rightarrow> convert_in_run c conv_type i) \<and>
    (\<forall>i j. i < 361 \<and> j < 361 \<and> in_run c (case_conv_table1 ! i) \<and> in_run c (case_conv_table1 ! j) \<longrightarrow> i = j)"
  using lre_case_conv_find [OF assms] in_run_unique unfolding find_run_def by blast

theorem lre_case_conv_reads_table_witness:
  "lre_case_conv 0xe9 0 =
      (case find (\<lambda>i. in_run 0xe9 (case_conv_table1 ! i)) [0..<361] of
         None \<Rightarrow> Some [0xe9] | Some i \<Rightarrow> convert_in_run 0xe9 0 i)"
  using lre_case_conv_reads_table [of "0xe9" 0] by (simp del: upt_rec_numeral)

end
