(* ===== verification/Unicode_Lookup.thy ===== *)
theory Unicode_Lookup
  imports Unicode_Tables Unicode_Case
begin

text \<open>
  Membership tests for code points, from \<^verbatim>\<open>src/qjs/libunicode.c\<close>: a property is a table of run lengths
  in a variable-length encoding, with an index that says for every block of 32 bytes at which code
  point and at which offset a run starts. \<open>lre_is_in_table\<close> searches the index and walks the table
  from there. The identifier tests of \<^verbatim>\<open>libregexp.h\<close> build on it. A pointer into a table is the rest
  of the table; a read behind its end is \<open>None\<close>.
\<close>

section \<open>Operations\<close>

definition get_le24 :: "u8 list \<Rightarrow> nat \<Rightarrow> u32 option" where
  "get_le24 tab p = do {
     a \<leftarrow> rd tab p; b \<leftarrow> rd tab (p + 1); c \<leftarrow> rd tab (p + 2);
     Some (ucast a OR push_bit 8 (ucast b) OR push_bit 16 (ucast c)) }"

definition UNICODE_INDEX_BLOCK_LEN :: nat where "UNICODE_INDEX_BLOCK_LEN = 32"

definition index_code :: "u32 \<Rightarrow> u32" where
  "index_code v = v AND (push_bit 21 1 - 1)"

function index_search :: "u32 \<Rightarrow> u8 list \<Rightarrow> nat \<Rightarrow> nat \<Rightarrow> nat option" where
  "index_search c index_table idx_min idx_max =
     (if idx_max - idx_min > 1 then
        let idx = (idx_max + idx_min) div 2 in do {
          v \<leftarrow> get_le24 index_table (idx * 3);
          if c < index_code v then index_search c index_table idx_min idx
          else index_search c index_table idx idx_max }
      else Some idx_min)"
  by pat_completeness auto
termination
  by (relation "measure (\<lambda>(c, index_table, idx_min, idx_max). idx_max - idx_min)") auto

declare index_search.simps [simp del]

text \<open>The result is the offset in the table and the first code point there, or \<open>None\<close> inside the option
  for -1.\<close>

definition get_index_pos :: "u32 \<Rightarrow> u8 list \<Rightarrow> nat \<Rightarrow> (nat \<times> u32) option option" where
  "get_index_pos c index_table index_table_len = do {
     v \<leftarrow> get_le24 index_table 0;
     if c < index_code v then Some (Some (0, 0))
     else do {
       code \<leftarrow> get_le24 index_table ((index_table_len - 1) * 3);
       if c \<ge> code then Some None
       else do {
         idx_min \<leftarrow> index_search c index_table 0 (index_table_len - 1);
         v \<leftarrow> get_le24 index_table (idx_min * 3);
         Some (Some ((idx_min + 1) * UNICODE_INDEX_BLOCK_LEN + unat (drop_bit 21 v), index_code v)) } } }"

text \<open>The forms of a run for bytes from 64 on: the length of the run and the rest of the table.\<close>

definition long_run :: "u32 \<Rightarrow> u8 list \<Rightarrow> (u32 \<times> u8 list) option" where
  "long_run b p =
     (if b \<ge> 0x80 then Some (b - 0x80 + 1, p)
      else if b < 0x60 then
        (case p of p0 # p' \<Rightarrow> Some ((push_bit 8 (b - 0x40) OR ucast p0) + 1, p') | _ \<Rightarrow> None)
      else
        (case p of p0 # p1 # p' \<Rightarrow> Some ((push_bit 16 (b - 0x60) OR push_bit 8 (ucast p0) OR ucast p1) + 1, p')
         | _ \<Rightarrow> None))"

lemma long_run_length: "long_run b p = Some (n, p') \<Longrightarrow> length p' \<le> length p"
  by (auto simp: long_run_def split: if_splits list.splits)

function table_walk :: "u32 \<Rightarrow> u8 list \<Rightarrow> u32 \<Rightarrow> bool \<Rightarrow> bool option" where
  "table_walk c [] code on = None"
| "table_walk c (byte # p) code on =
     (let b = ucast byte in
      if b < 64 then
        let code = code + drop_bit 3 b + 1 in
        if c < code then Some on
        else let code = code + (b AND 7) + 1 in
          if c < code then Some (\<not> on) else table_walk c p code on
      else do {
        (n, p') \<leftarrow> long_run b p;
        let code = code + n;
        if c < code then Some on else table_walk c p' code (\<not> on) })"
  by pat_completeness auto
termination
  by (relation "measure (\<lambda>(c, p, code, on). length p)") (auto dest: long_run_length)

declare table_walk.simps [simp del]

definition lre_is_in_table :: "u32 \<Rightarrow> u8 list \<Rightarrow> u8 list \<Rightarrow> nat \<Rightarrow> bool option" where
  "lre_is_in_table c tab index_table index_table_len = do {
     pos \<leftarrow> get_index_pos c index_table index_table_len;
     case pos of
       None \<Rightarrow> Some False
     | Some (pos, code) \<Rightarrow> if pos \<le> length tab then table_walk c (drop pos tab) code False else None }"

definition lre_is_cased :: "u32 \<Rightarrow> bool option" where
  "lre_is_cased c = do {
     hit \<leftarrow> case_conv_search c 0 (int (length case_conv_table1) - 1);
     if hit \<noteq> None then Some True
     else lre_is_in_table c unicode_prop_Cased1_table unicode_prop_Cased1_index
       (length unicode_prop_Cased1_index div 3) }"

definition lre_is_case_ignorable :: "u32 \<Rightarrow> bool option" where
  "lre_is_case_ignorable c =
     lre_is_in_table c unicode_prop_Case_Ignorable_table unicode_prop_Case_Ignorable_index
       (length unicode_prop_Case_Ignorable_index div 3)"

definition lre_is_id_start :: "u32 \<Rightarrow> bool option" where
  "lre_is_id_start c =
     lre_is_in_table c unicode_prop_ID_Start_table unicode_prop_ID_Start_index
       (length unicode_prop_ID_Start_index div 3)"

definition lre_is_id_continue :: "u32 \<Rightarrow> bool option" where
  "lre_is_id_continue c = do {
     s \<leftarrow> lre_is_id_start c;
     if s then Some True
     else lre_is_in_table c unicode_prop_ID_Continue1_table unicode_prop_ID_Continue1_index
       (length unicode_prop_ID_Continue1_index div 3) }"

text \<open>Identifier characters; the bitmaps for ASCII are in \<^verbatim>\<open>libregexp.c\<close>.\<close>

definition lre_id_start_table_ascii :: "u32 list" where
  "lre_id_start_table_ascii = [0x00000000, 0x00000010, 0x87FFFFFE, 0x07FFFFFE]"

definition lre_id_continue_table_ascii :: "u32 list" where
  "lre_id_continue_table_ascii = [0x00000000, 0x03FF0010, 0x87FFFFFE, 0x07FFFFFE]"

definition lre_js_is_ident_first :: "u32 \<Rightarrow> bool option" where
  "lre_js_is_ident_first c =
     (if c < 128 then do {
        w \<leftarrow> rd lre_id_start_table_ascii (unat (drop_bit 5 c));
        Some (drop_bit (unat (c AND 31)) w AND 1 \<noteq> 0) }
      else lre_is_id_start c)"

definition lre_js_is_ident_next :: "u32 \<Rightarrow> bool option" where
  "lre_js_is_ident_next c =
     (if c < 128 then do {
        w \<leftarrow> rd lre_id_continue_table_ascii (unat (drop_bit 5 c));
        Some (drop_bit (unat (c AND 31)) w AND 1 \<noteq> 0) }
      else do {
        r \<leftarrow> lre_is_id_continue c;
        Some (r \<or> c = 0x200C \<or> c = 0x200D) })"

section \<open>Run lengths\<close>

text \<open>The reference: the whole table read from its start as a list of run lengths; code points of every
  second run have the property.\<close>

definition entry_runs :: "u8 list \<Rightarrow> (int list \<times> u8 list) option" where
  "entry_runs p =
     (case p of
        [] \<Rightarrow> None
      | byte # p \<Rightarrow>
          let b = uint byte in
          if b < 64 then Some ([b div 8 + 1, b mod 8 + 1], p)
          else if b \<ge> 128 then Some ([b - 127], p)
          else if b < 96 then (case p of p0 # p' \<Rightarrow> Some ([(b - 64) * 256 + uint p0 + 1], p') | _ \<Rightarrow> None)
          else (case p of p0 # p1 # p' \<Rightarrow> Some ([(b - 96) * 65536 + uint p0 * 256 + uint p1 + 1], p') | _ \<Rightarrow> None))"

lemma entry_runs_length: "entry_runs p = Some (ns, p') \<Longrightarrow> length p' < length p"
  by (auto simp: entry_runs_def Let_def split: list.splits if_splits)

function prop_runs :: "u8 list \<Rightarrow> int list option" where
  "prop_runs p =
     (if p = [] then Some []
      else case entry_runs p of
             None \<Rightarrow> None
           | Some (ns, p') \<Rightarrow> map_option ((@) ns) (prop_runs p'))"
  by pat_completeness auto
termination
  by (relation "measure length") (auto dest: entry_runs_length)

declare prop_runs.simps [simp del]

fun in_runs :: "int \<Rightarrow> int list \<Rightarrow> bool \<Rightarrow> bool" where
  "in_runs c [] on = False"
| "in_runs c (n # ns) on = (if c < n then on else in_runs (c - n) ns (\<not> on))"

text \<open>The code points of a property table.\<close>

definition prop_member :: "u8 list \<Rightarrow> u32 \<Rightarrow> bool" where
  "prop_member tab c = (case prop_runs tab of None \<Rightarrow> False | Some ns \<Rightarrow> in_runs (uint c) ns False)"

lemma uint_byte_lt: "uint (b :: u8) < 256"
  using uint_lt2p [of b] by simp

lemma uint_ucast_byte [simp]: "uint (ucast (b :: u8) :: u32) = uint b"
  using uint_byte_lt [of b] by (simp add: unsigned_ucast_eq take_bit_int_eq_self)

lemma long_run_entry:
  assumes "64 \<le> uint byte"
  shows "entry_runs (byte # p) = map_option (\<lambda>(n, p'). ([uint n], p')) (long_run (ucast byte) p)"
proof -
  define b where "b = (ucast byte :: u32)"
  have ub: "uint b = uint byte" by (simp add: b_def)
  have byte: "64 \<le> uint byte" "uint byte < 256" using assms uint_byte_lt by auto
  have cmp: "(0x80 \<le> b) = (128 \<le> uint byte)" "(b < 0x60) = (uint byte < 96)"
    by (auto simp: word_le_def word_less_def ub)
  have sub: "n \<le> uint byte \<Longrightarrow> 0 \<le> n \<Longrightarrow> uint (b - word_of_int n) = uint byte - n" for n
    using byte by (simp add: uint_word_ariths ub uint_word_of_int)
  show ?thesis
  proof (cases "uint byte < 96")
    case True
    have h: "uint (b - 0x40) = uint byte - 64" using sub [of 64] byte by simp
    have "uint ((push_bit 8 (b - 0x40) OR ucast p0) + 1) = (uint byte - 64) * 256 + uint p0 + 1" for p0 :: u8
      using uint_or_shift [of "b - 0x40" 8 "ucast p0"] h True byte uint_byte_lt [of p0] uint_Suc_lt [of "push_bit 8 (b - 0x40) OR ucast p0"]
      by simp
    then show ?thesis using True byte cmp
      by (auto simp: entry_runs_def long_run_def b_def Let_def split: list.splits)
  next
    case False
    show ?thesis
    proof (cases "128 \<le> uint byte")
      case True
      have "uint (b - 0x80 + 1) = uint byte - 127" using sub [of 128] True byte uint_Suc_lt [of "b - 0x80"] by simp
      then show ?thesis using True byte cmp by (auto simp: entry_runs_def long_run_def b_def Let_def)
    next
      case mid: False
      have h: "uint (b - 0x60) = uint byte - 96" using sub [of 96] False by simp
      have "uint ((push_bit 16 (b - 0x60) OR push_bit 8 (ucast p0) OR ucast p1) + 1) =
          (uint byte - 96) * 65536 + uint p0 * 256 + uint p1 + 1" for p0 p1 :: u8
      proof -
        have lo: "uint (push_bit 8 (ucast p0) OR ucast p1 :: u32) = uint p0 * 256 + uint p1"
          using uint_or_shift [of "ucast p0" 8 "ucast p1"] uint_byte_lt [of p0] uint_byte_lt [of p1]
          by simp
        show ?thesis
          using uint_or_shift [of "b - 0x60" 16 "push_bit 8 (ucast p0) OR ucast p1"] h lo mid False byte
            uint_byte_lt [of p0] uint_byte_lt [of p1] uint_Suc_lt [of "push_bit 16 (b - 0x60) OR push_bit 8 (ucast p0) OR ucast p1"]
          by (simp add: or.assoc)
      qed
      then show ?thesis using False mid byte cmp
        by (auto simp: entry_runs_def long_run_def b_def Let_def split: list.splits)
    qed
  qed
qed

lemma short_run_parts:
  "uint (drop_bit 3 (ucast (byte :: u8) :: u32)) = uint byte div 8" "uint (ucast (byte :: u8) AND 7 :: u32) = uint byte mod 8"
proof -
  have drop: "uint (drop_bit 3 (ucast byte :: u32)) = drop_bit 3 (take_bit 32 (uint (ucast byte :: u32)))"
    by (simp add: unsigned_drop_bit_eq)
  show "uint (drop_bit 3 (ucast byte :: u32)) = uint byte div 8"
    using drop uint_byte_lt [of byte]
    by (simp add: drop_bit_eq_div [of 3 "uint byte"] take_bit_int_eq_self)
  have "uint (ucast byte AND 7 :: u32) = uint byte AND 7" by (simp add: uint_and)
  then show "uint (ucast byte AND 7 :: u32) = uint byte mod 8"
    using take_bit_eq_mod [of 3 "uint byte"] by (simp add: take_bit_eq_mask mask_eq_exp_minus_1)
qed

lemma entry_runs_pos: "entry_runs p = Some (ns, p') \<Longrightarrow> n \<in> set ns \<Longrightarrow> 0 < n"
proof -
  assume "entry_runs p = Some (ns, p')" "n \<in> set ns"
  moreover have "0 \<le> uint (a :: u8) * k" if "0 \<le> k" for a k using that by simp
  ultimately show ?thesis
    by (auto simp: entry_runs_def Let_def pos_imp_zdiv_nonneg_iff split: list.splits if_splits)
      (smt (verit) uint_ge_0)+
qed

lemma prop_runs_step:
  "prop_runs (byte # p) = (case entry_runs (byte # p) of None \<Rightarrow> None
     | Some (ns, p') \<Rightarrow> map_option ((@) ns) (prop_runs p'))"
  by (subst prop_runs.simps) simp

lemma prop_runs_Nil [simp]: "prop_runs [] = Some []"
  by (simp add: prop_runs.simps)

lemma prop_runs_pos: "prop_runs p = Some ns \<Longrightarrow> n \<in> set ns \<Longrightarrow> 0 < n"
proof (induction p arbitrary: ns rule: prop_runs.induct)
  case (1 p)
  then show ?case
    by (subst (asm) (2) prop_runs.simps) (auto split: if_splits option.splits dest: entry_runs_pos)
qed

lemma sum_list_pos: "(\<And>n. n \<in> set ns \<Longrightarrow> 0 < n) \<Longrightarrow> 0 \<le> sum_list (ns :: int list)"
  by (induction ns) (auto intro: add_nonneg_nonneg less_imp_le)

lemma prop_runs_sum: "prop_runs p = Some ns \<Longrightarrow> 0 \<le> sum_list ns"
  using prop_runs_pos sum_list_pos by blast

text \<open>Walking the table from a run start computes membership in the runs from there.\<close>

lemma table_walk_runs:
  assumes "prop_runs p = Some ns" "uint code + sum_list ns < 2 ^ 32" "uint code \<le> uint c" "uint c < uint code + sum_list ns"
  shows "table_walk c p code on = Some (in_runs (uint c - uint code) ns on)"
  using assms
proof (induction c p code on arbitrary: ns rule: table_walk.induct)
  case (1 c code on)
  then show ?case by simp
next
  case (2 c byte p code on)
  obtain es p' ns' where e: "entry_runs (byte # p) = Some (es, p')" "prop_runs p' = Some ns'" "ns = es @ ns'"
    using "2.prems"(1) by (auto simp: prop_runs_step split: option.splits)
  have ns': "0 \<le> sum_list ns'" by (rule prop_runs_sum [OF e(2)])
  have sum: "uint code + sum_list es + sum_list ns' < 2 ^ 32" "uint c < uint code + sum_list es + sum_list ns'"
    using "2.prems"(2,4) e(3) by simp_all
  show ?case
  proof (cases "uint byte < 64")
    case True
    have es: "es = [uint byte div 8 + 1, uint byte mod 8 + 1]" "p' = p" using e(1) True by (auto simp: entry_runs_def Let_def)
    have b64: "(ucast byte :: u32) < 64" using True by (simp add: word_less_def)
    have nn: "0 \<le> uint byte div 8" "0 \<le> uint byte mod 8" by (simp_all add: pos_imp_zdiv_nonneg_iff)
    let ?c1 = "code + drop_bit 3 (ucast byte) + 1" and ?c2 = "code + drop_bit 3 (ucast byte) + 1 + (ucast byte AND 7) + 1"
    have a1: "uint (code + drop_bit 3 (ucast byte)) = uint code + uint byte div 8"
      using uint_add_lt [of code "drop_bit 3 (ucast byte)"] sum(1) ns' nn by (simp add: short_run_parts es)
    have c1: "uint ?c1 = uint code + uint byte div 8 + 1"
      using uint_Suc_lt [of "code + drop_bit 3 (ucast byte)"] a1 sum(1) ns' nn by (simp add: es)
    have a2: "uint (?c1 + (ucast byte AND 7)) = uint code + uint byte div 8 + 1 + uint byte mod 8"
      using uint_add_lt [of ?c1 "ucast byte AND 7"] c1 sum(1) ns' nn by (simp add: short_run_parts es)
    have c2: "uint ?c2 = uint code + uint byte div 8 + 1 + uint byte mod 8 + 1"
      using uint_Suc_lt [of "?c1 + (ucast byte AND 7)"] a2 sum(1) ns' nn by (simp add: es)
    have IH: "table_walk c p ?c2 on = Some (in_runs (uint c - uint ?c2) ns' on)" if "\<not> c < ?c1" "\<not> c < ?c2"
      using "2.IH"(1) [OF refl b64 refl that(1) refl that(2), of ns'] that e(2) es(2) c2 sum es(1)
      by (simp add: word_less_def not_less)
    show ?thesis
      using b64 IH c1 c2 nn unfolding e(3) es(1)
      by (subst table_walk.simps) (auto simp: Let_def word_less_def algebra_simps)
  next
    case False
    have b64: "\<not> (ucast byte :: u32) < 64" using False by (simp add: word_less_def)
    obtain n where n: "long_run (ucast byte) p = Some (n, p')" "es = [uint n]"
      using long_run_entry [of byte p] e(1) False by (cases "long_run (ucast byte) p") auto
    have c1: "uint (code + n) = uint code + uint n" using uint_add_lt [of code n] sum(1) ns' n(2) by simp
    have IH: "table_walk c p' (code + n) (\<not> on) = Some (in_runs (uint c - uint (code + n)) ns' (\<not> on))" if "\<not> c < code + n"
      using "2.IH"(2) [OF refl b64, of "(n, p')" n p' "code + n" ns'] that n(1) e(2) c1 sum n(2)
      by (simp add: word_less_def not_less)
    show ?thesis
      using b64 IH c1 n(1) "2.prems"(3) unfolding e(3) n(2)
      by (subst table_walk.simps) (auto simp: Let_def word_less_def algebra_simps)
  qed
qed

lemma in_runs_skip:
  assumes "\<And>n. n \<in> set r1 \<Longrightarrow> 0 < n" "sum_list r1 \<le> c"
  shows "in_runs c (r1 @ r2) on = in_runs (c - sum_list r1) r2 (on \<noteq> odd (length r1))"
  using assms
proof (induction r1 arbitrary: c on)
  case (Cons n r1)
  have "0 \<le> sum_list r1" using Cons.prems(1) by (intro sum_list_pos) auto
  then show ?case using Cons.IH [of "c - n" "\<not> on"] Cons.prems by (auto simp: algebra_simps)
qed simp

lemma in_runs_beyond:
  assumes "\<And>n. n \<in> set ns \<Longrightarrow> 0 < n" "sum_list ns \<le> c"
  shows "\<not> in_runs c ns on"
  using in_runs_skip [OF assms, of "[]" on] by simp

lemma entry_runs_append: "entry_runs p = Some (ns, p') \<Longrightarrow> entry_runs (p @ q) = Some (ns, p' @ q)"
  by (auto simp: entry_runs_def Let_def split: list.splits if_splits)

lemma prop_runs_append: "prop_runs p = Some r \<Longrightarrow> prop_runs (p @ q) = map_option ((@) r) (prop_runs q)"
proof (induction p arbitrary: r rule: prop_runs.induct)
  case (1 p)
  show ?case
  proof (cases p)
    case Nil
    then show ?thesis using "1.prems" by (cases "prop_runs q") auto
  next
    case (Cons b bs)
    obtain es p' r' where e: "entry_runs p = Some (es, p')" "prop_runs p' = Some r'" "r = es @ r'"
      using "1.prems" Cons by (auto simp: prop_runs_step split: option.splits)
    have IH: "prop_runs (p' @ q) = map_option ((@) r') (prop_runs q)"
      using "1.IH" [OF _ e(1) refl e(2)] Cons by simp
    show ?thesis using entry_runs_append [OF e(1), of q] IH e(3) Cons
      by (cases "prop_runs q") (simp_all add: prop_runs_step)
  qed
qed

section \<open>The index\<close>

text \<open>An executable check that every entry of an index is the start of a run of code points without
  the property.\<close>

definition entry_size :: "u8 list \<Rightarrow> int" where
  "entry_size p = (case p of [] \<Rightarrow> 0 | byte # _ \<Rightarrow>
     let b = uint byte in if b < 64 \<or> b \<ge> 128 then 1 else if b < 96 then 2 else 3)"

lemma entry_size_length: "entry_runs p = Some (ns, p') \<Longrightarrow> \<exists>q. p = q @ p' \<and> int (length q) = entry_size p \<and> entry_runs q = Some (ns, [])"
proof -
  assume e: "entry_runs p = Some (ns, p')"
  then obtain q where q: "p = q @ p'" "int (length q) = entry_size p"
    by (auto simp: entry_runs_def entry_size_def Let_def split: list.splits if_splits
        intro: that [of "[_]"] that [of "[_, _]"] that [of "[_, _, _]"])
  with e have "entry_runs q = Some (ns, [])"
    by (auto simp: entry_runs_def entry_size_def Let_def split: list.splits if_splits)
  with q show ?thesis by blast
qed

definition next_entries :: "int \<Rightarrow> int \<Rightarrow> bool \<Rightarrow> (int \<times> int) list \<Rightarrow> (int \<times> int) list" where
  "next_entries off code on es =
     (case es of [] \<Rightarrow> [] | (e_off, e_code) # r \<Rightarrow> if e_off = off \<and> e_code = code \<and> \<not> on then r else es)"

lemma next_entries_set: "e \<in> set es \<Longrightarrow> e \<in> set (next_entries off code on es) \<or> e = (off, code) \<and> \<not> on"
  by (cases es) (auto simp: next_entries_def)

type_synonym scan_state = "int \<times> int \<times> bool \<times> (int \<times> int) list"

fun scan_index :: "int \<Rightarrow> int \<Rightarrow> bool \<Rightarrow> int list \<Rightarrow> (int \<times> int) list \<Rightarrow> scan_state option" where
  "scan_index off code on [] es = Some (off, code, on, es)"
| "scan_index off code on (b # p) es =
     (let es = next_entries off code on es in
      if b < 64 then scan_index (off + 1) (code + (b div 8 + 1 + (b mod 8 + 1))) on p es
      else if b \<ge> 128 then scan_index (off + 1) (code + (b - 127)) (\<not> on) p es
      else if b < 96 then
        (case p of p0 # p' \<Rightarrow> scan_index (off + 2) (code + ((b - 64) * 256 + p0 + 1)) (\<not> on) p' es | _ \<Rightarrow> None)
      else
        (case p of p0 # p1 # p' \<Rightarrow> scan_index (off + 3) (code + ((b - 96) * 65536 + p0 * 256 + p1 + 1)) (\<not> on) p' es
         | _ \<Rightarrow> None))"

text \<open>The tables are written as a concatenation of rows that end with an entry, so that they can be
  scanned row by row.\<close>

lemma scan_index_append:
  "scan_index off code on xs es = Some (off', code', on', es') \<Longrightarrow>
     scan_index off code on (xs @ ys) es = scan_index off' code' on' ys es'"
proof (induction off code on xs es rule: scan_index.induct)
  case (2 off code on b p es)
  then show ?case by (auto simp: Let_def split: if_splits list.splits)
qed simp

fun scan_rows :: "u8 list list \<Rightarrow> scan_state \<Rightarrow> scan_state option" where
  "scan_rows [] st = Some st"
| "scan_rows (r # rs) (off, code, on, es) = do { st \<leftarrow> scan_index off code on (map uint r) es; scan_rows rs st }"

lemma scan_rows_concat:
  "scan_rows rows (off, code, on, es) = Some st \<Longrightarrow> scan_index off code on (map uint (concat rows)) es = Some st"
proof (induction rows arbitrary: off code on es)
  case (Cons r rs)
  then obtain off' code' on' es' where
    "scan_index off code on (map uint r) es = Some (off', code', on', es')" "scan_rows rs (off', code', on', es') = Some st"
    by (auto split: bind_splits)
  then show ?case using Cons.IH scan_index_append by simp
qed simp

lemma scan_index_step:
  "scan_index off code on (map uint (byte # p)) es =
     (case entry_runs (byte # p) of
        None \<Rightarrow> None
      | Some (ns, p') \<Rightarrow> scan_index (off + entry_size (byte # p)) (code + sum_list ns) (on \<noteq> odd (length ns)) (map uint p')
          (next_entries off code on es))"
  by (auto simp: entry_runs_def entry_size_def Let_def split: list.splits)

definition run_start :: "int \<Rightarrow> int \<Rightarrow> bool \<Rightarrow> u8 list \<Rightarrow> int \<times> int \<Rightarrow> bool" where
  "run_start off code on p e \<longleftrightarrow> (\<exists>p1 p2 r. p = p1 @ p2 \<and> off + int (length p1) = fst e \<and>
     prop_runs p1 = Some r \<and> code + sum_list r = snd e \<and> on = odd (length r))"

lemma run_start_step:
  assumes "entry_runs p = Some (ns, p')" "run_start (off + entry_size p) (code + sum_list ns) (on \<noteq> odd (length ns)) p' e"
  shows "run_start off code on p e"
proof -
  obtain q where q: "p = q @ p'" "int (length q) = entry_size p" "entry_runs q = Some (ns, [])"
    using entry_size_length [OF assms(1)] by blast
  obtain p1 p2 r where r: "p' = p1 @ p2" "off + entry_size p + int (length p1) = fst e"
    "prop_runs p1 = Some r" "code + sum_list ns + sum_list r = snd e" "(on \<noteq> odd (length ns)) = odd (length r)"
    using assms(2) by (auto simp: run_start_def)
  have "prop_runs q = Some ns" using q(3) by (subst prop_runs.simps) (auto simp: entry_runs_def)
  then have "prop_runs (q @ p1) = Some (ns @ r)" using prop_runs_append r(3) by simp
  then show ?thesis unfolding run_start_def
    by (intro exI [of _ "q @ p1"] exI [of _ p2] exI [of _ "ns @ r"]) (use q r in \<open>auto simp: algebra_simps\<close>)
qed

lemma scan_index_sound:
  assumes "scan_index off code on (map uint p) es = Some (off', t, on', [])"
  shows "(\<forall>e \<in> set es. run_start off code on p e) \<and> (\<exists>ns. prop_runs p = Some ns \<and> code + sum_list ns = t)"
  using assms
proof (induction p arbitrary: off code on es rule: length_induct)
  case (1 p)
  show ?case
  proof (cases p)
    case Nil
    then show ?thesis using "1.prems" by simp
  next
    case (Cons byte q)
    then obtain ns p' where e: "entry_runs p = Some (ns, p')"
      and sc: "scan_index (off + entry_size p) (code + sum_list ns) (on \<noteq> odd (length ns)) (map uint p') (next_entries off code on es) = Some (off', t, on', [])"
      using "1.prems" scan_index_step [of off code on byte q es] by (auto split: option.splits simp del: scan_index.simps)
    have IH: "\<forall>e \<in> set (next_entries off code on es). run_start off code on p e"
      "\<exists>r. prop_runs p' = Some r \<and> code + sum_list ns + sum_list r = t"
      using "1.IH" entry_runs_length [OF e] sc run_start_step [OF e] by blast+
    have here: "run_start off code on p (off, code)" if "\<not> on"
      using that by (auto simp: run_start_def intro!: exI [of _ "[]"] exI [of _ p])
    have "\<forall>e \<in> set es. run_start off code on p e"
      using IH(1) here next_entries_set [of _ es off code on] by blast
    moreover have "\<exists>r. prop_runs p = Some r \<and> code + sum_list r = t"
      using IH(2) e Cons by (auto simp: prop_runs_step)
    ultimately show ?thesis by blast
  qed
qed

lemma get_le24_fits: "p + 3 \<le> length tab \<Longrightarrow> \<exists>v. get_le24 tab p = Some v"
  by (simp add: get_le24_def rd_def)

definition index_entry :: "u8 list \<Rightarrow> nat \<Rightarrow> int \<times> int" where
  "index_entry tab i =
     (case get_le24 tab (i * 3) of
        None \<Rightarrow> (-1, -1)
      | Some v \<Rightarrow> ((int i + 1) * 32 + uint (drop_bit 21 v), uint (index_code v)))"

definition index_ok :: "u8 list \<Rightarrow> u8 list \<Rightarrow> nat \<Rightarrow> bool" where
  "index_ok tab ix n \<longleftrightarrow> 2 \<le> n \<and> n * 3 \<le> length ix \<and>
     (\<exists>off t on. scan_index 0 0 False (map uint tab) (map (index_entry ix) [0..<n - 1]) = Some (off, t, on, []) \<and>
        map_option uint (get_le24 ix ((n - 1) * 3)) = Some t)"

text \<open>The executable form, on the rows of the table and with the entries of the index given.\<close>

definition index_check :: "u8 list list \<Rightarrow> u8 list \<Rightarrow> nat \<Rightarrow> bool" where
  "index_check rows ix n \<longleftrightarrow> 2 \<le> n \<and> n * 3 \<le> length ix \<and>
     (case scan_rows rows (0, 0, False, map (index_entry ix) [0..<n - 1]) of
        Some (_, t, _, es) \<Rightarrow> es = [] \<and> map_option uint (get_le24 ix ((n - 1) * 3)) = Some t
      | None \<Rightarrow> False)"

lemma index_checkD: "index_check rows ix n \<Longrightarrow> index_ok (concat rows) ix n"
  unfolding index_check_def index_ok_def
  by (auto dest!: scan_rows_concat split: option.splits)

lemma index_okD:
  assumes "index_ok tab ix n"
  obtains ns v where "2 \<le> n" "n * 3 \<le> length ix" "get_le24 ix ((n - 1) * 3) = Some v" "prop_runs tab = Some ns" "sum_list ns = uint v"
    "\<forall>e \<in> set (map (index_entry ix) [0..<n - 1]). run_start 0 0 False tab e"
proof -
  obtain off t on v where n: "2 \<le> n" "n * 3 \<le> length ix" and v: "get_le24 ix ((n - 1) * 3) = Some v" "t = uint v"
    and sc: "scan_index 0 0 False (map uint tab) (map (index_entry ix) [0..<n - 1]) = Some (off, t, on, [])"
    using assms unfolding index_ok_def by auto
  from scan_index_sound [OF sc] that n v show ?thesis by auto
qed

lemma index_search_ok:
  assumes "n * 3 \<le> length ix" "lo \<le> hi" "hi < n" "get_le24 ix (lo * 3) = Some v" "index_code v \<le> c"
  shows "\<exists>i w. index_search c ix lo hi = Some i \<and> i \<le> max lo (hi - 1) \<and> get_le24 ix (i * 3) = Some w \<and> index_code w \<le> c"
  using assms
proof (induction c ix lo hi arbitrary: v rule: index_search.induct)
  case (1 c ix lo hi)
  show ?case
  proof (cases "hi - lo > 1")
    case False
    then show ?thesis using "1.prems" by (subst index_search.simps) auto
  next
    case True
    define idx where "idx = (hi + lo) div 2"
    have idx: "lo < idx" "idx < hi" using True unfolding idx_def by auto
    have "idx * 3 + 3 \<le> length ix" using idx(2) "1.prems"(1,3) by simp
    then obtain w where w: "get_le24 ix (idx * 3) = Some w" using get_le24_fits by blast
    show ?thesis
    proof (cases "c < index_code w")
      case lt: True
      have "\<exists>i w. index_search c ix lo idx = Some i \<and> i \<le> max lo (idx - 1) \<and> get_le24 ix (i * 3) = Some w \<and> index_code w \<le> c"
        using "1.IH"(1) [OF True idx_def w lt] "1.prems" idx by simp
      then show ?thesis using True w lt idx by (subst index_search.simps) (auto simp: idx_def [symmetric])
    next
      case ge: False
      have "\<exists>i w. index_search c ix idx hi = Some i \<and> i \<le> max idx (hi - 1) \<and> get_le24 ix (i * 3) = Some w \<and> index_code w \<le> c"
        using "1.IH"(2) [OF True idx_def w ge, of w] "1.prems" idx w ge by simp
      then show ?thesis using True w ge idx by (subst index_search.simps) (auto simp: idx_def [symmetric])
    qed
  qed
qed

text \<open>With a checked index, the lookup agrees with reading the whole table.\<close>

lemma walk_from_start:
  assumes "prop_runs tab = Some ns" "run_start 0 0 False tab (int pos, uint code)" "code \<le> c"
    "uint c < sum_list ns" "sum_list ns < 2 ^ 32"
  shows "pos \<le> length tab \<and> table_walk c (drop pos tab) code False = Some (in_runs (uint c) ns False)"
proof -
  obtain p1 p2 r where r: "tab = p1 @ p2" "length p1 = pos" "prop_runs p1 = Some r" "sum_list r = uint code" "even (length r)"
    using assms(2) by (auto simp: run_start_def)
  obtain r2 where r2: "prop_runs p2 = Some r2" "ns = r @ r2"
    using prop_runs_append [OF r(3), of p2] assms(1) r(1) by (cases "prop_runs p2") auto
  have "table_walk c p2 code False = Some (in_runs (uint c - uint code) r2 False)"
    using table_walk_runs [OF r2(1), of code c False] assms(3-5) r(4) r2(2) by (simp add: word_le_def)
  also have "in_runs (uint c - uint code) r2 False = in_runs (uint c) ns False"
    using in_runs_skip [of r "uint c" r2 False] prop_runs_pos [OF r(3)] assms(3) r(4,5) r2(2) by (simp add: word_le_def)
  finally show ?thesis using r(1,2) by simp
qed

lemma index_ok_start:
  assumes "index_ok tab ix n" "i < n - 1" "get_le24 ix (i * 3) = Some v"
  shows "run_start 0 0 False tab (int ((i + 1) * 32 + unat (drop_bit 21 v)), uint (index_code v))"
proof -
  have "\<forall>e \<in> set (map (index_entry ix) [0..<n - 1]). run_start 0 0 False tab e" by (rule index_okD [OF assms(1)])
  moreover have "index_entry ix i \<in> set (map (index_entry ix) [0..<n - 1])" using assms(2) by simp
  ultimately have "run_start 0 0 False tab (index_entry ix i)" by (rule bspec)
  then show ?thesis using assms(3) by (simp add: index_entry_def algebra_simps)
qed

lemma lre_is_in_table_runs:
  assumes "index_ok tab ix n"
  shows "lre_is_in_table c tab ix n = Some (prop_member tab c)"
proof -
  obtain ns v where n: "2 \<le> n" "n * 3 \<le> length ix" and ns: "prop_runs tab = Some ns"
      and v: "get_le24 ix ((n - 1) * 3) = Some v" "sum_list ns = uint v"
    using index_okD [OF assms] by metis
  have lt: "sum_list ns < 2 ^ 32" using v(2) uint_lt2p [of v] by simp
  obtain v0 where v0: "get_le24 ix 0 = Some v0" using get_le24_fits [of 0 ix] n by auto
  have mem: "prop_member tab c = in_runs (uint c) ns False" by (simp add: prop_member_def ns)
  show ?thesis
  proof (cases "c < index_code v0")
    case True
    have "run_start 0 0 False tab (int (32 + unat (drop_bit 21 v0)), uint (index_code v0))"
      using index_ok_start [OF assms, of 0 v0] n v0 by simp
    then obtain p1 p2 r where r: "tab = p1 @ p2" "prop_runs p1 = Some r" "sum_list r = uint (index_code v0)"
      by (auto simp: run_start_def)
    obtain r2 where "prop_runs p2 = Some r2" "ns = r @ r2"
      using prop_runs_append [OF r(2), of p2] ns r(1) by (cases "prop_runs p2") auto
    then have "uint (index_code v0) \<le> sum_list ns" using prop_runs_sum r(3) by fastforce
    moreover have "uint c < uint (index_code v0)" using True by (simp add: word_less_def)
    moreover have "run_start 0 0 False tab (int 0, uint (0 :: u32))"
      by (auto simp: run_start_def intro!: exI [of _ "[]"] exI [of _ tab])
    ultimately show ?thesis
      using walk_from_start [OF ns, of 0 0 c] lt v0 True mem by (simp add: lre_is_in_table_def get_index_pos_def)
  next
    case False
    show ?thesis
    proof (cases "c \<ge> v")
      case True
      then have "\<not> in_runs (uint c) ns False"
        using in_runs_beyond [of ns "uint c" False] prop_runs_pos [OF ns] v(2) by (simp add: word_le_def)
      with True False v0 v(1) mem show ?thesis by (simp add: lre_is_in_table_def get_index_pos_def)
    next
      case lt_v: False
      obtain i w where i: "index_search c ix 0 (n - 1) = Some i" "i \<le> max 0 (n - 1 - 1)" "get_le24 ix (i * 3) = Some w" "index_code w \<le> c"
        using index_search_ok [OF n(2), of 0 "n - 1" v0 c] n v0 False by (auto simp: not_less)
      have "run_start 0 0 False tab (int ((i + 1) * 32 + unat (drop_bit 21 w)), uint (index_code w))"
        using index_ok_start [OF assms _ i(3)] i(2) n by simp
      from walk_from_start [OF ns this i(4) _ lt]
      show ?thesis using i lt_v False v0 v mem
        by (simp add: lre_is_in_table_def get_index_pos_def UNICODE_INDEX_BLOCK_LEN_def word_le_def not_le)
    qed
  qed
qed

lemma Cased1_index_ok:
  "index_ok unicode_prop_Cased1_table unicode_prop_Cased1_index (length unicode_prop_Cased1_index div 3)"
  unfolding unicode_prop_Cased1_table_def by (rule index_checkD) code_simp

lemma Case_Ignorable_index_ok:
  "index_ok unicode_prop_Case_Ignorable_table unicode_prop_Case_Ignorable_index (length unicode_prop_Case_Ignorable_index div 3)"
  unfolding unicode_prop_Case_Ignorable_table_def by (rule index_checkD) code_simp

lemma ID_Start_index_ok:
  "index_ok unicode_prop_ID_Start_table unicode_prop_ID_Start_index (length unicode_prop_ID_Start_index div 3)"
  unfolding unicode_prop_ID_Start_table_def by (rule index_checkD) code_simp

lemma ID_Continue1_index_ok:
  "index_ok unicode_prop_ID_Continue1_table unicode_prop_ID_Continue1_index (length unicode_prop_ID_Continue1_index div 3)"
  unfolding unicode_prop_ID_Continue1_table_def by (rule index_checkD) code_simp

lemma ascii_tables:
  "list_all (\<lambda>c. lre_js_is_ident_first c =
      Some (c = 0x24 \<or> c = 0x5f \<or> (0x41 \<le> c \<and> c \<le> 0x5a) \<or> (0x61 \<le> c \<and> c \<le> 0x7a)) \<and>
     lre_js_is_ident_next c =
      Some (c = 0x24 \<or> c = 0x5f \<or> (0x30 \<le> c \<and> c \<le> 0x39) \<or> (0x41 \<le> c \<and> c \<le> 0x5a) \<or> (0x61 \<le> c \<and> c \<le> 0x7a)))
     (map word_of_int [0..127])"
  by code_simp

lemma ascii_word: "(c :: u32) < 128 \<Longrightarrow> c \<in> set (map word_of_int [0..127])"
proof -
  assume "c < 128"
  then have "uint c \<in> set [0..127]" by (simp add: word_less_def)
  then show ?thesis by (metis image_eqI set_map word_of_int_uint)
qed

lemma ident_total: "\<exists>b. lre_js_is_ident_first c = Some b" "\<exists>b. lre_js_is_ident_next c = Some b"
proof -
  have "\<exists>b. lre_is_id_start c = Some b" "\<exists>b. lre_is_id_continue c = Some b"
    using lre_is_in_table_runs [OF ID_Start_index_ok] lre_is_in_table_runs [OF ID_Continue1_index_ok]
    by (auto simp: lre_is_id_start_def lre_is_id_continue_def)
  then show "\<exists>b. lre_js_is_ident_first c = Some b" "\<exists>b. lre_js_is_ident_next c = Some b"
    using ascii_tables ascii_word [of c]
    by (cases "c < 128"; force simp: list_all_iff lre_js_is_ident_first_def lre_js_is_ident_next_def)+
qed

section \<open>Lengths of several bytes\<close>

text \<open>A byte that extends a length by one or two bytes, as a number.\<close>

lemma uint_sub_const: "uint (k :: u32) \<le> uint b \<Longrightarrow> uint (b - k) = uint b - uint k"
  by (simp add: uint_sub_lem)

lemma uint_two_bytes:
  assumes "uint (h :: u32) < 256" "uint (k :: u32) < 65536"
  shows "uint ((push_bit 8 h OR ucast (p0 :: u8)) + k) = uint h * 256 + uint p0 + uint k"
proof -
  have "uint (push_bit 8 h OR ucast p0) = uint h * 256 + uint p0"
    using uint_or_shift [of h 8 "ucast p0"] assms(1) uint_byte_lt [of p0] by simp
  then show ?thesis using uint_add_lt [of "push_bit 8 h OR ucast p0" k] assms uint_byte_lt [of p0] by simp
qed

lemma uint_three_bytes:
  assumes "uint (h :: u32) < 256" "uint (k :: u32) < 65536"
  shows "uint ((push_bit 16 h OR push_bit 8 (ucast (p0 :: u8)) OR ucast (p1 :: u8)) + k) =
    uint h * 65536 + uint p0 * 256 + uint p1 + uint k"
proof -
  have lo: "uint (push_bit 8 (ucast p0) OR ucast p1 :: u32) = uint p0 * 256 + uint p1"
    using uint_or_shift [of "ucast p0" 8 "ucast p1"] uint_byte_lt [of p0] uint_byte_lt [of p1] by simp
  have "uint (push_bit 16 h OR push_bit 8 (ucast p0) OR ucast p1 :: u32) = uint h * 65536 + uint p0 * 256 + uint p1"
    using uint_or_shift [of h 16 "push_bit 8 (ucast p0) OR ucast p1"] lo assms(1) uint_byte_lt [of p0] uint_byte_lt [of p1]
    by (simp add: or.assoc)
  then show ?thesis
    using uint_add_lt [of "push_bit 16 h OR push_bit 8 (ucast p0) OR ucast p1" k] assms uint_byte_lt [of p0] uint_byte_lt [of p1]
    by simp
qed

lemma uint_drop_bit_byte: "uint (drop_bit k (ucast (b :: u8) :: u32)) = uint b div 2 ^ k"
proof -
  have "uint (drop_bit k (ucast b :: u32)) = drop_bit k (take_bit 32 (uint (ucast b :: u32)))"
    by (simp add: unsigned_drop_bit_eq)
  then show ?thesis using uint_byte_lt [of b] by (simp add: drop_bit_eq_div take_bit_int_eq_self)
qed

section \<open>Properties\<close>

text \<open>C12: The indexed lookups decide exactly the properties their tables encode: for every 32-bit code
  point, \<open>lre_is_cased\<close>, \<open>lre_is_case_ignorable\<close>, \<open>lre_is_id_start\<close> and \<open>lre_is_id_continue\<close> stay inside the tables
  and answer whether the code point lies in a run that has the property when the whole table is
  read from its start, without the index; cased are also the code points that the case conversion
  table covers.\<close>

theorem indexed_lookup_equivalent:
  "lre_is_cased c = Some (if find_run c = None then prop_member unicode_prop_Cased1_table c else True) \<and>
   lre_is_case_ignorable c = Some (prop_member unicode_prop_Case_Ignorable_table c) \<and>
   lre_is_id_start c = Some (prop_member unicode_prop_ID_Start_table c) \<and>
   lre_is_id_continue c =
     Some (prop_member unicode_prop_ID_Start_table c \<or> prop_member unicode_prop_ID_Continue1_table c)"
  using lre_is_in_table_runs [OF Cased1_index_ok] lre_is_in_table_runs [OF Case_Ignorable_index_ok] lre_is_in_table_runs [OF ID_Start_index_ok]
    lre_is_in_table_runs [OF ID_Continue1_index_ok]
  by (simp add: lre_is_cased_def case_conv_search_find lre_is_case_ignorable_def lre_is_id_start_def lre_is_id_continue_def)

end
