(* ===== verification/Unicode_Prop.thy ===== *)
theory Unicode_Prop
  imports Unicode_Lookup Char_Range
begin

text \<open>
  Character ranges for Unicode properties, from \<^verbatim>\<open>src/qjs/libunicode.c\<close>: the search in the tables of
  names, the ranges of scripts, general categories, binary properties and case changes, and the
  small stack machine \<open>unicode_prop_ops\<close> that combines them. The results of the C functions are 0,
  -1 for an allocation failure and -2 for an unknown name. A pointer into a table is the rest of the
  table; a read behind its end or a failing assertion is \<open>None\<close>.
\<close>

section \<open>Constants\<close>

definition UNICODE_GC_Cn :: nat where "UNICODE_GC_Cn = 0"
definition UNICODE_GC_Lu :: nat where "UNICODE_GC_Lu = 1"
definition UNICODE_GC_Ll :: nat where "UNICODE_GC_Ll = 2"
definition UNICODE_GC_Lt :: nat where "UNICODE_GC_Lt = 3"
definition UNICODE_GC_Lm :: nat where "UNICODE_GC_Lm = 4"
definition UNICODE_GC_Lo :: nat where "UNICODE_GC_Lo = 5"
definition UNICODE_GC_Mn :: nat where "UNICODE_GC_Mn = 6"
definition UNICODE_GC_Mc :: nat where "UNICODE_GC_Mc = 7"
definition UNICODE_GC_Me :: nat where "UNICODE_GC_Me = 8"
definition UNICODE_GC_Nd :: nat where "UNICODE_GC_Nd = 9"
definition UNICODE_GC_Nl :: nat where "UNICODE_GC_Nl = 10"
definition UNICODE_GC_No :: nat where "UNICODE_GC_No = 11"
definition UNICODE_GC_Sm :: nat where "UNICODE_GC_Sm = 12"
definition UNICODE_GC_Sc :: nat where "UNICODE_GC_Sc = 13"
definition UNICODE_GC_Sk :: nat where "UNICODE_GC_Sk = 14"
definition UNICODE_GC_So :: nat where "UNICODE_GC_So = 15"
definition UNICODE_GC_Pc :: nat where "UNICODE_GC_Pc = 16"
definition UNICODE_GC_Pd :: nat where "UNICODE_GC_Pd = 17"
definition UNICODE_GC_Ps :: nat where "UNICODE_GC_Ps = 18"
definition UNICODE_GC_Pe :: nat where "UNICODE_GC_Pe = 19"
definition UNICODE_GC_Pi :: nat where "UNICODE_GC_Pi = 20"
definition UNICODE_GC_Pf :: nat where "UNICODE_GC_Pf = 21"
definition UNICODE_GC_Po :: nat where "UNICODE_GC_Po = 22"
definition UNICODE_GC_Zs :: nat where "UNICODE_GC_Zs = 23"
definition UNICODE_GC_Zl :: nat where "UNICODE_GC_Zl = 24"
definition UNICODE_GC_Zp :: nat where "UNICODE_GC_Zp = 25"
definition UNICODE_GC_Cc :: nat where "UNICODE_GC_Cc = 26"
definition UNICODE_GC_Cf :: nat where "UNICODE_GC_Cf = 27"
definition UNICODE_GC_Cs :: nat where "UNICODE_GC_Cs = 28"
definition UNICODE_GC_Co :: nat where "UNICODE_GC_Co = 29"
definition UNICODE_GC_LC :: nat where "UNICODE_GC_LC = 30"
definition UNICODE_GC_L :: nat where "UNICODE_GC_L = 31"
definition UNICODE_GC_M :: nat where "UNICODE_GC_M = 32"
definition UNICODE_GC_N :: nat where "UNICODE_GC_N = 33"
definition UNICODE_GC_S :: nat where "UNICODE_GC_S = 34"
definition UNICODE_GC_P :: nat where "UNICODE_GC_P = 35"
definition UNICODE_GC_Z :: nat where "UNICODE_GC_Z = 36"
definition UNICODE_GC_C :: nat where "UNICODE_GC_C = 37"

definition UNICODE_SCRIPT_Unknown :: nat where "UNICODE_SCRIPT_Unknown = 0"
definition UNICODE_SCRIPT_Common :: nat where "UNICODE_SCRIPT_Common = 25"
definition UNICODE_SCRIPT_Inherited :: nat where "UNICODE_SCRIPT_Inherited = 55"

definition UNICODE_PROP_Other_Math :: nat where "UNICODE_PROP_Other_Math = 1"
definition UNICODE_PROP_Other_Alphabetic :: nat where "UNICODE_PROP_Other_Alphabetic = 2"
definition UNICODE_PROP_Other_Lowercase :: nat where "UNICODE_PROP_Other_Lowercase = 3"
definition UNICODE_PROP_Other_Uppercase :: nat where "UNICODE_PROP_Other_Uppercase = 4"
definition UNICODE_PROP_Other_Grapheme_Extend :: nat where "UNICODE_PROP_Other_Grapheme_Extend = 5"
definition UNICODE_PROP_Other_ID_Start :: nat where "UNICODE_PROP_Other_ID_Start = 7"
definition UNICODE_PROP_Other_ID_Continue :: nat where "UNICODE_PROP_Other_ID_Continue = 8"
definition UNICODE_PROP_ID_Continue1 :: nat where "UNICODE_PROP_ID_Continue1 = 10"
definition UNICODE_PROP_XID_Start1 :: nat where "UNICODE_PROP_XID_Start1 = 11"
definition UNICODE_PROP_XID_Continue1 :: nat where "UNICODE_PROP_XID_Continue1 = 12"
definition UNICODE_PROP_Changes_When_Titlecased1 :: nat where "UNICODE_PROP_Changes_When_Titlecased1 = 13"
definition UNICODE_PROP_Changes_When_Casefolded1 :: nat where "UNICODE_PROP_Changes_When_Casefolded1 = 14"
definition UNICODE_PROP_Changes_When_NFKC_Casefolded1 :: nat where "UNICODE_PROP_Changes_When_NFKC_Casefolded1 = 15"
definition UNICODE_PROP_ASCII_Hex_Digit :: nat where "UNICODE_PROP_ASCII_Hex_Digit = 16"
definition UNICODE_PROP_Pattern_Syntax :: nat where "UNICODE_PROP_Pattern_Syntax = 29"
definition UNICODE_PROP_Pattern_White_Space :: nat where "UNICODE_PROP_Pattern_White_Space = 30"
definition UNICODE_PROP_ID_Start :: nat where "UNICODE_PROP_ID_Start = 48"
definition UNICODE_PROP_ASCII :: nat where "UNICODE_PROP_ASCII = 50"
definition UNICODE_PROP_Alphabetic :: nat where "UNICODE_PROP_Alphabetic = 51"
definition UNICODE_PROP_Any :: nat where "UNICODE_PROP_Any = 52"
definition UNICODE_PROP_Assigned :: nat where "UNICODE_PROP_Assigned = 53"
definition UNICODE_PROP_Cased :: nat where "UNICODE_PROP_Cased = 54"
definition UNICODE_PROP_Changes_When_Casefolded :: nat where "UNICODE_PROP_Changes_When_Casefolded = 55"
definition UNICODE_PROP_Changes_When_Casemapped :: nat where "UNICODE_PROP_Changes_When_Casemapped = 56"
definition UNICODE_PROP_Changes_When_Lowercased :: nat where "UNICODE_PROP_Changes_When_Lowercased = 57"
definition UNICODE_PROP_Changes_When_NFKC_Casefolded :: nat where "UNICODE_PROP_Changes_When_NFKC_Casefolded = 58"
definition UNICODE_PROP_Changes_When_Titlecased :: nat where "UNICODE_PROP_Changes_When_Titlecased = 59"
definition UNICODE_PROP_Changes_When_Uppercased :: nat where "UNICODE_PROP_Changes_When_Uppercased = 60"
definition UNICODE_PROP_Grapheme_Base :: nat where "UNICODE_PROP_Grapheme_Base = 61"
definition UNICODE_PROP_Grapheme_Extend :: nat where "UNICODE_PROP_Grapheme_Extend = 62"
definition UNICODE_PROP_ID_Continue :: nat where "UNICODE_PROP_ID_Continue = 63"
definition UNICODE_PROP_Lowercase :: nat where "UNICODE_PROP_Lowercase = 64"
definition UNICODE_PROP_Math :: nat where "UNICODE_PROP_Math = 65"
definition UNICODE_PROP_Uppercase :: nat where "UNICODE_PROP_Uppercase = 66"
definition UNICODE_PROP_XID_Continue :: nat where "UNICODE_PROP_XID_Continue = 67"
definition UNICODE_PROP_XID_Start :: nat where "UNICODE_PROP_XID_Start = 68"

section \<open>Names\<close>

text \<open>The two nested loops over entries and their aliases; \<open>inner\<close> says that the inner loop goes on. An
  entry is a string of aliases separated by commas (code 44).\<close>

function name_search :: "bool \<Rightarrow> u8 list \<Rightarrow> u8 list \<Rightarrow> nat \<Rightarrow> int \<Rightarrow> int option" where
  "name_search inner p name name_len pos = do {
     c \<leftarrow> rd p 0;
     if \<not> inner \<and> c = 0 then Some (-1)
     else do {
       n \<leftarrow> strlen p;
       let r = (44 \<in> set (take n p));
       let len = (if r then length (takeWhile (\<lambda>c. c \<noteq> 44) p) else n);
       if len = name_len \<and> take name_len p = take name_len name then Some pos
       else name_search r (drop (len + 1) p) name name_len (if r then pos else pos + 1) } }"
  by pat_completeness auto
termination
  by (relation "measure (\<lambda>(inner, p, name, name_len, pos). length p)") (auto simp: rd_def split: if_splits)

declare name_search.simps [simp del]

definition unicode_find_name :: "u8 list \<Rightarrow> u8 list \<Rightarrow> int option" where
  "unicode_find_name tab name = do { n \<leftarrow> strlen name; name_search False tab name n 0 }"

section \<open>Scripts\<close>

text \<open>One entry of the script table: the length of the run less one, the script and the rest.\<close>

definition script_run :: "u8 list \<Rightarrow> (u32 \<times> u32 \<times> u8 list) option" where
  "script_run p =
     (case p of
        [] \<Rightarrow> None
      | byte # p \<Rightarrow>
          let b = ucast byte :: u32; type = drop_bit 7 b; n = b AND 0x7f in do {
            (n, p) \<leftarrow>
              (if n < 96 then Some (n, p)
               else if n < 112 then
                 (case p of p0 # p' \<Rightarrow> Some ((push_bit 8 (n - 96) OR ucast p0) + 96, p') | _ \<Rightarrow> None)
               else
                 (case p of p0 # p1 # p' \<Rightarrow>
                    Some ((push_bit 16 (n - 112) OR push_bit 8 (ucast p0) OR ucast p1) + (96 + push_bit 12 1), p')
                  | _ \<Rightarrow> None));
            if type = 0 then Some (n, 0, p)
            else (case p of v # p' \<Rightarrow> Some (n, ucast v, p') | _ \<Rightarrow> None) })"

lemma script_run_length: "script_run p = Some (n, v, p') \<Longrightarrow> length p' < length p"
  by (auto simp: script_run_def Let_def split: list.splits if_splits bind_splits)

function script_loop :: "CharRange \<Rightarrow> u32 \<Rightarrow> u8 list \<Rightarrow> u32 \<Rightarrow> (int \<times> CharRange) option" where
  "script_loop cr script_idx p c =
     (if p = [] then Some (0, cr)
      else do {
        (n, v, p') \<leftarrow> script_run p;
        let c1 = c + n + 1;
        if v = script_idx then do {
          (r, cr) \<leftarrow> cr_add_interval cr c c1;
          if r \<noteq> 0 then Some (-1, cr) else script_loop cr script_idx p' c1 }
        else script_loop cr script_idx p' c1 })"
  by pat_completeness auto
termination
  by (relation "measure (\<lambda>(cr, script_idx, p, c). length p)") (auto dest: script_run_length)

declare script_loop.simps [simp del]

text \<open>One entry of the table of script extensions: the length of the run less one, the list of
  scripts and the rest.\<close>

definition script_ext_run :: "u8 list \<Rightarrow> (u32 \<times> u8 list \<times> u8 list) option" where
  "script_ext_run p =
     (case p of
        [] \<Rightarrow> None
      | byte # p \<Rightarrow>
          let b = ucast byte :: u32 in do {
            (n, p) \<leftarrow>
              (if b < 128 then Some (b, p)
               else if b < 128 + 64 then
                 (case p of p0 # p' \<Rightarrow> Some ((push_bit 8 (b - 128) OR ucast p0) + 128, p') | _ \<Rightarrow> None)
               else
                 (case p of p0 # p1 # p' \<Rightarrow>
                    Some ((push_bit 16 (b - 128 - 64) OR push_bit 8 (ucast p0) OR ucast p1) + (128 + push_bit 14 1), p')
                  | _ \<Rightarrow> None));
            (case p of
               [] \<Rightarrow> None
             | v_len # p \<Rightarrow> do {
                 vs \<leftarrow> rd_n p 0 (unat v_len);
                 Some (n, vs, drop (unat v_len) p) }) })"

lemma script_ext_run_length: "script_ext_run p = Some (n, vs, p') \<Longrightarrow> length p' < length p"
  by (auto simp: script_ext_run_def Let_def rd_n_def split: list.splits if_splits bind_splits)

function script_ext_loop :: "CharRange \<Rightarrow> u32 \<Rightarrow> bool \<Rightarrow> u8 list \<Rightarrow> u32 \<Rightarrow> (int \<times> CharRange) option" where
  "script_ext_loop cr2 script_idx is_common p c =
     (if p = [] then Some (0, cr2)
      else do {
        (n, vs, p') \<leftarrow> script_ext_run p;
        let c1 = c + n + 1;
        if (if is_common then vs \<noteq> [] else list_ex (\<lambda>v. ucast v = script_idx) vs) then do {
          (r, cr2) \<leftarrow> cr_add_interval cr2 c c1;
          if r \<noteq> 0 then Some (-1, cr2) else script_ext_loop cr2 script_idx is_common p' c1 }
        else script_ext_loop cr2 script_idx is_common p' c1 })"
  by pat_completeness auto
termination
  by (relation "measure (\<lambda>(cr2, script_idx, is_common, p, c). length p)") (auto dest: script_ext_run_length)

declare script_ext_loop.simps [simp del]

text \<open>\<open>cr_free\<close> hands the block of a range back and leaves the pointer as it is: for a range without a block nothing
  happens, and a second release of a block is undefined. The argument and the result say whether the block has
  been released.\<close>

definition cr_free :: "CharRange \<Rightarrow> bool \<Rightarrow> bool option" where
  "cr_free cr released = (if cr_points cr = [] then Some released else if released then None else Some True)"

text \<open>The code behind the label \<^verbatim>\<open>fail\<close> ends with a jump to that label. One pass through it releases the two local
  ranges if \<open>is_ext\<close> is set; \<open>fail_passes\<close> runs a number of passes from the state of the two blocks.\<close>

definition fail_pass :: "bool \<Rightarrow> CharRange \<Rightarrow> CharRange \<Rightarrow> bool \<times> bool \<Rightarrow> (bool \<times> bool) option" where
  "fail_pass is_ext cr1 cr2 released =
     (if is_ext then do {
        r1 \<leftarrow> cr_free cr1 (fst released);
        r2 \<leftarrow> cr_free cr2 (snd released);
        Some (r1, r2) }
      else Some released)"

primrec fail_passes :: "bool \<Rightarrow> CharRange \<Rightarrow> CharRange \<Rightarrow> nat \<Rightarrow> bool \<times> bool \<Rightarrow> (bool \<times> bool) option" where
  "fail_passes is_ext cr1 cr2 0 released = Some released"
| "fail_passes is_ext cr1 cr2 (Suc n) released = do {
     released \<leftarrow> fail_pass is_ext cr1 cr2 released;
     fail_passes is_ext cr1 cr2 n released }"

text \<open>Two passes decide what happens: the second one finds a block that the first one has released, or no pass ever
  does (\<open>fail_passes_two\<close>).\<close>

datatype script_result = Returned int CharRange | Loops_Forever

definition script_fail :: "bool \<Rightarrow> CharRange \<Rightarrow> CharRange \<Rightarrow> script_result option" where
  "script_fail is_ext cr1 cr2 =
     (case fail_passes is_ext cr1 cr2 2 (False, False) of None \<Rightarrow> None | Some _ \<Rightarrow> Some Loops_Forever)"

lemma fail_passes_idle:
  "\<not> is_ext \<or> cr_points cr1 = [] \<and> cr_points cr2 = [] \<Longrightarrow> fail_passes is_ext cr1 cr2 n released = Some released"
  by (induction n) (auto simp: fail_pass_def cr_free_def)

lemma fail_passes_two:
  "fail_passes is_ext cr1 cr2 2 (False, False) = None \<longleftrightarrow> is_ext \<and> (cr_points cr1 \<noteq> [] \<or> cr_points cr2 \<noteq> [])"
  "(\<forall>n. fail_passes is_ext cr1 cr2 n (False, False) \<noteq> None) \<longleftrightarrow> fail_passes is_ext cr1 cr2 2 (False, False) \<noteq> None"
proof -
  show two: "fail_passes is_ext cr1 cr2 2 (False, False) = None \<longleftrightarrow> is_ext \<and> (cr_points cr1 \<noteq> [] \<or> cr_points cr2 \<noteq> [])"
    by (auto simp: numeral_2_eq_2 fail_pass_def cr_free_def split: bind_splits)
  then show "(\<forall>n. fail_passes is_ext cr1 cr2 n (False, False) \<noteq> None) \<longleftrightarrow> fail_passes is_ext cr1 cr2 2 (False, False) \<noteq> None"
    using fail_passes_idle [of is_ext cr1 cr2] by (metis option.distinct(1))
qed

text \<open>The end of the function for script extensions, after both ranges have been read.\<close>

definition script_combine :: "CharRange \<Rightarrow> CharRange \<Rightarrow> CharRange \<Rightarrow> bool \<Rightarrow> script_result option" where
  "script_combine cr cr1 cr2 is_common =
     (if is_common then do {
        (r, cr2) \<leftarrow> cr_invert cr2;
        if r \<noteq> 0 then script_fail True cr1 cr2
        else do {
          (r, cr) \<leftarrow> cr_op cr (cr_pts cr1) (cr_pts cr2) CR_OP_INTER;
          if r \<noteq> 0 then script_fail True cr1 cr2 else Some (Returned 0 cr) } }
      else do {
        (r, cr) \<leftarrow> cr_op cr (cr_pts cr1) (cr_pts cr2) CR_OP_UNION;
        if r \<noteq> 0 then script_fail True cr1 cr2 else Some (Returned 0 cr) })"

definition unicode_script :: "CharRange \<Rightarrow> u8 list \<Rightarrow> bool \<Rightarrow> script_result option" where
  "unicode_script cr script_name is_ext = do {
     idx \<leftarrow> unicode_find_name unicode_script_name_table script_name;
     if idx < 0 then Some (Returned (-2) cr)
     else do {
       let script_idx = nat idx + UNICODE_SCRIPT_Unknown + 1;
       let is_common = (script_idx = UNICODE_SCRIPT_Common \<or> script_idx = UNICODE_SCRIPT_Inherited);
       let cr1 = (if is_ext then cr_init (cr_realloc_func cr) else cr);
       let cr2 = cr_init (cr_realloc_func cr);
       (r, cr1) \<leftarrow> script_loop cr1 (of_nat script_idx) unicode_script_table 0;
       if r \<noteq> 0 then script_fail is_ext cr1 cr2
       else if \<not> is_ext then Some (Returned 0 cr1)
       else do {
         (r, cr2) \<leftarrow> script_ext_loop cr2 (of_nat script_idx) is_common unicode_script_ext_table 0;
         if r \<noteq> 0 then script_fail is_ext cr1 cr2 else script_combine cr cr1 cr2 is_common } } }"

section \<open>General categories\<close>

definition M :: "nat \<Rightarrow> u32" where
  "M gc = push_bit gc 1"

text \<open>One entry of the table: the length of the run less one, the category and the rest.\<close>

definition gc_run :: "u8 list \<Rightarrow> (u32 \<times> u32 \<times> u8 list) option" where
  "gc_run p =
     (case p of
        [] \<Rightarrow> None
      | byte # p \<Rightarrow>
          let b = ucast byte :: u32; n = drop_bit 5 b; v = b AND 0x1f in
          if n = 7 then
            (case p of
               [] \<Rightarrow> None
             | byte # p \<Rightarrow>
                 let n = ucast byte :: u32 in
                 if n < 128 then Some (n + 7, v, p)
                 else if n < 128 + 64 then
                   (case p of p0 # p' \<Rightarrow> Some ((push_bit 8 (n - 128) OR ucast p0) + (7 + 128), v, p') | _ \<Rightarrow> None)
                 else
                   (case p of p0 # p1 # p' \<Rightarrow>
                      Some ((push_bit 16 (n - 128 - 64) OR push_bit 8 (ucast p0) OR ucast p1) + (7 + 128 + push_bit 14 1), v, p')
                    | _ \<Rightarrow> None))
          else Some (n, v, p))"

lemma gc_run_length: "gc_run p = Some (n, v, p') \<Longrightarrow> length p' < length p"
  by (auto simp: gc_run_def Let_def split: list.splits if_splits)

text \<open>Every second code point of a run of alternating letters. The counter of the C loop would wrap
  around at the end of the 32-bit range and the loop not end there; the tables stay far below.\<close>

function gc_alternate :: "CharRange \<Rightarrow> u32 \<Rightarrow> u32 \<Rightarrow> (int \<times> CharRange) option" where
  "gc_alternate cr c0 c =
     (if c0 < c then
        if c0 \<ge> 0xfffffffe then None
        else do {
          (r, cr) \<leftarrow> cr_add_interval cr c0 (c0 + 1);
          if r \<noteq> 0 then Some (-1, cr) else gc_alternate cr (c0 + 2) c }
      else Some (0, cr))"
  by pat_completeness auto
termination
proof (relation "measure (\<lambda>(cr, c0, c). nat (uint c - uint c0))", goal_cases)
  case (2 cr c0 c r cr' cr'')
  have "uint c0 < 0xfffffffe" using 2(2) by (simp add: word_le_def not_le)
  then have "uint (c0 + 2) = uint c0 + 2" using uint_add_lt [of c0 2] by simp
  with 2(1) show ?case by (simp add: word_less_def)
qed simp

declare gc_alternate.simps [simp del]

function gc_loop :: "CharRange \<Rightarrow> u32 \<Rightarrow> u8 list \<Rightarrow> u32 \<Rightarrow> (int \<times> CharRange) option" where
  "gc_loop cr gc_mask p c0 =
     (if p = [] then Some (0, cr)
      else do {
        (n, v, p') \<leftarrow> gc_run p;
        let c = c0 + (n + 1);
        let b = gc_mask AND (M UNICODE_GC_Lu OR M UNICODE_GC_Ll);
        let add_range = (if v = 31 then b = (M UNICODE_GC_Lu OR M UNICODE_GC_Ll)
                         else drop_bit (unat v) gc_mask AND 1 \<noteq> 0);
        (r, cr) \<leftarrow>
          (if add_range then cr_add_interval cr c0 c
           else if v = 31 \<and> b \<noteq> 0 then
             gc_alternate cr (c0 + of_bool (gc_mask AND M UNICODE_GC_Ll \<noteq> 0)) c
           else Some (0, cr));
        if r \<noteq> 0 then Some (-1, cr) else gc_loop cr gc_mask p' c })"
  by pat_completeness auto
termination
  by (relation "measure (\<lambda>(cr, gc_mask, p, c). length p)") (auto dest: gc_run_length)

declare gc_loop.simps [simp del]

definition unicode_general_category1 :: "CharRange \<Rightarrow> u32 \<Rightarrow> (int \<times> CharRange) option" where
  "unicode_general_category1 cr gc_mask = gc_loop cr gc_mask unicode_gc_table 0"

section \<open>Binary properties\<close>

text \<open>A run is added when \<open>on\<close> is set.\<close>

definition add_if :: "bool \<Rightarrow> CharRange \<Rightarrow> u32 \<Rightarrow> u32 \<Rightarrow> (int \<times> CharRange) option" where
  "add_if on cr c0 c = (if on then cr_add_interval cr c0 c else Some (0, cr))"

function prop_loop :: "CharRange \<Rightarrow> u8 list \<Rightarrow> u32 \<Rightarrow> bool \<Rightarrow> (int \<times> CharRange) option" where
  "prop_loop cr [] c on = Some (0, cr)"
| "prop_loop cr (byte # p) c0 on =
     (let b = ucast byte in
      if b < 64 then do {
        let c = c0 + (drop_bit 3 b + 1);
        (r, cr) \<leftarrow> add_if on cr c0 c;
        if r \<noteq> 0 then Some (-1, cr)
        else do {
          let on = (\<not> on);
          let c0 = c;
          let c = c0 + ((b AND 7) + 1);
          (r, cr) \<leftarrow> add_if on cr c0 c;
          if r \<noteq> 0 then Some (-1, cr) else prop_loop cr p c (\<not> on) } }
      else do {
        (n, p') \<leftarrow> long_run b p;
        let c = c0 + n;
        (r, cr) \<leftarrow> add_if on cr c0 c;
        if r \<noteq> 0 then Some (-1, cr) else prop_loop cr p' c (\<not> on) })"
  by pat_completeness auto
termination
  by (relation "measure (\<lambda>(cr, p, c, on). length p)") (auto dest: long_run_length)

declare prop_loop.simps [simp del]

definition unicode_prop1 :: "CharRange \<Rightarrow> nat \<Rightarrow> (int \<times> CharRange) option" where
  "unicode_prop1 cr prop_idx = do {
     tab \<leftarrow> rd unicode_prop_table prop_idx;
     prop_loop cr tab 0 False }"

section \<open>Case changes\<close>

definition CASE_U :: u32 where "CASE_U = 1"
definition CASE_L :: u32 where "CASE_L = 2"
definition CASE_F :: u32 where "CASE_F = 4"

fun run_type_num :: "run_type \<Rightarrow> nat" where
  "run_type_num RUN_TYPE_U = 0"
| "run_type_num RUN_TYPE_L = 1"
| "run_type_num RUN_TYPE_UF = 2"
| "run_type_num RUN_TYPE_LF = 3"
| "run_type_num RUN_TYPE_UL = 4"
| "run_type_num RUN_TYPE_LSU = 5"
| "run_type_num RUN_TYPE_U2L_399_EXT2 = 6"
| "run_type_num RUN_TYPE_UF_D20 = 7"
| "run_type_num RUN_TYPE_UF_D1_EXT = 8"
| "run_type_num RUN_TYPE_U_EXT = 9"
| "run_type_num RUN_TYPE_LF_EXT = 10"
| "run_type_num RUN_TYPE_U_EXT2 = 11"
| "run_type_num RUN_TYPE_L_EXT2 = 12"
| "run_type_num RUN_TYPE_U_EXT3 = 13"

definition MR :: "run_type \<Rightarrow> u32" where
  "MR t = push_bit (run_type_num t) 1"

definition tab_run_mask :: "u32 list" where
  "tab_run_mask = [
     MR RUN_TYPE_U OR MR RUN_TYPE_UF OR MR RUN_TYPE_UL OR MR RUN_TYPE_LSU OR MR RUN_TYPE_U2L_399_EXT2 OR
       MR RUN_TYPE_UF_D20 OR MR RUN_TYPE_UF_D1_EXT OR MR RUN_TYPE_U_EXT OR MR RUN_TYPE_U_EXT2 OR MR RUN_TYPE_U_EXT3,
     MR RUN_TYPE_L OR MR RUN_TYPE_LF OR MR RUN_TYPE_UL OR MR RUN_TYPE_LSU OR MR RUN_TYPE_U2L_399_EXT2 OR
       MR RUN_TYPE_LF_EXT OR MR RUN_TYPE_L_EXT2,
     MR RUN_TYPE_UF OR MR RUN_TYPE_LF OR MR RUN_TYPE_UL OR MR RUN_TYPE_LSU OR MR RUN_TYPE_U2L_399_EXT2 OR
       MR RUN_TYPE_LF_EXT OR MR RUN_TYPE_UF_D20 OR MR RUN_TYPE_UF_D1_EXT OR MR RUN_TYPE_LF_EXT]"

fun case_mask_loop :: "u32 list \<Rightarrow> nat \<Rightarrow> u32 \<Rightarrow> u32 \<Rightarrow> u32" where
  "case_mask_loop [] i case_mask run_mask = run_mask"
| "case_mask_loop (t # ts) i case_mask run_mask =
     case_mask_loop ts (i + 1) case_mask (if drop_bit i case_mask AND 1 \<noteq> 0 then run_mask OR t else run_mask)"

text \<open>The intervals of the case \<open>RUN_TYPE_UL\<close>: every second code point of the run.\<close>

function case_ul_loop :: "CharRange \<Rightarrow> u32 \<Rightarrow> nat \<Rightarrow> nat \<Rightarrow> (int \<times> CharRange) option" where
  "case_ul_loop cr code i len =
     (if i < len then do {
        (r, cr) \<leftarrow> cr_add_interval cr (code + of_nat i) (code + of_nat i + 1);
        if r \<noteq> 0 then Some (-1, cr) else case_ul_loop cr code (i + 2) len }
      else Some (0, cr))"
  by pat_completeness auto
termination
  by (relation "measure (\<lambda>(cr, code, i, len). len - i)") auto

declare case_ul_loop.simps [simp del]

definition case_lsu :: "CharRange \<Rightarrow> u32 \<Rightarrow> u32 \<Rightarrow> (int \<times> CharRange) option" where
  "case_lsu cr case_mask code = do {
     (r, cr) \<leftarrow> (if case_mask AND CASE_U = 0 then cr_add_interval cr code (code + 1) else Some (0, cr));
     if r \<noteq> 0 then Some (-1, cr)
     else do {
       (r, cr) \<leftarrow> cr_add_interval cr (code + 1) (code + 2);
       if r \<noteq> 0 then Some (-1, cr)
       else if case_mask AND CASE_U \<noteq> 0 then do {
         (r, cr) \<leftarrow> cr_add_interval cr (code + 2) (code + 3);
         Some (if r \<noteq> 0 then -1 else 0, cr) }
       else Some (0, cr) } }"

text \<open>One run of the case conversion table.\<close>

definition case_run :: "CharRange \<Rightarrow> u32 \<Rightarrow> u32 \<Rightarrow> u32 \<Rightarrow> (int \<times> CharRange) option" where
  "case_run cr case_mask run_mask v =
     (let type = run_kind v; code = run_code v; len = run_len v;
          both = (case_mask AND CASE_U \<noteq> 0 \<and> case_mask AND (CASE_L OR CASE_F) \<noteq> 0) in
      if drop_bit (unat type) run_mask AND 1 = 0 then Some (0, cr)
      else if run_type_of type = RUN_TYPE_UL \<and> \<not> both then
        case_ul_loop cr (code + of_bool (case_mask AND CASE_U \<noteq> 0)) 0 (unat len)
      else if run_type_of type = RUN_TYPE_LSU \<and> \<not> both then case_lsu cr case_mask code
      else do {
        (r, cr) \<leftarrow> cr_add_interval cr code (code + len);
        Some (if r \<noteq> 0 then -1 else 0, cr) })"

fun case_loop :: "CharRange \<Rightarrow> u32 \<Rightarrow> u32 \<Rightarrow> u32 list \<Rightarrow> (int \<times> CharRange) option" where
  "case_loop cr case_mask run_mask [] = Some (0, cr)"
| "case_loop cr case_mask run_mask (v # vs) = do {
     (r, cr) \<leftarrow> case_run cr case_mask run_mask v;
     if r \<noteq> 0 then Some (-1, cr) else case_loop cr case_mask run_mask vs }"

definition unicode_case1 :: "CharRange \<Rightarrow> u32 \<Rightarrow> (int \<times> CharRange) option" where
  "unicode_case1 cr case_mask =
     (if case_mask = 0 then Some (0, cr)
      else case_loop cr case_mask (case_mask_loop tab_run_mask 0 case_mask 0) case_conv_table1)"

section \<open>Combinations\<close>

text \<open>The variable arguments of \<open>unicode_prop_ops\<close> as a list. The stack lists the top first.\<close>

datatype PropOPEnum = POP_GC u32 | POP_PROP nat | POP_CASE u32 | POP_UNION | POP_INTER | POP_XOR | POP_INVERT | POP_END

definition POP_STACK_LEN_MAX :: nat where "POP_STACK_LEN_MAX = 4"

definition pop_binary :: "CharRangeOpEnum \<Rightarrow> CharRange list \<Rightarrow> (int \<times> CharRange list) option" where
  "pop_binary op stack =
     (case stack of
        cr2 # cr1 # rest \<Rightarrow>
          if length stack < POP_STACK_LEN_MAX then do {
            (r, cr3) \<leftarrow> cr_op (cr_init (cr_realloc_func cr1)) (cr_pts cr1) (cr_pts cr2) op;
            Some (r, cr3 # rest) }
          else None
      | _ \<Rightarrow> None)"

definition pop_load ::
  "(CharRange \<Rightarrow> (int \<times> CharRange) option) \<Rightarrow> (nat \<Rightarrow> bool) \<Rightarrow> CharRange list \<Rightarrow> (int \<times> CharRange list) option" where
  "pop_load f alloc stack =
     (if length stack < POP_STACK_LEN_MAX then do {
        (r, cr) \<leftarrow> f (cr_init alloc);
        Some (r, cr # stack) }
      else None)"

definition pop_op :: "PropOPEnum \<Rightarrow> (nat \<Rightarrow> bool) \<Rightarrow> CharRange list \<Rightarrow> (int \<times> CharRange list) option" where
  "pop_op op alloc stack =
     (case op of
        POP_GC a \<Rightarrow> pop_load (\<lambda>cr. unicode_general_category1 cr a) alloc stack
      | POP_PROP a \<Rightarrow> pop_load (\<lambda>cr. unicode_prop1 cr a) alloc stack
      | POP_CASE a \<Rightarrow> pop_load (\<lambda>cr. unicode_case1 cr a) alloc stack
      | POP_UNION \<Rightarrow> pop_binary CR_OP_UNION stack
      | POP_INTER \<Rightarrow> pop_binary CR_OP_INTER stack
      | POP_XOR \<Rightarrow> pop_binary CR_OP_XOR stack
      | POP_INVERT \<Rightarrow>
          (case stack of
             [] \<Rightarrow> None
           | cr # rest \<Rightarrow> do { (r, cr) \<leftarrow> cr_invert cr; Some (r, cr # rest) })
      | POP_END \<Rightarrow> None)"

fun prop_ops_loop :: "CharRange \<Rightarrow> PropOPEnum list \<Rightarrow> CharRange list \<Rightarrow> (int \<times> CharRange) option" where
  "prop_ops_loop cr [] stack = None"
| "prop_ops_loop cr (op # ops) stack =
     (if op = POP_END then
        (case stack of [cr0] \<Rightarrow> cr_copy cr cr0 | _ \<Rightarrow> None)
      else do {
        (r, stack) \<leftarrow> pop_op op (cr_realloc_func cr) stack;
        if r \<noteq> 0 then Some (-1, cr) else prop_ops_loop cr ops stack })"

definition unicode_prop_ops :: "CharRange \<Rightarrow> PropOPEnum list \<Rightarrow> (int \<times> CharRange) option" where
  "unicode_prop_ops cr ops = prop_ops_loop cr ops []"

definition unicode_gc_mask_table :: "u32 list" where
  "unicode_gc_mask_table = [
     M UNICODE_GC_Lu OR M UNICODE_GC_Ll OR M UNICODE_GC_Lt,
     M UNICODE_GC_Lu OR M UNICODE_GC_Ll OR M UNICODE_GC_Lt OR M UNICODE_GC_Lm OR M UNICODE_GC_Lo,
     M UNICODE_GC_Mn OR M UNICODE_GC_Mc OR M UNICODE_GC_Me,
     M UNICODE_GC_Nd OR M UNICODE_GC_Nl OR M UNICODE_GC_No,
     M UNICODE_GC_Sm OR M UNICODE_GC_Sc OR M UNICODE_GC_Sk OR M UNICODE_GC_So,
     M UNICODE_GC_Pc OR M UNICODE_GC_Pd OR M UNICODE_GC_Ps OR M UNICODE_GC_Pe OR M UNICODE_GC_Pi OR
       M UNICODE_GC_Pf OR M UNICODE_GC_Po,
     M UNICODE_GC_Zs OR M UNICODE_GC_Zl OR M UNICODE_GC_Zp,
     M UNICODE_GC_Cc OR M UNICODE_GC_Cf OR M UNICODE_GC_Cs OR M UNICODE_GC_Co OR M UNICODE_GC_Cn]"

definition unicode_general_category :: "CharRange \<Rightarrow> u8 list \<Rightarrow> (int \<times> CharRange) option" where
  "unicode_general_category cr gc_name = do {
     idx \<leftarrow> unicode_find_name unicode_gc_name_table gc_name;
     if idx < 0 then Some (-2, cr)
     else let gc_idx = nat idx in
       if gc_idx \<le> UNICODE_GC_Co then unicode_general_category1 cr (push_bit gc_idx 1)
       else do {
         gc_mask \<leftarrow> rd unicode_gc_mask_table (gc_idx - UNICODE_GC_LC);
         unicode_general_category1 cr gc_mask } }"

definition prop_script :: "nat \<Rightarrow> PropOPEnum list option" where
  "prop_script prop_idx =
     (let letters = M UNICODE_GC_Lu OR M UNICODE_GC_Ll OR M UNICODE_GC_Lt OR M UNICODE_GC_Lm OR M UNICODE_GC_Lo OR M UNICODE_GC_Nl in
      if prop_idx = UNICODE_PROP_Assigned then Some [POP_GC (M UNICODE_GC_Cn), POP_INVERT, POP_END]
      else if prop_idx = UNICODE_PROP_Math then
        Some [POP_GC (M UNICODE_GC_Sm), POP_PROP UNICODE_PROP_Other_Math, POP_UNION, POP_END]
      else if prop_idx = UNICODE_PROP_Lowercase then
        Some [POP_GC (M UNICODE_GC_Ll), POP_PROP UNICODE_PROP_Other_Lowercase, POP_UNION, POP_END]
      else if prop_idx = UNICODE_PROP_Uppercase then
        Some [POP_GC (M UNICODE_GC_Lu), POP_PROP UNICODE_PROP_Other_Uppercase, POP_UNION, POP_END]
      else if prop_idx = UNICODE_PROP_Cased then
        Some [POP_GC (M UNICODE_GC_Lu OR M UNICODE_GC_Ll OR M UNICODE_GC_Lt),
          POP_PROP UNICODE_PROP_Other_Uppercase, POP_UNION, POP_PROP UNICODE_PROP_Other_Lowercase, POP_UNION, POP_END]
      else if prop_idx = UNICODE_PROP_Alphabetic then
        Some [POP_GC letters, POP_PROP UNICODE_PROP_Other_Uppercase, POP_UNION,
          POP_PROP UNICODE_PROP_Other_Lowercase, POP_UNION, POP_PROP UNICODE_PROP_Other_Alphabetic, POP_UNION, POP_END]
      else if prop_idx = UNICODE_PROP_Grapheme_Base then
        Some [POP_GC (M UNICODE_GC_Cc OR M UNICODE_GC_Cf OR M UNICODE_GC_Cs OR M UNICODE_GC_Co OR M UNICODE_GC_Cn OR
            M UNICODE_GC_Zl OR M UNICODE_GC_Zp OR M UNICODE_GC_Me OR M UNICODE_GC_Mn),
          POP_PROP UNICODE_PROP_Other_Grapheme_Extend, POP_UNION, POP_INVERT, POP_END]
      else if prop_idx = UNICODE_PROP_Grapheme_Extend then
        Some [POP_GC (M UNICODE_GC_Me OR M UNICODE_GC_Mn), POP_PROP UNICODE_PROP_Other_Grapheme_Extend, POP_UNION, POP_END]
      else if prop_idx = UNICODE_PROP_XID_Start then
        Some [POP_GC letters, POP_PROP UNICODE_PROP_Other_ID_Start, POP_UNION,
          POP_PROP UNICODE_PROP_Pattern_Syntax, POP_PROP UNICODE_PROP_Pattern_White_Space, POP_UNION,
          POP_PROP UNICODE_PROP_XID_Start1, POP_UNION, POP_INVERT, POP_INTER, POP_END]
      else if prop_idx = UNICODE_PROP_XID_Continue then
        Some [POP_GC (letters OR M UNICODE_GC_Mn OR M UNICODE_GC_Mc OR M UNICODE_GC_Nd OR M UNICODE_GC_Pc),
          POP_PROP UNICODE_PROP_Other_ID_Start, POP_UNION, POP_PROP UNICODE_PROP_Other_ID_Continue, POP_UNION,
          POP_PROP UNICODE_PROP_Pattern_Syntax, POP_PROP UNICODE_PROP_Pattern_White_Space, POP_UNION,
          POP_PROP UNICODE_PROP_XID_Continue1, POP_UNION, POP_INVERT, POP_INTER, POP_END]
      else if prop_idx = UNICODE_PROP_Changes_When_Titlecased then
        Some [POP_CASE CASE_U, POP_PROP UNICODE_PROP_Changes_When_Titlecased1, POP_XOR, POP_END]
      else if prop_idx = UNICODE_PROP_Changes_When_Casefolded then
        Some [POP_CASE CASE_F, POP_PROP UNICODE_PROP_Changes_When_Casefolded1, POP_XOR, POP_END]
      else if prop_idx = UNICODE_PROP_Changes_When_NFKC_Casefolded then
        Some [POP_CASE CASE_F, POP_PROP UNICODE_PROP_Changes_When_NFKC_Casefolded1, POP_XOR, POP_END]
      else if prop_idx = UNICODE_PROP_ID_Continue then
        Some [POP_PROP UNICODE_PROP_ID_Start, POP_PROP UNICODE_PROP_ID_Continue1, POP_XOR, POP_END]
      else None)"

text \<open>The switch of \<open>unicode_prop\<close>; \<open>prop_script\<close> holds the argument lists of its calls of
  \<open>unicode_prop_ops\<close>.\<close>

definition unicode_prop :: "CharRange \<Rightarrow> u8 list \<Rightarrow> (int \<times> CharRange) option" where
  "unicode_prop cr prop_name = do {
     idx \<leftarrow> unicode_find_name unicode_prop_name_table prop_name;
     if idx < 0 then Some (-2, cr)
     else let prop_idx = nat idx + UNICODE_PROP_ASCII_Hex_Digit in
       if prop_idx = UNICODE_PROP_ASCII then do {
         (r, cr) \<leftarrow> cr_add_interval cr 0 (0x7f + 1);
         Some (if r \<noteq> 0 then -1 else 0, cr) }
       else if prop_idx = UNICODE_PROP_Any then do {
         (r, cr) \<leftarrow> cr_add_interval cr 0 (0x10ffff + 1);
         Some (if r \<noteq> 0 then -1 else 0, cr) }
       else if prop_idx = UNICODE_PROP_Changes_When_Uppercased then unicode_case1 cr CASE_U
       else if prop_idx = UNICODE_PROP_Changes_When_Lowercased then unicode_case1 cr CASE_L
       else if prop_idx = UNICODE_PROP_Changes_When_Casemapped then unicode_case1 cr (CASE_U OR CASE_L OR CASE_F)
       else
         (case prop_script prop_idx of
            Some ops \<Rightarrow> unicode_prop_ops cr ops
          | None \<Rightarrow>
              if prop_idx \<ge> length unicode_prop_table then Some (-2, cr) else unicode_prop1 cr prop_idx) }"

section \<open>Ranges built from runs\<close>

text \<open>The loops above read a table as a sequence of runs of code points and append an interval for
  some of them. \<open>covers pts c S\<close>: the points so far are sorted, reach up to \<open>c\<close> and hold exactly the
  members of \<open>S\<close> below \<open>c\<close>.\<close>

definition covers :: "u32 list \<Rightarrow> u32 \<Rightarrow> (u32 \<Rightarrow> bool) \<Rightarrow> bool" where
  "covers pts c S \<longleftrightarrow> sorted pts \<and> even (length pts) \<and> (\<forall>p \<in> set pts. p \<le> c) \<and> (\<forall>x. cr_mem pts x \<longleftrightarrow> x < c \<and> S x)"

lemma cr_mem_append: "even (length xs) \<Longrightarrow> cr_mem (xs @ ys) c \<longleftrightarrow> cr_mem xs c \<or> cr_mem ys c"
  by (induction xs c rule: cr_mem.induct) auto

lemma covers_start: "covers [] 0 S"
  by (simp add: covers_def)

lemma covers_skip:
  assumes "covers pts c S" "c \<le> c'" "\<And>x. c \<le> x \<Longrightarrow> x < c' \<Longrightarrow> \<not> S x"
  shows "covers pts c' S"
proof -
  have "x < c \<and> S x \<longleftrightarrow> x < c' \<and> S x" for x
    using assms(2,3) by (meson less_le_trans not_le)
  then show ?thesis using assms(1,2) by (auto simp: covers_def intro: order_trans)
qed

lemma covers_add:
  assumes "covers pts c S" "c \<le> c'" "\<And>x. c \<le> x \<Longrightarrow> x < c' \<Longrightarrow> S x"
  shows "covers (pts @ [c, c']) c' S"
proof -
  have "(x < c \<and> S x) \<or> (c \<le> x \<and> x < c') \<longleftrightarrow> x < c' \<and> S x" for x
    using assms(2,3) by (meson less_le_trans not_le)
  then show ?thesis using assms(1,2) unfolding covers_def
    by (auto simp: sorted_append cr_mem_append intro: order_trans)
qed

text \<open>What a step does to a range: it fails for lack of memory, or the points cover more.\<close>

abbreviation covering :: "CharRange \<Rightarrow> u32 \<Rightarrow> (u32 \<Rightarrow> bool) \<Rightarrow> (int \<times> CharRange) option \<Rightarrow> bool" where
  "covering cr c S \<equiv> cr_result cr (\<lambda>pts. covers pts c S)"

lemma cr_result_bind:
  assumes "cr_result cr P f"
    and "\<And>cr'. cr_inv cr' \<Longrightarrow> cr_realloc_func cr' = cr_realloc_func cr \<Longrightarrow> P (cr_pts cr') \<Longrightarrow> cr_result cr' Q (g cr')"
  shows "cr_result cr Q (do { (r, cr') \<leftarrow> f; if r \<noteq> 0 then Some (-1, cr') else g cr' })"
proof -
  obtain r cr' where f: "f = Some (r, cr')" "cr_inv cr'" "cr_realloc_func cr' = cr_realloc_func cr" "r = 0 \<or> r = -1"
    "(\<forall>n. cr_realloc_func cr n) \<longrightarrow> r = 0" "r = 0 \<longrightarrow> P (cr_pts cr')"
    using assms(1) by (auto simp: cr_result_def)
  show ?thesis
  proof (cases "r = 0")
    case True
    with f assms(2) [of cr'] show ?thesis by (auto simp: cr_result_def)
  next
    case False
    with f show ?thesis by (auto simp: cr_result_def)
  qed
qed

lemma cr_result_done: "cr_inv cr \<Longrightarrow> Q (cr_pts cr) \<Longrightarrow> cr_result cr Q (Some (0, cr))"
  by (simp add: cr_result_def)

lemma cr_result_weaken: "cr_result cr P f \<Longrightarrow> (\<And>pts. P pts \<Longrightarrow> Q pts) \<Longrightarrow> cr_result cr Q f"
  by (auto simp: cr_result_def)

lemma add_covers:
  assumes "cr_inv cr" "covers (cr_pts cr) c S" "c \<le> c'" "\<And>x. c \<le> x \<Longrightarrow> x < c' \<Longrightarrow> S x"
  shows "covering cr c' S (cr_add_interval cr c c')"
  by (rule cr_result_weaken [OF cr_add_interval_spec [OF assms(1)]]) (use covers_add [OF assms(2-4)] in simp)

lemma add_if_covers:
  assumes "cr_inv cr" "covers (cr_pts cr) c S" "c \<le> c'" "\<And>x. c \<le> x \<Longrightarrow> x < c' \<Longrightarrow> S x = on"
  shows "covering cr c' S (add_if on cr c c')"
proof (cases on)
  case True
  then show ?thesis using add_covers [OF assms(1-3)] assms(4) by (simp add: add_if_def)
next
  case False
  then show ?thesis using covers_skip [OF assms(2,3)] assms(1,4) by (auto simp: add_if_def intro: cr_result_done)
qed

section \<open>Binary properties are what the lookups see\<close>

lemma prop_loop_covers:
  assumes "prop_runs p = Some ns" "uint c + sum_list ns < 2 ^ 32" "cr_inv cr" "covers (cr_pts cr) c S"
    and "\<And>x. c \<le> x \<Longrightarrow> S x = in_runs (uint x - uint c) ns on"
  shows "covering cr (word_of_int (uint c + sum_list ns)) S (prop_loop cr p c on)"
  using assms
proof (induction p arbitrary: cr c on ns rule: length_induct)
  case (1 p)
  note prems = "1.prems"
  show ?case
  proof (cases p)
    case Nil
    then show ?thesis using prems by (auto simp: prop_loop.simps intro: cr_result_done)
  next
    case (Cons byte q)
    obtain es p' ns' where e: "entry_runs (byte # q) = Some (es, p')" "prop_runs p' = Some ns'" "ns = es @ ns'"
      using prems(1) Cons by (auto simp: prop_runs_step split: option.splits)
    have ns': "0 \<le> sum_list ns'" by (rule prop_runs_sum [OF e(2)])
    have sum: "uint c + sum_list es + sum_list ns' < 2 ^ 32" using prems(2) e(3) by simp
    have S: "S x = in_runs (uint x - uint c) (es @ ns') on" if "c \<le> x" for x using prems(5) that e(3) by simp
    have rest: "covering cr' (word_of_int (uint c + sum_list ns)) S (prop_loop cr' p' c' on')"
      if "cr_inv cr'" "covers (cr_pts cr') c' S" "uint c' = uint c + sum_list es"
        "\<And>x. c' \<le> x \<Longrightarrow> S x = in_runs (uint x - uint c') ns' on'" for cr' c' on'
    proof -
      have "length p' < length p" using entry_runs_length [OF e(1)] Cons by simp
      from "1.IH" [rule_format, OF this e(2) _ that(1,2,4)] that(3) sum e(3) show ?thesis by (simp add: algebra_simps)
    qed
    show ?thesis
    proof (cases "uint byte < 64")
      case True
      have es: "es = [uint byte div 8 + 1, uint byte mod 8 + 1]" "p' = q" using e(1) True by (auto simp: entry_runs_def Let_def)
      have b64: "(ucast byte :: u32) < 64" using True by (simp add: word_less_def)
      have nn: "0 \<le> uint byte div 8" "0 \<le> uint byte mod 8" by (simp_all add: pos_imp_zdiv_nonneg_iff)
      define c1 where "c1 = c + (drop_bit 3 (ucast byte) + 1)"
      define c2 where "c2 = c1 + ((ucast byte AND 7) + 1)"
      have d1: "uint (drop_bit 3 (ucast byte) + 1 :: u32) = uint byte div 8 + 1"
        using uint_Suc_lt [of "drop_bit 3 (ucast byte)"] True by (simp add: short_run_parts)
      have d2: "uint ((ucast byte AND 7) + 1 :: u32) = uint byte mod 8 + 1"
        using uint_Suc_lt [of "ucast byte AND 7"] pos_mod_bound [of 8 "uint byte"] by (simp add: short_run_parts)
      have u1: "uint c1 = uint c + (uint byte div 8 + 1)" unfolding c1_def
        using uint_add_lt [of c "drop_bit 3 (ucast byte) + 1"] d1 sum ns' nn by (simp add: es)
      have u2: "uint c2 = uint c + (uint byte div 8 + 1) + (uint byte mod 8 + 1)" unfolding c2_def
        using uint_add_lt [of c1 "(ucast byte AND 7) + 1"] u1 d2 sum ns' nn by (simp add: es)
      have le: "c \<le> c1" "c1 \<le> c2" using u1 u2 nn by (simp_all add: word_le_def)
      have S1: "S x = on" if "c \<le> x" "x < c1" for x
        using S [OF that(1)] that(2) u1 by (simp add: es word_less_def)
      have S2: "S x = (\<not> on)" if "c1 \<le> x" "x < c2" for x
        using S [of x] order_trans [OF le(1) that(1)] that u1 u2 by (simp add: es word_less_def word_le_def)
      have S3: "S x = in_runs (uint x - uint c2) ns' on" if "c2 \<le> x" for x
      proof -
        have "uint c2 \<le> uint x" using that by (simp add: word_le_def)
        then have "\<not> uint x - uint c < uint byte div 8 + 1" "\<not> uint x - uint c - (uint byte div 8 + 1) < uint byte mod 8 + 1"
          "uint x - uint c - (uint byte div 8 + 1) - (uint byte mod 8 + 1) = uint x - uint c2"
          using u2 nn by auto
        then show ?thesis
          using S [OF order_trans [OF order_trans [OF le] that]] unfolding es(1) append.simps in_runs.simps
          by (simp only: if_False not_not)
      qed
      have "uint c2 = uint c + sum_list es" using u2 es(1) by simp
      note last = rest [OF _ _ this S3, unfolded es(2)]
      have "covering cr (word_of_int (uint c + sum_list ns)) S
         (do { (r, cr) \<leftarrow> add_if on cr c c1;
               if r \<noteq> 0 then Some (-1, cr) else do {
                 (r, cr) \<leftarrow> add_if (\<not> on) cr c1 c2;
                 if r \<noteq> 0 then Some (-1, cr) else prop_loop cr q c2 on } })"
        by (rule cr_result_bind [OF add_if_covers [OF prems(3,4) le(1) S1]], assumption, assumption)
          (rule cr_result_bind [OF add_if_covers [OF _ _ le(2) S2]], assumption+, rule last)
      then show ?thesis using b64 Cons by (simp add: prop_loop.simps Let_def c1_def c2_def cong: if_cong)
    next
      case False
      have b64: "\<not> (ucast byte :: u32) < 64" using False by (simp add: word_less_def)
      obtain n where n: "long_run (ucast byte) q = Some (n, p')" "es = [uint n]"
        using long_run_entry [of byte q] e(1) False by (cases "long_run (ucast byte) q") auto
      have u1: "uint (c + n) = uint c + uint n" using uint_add_lt [of c n] sum ns' n(2) by simp
      then have le: "c \<le> c + n" by (simp add: word_le_def)
      have S1: "S x = on" if "c \<le> x" "x < c + n" for x
        using S [OF that(1)] that(2) u1 by (simp add: n(2) word_less_def)
      have S3: "S x = in_runs (uint x - uint (c + n)) ns' (\<not> on)" if "c + n \<le> x" for x
        using S [OF order_trans [OF le that]] that u1 by (simp add: n(2) word_le_def algebra_simps)
      have "uint (c + n) = uint c + sum_list es" using u1 n(2) by simp
      note last = rest [OF _ _ this S3]
      have "covering cr (word_of_int (uint c + sum_list ns)) S
         (do { (r, cr) \<leftarrow> add_if on cr c (c + n); if r \<noteq> 0 then Some (-1, cr) else prop_loop cr p' (c + n) (\<not> on) })"
        by (rule cr_result_bind [OF add_if_covers [OF prems(3,4) le S1]], assumption, assumption, rule last)
      then show ?thesis using b64 Cons n(1) by (simp add: prop_loop.simps Let_def)
    qed
  qed
qed

definition runs_ok :: "u8 list \<Rightarrow> bool" where
  "runs_ok tab \<longleftrightarrow> (\<exists>ns. prop_runs tab = Some ns \<and> sum_list ns < 2 ^ 32)"

definition rows_check :: "u8 list list \<Rightarrow> bool" where
  "rows_check rows = (case scan_rows rows (0, 0, False, []) of Some (_, t, _, es) \<Rightarrow> es = [] \<and> t < 2 ^ 32 | None \<Rightarrow> False)"

lemma rows_checkD: "rows_check rows \<Longrightarrow> runs_ok (concat rows)"
  unfolding rows_check_def runs_ok_def
  by (auto dest!: scan_rows_concat scan_index_sound split: option.splits)

lemma prop_tables_ok: "list_all runs_ok unicode_prop_table"
  unfolding unicode_prop_table_def list.pred_inject
    unicode_prop_Hyphen_table_def unicode_prop_Other_Math_table_def
    unicode_prop_Other_Alphabetic_table_def unicode_prop_Other_Lowercase_table_def
    unicode_prop_Other_Uppercase_table_def unicode_prop_Other_Grapheme_Extend_table_def
    unicode_prop_Other_Default_Ignorable_Code_Point_table_def unicode_prop_Other_ID_Start_table_def
    unicode_prop_Other_ID_Continue_table_def unicode_prop_Prepended_Concatenation_Mark_table_def
    unicode_prop_ID_Continue1_table_def unicode_prop_XID_Start1_table_def
    unicode_prop_XID_Continue1_table_def unicode_prop_Changes_When_Titlecased1_table_def
    unicode_prop_Changes_When_Casefolded1_table_def unicode_prop_Changes_When_NFKC_Casefolded1_table_def
    unicode_prop_ASCII_Hex_Digit_table_def unicode_prop_Bidi_Control_table_def
    unicode_prop_Dash_table_def unicode_prop_Deprecated_table_def unicode_prop_Diacritic_table_def
    unicode_prop_Extender_table_def unicode_prop_Hex_Digit_table_def
    unicode_prop_IDS_Binary_Operator_table_def unicode_prop_IDS_Trinary_Operator_table_def
    unicode_prop_Ideographic_table_def unicode_prop_Join_Control_table_def
    unicode_prop_Logical_Order_Exception_table_def unicode_prop_Noncharacter_Code_Point_table_def
    unicode_prop_Pattern_Syntax_table_def unicode_prop_Pattern_White_Space_table_def
    unicode_prop_Quotation_Mark_table_def unicode_prop_Radical_table_def
    unicode_prop_Regional_Indicator_table_def unicode_prop_Sentence_Terminal_table_def
    unicode_prop_Soft_Dotted_table_def unicode_prop_Terminal_Punctuation_table_def
    unicode_prop_Unified_Ideograph_table_def unicode_prop_Variation_Selector_table_def
    unicode_prop_White_Space_table_def unicode_prop_Bidi_Mirrored_table_def unicode_prop_Emoji_table_def
    unicode_prop_Emoji_Component_table_def unicode_prop_Emoji_Modifier_table_def
    unicode_prop_Emoji_Modifier_Base_table_def unicode_prop_Emoji_Presentation_table_def
    unicode_prop_Extended_Pictographic_table_def unicode_prop_Default_Ignorable_Code_Point_table_def
    unicode_prop_ID_Start_table_def unicode_prop_Case_Ignorable_table_def
  by (intro conjI list.pred_inject(1); rule rows_checkD; code_simp)

lemma prop_table_runs: "tab \<in> set unicode_prop_table \<Longrightarrow> \<exists>ns. prop_runs tab = Some ns \<and> sum_list ns < 2 ^ 32"
  using prop_tables_ok by (auto simp: list_all_iff runs_ok_def)

text \<open>An empty range.\<close>

definition fresh :: "CharRange \<Rightarrow> bool" where
  "fresh cr \<longleftrightarrow> cr_inv cr \<and> cr_pts cr = []"

text \<open>The set a finished range stands for.\<close>

definition denotes :: "(u32 \<Rightarrow> bool) \<Rightarrow> u32 list \<Rightarrow> bool" where
  "denotes S pts \<longleftrightarrow> sorted pts \<and> even (length pts) \<and> (\<forall>x. x \<noteq> UINT32_MAX \<longrightarrow> cr_mem pts x = S x)"

lemma covers_denotes: "covers pts c S \<Longrightarrow> (\<And>x. c \<le> x \<Longrightarrow> \<not> S x) \<Longrightarrow> denotes S pts"
  by (auto simp: covers_def denotes_def not_less)

lemma unicode_prop1_denotes:
  assumes "fresh cr" "i < length unicode_prop_table"
  shows "cr_result cr (denotes (prop_member (unicode_prop_table ! i))) (unicode_prop1 cr i)"
proof -
  let ?tab = "unicode_prop_table ! i"
  obtain ns where ns: "prop_runs ?tab = Some ns" "sum_list ns < 2 ^ 32"
    using prop_table_runs nth_mem [OF assms(2)] by blast
  have cov: "covering cr (word_of_int (uint (0 :: u32) + sum_list ns)) (prop_member ?tab) (prop_loop cr ?tab 0 False)"
    by (rule prop_loop_covers [OF ns(1)]) (use assms(1) ns covers_start in \<open>auto simp: fresh_def prop_member_def\<close>)
  have "\<not> prop_member ?tab x" if "word_of_int (uint (0 :: u32) + sum_list ns) \<le> x" for x
  proof -
    have "sum_list ns \<le> uint x" using that ns(2) prop_runs_sum [OF ns(1)]
      by (simp add: word_le_def uint_word_of_int mod_pos_pos_trivial)
    then show ?thesis using in_runs_beyond prop_runs_pos [OF ns(1)] ns(1) by (simp add: prop_member_def)
  qed
  then have "cr_result cr (denotes (prop_member ?tab)) (prop_loop cr ?tab 0 False)"
    using cr_result_weaken [OF cov] covers_denotes by blast
  then show ?thesis using assms(2) by (simp add: unicode_prop1_def rd_def)
qed

section \<open>General categories\<close>

text \<open>The reference: the entry of the table that holds the code point \<open>x\<close>, with the offset of \<open>x\<close> in its
  run. In a run of category number 31 upper and lower case letters alternate.\<close>

function gc_lookup :: "u8 list \<Rightarrow> int \<Rightarrow> (u32 \<times> int) option" where
  "gc_lookup p x =
     (if p = [] then None
      else case gc_run p of
             None \<Rightarrow> None
           | Some (n, v, p') \<Rightarrow> if x \<le> uint n then Some (v, x) else gc_lookup p' (x - (uint n + 1)))"
  by pat_completeness auto
termination
  by (relation "measure (\<lambda>(p, x). length p)") (auto dest: gc_run_length)

declare gc_lookup.simps [simp del]

definition gc_selected :: "u32 \<Rightarrow> (u32 \<times> int) option \<Rightarrow> bool" where
  "gc_selected gc_mask r =
     (case r of
        None \<Rightarrow> False
      | Some (v, off) \<Rightarrow>
          bit gc_mask (if v = 31 then if even off then UNICODE_GC_Lu else UNICODE_GC_Ll else unat v))"

definition gc_member :: "u32 \<Rightarrow> u32 \<Rightarrow> bool" where
  "gc_member gc_mask x = gc_selected gc_mask (gc_lookup unicode_gc_table (uint x))"

lemma drop_bit_and_1: "(drop_bit n w AND 1 \<noteq> 0) = bit (w :: u32) n"
  by (simp add: and_one_eq bit_iff_odd_drop_bit odd_iff_mod_2_eq_one)

lemma bit_M: "k < 32 \<Longrightarrow> bit (M k) n \<longleftrightarrow> n = k"
  by (auto simp: M_def bit_simps)

lemma and_M: "k < 32 \<Longrightarrow> (w AND M k \<noteq> 0) = bit w k"
  by (simp add: M_def push_bit_of_1 and_exp_eq_0_iff_not_bit)

lemma and_letters:
  fixes w :: u32
  defines "b \<equiv> w AND (M UNICODE_GC_Lu OR M UNICODE_GC_Ll)"
  shows "(b = (M UNICODE_GC_Lu OR M UNICODE_GC_Ll)) = (bit w 1 \<and> bit w 2)" "(b \<noteq> 0) = (bit w 1 \<or> bit w 2)"
proof -
  have m: "bit (M UNICODE_GC_Lu OR M UNICODE_GC_Ll) n \<longleftrightarrow> n = 1 \<or> n = 2" for n
    using bit_M [of UNICODE_GC_Lu n] bit_M [of UNICODE_GC_Ll n]
    by (simp add: bit_or_iff UNICODE_GC_Lu_def UNICODE_GC_Ll_def)
  show "(b = (M UNICODE_GC_Lu OR M UNICODE_GC_Ll)) = (bit w 1 \<and> bit w 2)"
    unfolding b_def by (subst bit_eq_iff) (auto simp: bit_and_iff m dest: spec [of _ "Suc 0"] spec [of _ 2])
  show "(b \<noteq> 0) = (bit w 1 \<or> bit w 2)" unfolding b_def by (subst bit_eq_iff) (auto simp: bit_and_iff m intro: exI [of _ "Suc 0"] exI [of _ 2])
qed

text \<open>Reading the lengths of the runs, on integers.\<close>

fun gc_scan :: "int list \<Rightarrow> int \<Rightarrow> int option" where
  "gc_scan [] c = Some c"
| "gc_scan (b # p) c =
     (if b < 224 then gc_scan p (c + (b div 32 + 1))
      else (case p of
              [] \<Rightarrow> None
            | m # p \<Rightarrow>
                if m < 128 then gc_scan p (c + (m + 7 + 1))
                else if m < 192 then
                  (case p of p0 # p' \<Rightarrow> gc_scan p' (c + ((m - 128) * 256 + p0 + 135 + 1)) | _ \<Rightarrow> None)
                else
                  (case p of p0 # p1 # p' \<Rightarrow> gc_scan p' (c + ((m - 192) * 65536 + p0 * 256 + p1 + 16519 + 1)) | _ \<Rightarrow> None)))"

lemma gc_scan_run:
  "gc_scan (map uint (byte # q)) c =
     (case gc_run (byte # q) of None \<Rightarrow> None | Some (n, v, p') \<Rightarrow> gc_scan (map uint p') (c + (uint n + 1)))"
proof (cases "uint byte < 224")
  case True
  have d: "uint (drop_bit 5 (ucast byte :: u32)) = uint byte div 32" using uint_drop_bit_byte [of 5 byte] by simp
  then have "drop_bit 5 (ucast byte :: u32) \<noteq> 7" using True by auto
  with True d show ?thesis by (simp add: gc_run_def Let_def)
next
  case False
  have "uint (drop_bit 5 (ucast byte :: u32)) = uint (7 :: u32)"
    using uint_drop_bit_byte [of 5 byte] uint_byte_lt [of byte] False by auto
  then have d: "drop_bit 5 (ucast byte :: u32) = 7" by (rule word_uint_eqI)
  have cmp: "(ucast m < (128 :: u32)) = (uint m < 128)" "(ucast m < (128 + 64 :: u32)) = (uint m < 192)" for m :: u8
    by (simp_all add: word_less_def)
  have one: "uint m < 128 \<Longrightarrow> uint (ucast m + 7 :: u32) = uint m + 7" for m :: u8
    using uint_add_lt [of "ucast m" 7] by simp
  have two: "128 \<le> uint m \<Longrightarrow> uint ((push_bit 8 (ucast m - 128) OR ucast p0) + (7 + 128) :: u32) = (uint m - 128) * 256 + uint p0 + 135"
    for m p0 :: u8 using uint_sub_const [of 128 "ucast m"] uint_two_bytes [of "ucast m - 128" "7 + 128" p0] uint_byte_lt [of m] by simp
  have three: "192 \<le> uint m \<Longrightarrow>
      uint ((push_bit 16 (ucast m - 128 - 64) OR push_bit 8 (ucast p0) OR ucast p1) + (7 + 128 + push_bit 14 1) :: u32) =
      (uint m - 192) * 65536 + uint p0 * 256 + uint p1 + 16519" for m p0 p1 :: u8
    using uint_sub_const [of 128 "ucast m"] uint_sub_const [of 64 "ucast m - 128"]
      uint_three_bytes [of "ucast m - 128 - 64" "7 + 128 + push_bit 14 1" p0 p1] uint_byte_lt [of m] by simp
  show ?thesis
  proof (cases q)
    case Nil
    then show ?thesis using False d by (simp add: gc_run_def Let_def)
  next
    case (Cons m q')
    then show ?thesis using False d cmp one two three
      by (auto simp: gc_run_def Let_def not_less split: list.splits)
  qed
qed

lemma gc_scan_mono: "gc_scan (map uint (p :: u8 list)) c = Some t \<Longrightarrow> c \<le> t"
proof (induction p arbitrary: c rule: length_induct)
  case (1 p)
  show ?case
  proof (cases p)
    case Nil
    then show ?thesis using "1.prems" by simp
  next
    case (Cons byte q)
    then obtain n v p' where r: "gc_run p = Some (n, v, p')" "gc_scan (map uint p') (c + (uint n + 1)) = Some t"
      using "1.prems" gc_scan_run [of byte q c] by (auto split: option.splits)
    then have "c + (uint n + 1) \<le> t" using "1.IH" gc_run_length by blast
    then show ?thesis using uint_ge_0 [of n] by linarith
  qed
qed

lemma gc_lookup_beyond: "gc_scan (map uint p) c = Some t \<Longrightarrow> t - c \<le> x \<Longrightarrow> gc_lookup p x = None"
proof (induction p arbitrary: c x rule: length_induct)
  case (1 p)
  show ?case
  proof (cases p)
    case Nil
    then show ?thesis by (simp add: gc_lookup.simps)
  next
    case (Cons byte q)
    then obtain n v p' where r: "gc_run p = Some (n, v, p')" "gc_scan (map uint p') (c + (uint n + 1)) = Some t"
      using "1.prems" gc_scan_run [of byte q c] by (auto split: option.splits)
    have "c + (uint n + 1) \<le> t" by (rule gc_scan_mono [OF r(2)])
    moreover have "gc_lookup p' (x - (uint n + 1)) = None"
      using "1.IH" [rule_format, OF gc_run_length [OF r(1)] r(2)] "1.prems"(2) by simp
    ultimately show ?thesis using r(1) "1.prems"(2) Cons by (subst gc_lookup.simps) simp
  qed
qed

lemma gc_alternate_covers:
  assumes "cr_inv cr" "covers (cr_pts cr) (min c0 c) S" "uint c < 0xfffffffe" "c0 \<le> c + 1"
    "\<And>x. c0 \<le> x \<Longrightarrow> x < c \<Longrightarrow> S x = even (uint x - uint c0)"
  shows "covering cr c S (gc_alternate cr c0 c)"
  using assms
proof (induction "nat (uint c + 2 - uint c0)" arbitrary: cr c0 rule: less_induct)
  case less
  show ?case
  proof (cases "c0 < c")
    case False
    then show ?thesis using less.prems by (subst gc_alternate.simps) (auto simp: min_def not_less intro: cr_result_done split: if_splits)
  next
    case True
    have lt: "uint c0 < uint c" using True by (simp add: word_less_def)
    have u1: "uint (c0 + 1) = uint c0 + 1" using uint_Suc_lt [of c0] lt less.prems(3) by simp
    have u2: "uint (c0 + 2) = uint c0 + 2" using uint_add_lt [of c0 2] lt less.prems(3) by simp
    have uc: "uint (c + 1) = uint c + 1" using uint_Suc_lt [of c] less.prems(3) by simp
    have S1: "S x" if "c0 \<le> x" "x < c0 + 1" for x
    proof -
      have "uint x = uint c0" using that u1 by (simp add: word_le_def word_less_def)
      then show ?thesis using less.prems(5) [OF that(1)] lt by (simp add: word_less_def)
    qed
    have "min c0 c = c0" using less_imp_le [OF True] by (simp add: min_def)
    then have cov: "covers (cr_pts cr) c0 S" using less.prems(2) by simp
    have "c0 \<le> c0 + 1" using u1 by (simp add: word_le_def)
    then have a: "covering cr (c0 + 1) S (cr_add_interval cr c0 (c0 + 1))"
      by (rule add_covers [OF less.prems(1) cov _ S1])
    have next_ok: "covering cr' c S (gc_alternate cr' (c0 + 2) c)" if "cr_inv cr'" "covers (cr_pts cr') (c0 + 1) S" for cr'
    proof (rule less.hyps)
      show "nat (uint c + 2 - uint (c0 + 2)) < nat (uint c + 2 - uint c0)" using u2 lt by simp
      show "c0 + 2 \<le> c + 1" using u2 uc lt by (simp add: word_le_def)
      show "covers (cr_pts cr') (min (c0 + 2) c) S"
      proof (rule covers_skip [OF that(2)])
        show "c0 + 1 \<le> min (c0 + 2) c" using u1 u2 lt by (simp add: min_def word_le_def)
        fix x assume x: "c0 + 1 \<le> x" "x < min (c0 + 2) c"
        then have "uint x = uint c0 + 1" "x < c" using u1 u2 by (auto simp: min_def word_le_def word_less_def split: if_splits)
        moreover have "c0 \<le> x" using x(1) u1 by (simp add: word_le_def)
        ultimately show "\<not> S x" using less.prems(5) [of x] by simp
      qed
      show "S x = even (uint x - uint (c0 + 2))" if "c0 + 2 \<le> x" "x < c" for x
        using less.prems(5) [of x] that u2 by (simp add: word_le_def)
    qed (use that less.prems in auto)
    have "\<not> c0 \<ge> 0xfffffffe" using lt less.prems(3) by (simp add: word_le_def)
    then show ?thesis using True cr_result_bind [OF a next_ok] by (subst gc_alternate.simps) simp
  qed
qed

lemma gc_loop_covers:
  assumes "gc_scan (map uint p) (uint c0) = Some t" "t < 0xfffffffe" "cr_inv cr" "covers (cr_pts cr) c0 S"
    and "\<And>x. c0 \<le> x \<Longrightarrow> S x = gc_selected gc_mask (gc_lookup p (uint x - uint c0))"
  shows "covering cr (word_of_int t) S (gc_loop cr gc_mask p c0)"
  using assms
proof (induction p arbitrary: cr c0 rule: length_induct)
  case (1 p)
  note prems = "1.prems"
  show ?case
  proof (cases p)
    case Nil
    then show ?thesis using prems by (subst gc_loop.simps) (auto intro: cr_result_done)
  next
    case (Cons byte q)
    then obtain n v p' where r: "gc_run p = Some (n, v, p')" "gc_scan (map uint p') (uint c0 + (uint n + 1)) = Some t"
      using prems(1) gc_scan_run [of byte q "uint c0"] by (auto split: option.splits)
    define c where "c = c0 + (n + 1)"
    have t: "uint c0 + (uint n + 1) \<le> t" by (rule gc_scan_mono [OF r(2)])
    have un: "uint (n + 1) = uint n + 1" using uint_Suc_lt [of n] t prems(2) uint_ge_0 [of c0] by simp
    have uc: "uint c = uint c0 + (uint n + 1)" unfolding c_def using uint_add_lt [of c0 "n + 1"] un t prems(2) by simp
    have le: "c0 \<le> c" using uc by (simp add: word_le_def)
    have here: "S x = bit gc_mask (if v = 31 then if even (uint x - uint c0) then 1 else 2 else unat v)"
      if "c0 \<le> x" "x < c" for x
    proof -
      have "uint x - uint c0 \<le> uint n" using that(2) uc by (simp add: word_less_def)
      then have "gc_lookup p (uint x - uint c0) = Some (v, uint x - uint c0)"
        using r(1) Cons by (subst gc_lookup.simps) simp
      then show ?thesis
        using prems(5) [OF that(1)] by (simp add: gc_selected_def UNICODE_GC_Lu_def UNICODE_GC_Ll_def)
    qed
    have later: "S x = gc_selected gc_mask (gc_lookup p' (uint x - uint c))" if "c \<le> x" for x
    proof -
      have "\<not> uint x - uint c0 \<le> uint n" using that uc by (simp add: word_le_def)
      then have "gc_lookup p (uint x - uint c0) = gc_lookup p' (uint x - uint c0 - (uint n + 1))"
        using r(1) Cons by (subst gc_lookup.simps) simp
      moreover have "uint x - uint c0 - (uint n + 1) = uint x - uint c" using uc by simp
      ultimately show ?thesis using prems(5) [OF order_trans [OF le that]] by simp
    qed
    let ?b = "gc_mask AND (M UNICODE_GC_Lu OR M UNICODE_GC_Ll)"
    let ?add = "if v = 31 then ?b = (M UNICODE_GC_Lu OR M UNICODE_GC_Ll) else drop_bit (unat v) gc_mask AND 1 \<noteq> 0"
    let ?step = "if ?add then cr_add_interval cr c0 c
      else if v = 31 \<and> ?b \<noteq> 0 then gc_alternate cr (c0 + of_bool (gc_mask AND M UNICODE_GC_Ll \<noteq> 0)) c
      else Some (0, cr)"
    have ll: "(gc_mask AND M UNICODE_GC_Ll \<noteq> 0) = bit gc_mask 2"
      using and_M [of UNICODE_GC_Ll gc_mask] by (simp add: UNICODE_GC_Ll_def)
    have step: "covering cr c S ?step"
    proof (cases ?add)
      case True
      then have "S x" if "c0 \<le> x" "x < c" for x
        using here [OF that] by (auto simp: and_letters drop_bit_and_1 split: if_splits)
      then show ?thesis using True add_covers [OF prems(3,4) le] by simp
    next
      case noadd: False
      show ?thesis
      proof (cases "v = 31 \<and> ?b \<noteq> 0")
        case False
        then have "\<not> S x" if "c0 \<le> x" "x < c" for x
          using here [OF that] noadd by (auto simp: and_letters drop_bit_and_1 split: if_splits)
        then show ?thesis using noadd False covers_skip [OF prems(4) le] prems(3) by (auto intro: cr_result_done)
      next
        case True
        then have one: "v = 31" "bit gc_mask 1 \<noteq> bit gc_mask 2" using noadd by (auto simp: and_letters)
        let ?c0 = "c0 + of_bool (bit gc_mask 2)"
        have u0: "uint ?c0 = uint c0 + of_bool (bit gc_mask 2)"
          using uint_Suc_lt [of c0] t prems(2) uint_ge_0 [of n] by simp
        have le0: "c0 \<le> ?c0" "?c0 \<le> c" using u0 uc by (simp_all add: word_le_def)
        have "covering cr c S (gc_alternate cr ?c0 c)"
        proof (rule gc_alternate_covers [OF prems(3)])
          have "\<not> S x" if "c0 \<le> x" "x < ?c0" for x
          proof -
            have "uint c0 \<le> uint x" "uint x < uint c0 + of_bool (bit gc_mask 2)" using that u0 by (auto simp: word_le_def word_less_def)
            then have "uint x = uint c0" "bit gc_mask 2" by (cases "bit gc_mask 2"; simp)+
            then show ?thesis using here [OF that(1)] less_le_trans [OF that(2) le0(2)] one by simp
          qed
          then show "covers (cr_pts cr) (min ?c0 c) S"
            using covers_skip [OF prems(4) le0(1)] le0(2) by (simp add: min_def)
          show "uint c < 0xfffffffe" using uc t prems(2) by simp
          have "uint (c + 1) = uint c + 1" using uint_Suc_lt [of c] uc t prems(2) by simp
          then show "?c0 \<le> c + 1" using le0(2) by (simp add: word_le_def)
          show "S x = even (uint x - uint ?c0)" if "?c0 \<le> x" "x < c" for x
            using here [OF order_trans [OF le0(1) that(1)] that(2)] one u0 by auto
        qed
        then show ?thesis using noadd True ll by simp
      qed
    qed
    have rest: "covering cr' (word_of_int t) S (gc_loop cr' gc_mask p' c)" if "cr_inv cr'" "covers (cr_pts cr') c S" for cr'
      using "1.IH" [rule_format, OF gc_run_length [OF r(1)] _ prems(2) that later] r(2) uc by simp
    show ?thesis
      using cr_result_bind [OF step rest] r(1) Cons unfolding c_def
      by (subst gc_loop.simps) (simp add: Let_def cong: if_cong)
  qed
qed

lemma gc_scan_append: "gc_scan xs c = Some t \<Longrightarrow> gc_scan (xs @ ys) c = gc_scan ys t"
proof (induction xs c rule: gc_scan.induct)
  case (2 b p c)
  then show ?case
    by (auto simp: gc_scan.simps(2) [of b p] gc_scan.simps(2) [of b "p @ ys"] simp del: gc_scan.simps split: if_splits list.splits)
qed simp

fun gc_scan_rows :: "u8 list list \<Rightarrow> int \<Rightarrow> int option" where
  "gc_scan_rows [] c = Some c"
| "gc_scan_rows (r # rs) c = do { c \<leftarrow> gc_scan (map uint r) c; gc_scan_rows rs c }"

lemma gc_scan_rows_concat: "gc_scan_rows rows c = Some t \<Longrightarrow> gc_scan (map uint (concat rows)) c = Some t"
  by (induction rows arbitrary: c) (auto simp: gc_scan_append split: bind_splits)

lemma gc_table_part1: "gc_scan (map uint unicode_gc_table_1) 0x0 = Some 0x13f6"
  unfolding unicode_gc_table_1_def by (rule gc_scan_rows_concat) code_simp

lemma gc_table_part2: "gc_scan (map uint unicode_gc_table_2) 0x13f6 = Some 0xa730"
  unfolding unicode_gc_table_2_def by (rule gc_scan_rows_concat) code_simp

lemma gc_table_part3: "gc_scan (map uint unicode_gc_table_3) 0xa730 = Some 0x11644"
  unfolding unicode_gc_table_3_def by (rule gc_scan_rows_concat) code_simp

lemma gc_table_part4: "gc_scan (map uint unicode_gc_table_4) 0x11644 = Some 0x110000"
  unfolding unicode_gc_table_4_def by (rule gc_scan_rows_concat) code_simp

lemma gc_table_scan: "gc_scan (map uint unicode_gc_table) 0 = Some 0x110000"
  by (simp only: unicode_gc_table_def map_append gc_scan_append [OF gc_table_part1] gc_scan_append [OF gc_table_part2]
      gc_scan_append [OF gc_table_part3] gc_table_part4)

lemma unicode_general_category1_denotes:
  assumes "fresh cr"
  shows "cr_result cr (denotes (gc_member gc_mask)) (unicode_general_category1 cr gc_mask)"
proof -
  have cov: "covering cr (word_of_int 0x110000) (gc_member gc_mask) (gc_loop cr gc_mask unicode_gc_table 0)"
    by (rule gc_loop_covers) (use assms gc_table_scan covers_start in \<open>auto simp: fresh_def gc_member_def\<close>)
  have "\<not> gc_member gc_mask x" if "word_of_int 0x110000 \<le> x" for x
    using gc_lookup_beyond [OF gc_table_scan] that by (simp add: gc_member_def gc_selected_def word_le_def)
  then show ?thesis
    unfolding unicode_general_category1_def using cr_result_weaken [OF cov] covers_denotes by blast
qed

end
