(* ===== verification/Unicode_Prop_Case.thy ===== *)
theory Unicode_Prop_Case
  imports Unicode_Prop
begin

text \<open>
  The ranges of the properties Changes_When_Uppercased, Changes_When_Lowercased and
  Changes_When_Casemapped, which \<open>unicode_case1\<close> reads off the case conversion table, are compared with
  the conversion function \<open>lre_case_conv\<close> itself.
\<close>

section \<open>Which code points of a run a conversion changes\<close>

text \<open>\<open>t\<close> is the conversion (0 upper, 1 lower, 2 fold) and \<open>a\<close> the offset in the run.\<close>

fun run_moves :: "run_type \<Rightarrow> nat \<Rightarrow> int \<Rightarrow> bool" where
  "run_moves RUN_TYPE_U t a = (t = 0)"
| "run_moves RUN_TYPE_L t a = (t = 1)"
| "run_moves RUN_TYPE_UF t a = (t \<noteq> 1)"
| "run_moves RUN_TYPE_LF t a = (t \<noteq> 0)"
| "run_moves RUN_TYPE_UL t a = (even a = (t \<noteq> 0))"
| "run_moves RUN_TYPE_LSU t a = (a = 1 \<or> a = (if t = 0 then 2 else 0))"
| "run_moves RUN_TYPE_U2L_399_EXT2 t a = True"
| "run_moves RUN_TYPE_UF_D20 t a = (t \<noteq> 1)"
| "run_moves RUN_TYPE_UF_D1_EXT t a = (t \<noteq> 1)"
| "run_moves RUN_TYPE_U_EXT t a = (t = 0)"
| "run_moves RUN_TYPE_LF_EXT t a = (t \<noteq> 0)"
| "run_moves RUN_TYPE_U_EXT2 t a = (t = 0)"
| "run_moves RUN_TYPE_L_EXT2 t a = (t = 1)"
| "run_moves RUN_TYPE_U_EXT3 t a = (t = 0)"

text \<open>Two runs never start at the same code point.\<close>

lemma run_len_pos: "i < 361 \<Longrightarrow> 0 < uint (run_len (case_conv_table1 ! i))"
  using case_conv_checked [of i] by (simp add: run_check_def Let_def run_len_int)

lemma run_code_inj:
  assumes "i < 361" "j < 361" "i \<noteq> j"
  shows "run_code (case_conv_table1 ! i) \<noteq> run_code (case_conv_table1 ! j)"
proof -
  have "run_code (case_conv_table1 ! i) \<noteq> run_code (case_conv_table1 ! j)" if "i < j" "j < 361" for i j
    using case_conv_sorted [OF that] run_len_pos [of i] that by (auto simp: run_before_def)
  from this [of i j] this [of j i] assms show ?thesis by (cases i j rule: linorder_cases) auto
qed

lemma conv_ext_at:
  assumes "uint d < 58" obtains y where "conv_ext d = Some y" "uint y = ext_at (uint d)"
proof -
  have "int (unat d) < int 58" using assms by (simp only: uint_nat of_nat_numeral)
  then have "unat d < 58" by (rule of_nat_less_imp_less)
  then have "conv_ext d = Some (ucast (case_conv_ext ! unat d))" by (simp add: conv_ext_def rd_def)
  moreover have "uint (ucast (case_conv_ext ! unat d) :: u32) = ext_at (uint d)"
    by (simp add: ext_at_def uint_up_ucast is_up)
  ultimately show ?thesis using that by blast
qed

lemma shifted_neq: "(x :: u32) - code + code' = x \<longleftrightarrow> code' = code"
  by (simp add: algebra_simps)

lemma kind_cases:
  assumes "i < 361"
  shows "uint (run_kind (case_conv_table1 ! i)) \<in> {0, 1, 2, 3, 4, 5, 6, 7, 8, 9, 10, 11, 12, 13}"
proof -
  have "k \<in> {0, 1, 2, 3, 4, 5, 6, 7, 8, 9, 10, 11, 12, 13}" if "0 \<le> k" "k < 14" for k :: int
    using that by simp presburger
  moreover have "uint (run_kind (case_conv_table1 ! i)) < 14"
    using case_conv_checked [OF assms] unfolding run_check_def Let_def run_kind_int by (auto split: if_splits)
  ultimately show ?thesis using uint_ge_0 by blast
qed

lemma pair_swap:
  assumes "uint a = d"
  shows "((a AND 1 \<noteq> 1 - of_bool l) = (even d \<noteq> l)) \<and> (a XOR 1) \<noteq> (a :: u32)"
proof -
  have "odd a = odd d" using assms bit_uint_iff [of a 0] by (simp add: bit_0)
  then have "a AND 1 = of_bool (odd d)" by (simp add: and_one_eq mod_2_eq_odd)
  moreover have "bit (a XOR 1) 0 \<noteq> bit a 0" by (simp add: bit_xor_iff bit_1_iff)
  ultimately show ?thesis by (cases l; cases "even d"; force)
qed

lemma unat_less_uint: "uint (d :: u32) < int n \<Longrightarrow> unat d < n"
  by (simp only: uint_nat of_nat_less_iff)

lemma unat_neq_uint: "uint (d :: u32) \<noteq> int n \<Longrightarrow> unat d \<noteq> n"
  by (metis uint_nat)

lemma convert_changes:
  assumes i: "i < 361" and x: "in_run x (case_conv_table1 ! i)" and t: "t = 0 \<or> t = 1 \<or> t = (2 :: nat)"
  shows "(convert_in_run x (of_nat t) i \<noteq> Some [x]) =
    run_moves (run_type_of (run_kind (case_conv_table1 ! i))) t (uint x - uint (run_code (case_conv_table1 ! i)))"
proof -
  define v w where "v = case_conv_table1 ! i" and "w = case_conv_table2 ! i"
  define d code a where "d = run_data v w" and "code = run_code v" and "a = x - code"
  note c = case_conv_checked [OF i, unfolded run_check_def Let_def, folded v_def w_def, folded run_data_int run_kind_int
    run_len_int run_code_int, folded d_def code_def]
  have u: "uint code \<le> uint x" "uint x < uint code + uint (run_len v)" using x by (simp_all add: in_run_uint v_def code_def)
  have a: "uint a = uint x - uint code" unfolding a_def using uint_sub_const u(1) by blast
  have one: "x = code" if "uint (run_len v) = 1" using that u by (simp add: word_uint_eq_iff)
  have conv: "convert_in_run x (of_nat t) i = case_conv_run x (of_nat t) code (run_type_of (run_kind v)) (run_kind v) d"
    by (simp add: convert_in_run_def Let_def v_def w_def d_def code_def run_data_def)
  have tgt: "\<exists>y. rd case_conv_table1 (unat d) = Some y \<and> run_code y \<noteq> code" if "uint d \<noteq> int i" "uint d < 361"
    using run_code_inj [OF unat_less_uint i unat_neq_uint] unat_less_uint [of d 361] that by (simp add: rd_def code_def v_def)
  have e58: "\<exists>y. conv_ext e = Some y \<and> uint y = ext_at (uint e)" if "uint e < 58" for e
    using conv_ext_at [OF that] by metis
  have three: "uint x - uint code = 0 \<or> uint x - uint code = 1 \<or> uint x - uint code = 2" if "uint (run_len v) = 3"
    using that u by presburger
  have swap: "(a XOR 1) + code \<noteq> x"
    using pair_swap [OF a] by (metis a_def add_diff_cancel_right' eq_diff_eq)
  consider (low) "uint (run_kind v) \<in> {0, 1, 2, 3}" | (alt) "uint (run_kind v) = 4" | (lsu) "uint (run_kind v) = 5"
    | (ext) "uint (run_kind v) \<in> {6, 7, 8, 9, 10}" | (many) "uint (run_kind v) \<in> {11, 12, 13}"
    using kind_cases [OF i] unfolding v_def [symmetric] by blast
  then have "(case_conv_run x (of_nat t) code (run_type_of (run_kind v)) (run_kind v) d \<noteq> Some [x]) =
    run_moves (run_type_of (run_kind v)) t (uint x - uint code)"
  proof cases
    case low
    then have "uint d \<noteq> int i" "uint d < 361" using c by auto
    then obtain y where "rd case_conv_table1 (unat d) = Some y" "run_code y \<noteq> code" using tgt by blast
    moreover have "run_kind v \<in> {0, 1, 2, 3}" using low by (auto simp: word_uint_eq_iff)
    ultimately show ?thesis using t
      by (elim insertE emptyE disjE) (simp_all add: run_type_of_def case_conv_run_def shifted_neq word_le_def)
  next
    case alt
    show ?thesis
      using alt t swap pair_swap [OF a, of False] pair_swap [OF a, of True]
      by (elim disjE) (auto simp: run_type_of_kind case_conv_run_def a_def [symmetric])
  next
    case lsu
    then have len: "uint (run_len v) = 3" using c by simp
    have a': "(a = 1) = (uint x - uint code = 1)" "(a = 0) = (uint x - uint code = 0)" "(a = 2) = (uint x - uint code = 2)"
      using a by (simp_all add: word_uint_eq_iff)
    have "x - 1 \<noteq> x" "x + 1 \<noteq> x" "x - 2 \<noteq> x" "x + 2 \<noteq> x" by (simp_all add: algebra_simps)
    then show ?thesis
      using lsu t three [OF len] by (elim disjE) (simp_all add: run_type_of_kind case_conv_run_def a_def [symmetric] a')
  next
    case ext
    have "uint d < 4096" using uint_lt2p [of w] pos_mod_bound [of 16 "uint v"] by (simp add: d_def run_data_int)
    then have "uint (d + 32) = uint d + 32" using uint_add_lt [of d 32] by simp
    moreover have "uint (y + 1) = ext_at e + 1" if "uint y = ext_at e" for y :: u32 and e
      using uint_Suc_lt [of y] that uint_lt2p [of "case_conv_ext ! nat e"] by (simp add: ext_at_def)
    ultimately show ?thesis
      using ext t c e58 [of d] e58 [of "drop_bit 6 d"] e58 [of "d AND 0x3f"] one
      by (elim insertE emptyE disjE) (auto simp: run_type_of_kind case_conv_run_def data_parts shifted_neq)
  next
    case many
    have "\<exists>y. conv_ext (e AND 0xf) = Some y" for e using conv_ext_ok [OF nibble_lt] by blast
    then obtain y1 y2 where "conv_ext (drop_bit 4 d AND 0xf) = Some y1" "conv_ext (d AND 0xf) = Some y2" by meson
    moreover have "uint d div 256 < 58" using uint_lt2p [of w] pos_mod_bound [of 16 "uint v"] by (simp add: d_def run_data_int)
    ultimately show ?thesis
      using many t c e58 [of "drop_bit 8 d"] e58 [of "drop_bit 6 d"] e58 [of "d AND 0x3f"]
      by (elim insertE emptyE disjE) (auto simp: run_type_of_kind case_conv_run_def data_parts)
  qed
  then show ?thesis using conv by (simp add: v_def code_def)
qed

section \<open>Which code points a conversion changes\<close>

definition changes :: "nat \<Rightarrow> u32 \<Rightarrow> bool" where
  "changes t x \<longleftrightarrow> lre_case_conv x (of_nat t) \<noteq> Some [x]"

lemma first_runs:
  "case_conv_table1 ! 0 = 0x00209a30" "case_conv_table1 ! 1 = 0x00309a00" "case_conv_table1 ! 2 = 0x005a8173"
  by (simp_all add: case_conv_table1_def)

lemma first_runs_ascii:
  "in_run x (case_conv_table1 ! 0) \<longleftrightarrow> 65 \<le> uint x \<and> uint x < 91"
  "in_run x (case_conv_table1 ! 1) \<longleftrightarrow> 97 \<le> uint x \<and> uint x < 123"
  by (simp_all add: first_runs [simplified] in_run_uint run_code_int run_len_int)

lemma ascii_run:
  assumes "i < 361" "in_run x (case_conv_table1 ! i)" "x < 128"
  shows "i = 0 \<or> i = 1"
proof (rule ccontr)
  assume "\<not> ?thesis"
  then have "2 \<le> i" by simp
  then have "uint (run_code (case_conv_table1 ! 2)) \<le> uint (run_code (case_conv_table1 ! i))"
    using run_before_code [OF case_conv_sorted [of 2 i]] assms(1) by (cases "i = 2") auto
  then show False using assms(2,3) by (simp add: first_runs run_code_int in_run_uint word_less_def)
qed

lemma find_run_in: "i < 361 \<Longrightarrow> in_run x (case_conv_table1 ! i) \<Longrightarrow> find_run x = Some i"
  using in_run_unique by (cases "find_run x") (auto simp: find_run_def find_None_iff find_Some_iff simp del: upt_rec_numeral)

lemma changes_run:
  assumes "i < 361" "in_run x (case_conv_table1 ! i)" "t = 0 \<or> t = 1 \<or> t = 2"
  shows "changes t x = run_moves (run_type_of (run_kind (case_conv_table1 ! i))) t (uint x - uint (run_code (case_conv_table1 ! i)))"
proof (cases "x < 128")
  case True
  then have i: "i = 0 \<or> i = 1" using ascii_run assms by blast
  have "x - 65 + 97 \<noteq> x" "x - 97 + 65 \<noteq> x" using shifted_neq [of x 65 97] shifted_neq [of x 97 65] by (simp_all only: word_uint_eq_iff) simp_all
  then show ?thesis
    using i assms(2,3) True
    by (elim disjE) (simp_all add: in_run_uint run_code_int run_len_int changes_def lre_case_conv_def run_type_of_kind run_kind_int
        first_runs [simplified] word_le_def)
next
  case False
  then show ?thesis
    using convert_changes [OF assms] find_run_in [OF assms(1,2)] by (simp add: changes_def lre_case_conv_find not_less)
qed

lemma changes_outside:
  assumes "\<And>i. i < 361 \<Longrightarrow> \<not> in_run x (case_conv_table1 ! i)"
  shows "\<not> changes t x"
proof (cases "x < 128")
  case True
  then show ?thesis
    using assms [of 0] assms [of 1] by (simp add: first_runs_ascii [simplified] changes_def lre_case_conv_def word_le_def) linarith
next
  case False
  have "find_run x = None" using assms by (auto simp: find_run_def find_None_iff simp del: upt_rec_numeral)
  then show ?thesis using False by (simp add: changes_def lre_case_conv_find not_less)
qed

section \<open>The loop over the runs\<close>

text \<open>The code points that one of the selected conversions changes.\<close>

definition changes_any :: "u32 \<Rightarrow> u32 \<Rightarrow> bool" where
  "changes_any case_mask x \<longleftrightarrow>
     bit case_mask 0 \<and> changes 0 x \<or> bit case_mask 1 \<and> changes 1 x \<or> bit case_mask 2 \<and> changes 2 x"

definition movable :: "run_type \<Rightarrow> nat \<Rightarrow> bool" where
  "movable type t \<longleftrightarrow> run_moves type t 0 \<or> run_moves type t 1"

lemma run_moves_movable: "run_moves type t a \<Longrightarrow> movable type t"
  by (cases type) (auto simp: movable_def)

lemma run_moves_const: "type \<noteq> RUN_TYPE_UL \<Longrightarrow> type \<noteq> RUN_TYPE_LSU \<Longrightarrow> run_moves type t a = movable type t"
  by (cases type) (auto simp: movable_def)

definition selected :: "u32 \<Rightarrow> run_type \<Rightarrow> bool" where
  "selected case_mask type \<longleftrightarrow>
     bit case_mask 0 \<and> movable type 0 \<or> bit case_mask 1 \<and> movable type 1 \<or> bit case_mask 2 \<and> movable type 2"

lemma run_mask_table:
  "list_all (\<lambda>m. list_all (\<lambda>k.
     (drop_bit (unat k) (case_mask_loop tab_run_mask 0 m 0) AND 1 \<noteq> 0) = selected m (run_type_of k))
     [0, 1, 2, 3, 4, 5, 6, 7, 8, 9, 10, 11, 12, 13]) [1, 2, 3, 4, 5, 6, 7]"
  by code_simp

lemma mask_bits:
  assumes "case_mask \<in> {1, 2, 3, 4, 5, 6, 7}"
  shows "(case_mask AND CASE_U = 0) = (\<not> bit case_mask 0)"
    "(case_mask AND (CASE_L OR CASE_F) = 0) = (\<not> bit case_mask 1 \<and> \<not> bit case_mask 2)"
    "bit case_mask 0 \<or> bit case_mask 1 \<or> bit case_mask 2"
  using assms by (auto simp: CASE_U_def CASE_L_def CASE_F_def)

lemma run_selected:
  assumes "case_mask \<in> {1, 2, 3, 4, 5, 6, 7}" "i < 361"
  shows "(drop_bit (unat (run_kind (case_conv_table1 ! i))) (case_mask_loop tab_run_mask 0 case_mask 0) AND 1 = 0) =
    (\<not> selected case_mask (run_type_of (run_kind (case_conv_table1 ! i))))"
proof -
  have "run_kind (case_conv_table1 ! i) \<in> {0, 1, 2, 3, 4, 5, 6, 7, 8, 9, 10, 11, 12, 13}"
    using kind_cases [OF assms(2)] by (auto simp: word_uint_eq_iff)
  with run_mask_table assms(1) show ?thesis unfolding list_all_iff by (metis list.set)
qed

lemma uint_plus_nat: "uint (c :: u32) + int n < 2 ^ 32 \<Longrightarrow> uint (c + of_nat n) = uint c + int n"
proof -
  assume h: "uint c + int n < 2 ^ 32"
  then have "int n < 2 ^ 32" using uint_ge_0 [of c] by linarith
  then have "n < 2 ^ 32" by simp
  then have "uint (of_nat n :: u32) = int n" by (simp add: unsigned_of_nat take_bit_nat_eq_self)
  then show ?thesis using uint_add_lt [of c "of_nat n"] h by simp
qed

lemma case_ul_alternate:
  assumes "uint code + int len < 0xfffffffe" "even i" "even len" "i \<le> len"
  shows "case_ul_loop cr (code + of_bool u) i len = gc_alternate cr (code + of_bool u + of_nat i) (code + of_nat len)"
  using assms
proof (induction "len - i" arbitrary: cr i rule: less_induct)
  case less
  have e: "uint (code + of_nat len) = uint code + int len" using uint_plus_nat less.prems(1) by simp
  have b: "uint (code + of_bool u) = uint code + of_bool u"
    using uint_Suc_lt [of code] less.prems(1) by simp
  have s: "uint (code + of_bool u + of_nat i) = uint code + of_bool u + int i"
    using uint_plus_nat [of "code + of_bool u" i] b less.prems(1,4) by (simp split: if_splits)
  show ?case
  proof (cases "i < len")
    case True
    then have i: "i + 2 \<le> len" "even (i + 2)" using less.prems by auto presburger
    have "gc_alternate cr' (code + of_bool u + of_nat i + 2) (code + of_nat len) = case_ul_loop cr' (code + of_bool u) (i + 2) len" for cr'
      using less.hyps [of "i + 2" cr'] i True less.prems by (simp add: algebra_simps)
    moreover have "code + of_bool u + of_nat i < code + of_nat len" "\<not> 0xfffffffe \<le> code + of_bool u + of_nat i"
      using s e i less.prems(1) by (auto simp: word_less_def word_le_def not_le)
    ultimately show ?thesis
      using True by (subst case_ul_loop.simps, subst gc_alternate.simps) (simp cong: if_cong)
  next
    case False
    then have "\<not> code + of_bool u + of_nat i < code + of_nat len" using s e by (simp add: word_less_def)
    then show ?thesis using False by (subst case_ul_loop.simps, subst gc_alternate.simps) simp
  qed
qed

lemma case_lsu_covers:
  assumes "cr_inv cr" "covers (cr_pts cr) code S" "uint code < 0x20000"
    and S: "\<And>x. code \<le> x \<Longrightarrow> x < code + 3 \<Longrightarrow> S x = (uint x - uint code = 1 \<or> uint x - uint code = (if u then 2 else 0))"
    and u: "(case_mask AND CASE_U = 0) = (\<not> u)"
  shows "covering cr (code + 3) S (case_lsu cr case_mask code)"
proof -
  have n: "uint (code + 1) = uint code + 1" "uint (code + 2) = uint code + 2" "uint (code + 3) = uint code + 3"
    using uint_add_lt [of code 1] uint_add_lt [of code 2] uint_add_lt [of code 3] assms(3) by simp_all
  have le: "code \<le> code + 1" "code + 1 \<le> code + 2" "code + 2 \<le> code + 3" using n by (simp_all add: word_le_def)
  have at: "S x = (uint x - uint code = 1 \<or> uint x - uint code = (if u then 2 else 0))"
    if "uint code \<le> uint x" "uint x < uint code + 3" for x
    using S that n by (simp add: word_le_def word_less_def)
  have first: "covering cr (code + 1) S (if case_mask AND CASE_U = 0 then cr_add_interval cr code (code + 1) else Some (0, cr))"
  proof (cases u)
    case True
    have "\<not> S x" if "code \<le> x" "x < code + 1" for x
      using at [of x] that n True by (simp add: word_le_def word_less_def)
    then show ?thesis using True u covers_skip [OF assms(2) le(1)] assms(1) by (auto intro: cr_result_done)
  next
    case False
    have "S x" if "code \<le> x" "x < code + 1" for x
      using at [of x] that n False by (simp add: word_le_def word_less_def)
    then show ?thesis using False u add_covers [OF assms(1,2) le(1)] by simp
  qed
  have second: "covering cr' (code + 2) S (cr_add_interval cr' (code + 1) (code + 2))"
    if "cr_inv cr'" "covers (cr_pts cr') (code + 1) S" for cr'
  proof (rule add_covers [OF that le(2)])
    show "S x" if "code + 1 \<le> x" "x < code + 2" for x
      using at [of x] that n by (simp add: word_le_def word_less_def)
  qed
  have third: "covering cr' (code + 3) S (if case_mask AND CASE_U \<noteq> 0 then do {
      (r, cr'') \<leftarrow> cr_add_interval cr' (code + 2) (code + 3); Some (if r \<noteq> 0 then -1 else 0, cr'') } else Some (0, cr'))"
    if "cr_inv cr'" "covers (cr_pts cr') (code + 2) S" for cr'
  proof (cases u)
    case True
    have "S x" if "code + 2 \<le> x" "x < code + 3" for x
      using at [of x] that n True by (simp add: word_le_def word_less_def)
    from add_covers [OF that le(3) this] True u show ?thesis by (auto simp: cr_result_def)
  next
    case False
    have "\<not> S x" if "code + 2 \<le> x" "x < code + 3" for x
      using at [of x] that n False by (simp add: word_le_def word_less_def)
    then show ?thesis using False u covers_skip [OF that(2) le(3)] that(1) by (auto intro: cr_result_done)
  qed
  show ?thesis
    using cr_result_bind [OF first cr_result_bind [OF second third]] unfolding case_lsu_def by (simp cong: if_cong)
qed

lemma run_shape:
  assumes "i < 361"
  shows "run_type_of (run_kind (case_conv_table1 ! i)) = RUN_TYPE_UL \<Longrightarrow> even (uint (run_len (case_conv_table1 ! i)))"
    and "run_type_of (run_kind (case_conv_table1 ! i)) = RUN_TYPE_LSU \<Longrightarrow> run_len (case_conv_table1 ! i) = 3"
  using case_conv_checked [OF assms] unfolding run_check_def Let_def run_type_of_kind
  by (auto simp: run_kind_int [symmetric] run_len_int [symmetric] word_uint_eq_iff split: if_splits)

lemma case_run_covers:
  assumes m: "case_mask \<in> {1, 2, 3, 4, 5, 6, 7}" and i: "i < 361" and v: "v = case_conv_table1 ! i"
    and cr: "cr_inv cr" "covers (cr_pts cr) (run_code v) (changes_any case_mask)"
  shows "covering cr (run_code v + run_len v) (changes_any case_mask)
    (case_run cr case_mask (case_mask_loop tab_run_mask 0 case_mask 0) v)"
proof -
  let ?S = "changes_any case_mask" and ?code = "run_code v" and ?type = "run_type_of (run_kind v)"
  note bits = mask_bits [OF m]
  have le: "?code \<le> ?code + run_len v" by (simp add: word_le_def uint_run_end)
  have S: "?S x = (bit case_mask 0 \<and> run_moves ?type 0 (uint x - uint ?code) \<or>
      bit case_mask 1 \<and> run_moves ?type 1 (uint x - uint ?code) \<or> bit case_mask 2 \<and> run_moves ?type 2 (uint x - uint ?code))"
    if "?code \<le> x" "x < ?code + run_len v" for x
    using changes_run [OF i, of x] that unfolding changes_any_def in_run_def v by simp
  show ?thesis
  proof (cases "selected case_mask ?type")
    case False
    then have "\<not> ?S x" if "?code \<le> x" "x < ?code + run_len v" for x
      using S [OF that] run_moves_movable by (auto simp: selected_def)
    then have "covers (cr_pts cr) (?code + run_len v) ?S" using covers_skip [OF cr(2) le] by blast
    then show ?thesis using False run_selected [OF m i] cr(1) by (auto simp: case_run_def v intro: cr_result_done)
  next
    case sel: True
    let ?both = "bit case_mask 0 \<and> (bit case_mask 1 \<or> bit case_mask 2)"
    have c: "uint ?code + uint (run_len v) < 0x20080" using run_code_bound [of v] run_len_bound [of v] by simp
    consider (ul) "?type = RUN_TYPE_UL" "\<not> ?both" | (lsu) "?type = RUN_TYPE_LSU" "\<not> ?both"
      | (all) "?type \<noteq> RUN_TYPE_UL \<and> ?type \<noteq> RUN_TYPE_LSU \<or> ?both" by blast
    then show ?thesis
    proof cases
      case ul
      define u where "u = bit case_mask 0"
      let ?c0 = "?code + of_bool u"
      have u0: "uint ?c0 = uint ?code + of_bool u" using uint_Suc_lt [of ?code] c uint_ge_0 [of "run_len v"] by simp
      have alt: "?S x = even (uint x - uint ?c0)" if "?code \<le> x" "x < ?code + run_len v" for x
        using S [OF that] ul u0 bits(3) unfolding u_def by auto
      have "even (uint (run_len v))" using run_shape(1) [OF i] ul(1) by (simp add: v)
      then have "even (unat (run_len v))" by (metis even_of_nat uint_nat)
      then have len: "even (unat (run_len v))" "0 < uint (run_len v)" using run_len_pos [OF i] by (simp_all add: v)
      have le0: "?code \<le> ?c0" "?c0 \<le> ?code + run_len v" using u0 len(2) by (auto simp: word_le_def uint_run_end)
      have "covering cr (?code + run_len v) ?S (gc_alternate cr ?c0 (?code + run_len v))"
      proof (rule gc_alternate_covers [OF cr(1)])
        have "\<not> ?S x" if "?code \<le> x" "x < ?c0" for x
        proof -
          have "uint x - uint ?c0 = - 1" using that u0 by (cases u) (auto simp: word_le_def word_less_def)
          then show ?thesis using alt [OF that(1) less_le_trans [OF that(2) le0(2)]] by simp
        qed
        then show "covers (cr_pts cr) (min ?c0 (?code + run_len v)) ?S"
          using covers_skip [OF cr(2) le0(1)] le0(2) by (simp add: min_def)
        show "uint (?code + run_len v) < 0xfffffffe" using c by (simp add: uint_run_end)
        have "uint (?code + run_len v + 1) = uint (?code + run_len v) + 1" using uint_Suc_lt c by (simp add: uint_run_end)
        then show "?c0 \<le> ?code + run_len v + 1" using le0(2) by (simp add: word_le_def)
        show "?S x = even (uint x - uint ?c0)" if "?c0 \<le> x" "x < ?code + run_len v" for x
          using alt order_trans [OF le0(1) that(1)] that(2) by blast
      qed
      moreover have "uint ?code + int (unat (run_len v)) < 0xfffffffe" using c by simp
      ultimately show ?thesis
        using case_ul_alternate [of ?code "unat (run_len v)" 0 cr u] len(1) ul sel run_selected [OF m i] bits
        by (simp add: case_run_def v u_def)
    next
      case lsu
      have len: "run_len v = 3" using run_shape(2) [OF i] lsu(1) by (simp add: v)
      have "covering cr (?code + 3) ?S (case_lsu cr case_mask ?code)"
      proof (rule case_lsu_covers [OF cr, where u = "bit case_mask 0"])
        show "uint ?code < 0x20000" using run_code_bound [of v] by simp
        show "?S x = (uint x - uint ?code = 1 \<or> uint x - uint ?code = (if bit case_mask 0 then 2 else 0))"
          if "?code \<le> x" "x < ?code + 3" for x
          using S [of x] that len lsu bits(3) by auto
      qed (use bits in auto)
      then show ?thesis using len lsu sel run_selected [OF m i] bits by (simp add: case_run_def v)
    next
      case all
      have "?S x" if "?code \<le> x" "x < ?code + run_len v" for x
      proof (cases "?type = RUN_TYPE_UL \<or> ?type = RUN_TYPE_LSU")
        case False
        then show ?thesis using S [OF that] sel run_moves_const by (simp add: selected_def)
      next
        case True
        have "uint ?code \<le> uint x" "uint x < uint ?code + uint (run_len v)"
          using that by (simp_all add: word_le_def word_less_def uint_run_end)
        moreover have "?type = RUN_TYPE_LSU \<Longrightarrow> uint (run_len v) = 3" using run_shape(2) [OF i] by (simp add: v)
        ultimately show ?thesis using S [OF that] True all by auto
      qed
      then have "covering cr (?code + run_len v) ?S (cr_add_interval cr ?code (?code + run_len v))"
        using add_covers [OF cr le] by blast
      then have "covering cr (?code + run_len v) ?S
          (do { (r, cr) \<leftarrow> cr_add_interval cr ?code (?code + run_len v); Some (if r \<noteq> 0 then -1 else 0, cr) })"
        by (auto simp: cr_result_def)
      then show ?thesis using all sel run_selected [OF m i] bits by (auto simp: case_run_def v Let_def)
    qed
  qed
qed

lemma between_runs:
  assumes "i < 361" "\<And>j. j < i \<Longrightarrow> run_code (case_conv_table1 ! j) + run_len (case_conv_table1 ! j) \<le> x" "x < run_code (case_conv_table1 ! i)"
  shows "\<not> changes_any case_mask x"
proof -
  have "\<not> in_run x (case_conv_table1 ! j)" if "j < 361" for j
  proof (cases "j < i")
    case True
    then show ?thesis using assms(2) by (auto simp: in_run_def not_less)
  next
    case False
    then have "uint (run_code (case_conv_table1 ! i)) \<le> uint (run_code (case_conv_table1 ! j))"
      using run_before_code [OF case_conv_sorted [of i j]] that by (cases "i = j") auto
    then show ?thesis using assms(3) by (simp add: in_run_uint word_less_def)
  qed
  then show ?thesis using changes_outside by (simp add: changes_any_def)
qed

text \<open>Everything below \<open>c\<close> has been read when the runs before the index \<open>i\<close> end at \<open>c\<close> or before.\<close>

lemma case_loop_covers:
  assumes m: "case_mask \<in> {1, 2, 3, 4, 5, 6, 7}" and "i \<le> 361" "cr_inv cr" "covers (cr_pts cr) c (changes_any case_mask)"
    and "\<And>j. j < i \<Longrightarrow> run_code (case_conv_table1 ! j) + run_len (case_conv_table1 ! j) \<le> c"
    and "\<And>j. i \<le> j \<Longrightarrow> j < 361 \<Longrightarrow> c \<le> run_code (case_conv_table1 ! j)"
  shows "cr_result cr (denotes (changes_any case_mask))
    (case_loop cr case_mask (case_mask_loop tab_run_mask 0 case_mask 0) (drop i case_conv_table1))"
  using assms(2-)
proof (induction "361 - i" arbitrary: i cr c)
  case 0
  have "\<not> changes_any case_mask x" if "c \<le> x" for x
  proof -
    have "\<not> in_run x (case_conv_table1 ! j)" if "j < 361" for j
      using 0(5) [of j] 0(1,2) that order_trans [OF _ \<open>c \<le> x\<close>] by (auto simp: in_run_def not_less)
    then show ?thesis using changes_outside by (simp add: changes_any_def)
  qed
  then have "denotes (changes_any case_mask) (cr_pts cr)" using covers_denotes [OF 0(4)] by blast
  then show ?case using 0 by (auto intro: cr_result_done)
next
  case (Suc n)
  let ?v = "case_conv_table1 ! i" and ?S = "changes_any case_mask"
  have i: "i < 361" using Suc(2) by simp
  have "\<not> ?S x" if "c \<le> x" "x < run_code ?v" for x
    by (rule between_runs [OF i _ that(2)]) (rule order_trans [OF Suc.prems(4) that(1)])
  then have "covers (cr_pts cr) (run_code ?v) ?S"
    using covers_skip [OF Suc.prems(3)] Suc.prems(5) [OF _ i] by blast
  from case_run_covers [OF m i refl Suc.prems(2) this]
  have step: "covering cr (run_code ?v + run_len ?v) ?S (case_run cr case_mask (case_mask_loop tab_run_mask 0 case_mask 0) ?v)" .
  have le: "run_code (case_conv_table1 ! j) + run_len (case_conv_table1 ! j) \<le> run_code (case_conv_table1 ! k)"
    if "j < k" "k < 361" for j k
    using case_conv_sorted [OF that] by (simp add: run_before_def word_le_def uint_run_end)
  have le': "run_code (case_conv_table1 ! j) + run_len (case_conv_table1 ! j) \<le> run_code ?v + run_len ?v" if "j < Suc i" for j
  proof (cases "j = i")
    case False
    then have "run_code (case_conv_table1 ! j) + run_len (case_conv_table1 ! j) \<le> run_code ?v" using le [of j i] that i by simp
    then show ?thesis by (simp add: word_le_def uint_run_end) (use uint_ge_0 [of "run_len ?v"] in linarith)
  qed simp
  have rest: "cr_result cr' (denotes ?S)
      (case_loop cr' case_mask (case_mask_loop tab_run_mask 0 case_mask 0) (drop (Suc i) case_conv_table1))"
    if "cr_inv cr'" "covers (cr_pts cr') (run_code ?v + run_len ?v) ?S" for cr'
    using Suc(1) [of "Suc i" cr', OF _ _ that le'] Suc(2) i le [of i] by simp
  have "drop i case_conv_table1 = ?v # drop (Suc i) case_conv_table1" using Cons_nth_drop_Suc [of i case_conv_table1] i by simp
  then show ?case using cr_result_bind [OF step rest] by simp
qed

lemma unicode_case1_denotes:
  assumes "fresh cr" "case_mask \<in> {1, 2, 3, 4, 5, 6, 7}"
  shows "cr_result cr (denotes (changes_any case_mask)) (unicode_case1 cr case_mask)"
proof -
  have "case_mask \<noteq> 0" using assms(2) by auto
  then show ?thesis
    using case_loop_covers [OF assms(2), of 0 cr 0] assms(1) covers_start by (simp add: fresh_def unicode_case1_def)
qed

section \<open>Properties\<close>

text \<open>C13: for every combination of conversions, \<open>unicode_case1\<close> fills an empty range with exactly the code
  points that \<open>lre_case_conv\<close> changes under one of the selected conversions (upper case, lower case, case
  folding): both routines read the same table in different ways and agree on all of it. The
  function fails only when memory is refused. The code point 0xffffffff cannot be a member of a
  range and is left out.\<close>

theorem unicode_case1_equals_conversion:
  assumes "fresh cr" "case_mask \<in> {1, 2, 3, 4, 5, 6, 7}"
  shows "cr_result cr (denotes (\<lambda>x.
      case_mask AND CASE_U \<noteq> 0 \<and> lre_case_conv x 0 \<noteq> Some [x] \<or>
      case_mask AND CASE_L \<noteq> 0 \<and> lre_case_conv x 1 \<noteq> Some [x] \<or>
      case_mask AND CASE_F \<noteq> 0 \<and> lre_case_conv x 2 \<noteq> Some [x])) (unicode_case1 cr case_mask)"
proof -
  have "(case_mask AND CASE_L = 0) = (\<not> bit case_mask 1)" "(case_mask AND CASE_F = 0) = (\<not> bit case_mask 2)"
    using assms(2) by (auto simp: CASE_L_def CASE_F_def)
  then have "changes_any case_mask = (\<lambda>x.
      case_mask AND CASE_U \<noteq> 0 \<and> lre_case_conv x 0 \<noteq> Some [x] \<or>
      case_mask AND CASE_L \<noteq> 0 \<and> lre_case_conv x 1 \<noteq> Some [x] \<or>
      case_mask AND CASE_F \<noteq> 0 \<and> lre_case_conv x 2 \<noteq> Some [x])"
    using mask_bits(1) [OF assms(2)] by (simp add: fun_eq_iff changes_any_def changes_def)
  then show ?thesis using unicode_case1_denotes [OF assms] by simp
qed

theorem unicode_case1_equals_conversion_witness:
  "cr_result (cr_init (\<lambda>_. True)) (denotes (\<lambda>x.
      CASE_U AND CASE_U \<noteq> 0 \<and> lre_case_conv x 0 \<noteq> Some [x] \<or>
      CASE_U AND CASE_L \<noteq> 0 \<and> lre_case_conv x 1 \<noteq> Some [x] \<or>
      CASE_U AND CASE_F \<noteq> 0 \<and> lre_case_conv x 2 \<noteq> Some [x])) (unicode_case1 (cr_init (\<lambda>_. True)) CASE_U)"
  by (rule unicode_case1_equals_conversion) (simp_all add: fresh_def CASE_U_def)

end
