(* ===== verification/Unicode_Prop_Correct.thy ===== *)
theory Unicode_Prop_Correct
  imports Unicode_Prop_Case
begin

text \<open>
  What the functions of \<open>Unicode_Prop\<close> compute: the search in the tables of names finds the first entry
  with the name among its aliases, and the stack machine of \<open>unicode_prop_ops\<close> computes the set
  operations its arguments spell, so that \<open>unicode_prop\<close> yields the sets that the property names stand
  for.
\<close>

section \<open>Tables of names\<close>

text \<open>An entry lists its aliases separated by commas (code 44).\<close>

function aliases :: "u8 list \<Rightarrow> u8 list list" where
  "aliases e = takeWhile (\<lambda>c. c \<noteq> 44) e # (if 44 \<in> set e then aliases (tl (dropWhile (\<lambda>c. c \<noteq> 44) e)) else [])"
  by pat_completeness auto
termination
proof (relation "measure length", goal_cases)
  case (2 e)
  then have "dropWhile (\<lambda>c. c \<noteq> 44) e \<noteq> []" by (simp add: dropWhile_eq_Nil_conv)
  moreover have "length (dropWhile (\<lambda>c. c \<noteq> 44) e) \<le> length e" by (rule length_dropWhile_le)
  ultimately show ?case by (cases "dropWhile (\<lambda>c. c \<noteq> 44) e") auto
qed simp

declare aliases.simps [simp del]

definition name_entries :: "u8 list list \<Rightarrow> u8 list" where
  "name_entries es = concat (map (\<lambda>e. e @ [0]) es) @ [0]"

lemma name_table_entries: "name_table ns = name_entries (map (map of_char) ns)"
  by (simp add: name_table_def name_entries_def comp_def)

lemma strlen_append: "0 \<notin> set e \<Longrightarrow> strlen (e @ 0 # rest) = Some (length e)"
  by (simp add: strlen_def)

text \<open>One round of the inner loop, for an entry that does not start with a terminator or that the inner
  loop goes on with.\<close>

lemma name_search_entry:
  assumes "0 \<notin> set e" "inner \<or> e \<noteq> []" "0 \<notin> set key"
  shows "name_search inner (e @ 0 # rest) (key @ 0 # mem) (length key) pos =
    (if key \<in> set (aliases e) then Some pos else name_search False rest (key @ 0 # mem) (length key) (pos + 1))"
  using assms(1,2)
proof (induction e arbitrary: inner rule: length_induct)
  case (1 e)
  let ?name = "key @ 0 # mem" and ?p = "e @ 0 # rest" and ?w = "takeWhile (\<lambda>c. c \<noteq> 44) e"
  have c: "\<exists>c. rd ?p 0 = Some c \<and> (c = 0 \<longrightarrow> inner)"
    using "1.prems" by (cases e) (auto simp: rd_def)
  have len: "strlen ?p = Some (length e)" by (rule strlen_append [OF "1.prems"(1)])
  have tw: "takeWhile (\<lambda>c. c \<noteq> 44) ?p = ?w" if "44 \<in> set e" using that by (simp add: takeWhile_append1)
  have now: "(length ?w = length key \<and> take (length key) ?p = take (length key) ?name) = (key = ?w)"
  proof -
    obtain q where "?p = ?w @ q" using takeWhile_dropWhile_id [of "\<lambda>c. c \<noteq> 44" e] by (metis append.assoc)
    then have "take (length ?w) ?p = ?w" by simp
    then show ?thesis by auto
  qed
  show ?case
  proof (cases "44 \<in> set e")
    case False
    then have w: "?w = e" by (auto simp: takeWhile_eq_all_conv)
    obtain c where "rd ?p 0 = Some c" "\<not> (\<not> inner \<and> c = 0)" using c by blast
    then show ?thesis
      using len False now unfolding w by (subst name_search.simps, subst aliases.simps) (auto simp: w)
  next
    case True
    obtain t where t: "dropWhile (\<lambda>c. c \<noteq> 44) e = 44 # t"
      using True by (cases "dropWhile (\<lambda>c. c \<noteq> 44) e") (auto simp: dropWhile_eq_Nil_conv dropWhile_eq_Cons_conv)
    have e: "e = ?w @ 44 # t" using takeWhile_dropWhile_id [of "\<lambda>c. c \<noteq> 44" e] t by simp
    have drop: "drop (length ?w + 1) ?p = t @ 0 # rest"
    proof -
      have "?p = (?w @ [44]) @ t @ 0 # rest" using e by simp
      then show ?thesis by (metis append_eq_conv_conj length_append_singleton Suc_eq_plus1)
    qed
    have "set e = set (?w @ 44 # t)" "length e = length (?w @ 44 # t)" using e by (rule arg_cong)+
    then have "0 \<notin> set t" "length t < length e" using "1.prems"(1) by auto
    then have "name_search True (t @ 0 # rest) ?name (length key) pos =
        (if key \<in> set (aliases t) then Some pos else name_search False rest ?name (length key) (pos + 1))"
      using "1.IH" by blast
    moreover obtain c where "rd ?p 0 = Some c" "\<not> (\<not> inner \<and> c = 0)" using c by blast
    ultimately show ?thesis
      using len now True tw drop t by (subst name_search.simps, subst aliases.simps) auto
  qed
qed

text \<open>The first entry that has the name among its aliases.\<close>

fun find_entry :: "u8 list \<Rightarrow> u8 list list \<Rightarrow> int \<Rightarrow> int" where
  "find_entry key [] pos = -1"
| "find_entry key (e # es) pos = (if key \<in> set (aliases e) then pos else find_entry key es (pos + 1))"

lemma name_search_entries:
  assumes "\<And>e. e \<in> set es \<Longrightarrow> e \<noteq> [] \<and> 0 \<notin> set e" "0 \<notin> set key"
  shows "name_search False (name_entries es) (key @ 0 # mem) (length key) pos = Some (find_entry key es pos)"
  using assms(1)
proof (induction es arbitrary: pos)
  case Nil
  show ?case by (subst name_search.simps) (simp add: name_entries_def rd_def)
next
  case (Cons e es)
  have "name_entries (e # es) = e @ 0 # name_entries es" by (simp add: name_entries_def)
  then show ?case using name_search_entry [OF _ _ assms(2), of e False "name_entries es"] Cons by simp
qed

lemma find_entry_cases:
  "0 \<le> pos \<Longrightarrow> (find_entry key es pos = -1 \<and> (\<forall>e \<in> set es. key \<notin> set (aliases e))) \<or>
     (\<exists>i < length es. find_entry key es pos = pos + int i \<and> key \<in> set (aliases (es ! i)) \<and>
        (\<forall>j < i. key \<notin> set (aliases (es ! j))))"
proof (induction es arbitrary: pos)
  case (Cons e es)
  show ?case
  proof (cases "key \<in> set (aliases e)")
    case True
    then show ?thesis by force
  next
    case False
    have "0 \<le> pos + 1" using Cons.prems by simp
    from Cons.IH [OF this] show ?thesis
    proof (elim disjE exE conjE)
      fix i assume "i < length es" "find_entry key es (pos + 1) = pos + 1 + int i" "key \<in> set (aliases (es ! i))"
        "\<forall>j < i. key \<notin> set (aliases (es ! j))"
      then have "find_entry key (e # es) pos = pos + int (Suc i) \<and> key \<in> set (aliases ((e # es) ! Suc i)) \<and>
          (\<forall>j < Suc i. key \<notin> set (aliases ((e # es) ! j)))"
        using False by (auto simp: less_Suc_eq_0_disj)
      then show ?thesis using \<open>i < length es\<close> by (intro disjI2 exI [of _ "Suc i"]) simp
    qed (use False in auto)
  qed
qed simp

text \<open>The tables of names are well formed, so the search in them always gives an index or -1.\<close>

definition entries_ok :: "u8 list list \<Rightarrow> bool" where
  "entries_ok es = list_all (\<lambda>e. e \<noteq> [] \<and> 0 \<notin> set e) es"

lemma find_name_entries:
  assumes "entries_ok es" "0 \<notin> set key"
  shows "unicode_find_name (name_entries es) (key @ 0 # mem) = Some (find_entry key es 0)"
  unfolding unicode_find_name_def
  using name_search_entries [OF _ assms(2)] assms by (simp add: entries_ok_def list_all_iff strlen_append)

lemma find_name_cases:
  assumes "entries_ok es" "unicode_find_name (name_entries es) name = Some i"
  obtains "i = -1" | k where "i = int k" "k < length es" "cstr name \<in> set (aliases (es ! k))"
proof -
  obtain n where "strlen name = Some n" using assms(2) by (auto simp: unicode_find_name_def split: bind_splits)
  then obtain mem where mem: "name = cstr name @ 0 # mem" by (auto simp: strlen_Some)
  have "0 \<notin> set (cstr name)" by simp
  then have "i = find_entry (cstr name) es 0" using assms find_name_entries [OF assms(1), of "cstr name" mem] mem by simp
  then show ?thesis using find_entry_cases [of 0 "cstr name" es] that by auto
qed

section \<open>The stack machine\<close>

text \<open>What a stack of ranges stands for, and how an operation on the stack ends.\<close>

definition stack_ok :: "(nat \<Rightarrow> bool) \<Rightarrow> CharRange list \<Rightarrow> (u32 \<Rightarrow> bool) list \<Rightarrow> bool" where
  "stack_ok alloc = list_all2 (\<lambda>cr S. cr_inv cr \<and> cr_realloc_func cr = alloc \<and> denotes S (cr_pts cr))"

definition stack_result :: "(nat \<Rightarrow> bool) \<Rightarrow> (u32 \<Rightarrow> bool) list \<Rightarrow> (int \<times> CharRange list) option \<Rightarrow> bool" where
  "stack_result alloc Ss res \<longleftrightarrow> (\<exists>r st. res = Some (r, st) \<and> (r = 0 \<or> r = -1) \<and>
     ((\<forall>n. alloc n) \<longrightarrow> r = 0) \<and> (r = 0 \<longrightarrow> stack_ok alloc st Ss))"

lemma stack_result_push:
  assumes "cr_result cr (denotes S) f" "cr_realloc_func cr = alloc" "stack_ok alloc st Ss"
  shows "stack_result alloc (S # Ss) (do { (r, cr) \<leftarrow> f; Some (r, cr # st) })"
  using assms by (auto simp: cr_result_def stack_result_def stack_ok_def)

text \<open>A source of ranges: an operation that fills an empty range with the set its argument stands for.
  General categories, binary properties and case changes are the three sources of the machine.\<close>

locale range_source =
  fixes load :: "CharRange \<Rightarrow> 'a \<Rightarrow> (int \<times> CharRange) option"
    and valid :: "'a \<Rightarrow> bool"
    and meaning :: "'a \<Rightarrow> u32 \<Rightarrow> bool"
  assumes load_denotes: "fresh cr \<Longrightarrow> valid a \<Longrightarrow> cr_result cr (denotes (meaning a)) (load cr a)"
begin

lemma load_init: "valid a \<Longrightarrow> cr_result (cr_init alloc) (denotes (meaning a)) (load (cr_init alloc) a)"
  by (rule load_denotes) (simp_all add: fresh_def)

lemma push_meaning:
  assumes "valid a" "stack_ok alloc st Ss" "length st < POP_STACK_LEN_MAX"
  shows "stack_result alloc (meaning a # Ss) (pop_load (\<lambda>cr. load cr a) alloc st)"
  using stack_result_push [OF load_init [OF assms(1)] _ assms(2)] assms(3) by (simp add: pop_load_def cr_init_def)

end

interpretation gc_source: range_source unicode_general_category1 "\<lambda>_. True" gc_member
  by unfold_locales (rule unicode_general_category1_denotes)

interpretation prop_source: range_source unicode_prop1 "\<lambda>i. i < length unicode_prop_table" "\<lambda>i. prop_member (unicode_prop_table ! i)"
  by unfold_locales (rule unicode_prop1_denotes)

interpretation case_source: range_source unicode_case1 "\<lambda>m. m \<in> {1, 2, 3, 4, 5, 6, 7}" changes_any
  by unfold_locales (rule unicode_case1_denotes)

lemma pop_binary_denotes:
  assumes "stack_ok alloc st (q # p # Ss)" "length st < POP_STACK_LEN_MAX"
  shows "stack_result alloc ((\<lambda>x. cr_op_fun op (p x) (q x)) # Ss) (pop_binary op st)"
proof -
  obtain cr2 cr1 rest where st: "st = cr2 # cr1 # rest" "stack_ok alloc rest Ss" "cr_realloc_func cr1 = alloc"
    "denotes p (cr_pts cr1)" "denotes q (cr_pts cr2)"
    using assms(1) by (auto simp: stack_ok_def list_all2_Cons2)
  have "cr_result (cr_init alloc) (\<lambda>pts. cr_canonical pts \<and> (\<forall>c. cr_mem pts c = cr_op_fun op (cr_mem (cr_pts cr1) c) (cr_mem (cr_pts cr2) c)))
      (cr_op (cr_init alloc) (cr_pts cr1) (cr_pts cr2) op)"
    by (rule cr_op_spec) (use st in \<open>auto simp: denotes_def cr_init_def [of alloc] cr_inv_def\<close>)
  then have "cr_result (cr_init alloc) (denotes (\<lambda>x. cr_op_fun op (p x) (q x))) (cr_op (cr_init alloc) (cr_pts cr1) (cr_pts cr2) op)"
    by (rule cr_result_weaken) (use st cr_canonicalD in \<open>auto simp: denotes_def\<close>)
  from stack_result_push [OF this _ st(2)] show ?thesis
    using assms(2) by (simp add: pop_binary_def st(1,3) cr_init_def)
qed

text \<open>The abstract machine works on sets of code points.\<close>

definition op_combine :: "(bool \<Rightarrow> bool \<Rightarrow> bool) \<Rightarrow> (u32 \<Rightarrow> bool) list \<Rightarrow> (u32 \<Rightarrow> bool) list option" where
  "op_combine f st =
     (case st of q # p # rest \<Rightarrow> if length st < POP_STACK_LEN_MAX then Some ((\<lambda>x. f (p x) (q x)) # rest) else None | _ \<Rightarrow> None)"

definition op_push :: "(u32 \<Rightarrow> bool) \<Rightarrow> bool \<Rightarrow> (u32 \<Rightarrow> bool) list \<Rightarrow> (u32 \<Rightarrow> bool) list option" where
  "op_push p ok st = (if ok \<and> length st < POP_STACK_LEN_MAX then Some (p # st) else None)"

fun op_eval :: "PropOPEnum \<Rightarrow> (u32 \<Rightarrow> bool) list \<Rightarrow> (u32 \<Rightarrow> bool) list option" where
  "op_eval (POP_GC a) st = op_push (gc_member a) True st"
| "op_eval (POP_PROP a) st = op_push (prop_member (unicode_prop_table ! a)) (a < length unicode_prop_table) st"
| "op_eval (POP_CASE a) st = op_push (changes_any a) (a \<in> {1, 2, 3, 4, 5, 6, 7}) st"
| "op_eval POP_UNION st = op_combine (\<or>) st"
| "op_eval POP_INTER st = op_combine (\<and>) st"
| "op_eval POP_XOR st = op_combine (\<noteq>) st"
| "op_eval POP_INVERT st = (case st of p # rest \<Rightarrow> Some ((\<lambda>x. \<not> p x) # rest) | [] \<Rightarrow> None)"
| "op_eval POP_END st = None"

fun ops_eval :: "PropOPEnum list \<Rightarrow> (u32 \<Rightarrow> bool) list \<Rightarrow> (u32 \<Rightarrow> bool) option" where
  "ops_eval [] st = None"
| "ops_eval (op # ops) st =
     (if op = POP_END then (case st of [p] \<Rightarrow> Some p | _ \<Rightarrow> None)
      else do { st \<leftarrow> op_eval op st; ops_eval ops st })"

lemma stack_ok_length: "stack_ok alloc st Ss \<Longrightarrow> length st = length Ss"
  by (simp add: stack_ok_def list_all2_lengthD)

lemma op_combine_sim:
  assumes "op_combine f Ss = Some Ss'" "stack_ok alloc st Ss" "\<And>a b. cr_op_fun op a b = f a b"
  shows "stack_result alloc Ss' (pop_binary op st)"
  using assms pop_binary_denotes [of alloc st _ _ _ op] stack_ok_length [OF assms(2)]
  by (auto simp: op_combine_def split: list.splits if_splits)

lemma pop_op_sim:
  assumes "op_eval op Ss = Some Ss'" "stack_ok alloc st Ss"
  shows "stack_result alloc Ss' (pop_op op alloc st)"
proof (cases op)
  case POP_INVERT
  with assms obtain p rest where Ss: "Ss = p # rest" "Ss' = (\<lambda>x. \<not> p x) # rest" by (auto split: list.splits)
  then obtain cr st' where st: "st = cr # st'" "cr_inv cr" "cr_realloc_func cr = alloc" "denotes p (cr_pts cr)" "stack_ok alloc st' rest"
    using assms(2) by (auto simp: stack_ok_def list_all2_Cons2)
  have "cr_result cr (denotes (\<lambda>x. \<not> p x)) (cr_invert cr)"
    by (rule cr_result_weaken [OF cr_invert_sorted]) (use st cr_canonicalD in \<open>auto simp: denotes_def\<close>)
  from stack_result_push [OF this st(3,5)] show ?thesis using POP_INVERT st(1) Ss by (simp add: pop_op_def)
qed (use assms gc_source.push_meaning prop_source.push_meaning case_source.push_meaning stack_ok_length [OF assms(2)]
    op_combine_sim [of _ Ss Ss' alloc st] in \<open>auto simp: pop_op_def op_push_def cr_op_fun_def split: if_splits\<close>)

lemma unicode_prop_ops_sim:
  assumes "ops_eval ops Ss = Some S" "stack_ok (cr_realloc_func cr) st Ss" "cr_inv cr"
  shows "cr_result cr (denotes S) (prop_ops_loop cr ops st)"
  using assms(1,2)
proof (induction ops arbitrary: Ss st)
  case (Cons op ops)
  show ?case
  proof (cases "op = POP_END")
    case True
    then have "Ss = [S]" using Cons.prems(1) by (auto split: list.splits)
    then obtain cr0 where "st = [cr0]" "cr_inv cr0" "denotes S (cr_pts cr0)"
      using Cons.prems(2) by (auto simp: stack_ok_def list_all2_Cons2)
    then show ?thesis using cr_result_weaken [OF cr_copy_spec [OF assms(3)]] True by simp
  next
    case False
    then obtain Ss' where Ss': "op_eval op Ss = Some Ss'" "ops_eval ops Ss' = Some S"
      using Cons.prems(1) by (auto split: bind_splits)
    from pop_op_sim [OF Ss'(1) Cons.prems(2)] obtain r st' where
      r: "pop_op op (cr_realloc_func cr) st = Some (r, st')" "r = 0 \<or> r = -1" "(\<forall>n. cr_realloc_func cr n) \<longrightarrow> r = 0"
        "r = 0 \<longrightarrow> stack_ok (cr_realloc_func cr) st' Ss'"
      by (auto simp: stack_result_def)
    show ?thesis
    proof (cases "r = 0")
      case True
      then show ?thesis using r Cons.IH [OF Ss'(2)] False by simp
    next
      case nz: False
      then show ?thesis using r False assms(3) by (auto simp: cr_result_def)
    qed
  qed
qed simp

section \<open>General categories by name\<close>

text \<open>The category of a code point, as the table encodes it.\<close>

definition general_category :: "u32 \<Rightarrow> nat option" where
  "general_category x =
     map_option (\<lambda>(v, off). if v = 31 then if even off then UNICODE_GC_Lu else UNICODE_GC_Ll else unat v)
       (gc_lookup unicode_gc_table (uint x))"

lemma gc_member_category: "gc_member gc_mask x \<longleftrightarrow> (\<exists>k. general_category x = Some k \<and> bit gc_mask k)"
  unfolding gc_member_def gc_selected_def general_category_def
  by (cases "gc_lookup unicode_gc_table (uint x)") (simp_all split: prod.splits)

text \<open>The categories that a name stands for, by the index of the name in the table: single categories
  first, then the groups LC, L, M, N, S, P, Z and C.\<close>

definition gc_groups :: "nat list list" where
  "gc_groups = [
     [UNICODE_GC_Lu, UNICODE_GC_Ll, UNICODE_GC_Lt],
     [UNICODE_GC_Lu, UNICODE_GC_Ll, UNICODE_GC_Lt, UNICODE_GC_Lm, UNICODE_GC_Lo],
     [UNICODE_GC_Mn, UNICODE_GC_Mc, UNICODE_GC_Me],
     [UNICODE_GC_Nd, UNICODE_GC_Nl, UNICODE_GC_No],
     [UNICODE_GC_Sm, UNICODE_GC_Sc, UNICODE_GC_Sk, UNICODE_GC_So],
     [UNICODE_GC_Pc, UNICODE_GC_Pd, UNICODE_GC_Ps, UNICODE_GC_Pe, UNICODE_GC_Pi, UNICODE_GC_Pf, UNICODE_GC_Po],
     [UNICODE_GC_Zs, UNICODE_GC_Zl, UNICODE_GC_Zp],
     [UNICODE_GC_Cc, UNICODE_GC_Cf, UNICODE_GC_Cs, UNICODE_GC_Co, UNICODE_GC_Cn]]"

definition gc_named :: "nat \<Rightarrow> nat list" where
  "gc_named idx = (if idx \<le> UNICODE_GC_Co then [idx] else gc_groups ! (idx - UNICODE_GC_LC))"

lemmas gc_numbers = UNICODE_GC_Cn_def UNICODE_GC_Lu_def UNICODE_GC_Ll_def UNICODE_GC_Lt_def UNICODE_GC_Lm_def
  UNICODE_GC_Lo_def UNICODE_GC_Mn_def UNICODE_GC_Mc_def UNICODE_GC_Me_def UNICODE_GC_Nd_def UNICODE_GC_Nl_def
  UNICODE_GC_No_def UNICODE_GC_Sm_def UNICODE_GC_Sc_def UNICODE_GC_Sk_def UNICODE_GC_So_def UNICODE_GC_Pc_def
  UNICODE_GC_Pd_def UNICODE_GC_Ps_def UNICODE_GC_Pe_def UNICODE_GC_Pi_def UNICODE_GC_Pf_def UNICODE_GC_Po_def
  UNICODE_GC_Zs_def UNICODE_GC_Zl_def UNICODE_GC_Zp_def UNICODE_GC_Cc_def UNICODE_GC_Cf_def UNICODE_GC_Cs_def
  UNICODE_GC_Co_def UNICODE_GC_LC_def


lemma mask_table_groups:
  assumes "j < 8"
  shows "\<exists>m. rd unicode_gc_mask_table j = Some m \<and> (\<forall>k. bit m k \<longleftrightarrow> k \<in> set (gc_groups ! j))"
proof -
  have "j \<in> {0, 1, 2, 3, 4, 5, 6, 7}" using assms by auto
  then show ?thesis
    by (elim insertE emptyE)
      (auto simp: rd_def unicode_gc_mask_table_def gc_groups_def bit_or_iff bit_M gc_numbers)
qed

lemma of_char_zero: "(of_char c :: u8) = 0 \<Longrightarrow> c = CHR 0x00"
proof -
  assume "(of_char c :: u8) = 0"
  then have "\<not> bit (of_char c :: u8) n" for n by simp
  from this [of 0] this [of 1] this [of 2] this [of 3] this [of 4] this [of 5] this [of 6] this [of 7] show ?thesis
    unfolding of_char_def bit_horner_sum_bit_word_iff by (cases c) simp
qed

lemma entries_ok_names: "list_all (\<lambda>s. s \<noteq> [] \<and> list_all (\<lambda>c. c \<noteq> CHR 0x00) s) ns \<Longrightarrow> entries_ok (map (map of_char) ns)"
  unfolding entries_ok_def list_all_iff by (auto dest!: of_char_zero [OF sym])

lemma gc_names:
  obtains es where "unicode_gc_name_table = name_entries es" "entries_ok es" "length es = 38"
proof -
  have "\<exists>es. unicode_gc_name_table = name_entries es \<and> entries_ok es \<and> length es = 38"
    unfolding unicode_gc_name_table_def name_table_entries by (intro exI conjI, rule refl, rule entries_ok_names) simp_all
  then show ?thesis using that by blast
qed

lemma script_names:
  obtains es where "unicode_script_name_table = name_entries es" "entries_ok es" "length es = 156"
proof -
  have "\<exists>es. unicode_script_name_table = name_entries es \<and> entries_ok es \<and> length es = 156"
    unfolding unicode_script_name_table_def name_table_entries by (intro exI conjI, rule refl, rule entries_ok_names) simp_all
  then show ?thesis using that by blast
qed

lemma prop_names:
  obtains es where "unicode_prop_name_table = name_entries es" "entries_ok es" "length es = 53"
proof -
  have "\<exists>es. unicode_prop_name_table = name_entries es \<and> entries_ok es \<and> length es = 53"
    unfolding unicode_prop_name_table_def name_table_entries by (intro exI conjI, rule refl, rule entries_ok_names) simp_all
  then show ?thesis using that by blast
qed

text \<open>The code points of some categories.\<close>

definition in_gc :: "nat list \<Rightarrow> u32 \<Rightarrow> bool" where
  "in_gc ks x \<longleftrightarrow> (\<exists>k \<in> set ks. general_category x = Some k)"

lemma in_gc_member: "(\<And>k. bit m k \<longleftrightarrow> k \<in> set ks) \<Longrightarrow> gc_member m = in_gc ks"
  by (auto simp: fun_eq_iff gc_member_category in_gc_def)

lemma general_category_denotes:
  assumes "fresh cr" "unicode_find_name unicode_gc_name_table gc_name = Some idx" "0 \<le> idx"
  shows "cr_result cr (denotes (in_gc (gc_named (nat idx))))
    (unicode_general_category cr gc_name)"
proof -
  obtain es where es: "unicode_gc_name_table = name_entries es" "entries_ok es" "length es = 38" by (rule gc_names)
  obtain k where k: "idx = int k" "k < 38"
    using find_name_cases [OF es(2), of gc_name idx] assms(2,3) es(1,3) by auto
  show ?thesis
  proof (cases "k \<le> UNICODE_GC_Co")
    case True
    then have "bit (push_bit k 1 :: u32) j \<longleftrightarrow> j \<in> set (gc_named k)" for j
      using bit_M [of k j] by (auto simp: gc_named_def M_def UNICODE_GC_Co_def)
    then show ?thesis
      using unicode_general_category1_denotes [OF assms(1), of "push_bit k 1"] in_gc_member [of "push_bit k 1" "gc_named k"] True k assms(2)
      by (simp add: unicode_general_category_def)
  next
    case False
    then have "k - UNICODE_GC_LC < 8" using k(2) by (simp add: gc_numbers)
    then obtain m where m: "rd unicode_gc_mask_table (k - UNICODE_GC_LC) = Some m" "\<And>j. bit m j \<longleftrightarrow> j \<in> set (gc_named k)"
      using mask_table_groups False by (auto simp: gc_named_def)
    show ?thesis
      using unicode_general_category1_denotes [OF assms(1), of m] in_gc_member [OF m(2)] m(1) False k assms(2)
      by (simp add: unicode_general_category_def)
  qed
qed

section \<open>Properties by name\<close>

text \<open>The set of a property as a formula over categories, tables and case changes.\<close>

definition in_prop :: "nat \<Rightarrow> u32 \<Rightarrow> bool" where
  "in_prop i = prop_member (unicode_prop_table ! i)"

definition gc_letters :: "nat list" where
  "gc_letters = [UNICODE_GC_Lu, UNICODE_GC_Ll, UNICODE_GC_Lt, UNICODE_GC_Lm, UNICODE_GC_Lo, UNICODE_GC_Nl]"

definition prop_meaning :: "nat \<Rightarrow> u32 \<Rightarrow> bool" where
  "prop_meaning i x =
     (if i = UNICODE_PROP_ASCII then x < 0x80
      else if i = UNICODE_PROP_Any then x \<le> 0x10ffff
      else if i = UNICODE_PROP_Changes_When_Uppercased then changes 0 x
      else if i = UNICODE_PROP_Changes_When_Lowercased then changes 1 x
      else if i = UNICODE_PROP_Changes_When_Casemapped then changes 0 x \<or> changes 1 x \<or> changes 2 x
      else if i = UNICODE_PROP_Assigned then \<not> in_gc [UNICODE_GC_Cn] x
      else if i = UNICODE_PROP_Math then in_gc [UNICODE_GC_Sm] x \<or> in_prop UNICODE_PROP_Other_Math x
      else if i = UNICODE_PROP_Lowercase then in_gc [UNICODE_GC_Ll] x \<or> in_prop UNICODE_PROP_Other_Lowercase x
      else if i = UNICODE_PROP_Uppercase then in_gc [UNICODE_GC_Lu] x \<or> in_prop UNICODE_PROP_Other_Uppercase x
      else if i = UNICODE_PROP_Cased then
        in_gc [UNICODE_GC_Lu, UNICODE_GC_Ll, UNICODE_GC_Lt] x \<or> in_prop UNICODE_PROP_Other_Uppercase x \<or>
        in_prop UNICODE_PROP_Other_Lowercase x
      else if i = UNICODE_PROP_Alphabetic then
        in_gc gc_letters x \<or> in_prop UNICODE_PROP_Other_Uppercase x \<or> in_prop UNICODE_PROP_Other_Lowercase x \<or>
        in_prop UNICODE_PROP_Other_Alphabetic x
      else if i = UNICODE_PROP_Grapheme_Base then
        \<not> (in_gc [UNICODE_GC_Cc, UNICODE_GC_Cf, UNICODE_GC_Cs, UNICODE_GC_Co, UNICODE_GC_Cn, UNICODE_GC_Zl, UNICODE_GC_Zp,
              UNICODE_GC_Me, UNICODE_GC_Mn] x \<or> in_prop UNICODE_PROP_Other_Grapheme_Extend x)
      else if i = UNICODE_PROP_Grapheme_Extend then
        in_gc [UNICODE_GC_Me, UNICODE_GC_Mn] x \<or> in_prop UNICODE_PROP_Other_Grapheme_Extend x
      else if i = UNICODE_PROP_XID_Start then
        (in_gc gc_letters x \<or> in_prop UNICODE_PROP_Other_ID_Start x) \<and>
        \<not> (in_prop UNICODE_PROP_Pattern_Syntax x \<or> in_prop UNICODE_PROP_Pattern_White_Space x \<or> in_prop UNICODE_PROP_XID_Start1 x)
      else if i = UNICODE_PROP_XID_Continue then
        (in_gc (gc_letters @ [UNICODE_GC_Mn, UNICODE_GC_Mc, UNICODE_GC_Nd, UNICODE_GC_Pc]) x \<or>
         in_prop UNICODE_PROP_Other_ID_Start x \<or> in_prop UNICODE_PROP_Other_ID_Continue x) \<and>
        \<not> (in_prop UNICODE_PROP_Pattern_Syntax x \<or> in_prop UNICODE_PROP_Pattern_White_Space x \<or> in_prop UNICODE_PROP_XID_Continue1 x)
      else if i = UNICODE_PROP_Changes_When_Titlecased then changes 0 x \<noteq> in_prop UNICODE_PROP_Changes_When_Titlecased1 x
      else if i = UNICODE_PROP_Changes_When_Casefolded then changes 2 x \<noteq> in_prop UNICODE_PROP_Changes_When_Casefolded1 x
      else if i = UNICODE_PROP_Changes_When_NFKC_Casefolded then
        changes 2 x \<noteq> in_prop UNICODE_PROP_Changes_When_NFKC_Casefolded1 x
      else if i = UNICODE_PROP_ID_Continue then in_prop UNICODE_PROP_ID_Start x \<noteq> in_prop UNICODE_PROP_ID_Continue1 x
      else in_prop i x)"

lemma prop_table_length: "length unicode_prop_table = 50"
  by (simp add: unicode_prop_table_def)

lemmas prop_numbers = UNICODE_PROP_Other_Math_def UNICODE_PROP_Other_Alphabetic_def UNICODE_PROP_Other_Lowercase_def
  UNICODE_PROP_Other_Uppercase_def UNICODE_PROP_Other_Grapheme_Extend_def UNICODE_PROP_Other_ID_Start_def
  UNICODE_PROP_Other_ID_Continue_def UNICODE_PROP_ID_Continue1_def UNICODE_PROP_XID_Start1_def
  UNICODE_PROP_XID_Continue1_def UNICODE_PROP_Changes_When_Titlecased1_def UNICODE_PROP_Changes_When_Casefolded1_def
  UNICODE_PROP_Changes_When_NFKC_Casefolded1_def UNICODE_PROP_ASCII_Hex_Digit_def UNICODE_PROP_Pattern_Syntax_def
  UNICODE_PROP_Pattern_White_Space_def UNICODE_PROP_ID_Start_def UNICODE_PROP_ASCII_def UNICODE_PROP_Alphabetic_def
  UNICODE_PROP_Any_def UNICODE_PROP_Assigned_def UNICODE_PROP_Cased_def UNICODE_PROP_Changes_When_Casefolded_def
  UNICODE_PROP_Changes_When_Casemapped_def UNICODE_PROP_Changes_When_Lowercased_def
  UNICODE_PROP_Changes_When_NFKC_Casefolded_def UNICODE_PROP_Changes_When_Titlecased_def
  UNICODE_PROP_Changes_When_Uppercased_def UNICODE_PROP_Grapheme_Base_def UNICODE_PROP_Grapheme_Extend_def
  UNICODE_PROP_ID_Continue_def UNICODE_PROP_Lowercase_def UNICODE_PROP_Math_def UNICODE_PROP_Uppercase_def
  UNICODE_PROP_XID_Continue_def UNICODE_PROP_XID_Start_def

lemma gc_sets:
  "gc_member (M UNICODE_GC_Cn) = in_gc [UNICODE_GC_Cn]" "gc_member (M UNICODE_GC_Sm) = in_gc [UNICODE_GC_Sm]"
  "gc_member (M UNICODE_GC_Ll) = in_gc [UNICODE_GC_Ll]" "gc_member (M UNICODE_GC_Lu) = in_gc [UNICODE_GC_Lu]"
  "gc_member (M UNICODE_GC_Lu OR M UNICODE_GC_Ll OR M UNICODE_GC_Lt) = in_gc [UNICODE_GC_Lu, UNICODE_GC_Ll, UNICODE_GC_Lt]"
  "gc_member (M UNICODE_GC_Lu OR M UNICODE_GC_Ll OR M UNICODE_GC_Lt OR M UNICODE_GC_Lm OR M UNICODE_GC_Lo OR M UNICODE_GC_Nl) =
     in_gc gc_letters"
  "gc_member (M UNICODE_GC_Lu OR M UNICODE_GC_Ll OR M UNICODE_GC_Lt OR M UNICODE_GC_Lm OR M UNICODE_GC_Lo OR M UNICODE_GC_Nl OR
     M UNICODE_GC_Mn OR M UNICODE_GC_Mc OR M UNICODE_GC_Nd OR M UNICODE_GC_Pc) =
     in_gc (gc_letters @ [UNICODE_GC_Mn, UNICODE_GC_Mc, UNICODE_GC_Nd, UNICODE_GC_Pc])"
  "gc_member (M UNICODE_GC_Cc OR M UNICODE_GC_Cf OR M UNICODE_GC_Cs OR M UNICODE_GC_Co OR M UNICODE_GC_Cn OR
     M UNICODE_GC_Zl OR M UNICODE_GC_Zp OR M UNICODE_GC_Me OR M UNICODE_GC_Mn) =
     in_gc [UNICODE_GC_Cc, UNICODE_GC_Cf, UNICODE_GC_Cs, UNICODE_GC_Co, UNICODE_GC_Cn, UNICODE_GC_Zl, UNICODE_GC_Zp,
       UNICODE_GC_Me, UNICODE_GC_Mn]"
  "gc_member (M UNICODE_GC_Me OR M UNICODE_GC_Mn) = in_gc [UNICODE_GC_Me, UNICODE_GC_Mn]"
  by (rule in_gc_member, auto simp: bit_or_iff bit_M gc_numbers gc_letters_def)+

lemma case_sets:
  "changes_any CASE_U = changes 0" "changes_any CASE_L = changes 1" "changes_any CASE_F = changes 2"
  "changes_any (CASE_U OR CASE_L OR CASE_F) = (\<lambda>x. changes 0 x \<or> changes 1 x \<or> changes 2 x)"
  by (auto simp: changes_any_def CASE_U_def CASE_L_def CASE_F_def fun_eq_iff)

lemma case_masks: "CASE_U \<in> {1, 2, 3, 4, 5, 6, 7}" "CASE_L \<in> {1, 2, 3, 4, 5, 6, 7}" "CASE_F \<in> {1, 2, 3, 4, 5, 6, 7}"
  "CASE_U OR CASE_L OR CASE_F \<in> {1, 2, 3, 4, 5, 6, 7}"
  by (simp_all add: CASE_U_def CASE_L_def CASE_F_def)

lemma prop_script_meaning:
  assumes "prop_script i = Some ops"
  shows "ops_eval ops [] = Some (prop_meaning i)"
  using assms unfolding prop_script_def Let_def
  by (auto simp: op_push_def op_combine_def POP_STACK_LEN_MAX_def prop_table_length gc_sets case_sets case_masks in_prop_def
      fun_eq_iff prop_meaning_def prop_numbers or.assoc split: if_splits)
    (simp_all add: CASE_U_def CASE_F_def)

lemma interval_denotes:
  assumes "fresh cr" "0 < b" "\<And>x. S x \<longleftrightarrow> x < b"
  shows "cr_result cr (denotes S) (do { (r, cr) \<leftarrow> cr_add_interval cr 0 b; Some (if r \<noteq> 0 then -1 else 0, cr) })"
proof -
  have "covering cr b S (cr_add_interval cr 0 b)"
    by (rule add_covers) (use assms covers_start in \<open>auto simp: fresh_def\<close>)
  then have "cr_result cr (denotes S) (cr_add_interval cr 0 b)"
    by (rule cr_result_weaken) (use assms(3) covers_denotes in \<open>auto simp: not_less\<close>)
  then show ?thesis by (auto simp: cr_result_def)
qed

lemma prop_dispatch:
  assumes "i < 69" "i \<notin> {UNICODE_PROP_ASCII, UNICODE_PROP_Any, UNICODE_PROP_Changes_When_Uppercased,
    UNICODE_PROP_Changes_When_Lowercased, UNICODE_PROP_Changes_When_Casemapped}" "prop_script i = None"
  shows "i < 50 \<and> prop_meaning i = in_prop i"
proof -
  have "i < 50"
  proof (rule ccontr)
    assume "\<not> i < 50"
    then have "i \<in> {50, 51, 52, 53, 54, 55, 56, 57, 58, 59, 60, 61, 62, 63, 64, 65, 66, 67, 68}"
      using assms(1) by simp presburger
    then show False using assms(2,3) by (auto simp: prop_script_def Let_def prop_numbers)
  qed
  then show ?thesis by (auto simp: prop_meaning_def prop_numbers fun_eq_iff)
qed

lemma unicode_prop_denotes:
  assumes "fresh cr" "unicode_find_name unicode_prop_name_table prop_name = Some idx" "0 \<le> idx"
  shows "cr_result cr (denotes (prop_meaning (nat idx + UNICODE_PROP_ASCII_Hex_Digit))) (unicode_prop cr prop_name)"
proof -
  obtain es where es: "unicode_prop_name_table = name_entries es" "entries_ok es" "length es = 53" by (rule prop_names)
  define i where "i = nat idx + UNICODE_PROP_ASCII_Hex_Digit"
  obtain k where "idx = int k" "k < 53"
    using find_name_cases [OF es(2), of prop_name idx] assms(2,3) es(1,3) by auto
  then have i: "i < 69" by (simp add: i_def UNICODE_PROP_ASCII_Hex_Digit_def)
  have start: "unicode_prop cr prop_name =
      (if i = UNICODE_PROP_ASCII then do { (r, cr) \<leftarrow> cr_add_interval cr 0 (0x7f + 1); Some (if r \<noteq> 0 then -1 else 0, cr) }
       else if i = UNICODE_PROP_Any then do { (r, cr) \<leftarrow> cr_add_interval cr 0 (0x10ffff + 1); Some (if r \<noteq> 0 then -1 else 0, cr) }
       else if i = UNICODE_PROP_Changes_When_Uppercased then unicode_case1 cr CASE_U
       else if i = UNICODE_PROP_Changes_When_Lowercased then unicode_case1 cr CASE_L
       else if i = UNICODE_PROP_Changes_When_Casemapped then unicode_case1 cr (CASE_U OR CASE_L OR CASE_F)
       else case prop_script i of Some ops \<Rightarrow> unicode_prop_ops cr ops
         | None \<Rightarrow> if i \<ge> length unicode_prop_table then Some (-2, cr) else unicode_prop1 cr i)"
    using assms(2,3) by (simp add: unicode_prop_def i_def [symmetric] Let_def)
  have m: "prop_meaning UNICODE_PROP_ASCII x \<longleftrightarrow> x < 0x80" "prop_meaning UNICODE_PROP_Any x \<longleftrightarrow> x < 0x110000"
    "prop_meaning UNICODE_PROP_Changes_When_Uppercased = changes 0" "prop_meaning UNICODE_PROP_Changes_When_Lowercased = changes 1"
    "prop_meaning UNICODE_PROP_Changes_When_Casemapped = (\<lambda>x. changes 0 x \<or> changes 1 x \<or> changes 2 x)" for x
    by (auto simp: prop_meaning_def prop_numbers fun_eq_iff word_le_def word_less_def)
  consider "i = UNICODE_PROP_ASCII" | "i = UNICODE_PROP_Any" | "i = UNICODE_PROP_Changes_When_Uppercased"
    | "i = UNICODE_PROP_Changes_When_Lowercased" | "i = UNICODE_PROP_Changes_When_Casemapped"
    | (ops) ops where "i \<notin> {UNICODE_PROP_ASCII, UNICODE_PROP_Any, UNICODE_PROP_Changes_When_Uppercased,
        UNICODE_PROP_Changes_When_Lowercased, UNICODE_PROP_Changes_When_Casemapped}" "prop_script i = Some ops"
    | (tab) "i \<notin> {UNICODE_PROP_ASCII, UNICODE_PROP_Any, UNICODE_PROP_Changes_When_Uppercased,
        UNICODE_PROP_Changes_When_Lowercased, UNICODE_PROP_Changes_When_Casemapped}" "prop_script i = None"
    by (cases "prop_script i") auto
  then have "cr_result cr (denotes (prop_meaning i)) (unicode_prop cr prop_name)"
  proof cases
    case ops
    have "cr_result cr (denotes (prop_meaning i)) (unicode_prop_ops cr ops)"
      unfolding unicode_prop_ops_def using unicode_prop_ops_sim [OF prop_script_meaning [OF ops(2)]] assms(1)
      by (simp add: stack_ok_def fresh_def)
    then show ?thesis using ops by (simp add: start)
  next
    case tab
    with prop_dispatch [OF i] have "i < 50" "prop_meaning i = in_prop i" by auto
    then show ?thesis using tab unicode_prop1_denotes [OF assms(1), of i] by (simp add: start prop_table_length in_prop_def)
  qed (use interval_denotes [OF assms(1), of "0x80"] interval_denotes [OF assms(1), of "0x110000"] m
      unicode_case1_denotes [OF assms(1) case_masks(1)] unicode_case1_denotes [OF assms(1) case_masks(2)]
      unicode_case1_denotes [OF assms(1) case_masks(4)] in \<open>simp_all add: start case_sets prop_numbers\<close>)
  then show ?thesis by (simp add: i_def)
qed

section \<open>Theorems\<close>

text \<open>The name search. In a table of entries that are not empty and hold no terminator,
  \<open>unicode_find_name\<close> stays inside the table and returns the index of the first entry that lists the
  name among its comma-separated aliases, and -1 when no entry does.\<close>

theorem unicode_find_name_correct:
  assumes "\<And>e. e \<in> set es \<Longrightarrow> e \<noteq> [] \<and> 0 \<notin> set e" "0 \<notin> set key"
  shows "\<exists>r. unicode_find_name (concat (map (\<lambda>e. e @ [0]) es) @ [0]) (key @ [0]) = Some r \<and>
    (r = -1 \<and> (\<forall>e \<in> set es. key \<notin> set (aliases e)) \<or>
     (\<exists>i < length es. r = int i \<and> key \<in> set (aliases (es ! i)) \<and> (\<forall>j < i. key \<notin> set (aliases (es ! j)))))"
proof -
  have "entries_ok es" using assms(1) by (simp add: entries_ok_def list_all_iff)
  from find_name_entries [OF this assms(2), of "[]"] find_entry_cases [of 0 key es] show ?thesis
    by (simp add: name_entries_def)
qed

theorem unicode_find_name_correct_witness:
  "\<exists>r. unicode_find_name (concat (map (\<lambda>e. e @ [0]) [[76, 117], [76, 108, 44, 76]]) @ [0]) ([76] @ [0]) = Some r \<and>
    (r = -1 \<and> (\<forall>e \<in> set [[76, 117], [76, 108, 44, 76]]. [76] \<notin> set (aliases e)) \<or>
     (\<exists>i < length [[76, 117], [76, 108, 44, 76 :: u8]]. r = int i \<and> [76] \<in> set (aliases ([[76, 117], [76, 108, 44, 76]] ! i)) \<and>
       (\<forall>j < i. [76] \<notin> set (aliases ([[76, 117], [76, 108, 44, 76]] ! j)))))"
  by (rule unicode_find_name_correct) auto

text \<open>C16: general categories by name. For every name of the table, a category or one of the groups LC, L,
  M, N, S, P, Z and C, \<open>unicode_general_category\<close> fills an empty range with exactly the code points whose
  category, as the run-length encoded table gives it, belongs to the group. It fails only when memory
  is refused.\<close>

theorem unicode_general_category_correct:
  assumes "fresh cr" "unicode_find_name unicode_gc_name_table gc_name = Some idx" "0 \<le> idx"
  shows "cr_result cr (denotes (\<lambda>x. \<exists>k \<in> set (gc_named (nat idx)). general_category x = Some k))
    (unicode_general_category cr gc_name)"
proof -
  have "in_gc (gc_named (nat idx)) = (\<lambda>x. \<exists>k \<in> set (gc_named (nat idx)). general_category x = Some k)"
    by (simp add: fun_eq_iff in_gc_def)
  then show ?thesis using general_category_denotes [OF assms] by simp
qed

theorem unicode_general_category_correct_witness:
  "cr_result (cr_init (\<lambda>_. True)) (denotes (\<lambda>x. \<exists>k \<in> set (gc_named 1). general_category x = Some k))
    (unicode_general_category (cr_init (\<lambda>_. True)) [76, 117, 0])"
proof -
  have "unicode_find_name unicode_gc_name_table [76, 117, 0] = Some 1" by code_simp
  from unicode_general_category_correct [OF _ this, of "cr_init (\<lambda>_. True)"] show ?thesis by (simp add: fresh_def)
qed

text \<open>C15: the stack machine. Whenever the abstract machine on sets of code points accepts an argument list
  of \<open>unicode_prop_ops\<close> and yields the set \<open>S\<close>, the concrete machine on ranges fails no assertion, stays
  within its four stack slots and copies a range for exactly \<open>S\<close> into its result, unless memory is
  refused.\<close>

theorem unicode_prop_ops_refines:
  assumes "cr_inv cr" "ops_eval ops [] = Some S"
  shows "cr_result cr (denotes S) (unicode_prop_ops cr ops)"
  unfolding unicode_prop_ops_def using unicode_prop_ops_sim [OF assms(2) _ assms(1)] by (simp add: stack_ok_def)

theorem unicode_prop_ops_refines_witness:
  "cr_result (cr_init (\<lambda>_. True)) (denotes (\<lambda>x. \<not> gc_member (M UNICODE_GC_Cn) x))
    (unicode_prop_ops (cr_init (\<lambda>_. True)) [POP_GC (M UNICODE_GC_Cn), POP_INVERT, POP_END])"
  by (rule unicode_prop_ops_refines) (simp_all add: op_push_def POP_STACK_LEN_MAX_def)

text \<open>C14: properties by name. For every name of the table of binary properties \<open>unicode_prop\<close> fills an empty
  range with exactly the set that the property stands for: the table of the property, or the formula
  over categories, other tables and case changes. It never reports a name of the table as unknown and
  fails only when memory is refused.\<close>

theorem unicode_prop_correct:
  assumes "fresh cr" "unicode_find_name unicode_prop_name_table prop_name = Some idx" "0 \<le> idx"
  shows "cr_result cr (denotes (prop_meaning (nat idx + UNICODE_PROP_ASCII_Hex_Digit))) (unicode_prop cr prop_name)"
  by (rule unicode_prop_denotes [OF assms])

theorem unicode_prop_correct_witness:
  "cr_result (cr_init (\<lambda>_. True)) (denotes (prop_meaning UNICODE_PROP_ASCII_Hex_Digit))
    (unicode_prop (cr_init (\<lambda>_. True)) (map of_char ''AHex'' @ [0]))"
proof -
  have key: "map of_char ''AHex'' \<in> set (aliases (map of_char ''ASCII_Hex_Digit,AHex''))" "0 \<notin> set (map of_char ''AHex'' :: u8 list)"
    by code_simp+
  have "unicode_find_name unicode_prop_name_table (map of_char ''AHex'' @ [0]) = Some 0"
    unfolding unicode_prop_name_table_def name_table_entries
    by (subst find_name_entries [OF entries_ok_names key(2)]) (simp, simp only: list.map find_entry.simps key(1) [unfolded list.map] if_True)
  from unicode_prop_correct [OF _ this, of "cr_init (\<lambda>_. True)"] show ?thesis by (simp add: fresh_def)
qed

end
