(* ===== verification/Unicode_Script.thy ===== *)
theory Unicode_Script
  imports Unicode_Prop_Correct
begin

text \<open>
  The ranges of \<open>unicode_script\<close>. The tables of scripts and of script extensions are both sequences of
  runs with a value, and the two loops add the runs whose value is wanted; the locale \<open>run_table\<close> holds
  what they share.
\<close>

section \<open>Tables of runs\<close>

text \<open>The value of the run that holds offset \<open>x\<close>, and the code point behind the last run. A decoder
  returns the length of a run less one, its value and the rest of the table, which has to be shorter.\<close>

type_synonym 'v decoder = "u8 list \<Rightarrow> (u32 \<times> 'v \<times> u8 list) option"

function run_lookup :: "'v decoder \<Rightarrow> u8 list \<Rightarrow> int \<Rightarrow> 'v option" where
  "run_lookup run p x =
     (case run p of
        None \<Rightarrow> None
      | Some (n, v, p') \<Rightarrow>
          if length p' < length p then if x \<le> uint n then Some v else run_lookup run p' (x - (uint n + 1)) else None)"
  by pat_completeness auto
termination
  by (relation "measure (\<lambda>(run, p, x). length p)") auto

declare run_lookup.simps [simp del]

locale run_table =
  fixes run :: "'v decoder"
    and scan :: "int list \<Rightarrow> int \<Rightarrow> int option"
  assumes run_length: "run p = Some (n, v, p') \<Longrightarrow> length p' < length p"
    and scan_Nil: "scan [] c = Some t \<Longrightarrow> t = c"
    and scan_step: "p \<noteq> [] \<Longrightarrow> scan (map uint p) c = Some t \<Longrightarrow>
      \<exists>n v p'. run p = Some (n, v, p') \<and> scan (map uint p') (c + (uint n + 1)) = Some t"
begin

lemma scan_mono: "scan (map uint (p :: u8 list)) c = Some t \<Longrightarrow> c \<le> t"
proof (induction p arbitrary: c rule: length_induct)
  case (1 p)
  show ?case
  proof (cases "p = []")
    case True
    then show ?thesis using "1.prems" scan_Nil by auto
  next
    case False
    then obtain n v p' where r: "run p = Some (n, v, p')" "scan (map uint p') (c + (uint n + 1)) = Some t"
      using scan_step "1.prems" by blast
    then have "c + (uint n + 1) \<le> t" using "1.IH" run_length by blast
    then show ?thesis using uint_ge_0 [of n] by linarith
  qed
qed

lemma lookup_beyond: "run [] = None \<Longrightarrow> scan (map uint p) c = Some t \<Longrightarrow> t - c \<le> x \<Longrightarrow> run_lookup run p x = None"
proof (induction p arbitrary: c x rule: length_induct)
  case (1 p)
  show ?case
  proof (cases "p = []")
    case True
    then show ?thesis using "1.prems" by (subst run_lookup.simps) simp
  next
    case False
    then obtain n v p' where r: "run p = Some (n, v, p')" "scan (map uint p') (c + (uint n + 1)) = Some t"
      using scan_step "1.prems" by blast
    moreover have "\<not> x \<le> uint n" using scan_mono [OF r(2)] "1.prems"(3) by linarith
    ultimately show ?thesis
      using "1.IH" [rule_format, OF run_length [OF r(1)] "1.prems"(1) r(2), of "x - (uint n + 1)"] "1.prems"(3)
      by (subst run_lookup.simps) simp
  qed
qed

text \<open>A loop that adds the runs whose value satisfies \<open>keep\<close>.\<close>

lemma loop_covers:
  fixes loop :: "CharRange \<Rightarrow> u8 list \<Rightarrow> u32 \<Rightarrow> (int \<times> CharRange) option" and keep :: "'v \<Rightarrow> bool"
  assumes loop: "\<And>cr p c. loop cr p c =
      (if p = [] then Some (0, cr)
       else do {
         (n, v, p') \<leftarrow> run p;
         let c1 = c + n + 1;
         if keep v then do { (r, cr) \<leftarrow> cr_add_interval cr c c1; if r \<noteq> 0 then Some (-1, cr) else loop cr p' c1 }
         else loop cr p' c1 })"
    and "scan (map uint p) (uint c) = Some t" "t < 2 ^ 32" "cr_inv cr" "covers (cr_pts cr) c S"
    and "\<And>x. c \<le> x \<Longrightarrow> S x = (case run_lookup run p (uint x - uint c) of None \<Rightarrow> False | Some v \<Rightarrow> keep v)"
  shows "covering cr (word_of_int t) S (loop cr p c)"
  using assms(2-)
proof (induction p arbitrary: cr c rule: length_induct)
  case (1 p)
  note prems = "1.prems"
  show ?case
  proof (cases "p = []")
    case True
    then have "t = uint c" using prems(1) scan_Nil by auto
    then show ?thesis using prems True by (subst loop) (auto intro: cr_result_done)
  next
    case False
    then obtain n v p' where r: "run p = Some (n, v, p')" "scan (map uint p') (uint c + (uint n + 1)) = Some t"
      using scan_step prems(1) by blast
    have t: "uint c + (uint n + 1) \<le> t" by (rule scan_mono [OF r(2)])
    define c1 where "c1 = c + n + 1"
    have un: "uint (c + n) = uint c + uint n" using uint_add_lt [of c n] t prems(2) by simp
    have uc: "uint c1 = uint c + (uint n + 1)" unfolding c1_def using uint_Suc_lt [of "c + n"] un t prems(2) by simp
    have le: "c \<le> c1" using uc by (simp add: word_le_def)
    have here: "S x = keep v" if "c \<le> x" "x < c1" for x
    proof -
      have "uint x - uint c \<le> uint n" using that(2) uc by (simp add: word_less_def)
      then have "run_lookup run p (uint x - uint c) = Some v"
        using r(1) run_length [OF r(1)] by (subst run_lookup.simps) simp
      then show ?thesis using prems(5) [OF that(1)] by simp
    qed
    have later: "S x = (case run_lookup run p' (uint x - uint c1) of None \<Rightarrow> False | Some v \<Rightarrow> keep v)" if "c1 \<le> x" for x
    proof -
      have "\<not> uint x - uint c \<le> uint n" using that uc by (simp add: word_le_def)
      then have "run_lookup run p (uint x - uint c) = run_lookup run p' (uint x - uint c - (uint n + 1))"
        using r(1) run_length [OF r(1)] by (subst run_lookup.simps) simp
      moreover have "uint x - uint c - (uint n + 1) = uint x - uint c1" using uc by simp
      ultimately show ?thesis using prems(5) [OF order_trans [OF le that]] by simp
    qed
    have rest: "covering cr' (word_of_int t) S (loop cr' p' c1)" if "cr_inv cr'" "covers (cr_pts cr') c1 S" for cr'
      using "1.IH" [rule_format, OF run_length [OF r(1)] _ prems(2) that later] r(2) uc by simp
    show ?thesis
    proof (cases "keep v")
      case True
      have "covering cr c1 S (cr_add_interval cr c c1)" using add_covers [OF prems(3,4) le] here True by blast
      from cr_result_bind [OF this rest] show ?thesis
        using r(1) False True unfolding c1_def by (subst loop) (simp add: Let_def cong: if_cong)
    next
      case no: False
      have "covers (cr_pts cr) c1 S" using covers_skip [OF prems(4) le] here no by blast
      from rest [OF prems(3) this] show ?thesis
        using r(1) False no unfolding c1_def by (subst loop) (simp add: Let_def)
    qed
  qed
qed

end

section \<open>The two tables\<close>

text \<open>The same decoding in integers, to evaluate the tables: the code point behind the last run.\<close>

fun script_scan :: "int list \<Rightarrow> int \<Rightarrow> int option" where
  "script_scan [] c = Some c"
| "script_scan (b # p) c =
     (let n = b mod 128; k = (if b < 128 then 0 else 1) in
      if n < 96 then if k = 0 \<or> p \<noteq> [] then script_scan (drop k p) (c + (n + 1)) else None
      else if n < 112 then
        (case p of p0 # p' \<Rightarrow>
           if k = 0 \<or> p' \<noteq> [] then script_scan (drop k p') (c + ((n - 96) * 256 + p0 + 96 + 1)) else None
         | _ \<Rightarrow> None)
      else
        (case p of p0 # p1 # p' \<Rightarrow>
           if k = 0 \<or> p' \<noteq> [] then script_scan (drop k p') (c + ((n - 112) * 65536 + p0 * 256 + p1 + 4192 + 1)) else None
         | _ \<Rightarrow> None))"

fun ext_scan :: "int list \<Rightarrow> int \<Rightarrow> int option" where
  "ext_scan [] c = Some c"
| "ext_scan (b # p) c =
     (if b < 128 then
        (case p of v # q \<Rightarrow> if nat v \<le> length q then ext_scan (drop (nat v) q) (c + (b + 1)) else None | _ \<Rightarrow> None)
      else if b < 192 then
        (case p of p0 # v # q \<Rightarrow>
           if nat v \<le> length q then ext_scan (drop (nat v) q) (c + ((b - 128) * 256 + p0 + 128 + 1)) else None
         | _ \<Rightarrow> None)
      else
        (case p of p0 # p1 # v # q \<Rightarrow>
           if nat v \<le> length q then ext_scan (drop (nat v) q) (c + ((b - 192) * 65536 + p0 * 256 + p1 + 16512 + 1)) else None
         | _ \<Rightarrow> None))"

lemma script_scan_run:
  assumes "script_scan (map uint (byte # q)) c = Some t"
  shows "\<exists>n v p'. script_run (byte # q) = Some (n, v, p') \<and> script_scan (map uint p') (c + (uint n + 1)) = Some t"
proof -
  let ?b = "ucast byte :: u32"
  define n where "n = (?b AND 0x7f)"
  have un: "uint n = uint byte mod 128"
    using uint_field [of 7 0 ?b] by (simp add: n_def take_bit_eq_mask mask_eq_exp_minus_1)
  have ty: "(drop_bit 7 ?b = 0) = (uint byte < 128)"
    using uint_drop_bit_byte [of 7 byte] by (auto simp: word_uint_eq_iff)
  have cmp: "(n < 96) = (uint byte mod 128 < 96)" "(n < 112) = (uint byte mod 128 < 112)"
    using un by (simp_all add: word_less_def)
  have two: "uint ((push_bit 8 (n - 96) OR ucast p0) + 96 :: u32) = (uint byte mod 128 - 96) * 256 + uint p0 + 96"
    if "\<not> n < 96" for p0 :: u8
    using uint_sub_const [of 96 n] uint_two_bytes [of "n - 96" 96 p0] un that by (simp add: word_less_def)
  have three: "uint ((push_bit 16 (n - 112) OR push_bit 8 (ucast p0) OR ucast p1) + (96 + push_bit 12 1) :: u32) =
      (uint byte mod 128 - 112) * 65536 + uint p0 * 256 + uint p1 + 4192" if "\<not> n < 112" for p0 p1 :: u8
    using uint_sub_const [of 112 n] uint_three_bytes [of "n - 112" "96 + push_bit 12 1" p0 p1] un that
    by (simp add: word_less_def)
  show ?thesis
    using assms two three unfolding script_run_def Let_def list.case n_def [symmetric]
    by (auto simp: ty cmp un Let_def drop_Suc neq_Nil_conv split: if_splits list.splits)
qed

lemma ext_scan_run:
  assumes "ext_scan (map uint (byte # q)) c = Some t"
  shows "\<exists>n v p'. script_ext_run (byte # q) = Some (n, v, p') \<and> ext_scan (map uint p') (c + (uint n + 1)) = Some t"
proof -
  define b where "b = (ucast byte :: u32)"
  have ub: "uint b = uint byte" by (simp add: b_def uint_up_ucast is_up)
  have cmp: "(b < 128) = (uint byte < 128)" "(b < 192) = (uint byte < 192)" by (simp_all add: ub word_less_def)
  have two: "uint ((push_bit 8 (b - 128) OR ucast p0) + 128 :: u32) = (uint byte - 128) * 256 + uint p0 + 128"
    if "\<not> b < 128" for p0 :: u8
    using uint_sub_const [of 128 b] uint_two_bytes [of "b - 128" 128 p0] ub uint_byte_lt [of byte] that
    by (simp add: word_less_def)
  have three: "uint ((push_bit 16 (b - 128 - 64) OR push_bit 8 (ucast p0) OR ucast p1) + (128 + push_bit 14 1) :: u32) =
      (uint byte - 192) * 65536 + uint p0 * 256 + uint p1 + 16512" if "\<not> b < 128 + 64" for p0 p1 :: u8
    using uint_sub_const [of 128 b] uint_sub_const [of 64 "b - 128"] uint_three_bytes [of "b - 128 - 64" "128 + push_bit 14 1" p0 p1]
      ub uint_byte_lt [of byte] that by (simp add: word_less_def)
  consider "uint byte < 128" | "\<not> uint byte < 128" "uint byte < 192" | "\<not> uint byte < 192" "\<not> uint byte < 128" by linarith
  then show ?thesis
    using assms two three unfolding script_ext_run_def Let_def list.case b_def [symmetric]
    by cases (auto simp: ub cmp drop_map rd_n_def split: if_splits list.splits)
qed

lemma drop_1_append: "p \<noteq> [] \<Longrightarrow> drop (Suc 0) (p @ q) = drop (Suc 0) p @ q"
  by (cases p) auto

lemma script_scan_append: "script_scan xs c = Some t \<Longrightarrow> script_scan (xs @ ys) c = script_scan ys t"
proof (induction xs c rule: script_scan.induct)
  case (2 b p c)
  then show ?case
    by (auto simp: script_scan.simps(2) [of b p] script_scan.simps(2) [of b "p @ ys"] Let_def drop_1_append simp del: script_scan.simps drop_append
        split: if_splits list.splits)
qed simp

lemma ext_scan_append: "ext_scan xs c = Some t \<Longrightarrow> ext_scan (xs @ ys) c = ext_scan ys t"
proof (induction xs c rule: ext_scan.induct)
  case (2 b p c)
  then show ?case
    by (auto simp: ext_scan.simps(2) [of b p] ext_scan.simps(2) [of b "p @ ys"] simp del: ext_scan.simps
        split: if_splits list.splits)
qed simp

fun scan_by_rows :: "(int list \<Rightarrow> int \<Rightarrow> int option) \<Rightarrow> u8 list list \<Rightarrow> int \<Rightarrow> int option" where
  "scan_by_rows scan [] c = Some c"
| "scan_by_rows scan (r # rs) c = do { c \<leftarrow> scan (map uint r) c; scan_by_rows scan rs c }"

lemma script_scan_rows: "scan_by_rows script_scan rows c = Some t \<Longrightarrow> script_scan (map uint (concat rows)) c = Some t"
  by (induction rows arbitrary: c) (auto simp: script_scan_append split: bind_splits)

lemma ext_scan_rows: "scan_by_rows ext_scan rows c = Some t \<Longrightarrow> ext_scan (map uint (concat rows)) c = Some t"
  by (induction rows arbitrary: c) (auto simp: ext_scan_append split: bind_splits)

interpretation script_table: run_table script_run script_scan
proof unfold_locales
  show "script_run p = Some (n, v, p') \<Longrightarrow> length p' < length p" for p n v p' by (rule script_run_length)
  show "script_scan (map uint p) c = Some t \<Longrightarrow> p \<noteq> [] \<Longrightarrow>
      \<exists>n v p'. script_run p = Some (n, v, p') \<and> script_scan (map uint p') (c + (uint n + 1)) = Some t" for p c t
    by (cases p) (simp_all del: script_scan.simps list.map add: script_scan_run)
qed simp_all

interpretation ext_table: run_table script_ext_run ext_scan
proof unfold_locales
  show "script_ext_run p = Some (n, v, p') \<Longrightarrow> length p' < length p" for p n v p' by (rule script_ext_run_length)
  show "ext_scan (map uint p) c = Some t \<Longrightarrow> p \<noteq> [] \<Longrightarrow>
      \<exists>n v p'. script_ext_run p = Some (n, v, p') \<and> ext_scan (map uint p') (c + (uint n + 1)) = Some t" for p c t
    by (cases p) (simp_all del: ext_scan.simps list.map add: ext_scan_run)
qed simp_all

lemma script_part1: "script_scan (map uint unicode_script_table_1) 0 = Some 0x1cf4"
  unfolding unicode_script_table_1_def by (rule script_scan_rows) code_simp

lemma script_part2: "script_scan (map uint unicode_script_table_2) 0x1cf4 = Some 0x1107f"
  unfolding unicode_script_table_2_def by (rule script_scan_rows) code_simp

lemma script_part3: "script_scan (map uint unicode_script_table_3) 0x1107f = Some 0xe01f0"
  unfolding unicode_script_table_3_def by (rule script_scan_rows) code_simp

lemma script_table_scan: "script_scan (map uint unicode_script_table) 0 = Some 0xe01f0"
  by (simp only: unicode_script_table_def map_append script_scan_append [OF script_part1] script_scan_append [OF script_part2] script_part3)

lemma ext_table_scan: "ext_scan (map uint unicode_script_ext_table) 0 = Some 0x110000"
  unfolding unicode_script_ext_table_def by (rule ext_scan_rows) code_simp

section \<open>What the ranges contain\<close>

text \<open>The script of a code point and the scripts it is used with, as the tables encode them.\<close>

definition script_of :: "u32 \<Rightarrow> u32 option" where
  "script_of x = run_lookup script_run unicode_script_table (uint x)"

definition scripts_using :: "u32 \<Rightarrow> u32 list" where
  "scripts_using x = (case run_lookup script_ext_run unicode_script_ext_table (uint x) of None \<Rightarrow> [] | Some vs \<Rightarrow> map ucast vs)"

definition script_meaning :: "nat \<Rightarrow> bool \<Rightarrow> u32 \<Rightarrow> bool" where
  "script_meaning idx is_ext x =
     (if \<not> is_ext then script_of x = Some (of_nat idx)
      else if idx = UNICODE_SCRIPT_Common \<or> idx = UNICODE_SCRIPT_Inherited
      then script_of x = Some (of_nat idx) \<and> scripts_using x = []
      else script_of x = Some (of_nat idx) \<or> of_nat idx \<in> set (scripts_using x))"

lemma script_of_beyond: "word_of_int 0xe01f0 \<le> x \<Longrightarrow> script_of x = None"
  unfolding script_of_def
  by (rule script_table.lookup_beyond [OF _ script_table_scan]) (auto simp: script_run_def word_le_def)

lemma script_loop_denotes:
  assumes "fresh cr"
  shows "cr_result cr (denotes (\<lambda>x. script_of x = Some idx)) (script_loop cr idx unicode_script_table 0)"
proof -
  let ?S = "\<lambda>x. script_of x = Some idx"
  have S: "?S x = (case run_lookup script_run unicode_script_table (uint x) of None \<Rightarrow> False | Some v \<Rightarrow> v = idx)" for x
    by (simp add: script_of_def split: option.splits)
  have cov: "covering cr (word_of_int 0xe01f0) ?S (script_loop cr idx unicode_script_table 0)"
    by (rule script_table.loop_covers [where keep = "\<lambda>v. v = idx", OF script_loop.simps])
      (use assms script_table_scan covers_start S in \<open>auto simp: fresh_def\<close>)
  have "\<not> ?S x" if "word_of_int 0xe01f0 \<le> x" for x using script_of_beyond [OF that] by simp
  then show ?thesis using cr_result_weaken [OF cov] covers_denotes by blast
qed

lemma script_ext_loop_denotes:
  assumes "fresh cr"
  shows "cr_result cr (denotes (\<lambda>x. if is_common then scripts_using x \<noteq> [] else idx \<in> set (scripts_using x)))
    (script_ext_loop cr idx is_common unicode_script_ext_table 0)"
proof -
  let ?S = "\<lambda>x. if is_common then scripts_using x \<noteq> [] else idx \<in> set (scripts_using x)"
  let ?keep = "\<lambda>vs :: u8 list. if is_common then vs \<noteq> [] else list_ex (\<lambda>v. ucast v = idx) vs"
  have S: "?S x = (case run_lookup script_ext_run unicode_script_ext_table (uint x) of None \<Rightarrow> False | Some vs \<Rightarrow> ?keep vs)" for x
    by (auto simp: scripts_using_def list_ex_iff split: option.splits)
  have cov: "covering cr (word_of_int 0x110000) ?S (script_ext_loop cr idx is_common unicode_script_ext_table 0)"
    by (rule ext_table.loop_covers [where keep = ?keep, OF script_ext_loop.simps])
      (use assms ext_table_scan covers_start S in \<open>auto simp: fresh_def\<close>)
  have "\<not> ?S x" if "word_of_int 0x110000 \<le> x" for x
  proof -
    have "run_lookup script_ext_run unicode_script_ext_table (uint x) = None"
      by (rule ext_table.lookup_beyond [OF _ ext_table_scan]) (use that in \<open>auto simp: script_ext_run_def word_le_def\<close>)
    then show ?thesis by (simp add: scripts_using_def)
  qed
  then show ?thesis using cr_result_weaken [OF cov] covers_denotes by blast
qed

text \<open>How \<open>unicode_script\<close> ends: with the range, or, after a refused request, not at all.\<close>

definition script_outcome :: "CharRange \<Rightarrow> (u32 \<Rightarrow> bool) \<Rightarrow> bool \<Rightarrow> script_result option \<Rightarrow> bool" where
  "script_outcome cr S is_ext res \<longleftrightarrow>
     (\<exists>cr'. res = Some (Returned 0 cr') \<and> cr_inv cr' \<and> denotes S (cr_pts cr')) \<or>
     (\<exists>n. \<not> cr_realloc_func cr n) \<and> (res = Some Loops_Forever \<or> is_ext \<and> res = None)"

lemma script_fail_outcome: "\<not> cr_realloc_func cr n \<Longrightarrow> script_outcome cr S is_ext (script_fail is_ext cr1 cr2)"
  using fail_passes_two(1) [of is_ext cr1 cr2] by (auto simp: script_outcome_def script_fail_def split: option.splits)

lemma script_outcome_bind:
  assumes "cr_result cr0 P f" "cr_realloc_func cr0 = cr_realloc_func cr"
    and "\<And>cr'. cr_inv cr' \<Longrightarrow> cr_realloc_func cr' = cr_realloc_func cr \<Longrightarrow> P (cr_pts cr') \<Longrightarrow> script_outcome cr S is_ext (g cr')"
    and "\<And>cr'. script_outcome cr S is_ext (h cr') \<or> (\<forall>n. cr_realloc_func cr n)"
  shows "script_outcome cr S is_ext (do { (r, cr') \<leftarrow> f; if r \<noteq> 0 then h cr' else g cr' })"
proof -
  obtain r cr' where f: "f = Some (r, cr')" "cr_inv cr'" "cr_realloc_func cr' = cr_realloc_func cr"
    "(\<forall>n. cr_realloc_func cr n) \<longrightarrow> r = 0" "r = 0 \<longrightarrow> P (cr_pts cr')"
    using assms(1,2) by (auto simp: cr_result_def)
  then show ?thesis using assms(3) [of cr'] assms(4) [of cr'] by (cases "r = 0") auto
qed

lemma script_fail_or: "script_outcome cr S is_ext (script_fail is_ext cr1 cr2) \<or> (\<forall>n. cr_realloc_func cr n)"
  using script_fail_outcome by blast

lemma cr_op_denotes:
  assumes "fresh cr" "denotes p a" "denotes q b"
  shows "cr_result cr (denotes (\<lambda>x. cr_op_fun op (p x) (q x))) (cr_op cr a b op)"
proof (rule cr_result_weaken [OF cr_op_spec])
  show "cr_inv cr" using assms(1) by (simp add: fresh_def)
  then show "cr_len cr = 0" using assms(1) length_cr_pts [of cr] by (simp add: fresh_def)
qed (use assms(2,3) cr_canonicalD in \<open>auto simp: denotes_def\<close>)

lemma cr_invert_denotes: "cr_inv cr \<Longrightarrow> denotes p (cr_pts cr) \<Longrightarrow> cr_result cr (denotes (\<lambda>x. \<not> p x)) (cr_invert cr)"
  by (rule cr_result_weaken [OF cr_invert_sorted]) (use cr_canonicalD in \<open>auto simp: denotes_def\<close>)

lemma denotes_cong: "denotes S pts \<Longrightarrow> (\<And>x. S x = T x) \<Longrightarrow> denotes T pts"
  by (simp add: denotes_def)

lemma script_outcome_cong:
  "script_outcome cr S True res \<Longrightarrow> is_ext \<Longrightarrow> (\<And>x. S x = T x) \<Longrightarrow> script_outcome cr T is_ext res"
  using denotes_cong [of S _ T] by (auto simp: script_outcome_def)

lemma script_return:
  assumes "cr_result cr (denotes T) f" "\<And>x. T x = S x"
  shows "script_outcome cr S is_ext (do { (r, cr') \<leftarrow> f; if r \<noteq> 0 then script_fail is_ext c1 c2 else Some (Returned 0 cr') })"
  by (rule script_outcome_bind [OF cr_result_weaken [OF assms(1), of "denotes S"] refl _ script_fail_or])
    (use assms(2) denotes_cong in \<open>auto simp: script_outcome_def\<close>)

lemma script_combine_outcome:
  assumes fresh: "fresh cr" and d1: "denotes p (cr_pts cr1)"
    and cr2: "cr_inv cr2" "cr_realloc_func cr2 = cr_realloc_func cr" and d2: "denotes q (cr_pts cr2)"
  shows "script_outcome cr (\<lambda>x. if is_common then p x \<and> \<not> q x else p x \<or> q x) True (script_combine cr cr1 cr2 is_common)"
proof (cases is_common)
  case True
  have "script_outcome cr (\<lambda>x. p x \<and> \<not> q x) True (do {
      (r, cr2) \<leftarrow> cr_invert cr2;
      if r \<noteq> 0 then script_fail True cr1 cr2
      else do {
        (r, cr) \<leftarrow> cr_op cr (cr_pts cr1) (cr_pts cr2) CR_OP_INTER;
        if r \<noteq> 0 then script_fail True cr1 cr2 else Some (Returned 0 cr) } })"
    by (rule script_outcome_bind [OF cr_invert_denotes [OF cr2(1) d2] cr2(2) _ script_fail_or])
      (rule script_return [OF cr_op_denotes [OF fresh d1]], assumption, simp add: cr_op_fun_def)
  then show ?thesis using True by (simp add: script_combine_def)
next
  case False
  have "script_outcome cr (\<lambda>x. p x \<or> q x) True
      (do { (r, cr) \<leftarrow> cr_op cr (cr_pts cr1) (cr_pts cr2) CR_OP_UNION; if r \<noteq> 0 then script_fail True cr1 cr2 else Some (Returned 0 cr) })"
    by (rule script_return [OF cr_op_denotes [OF fresh d1 d2]]) (simp add: cr_op_fun_def)
  then show ?thesis using False by (simp add: script_combine_def)
qed

lemma unicode_script_outcome:
  assumes fresh: "fresh cr" and "unicode_find_name unicode_script_name_table script_name = Some idx" "0 \<le> idx"
  shows "script_outcome cr (script_meaning (nat idx + 1) is_ext) is_ext (unicode_script cr script_name is_ext)"
proof -
  define i where "i = nat idx + UNICODE_SCRIPT_Unknown + 1"
  define common where "common \<longleftrightarrow> i = UNICODE_SCRIPT_Common \<or> i = UNICODE_SCRIPT_Inherited"
  let ?S = "script_meaning i is_ext" and ?alloc = "cr_realloc_func cr"
  have init: "fresh (cr_init ?alloc)" "cr_realloc_func (cr_init ?alloc) = ?alloc" by (simp add: fresh_def) (simp add: cr_init_def)
  have cr1: "fresh (if is_ext then cr_init ?alloc else cr)" "cr_realloc_func (if is_ext then cr_init ?alloc else cr) = ?alloc"
    using fresh init by simp_all
  have ext: "script_outcome cr ?S is_ext (do {
      (r, cr2) \<leftarrow> script_ext_loop (cr_init ?alloc) (of_nat i) common unicode_script_ext_table 0;
      if r \<noteq> 0 then script_fail is_ext cr1 cr2 else script_combine cr cr1 cr2 common })"
    if "is_ext" "denotes (\<lambda>x. script_of x = Some (of_nat i)) (cr_pts cr1)" for cr1
  proof (rule script_outcome_bind [OF script_ext_loop_denotes [OF init(1)] init(2) _ script_fail_or])
    fix cr2 assume "cr_inv cr2" "cr_realloc_func cr2 = ?alloc"
      "denotes (\<lambda>x. if common then scripts_using x \<noteq> [] else of_nat i \<in> set (scripts_using x)) (cr_pts cr2)"
    from script_combine_outcome [OF fresh that(2) this, of common] show "script_outcome cr ?S is_ext (script_combine cr cr1 cr2 common)"
      by (rule script_outcome_cong) (use that(1) in \<open>auto simp: script_meaning_def common_def\<close>)
  qed
  have "script_outcome cr ?S is_ext (do {
      (r, cr1) \<leftarrow> script_loop (if is_ext then cr_init ?alloc else cr) (of_nat i) unicode_script_table 0;
      if r \<noteq> 0 then script_fail is_ext cr1 (cr_init ?alloc)
      else if \<not> is_ext then Some (Returned 0 cr1)
      else do {
        (r, cr2) \<leftarrow> script_ext_loop (cr_init ?alloc) (of_nat i) common unicode_script_ext_table 0;
        if r \<noteq> 0 then script_fail is_ext cr1 cr2 else script_combine cr cr1 cr2 common } })"
  proof (rule script_outcome_bind [OF script_loop_denotes [OF cr1(1)] cr1(2) _ script_fail_or], goal_cases)
    case (1 cr1)
    then show ?case
      using ext [of cr1] denotes_cong [OF 1(3), of ?S] by (cases is_ext) (auto simp: script_outcome_def script_meaning_def)
  qed
  then show ?thesis
    using assms(2,3) by (simp add: unicode_script_def i_def common_def Let_def UNICODE_SCRIPT_Unknown_def cong: if_cong)
qed

section \<open>Theorems\<close>

text \<open>C17: scripts by name. When no request for memory is refused, \<open>unicode_script\<close> returns 0 with a range
  for exactly the code points of the script; with extensions, for the code points that also list the
  script among the scripts they are used with, and for Common and Inherited only those that list
  none. A name that is not in the table gives -2 and leaves the range alone.\<close>

theorem unicode_script_correct:
  assumes "fresh cr" "\<And>n. cr_realloc_func cr n" "unicode_find_name unicode_script_name_table script_name = Some idx"
  shows "\<exists>cr'. unicode_script cr script_name is_ext = Some (Returned (if idx < 0 then -2 else 0) cr') \<and>
    (if idx < 0 then cr' = cr else cr_inv cr' \<and> denotes (script_meaning (nat idx + 1) is_ext) (cr_pts cr'))"
proof (cases "idx < 0")
  case True
  then show ?thesis using assms(3) by (simp add: unicode_script_def)
next
  case False
  then show ?thesis using unicode_script_outcome [OF assms(1,3), of is_ext] assms(2) by (auto simp: script_outcome_def)
qed

lemma find_entry_take: "find_entry key (map f (take n ns)) pos = r \<Longrightarrow> r \<noteq> -1 \<Longrightarrow> find_entry key (map f ns) pos = r"
proof (induction ns arbitrary: n pos)
  case (Cons s ns)
  then show ?case by (cases n) (auto split: if_splits)
qed simp

lemma find_Common: "unicode_find_name unicode_script_name_table (map of_char ''Zyyy'' @ [0]) = Some 24"
proof -
  have key: "0 \<notin> set (map of_char ''Zyyy'' :: u8 list)" by code_simp
  show ?thesis
    unfolding unicode_script_name_table_def name_table_entries
    by (subst find_name_entries [OF entries_ok_names key], simp, subst find_entry_take [where n = 25]) (code_simp, simp_all)
qed

theorem unicode_script_correct_witness:
  "\<exists>cr'. unicode_script (cr_init (\<lambda>_. True)) (map of_char ''Zyyy'' @ [0]) True = Some (Returned 0 cr') \<and>
    cr_inv cr' \<and> denotes (script_meaning 25 True) (cr_pts cr')"
proof -
  have "cr_realloc_func (cr_init (\<lambda>_. True)) n" for n by (simp add: cr_init_def)
  from unicode_script_correct [OF _ this find_Common, of True] show ?thesis by (simp add: fresh_def)
qed

text \<open>What an allocator that grants nothing leaves of the first loop: a range without a block is not changed, and a run
  of the wanted script makes the loop fail.\<close>

lemma script_loop_refused:
  assumes "\<And>n. \<not> cr_realloc_func cr n" "cr_size cr = 0" "script_loop cr idx p c = Some (r, cr')"
  shows "cr' = cr"
  using assms(3)
proof (induction p arbitrary: c rule: length_induct)
  case (1 p)
  have add: "cr_add_interval cr a b = Some (-1, cr)" for a b
    using assms(1,2) by (simp add: cr_add_interval_def cr_realloc_def Let_def)
  show ?case
    using "1.prems" "1.IH" by (subst (asm) script_loop.simps) (auto simp: add Let_def dest: script_run_length split: if_splits bind_splits)
qed

lemma script_loop_fails:
  assumes "fresh cr" "\<And>n. \<not> cr_realloc_func cr n" "cr_size cr = 0" "script_of x = Some idx"
  shows "\<exists>r. r \<noteq> 0 \<and> script_loop cr idx unicode_script_table 0 = Some (r, cr)"
proof -
  obtain r cr' where r: "script_loop cr idx unicode_script_table 0 = Some (r, cr')"
    "r = 0 \<longrightarrow> denotes (\<lambda>x. script_of x = Some idx) (cr_pts cr')"
    using script_loop_denotes [OF assms(1), of idx] by (auto simp: cr_result_def)
  have "cr' = cr" by (rule script_loop_refused [OF assms(2,3) r(1)])
  moreover have "x \<noteq> UINT32_MAX"
  proof
    assume "x = UINT32_MAX"
    then have "script_of x = None" by (intro script_of_beyond) (simp add: UINT32_MAX_def)
    then show False using assms(4) by simp
  qed
  ultimately have "r \<noteq> 0" using r(2) assms(1,4) by (auto simp: denotes_def fresh_def)
  then show ?thesis using r(1) \<open>cr' = cr\<close> by blast
qed

text \<open>C18: after a failed allocation \<open>unicode_script\<close> never returns, although the comment in front of it promises -1. For a
  script of the table and any allocator, a call that returns has returned 0 with the range of the script; every other
  call has met a refused request and either runs through the code behind \<^verbatim>\<open>fail\<close> forever or, with extensions,
  releases a block a second time there. The outcome \<open>Loops_Forever\<close> of that code stands for a run in which any number
  of passes can be made. With an allocator that refuses everything the call is endless for every script that has a
  character.\<close>

theorem unicode_script_failure_endless:
  assumes "fresh cr" "unicode_find_name unicode_script_name_table script_name = Some idx" "0 \<le> idx"
  shows "(case unicode_script cr script_name is_ext of
      Some (Returned r cr') \<Rightarrow> r = 0 \<and> cr_inv cr' \<and> denotes (script_meaning (nat idx + 1) is_ext) (cr_pts cr')
    | Some Loops_Forever \<Rightarrow> \<exists>n. \<not> cr_realloc_func cr n
    | None \<Rightarrow> is_ext \<and> (\<exists>n. \<not> cr_realloc_func cr n)) \<and>
    (script_fail is_ext cr1 cr2 = Some Loops_Forever \<longleftrightarrow> (\<forall>n. fail_passes is_ext cr1 cr2 n (False, False) \<noteq> None)) \<and>
    ((\<forall>n. \<not> cr_realloc_func cr n) \<and> cr_points cr = [] \<and> (\<exists>x. script_of x = Some (of_nat (nat idx + 1))) \<longrightarrow>
      unicode_script cr script_name is_ext = Some Loops_Forever)"
proof (intro conjI impI)
  show "case unicode_script cr script_name is_ext of
      Some (Returned r cr') \<Rightarrow> r = 0 \<and> cr_inv cr' \<and> denotes (script_meaning (nat idx + 1) is_ext) (cr_pts cr')
    | Some Loops_Forever \<Rightarrow> \<exists>n. \<not> cr_realloc_func cr n
    | None \<Rightarrow> is_ext \<and> (\<exists>n. \<not> cr_realloc_func cr n)"
    using unicode_script_outcome [OF assms, of is_ext] by (auto simp: script_outcome_def)
  show "script_fail is_ext cr1 cr2 = Some Loops_Forever \<longleftrightarrow> (\<forall>n. fail_passes is_ext cr1 cr2 n (False, False) \<noteq> None)"
    using fail_passes_two(2) [of is_ext cr1 cr2] by (auto simp: script_fail_def split: option.splits)
  assume a: "(\<forall>n. \<not> cr_realloc_func cr n) \<and> cr_points cr = [] \<and> (\<exists>x. script_of x = Some (of_nat (nat idx + 1)))"
  define cr1 where "cr1 = (if is_ext then cr_init (cr_realloc_func cr) else cr)"
  have c: "fresh cr1" "\<not> cr_realloc_func cr1 n" "cr_size cr1 = 0" "cr_points cr1 = []" for n
    using a assms(1) by (auto simp: cr1_def fresh_def cr_inv_def cr_init_def cr_pts_def)
  obtain r where "r \<noteq> 0" "script_loop cr1 (of_nat (nat idx + 1)) unicode_script_table 0 = Some (r, cr1)"
    using script_loop_fails [OF c(1-3)] a by blast
  moreover have "script_fail is_ext cr1 (cr_init f) = Some Loops_Forever" for f
    using fail_passes_idle [of is_ext cr1 "cr_init f" 2] c(4) by (simp add: script_fail_def cr_init_def)
  ultimately show "unicode_script cr script_name is_ext = Some Loops_Forever"
    using assms(2,3) by (simp add: unicode_script_def Let_def UNICODE_SCRIPT_Unknown_def cr1_def cong: if_cong)
qed

lemma script_table_start: "\<exists>p. unicode_script_table = 0xc0 # 0x19 # p"
  by (simp add: unicode_script_table_def unicode_script_table_1_def)

lemma script_of_0: "script_of 0 = Some 25"
proof -
  obtain p where p: "unicode_script_table = 0xc0 # 0x19 # p" using script_table_start by blast
  have "script_run (0xc0 # 0x19 # p) = Some (0x40, 0x19, p)" by (simp add: script_run_def Let_def)
  then show ?thesis unfolding script_of_def p by (subst run_lookup.simps) simp
qed

theorem unicode_script_failure_endless_witness:
  "unicode_script (cr_init (\<lambda>_. False)) (map of_char ''Zyyy'' @ [0]) True = Some Loops_Forever \<and>
   unicode_script (cr_init (\<lambda>_. False)) (map of_char ''Zyyy'' @ [0]) False = Some Loops_Forever"
proof -
  have "fresh (cr_init (\<lambda>_. False))" "\<forall>n. \<not> cr_realloc_func (cr_init (\<lambda>_. False)) n" "cr_points (cr_init (\<lambda>_. False)) = []"
    by (simp_all add: fresh_def) (simp_all add: cr_init_def)
  moreover have "\<exists>x. script_of x = Some (of_nat (nat 24 + 1))" using script_of_0 by auto
  ultimately show ?thesis
    using unicode_script_failure_endless [OF _ find_Common, of "cr_init (\<lambda>_. False)"] by simp
qed

end
