(* ===== verification/Unicode_Normalize.thy ===== *)
theory Unicode_Normalize
  imports Unicode_Norm_Tables Unicode_Lookup Dyn_Buf
begin

text \<open>
  Normalisation, \<open>unicode_normalize\<close> of \<^verbatim>\<open>src/qjs/libunicode.c\<close>: decomposition of code points, combining
  classes, canonical ordering and composition. A code point is a 32-bit word, also where the C code
  keeps it in an \<^verbatim>\<open>int\<close>. A read outside a table, a write outside an array or the use of an element that was
  never written is \<open>None\<close>.
\<close>

section \<open>Decomposition\<close>

definition UNICODE_DECOMP_LEN_MAX :: nat where "UNICODE_DECOMP_LEN_MAX = 18"

definition DECOMP_TYPE_C1 :: nat where "DECOMP_TYPE_C1 = 0"
definition DECOMP_TYPE_L1 :: nat where "DECOMP_TYPE_L1 = 1"
definition DECOMP_TYPE_L7 :: nat where "DECOMP_TYPE_L7 = 7"
definition DECOMP_TYPE_LL1 :: nat where "DECOMP_TYPE_LL1 = 8"
definition DECOMP_TYPE_LL2 :: nat where "DECOMP_TYPE_LL2 = 9"
definition DECOMP_TYPE_S1 :: nat where "DECOMP_TYPE_S1 = 10"
definition DECOMP_TYPE_S5 :: nat where "DECOMP_TYPE_S5 = 14"
definition DECOMP_TYPE_I1 :: nat where "DECOMP_TYPE_I1 = 15"
definition DECOMP_TYPE_I2_0 :: nat where "DECOMP_TYPE_I2_0 = 16"
definition DECOMP_TYPE_I4_2 :: nat where "DECOMP_TYPE_I4_2 = 21"
definition DECOMP_TYPE_B1 :: nat where "DECOMP_TYPE_B1 = 22"
definition DECOMP_TYPE_B8 :: nat where "DECOMP_TYPE_B8 = 29"
definition DECOMP_TYPE_B18 :: nat where "DECOMP_TYPE_B18 = 30"
definition DECOMP_TYPE_LS2 :: nat where "DECOMP_TYPE_LS2 = 31"
definition DECOMP_TYPE_PAT3 :: nat where "DECOMP_TYPE_PAT3 = 32"
definition DECOMP_TYPE_S2_UL :: nat where "DECOMP_TYPE_S2_UL = 33"
definition DECOMP_TYPE_LS2_UL :: nat where "DECOMP_TYPE_LS2_UL = 34"

definition unicode_short_table :: "u32 list" where
  "unicode_short_table = [0x2044, 0x2215]"

definition unicode_get_short_code :: "u32 \<Rightarrow> u32 option" where
  "unicode_get_short_code c =
     (if c < 0x80 then Some c
      else if c < 0x80 + 0x50 then Some (c - 0x80 + 0x300)
      else rd unicode_short_table (unat (c - 0x80 - 0x50)))"

definition unicode_get_lower_simple :: "u32 \<Rightarrow> u32" where
  "unicode_get_lower_simple c =
     (if c < 0x100 \<or> c \<ge> 0x410 \<and> c \<le> 0x42f then c + 0x20 else c + 1)"

text \<open>A pointer into \<open>unicode_decomp_data\<close> is an offset.\<close>

definition decomp_byte :: "nat \<Rightarrow> u32 option" where
  "decomp_byte p = map_option ucast (rd unicode_decomp_data p)"

definition unicode_get16 :: "nat \<Rightarrow> u32 option" where
  "unicode_get16 p = do { a \<leftarrow> decomp_byte p; b \<leftarrow> decomp_byte (p + 1); Some (a OR push_bit 8 b) }"

definition decomp_short :: "nat \<Rightarrow> u32 option" where
  "decomp_short p = do { b \<leftarrow> decomp_byte p; unicode_get_short_code b }"

text \<open>The loops \<^verbatim>\<open>for(i = 0; i < l; i++)\<close> that fill \<open>res\<close>; \<open>res\<close> is the part written so far. With
  \<open>stop\<close> a value of zero ends the function with 0, that is, without a decomposition.\<close>

function decomp_fill :: "bool \<Rightarrow> (nat \<Rightarrow> u32 option) \<Rightarrow> nat \<Rightarrow> nat \<Rightarrow> u32 list \<Rightarrow> u32 list option" where
  "decomp_fill stop f i l res =
     (if i < l then do {
        x \<leftarrow> f i;
        if stop \<and> x = 0 then Some [] else decomp_fill stop f (i + 1) l (res @ [x]) }
      else Some res)"
  by pat_completeness auto
termination
  by (relation "measure (\<lambda>(stop, f, i, l, res). l - i)") auto

declare decomp_fill.simps [simp del]

text \<open>The code points of \<open>DECOMP_TYPE_LL1\<close> and \<open>DECOMP_TYPE_LL2\<close>: 16 bits from one table and two bits from a
  second one that starts \<open>p\<close> bytes later.\<close>

definition decomp_18 :: "nat \<Rightarrow> nat \<Rightarrow> nat \<Rightarrow> u32 option" where
  "decomp_18 d p k = do {
     lo \<leftarrow> unicode_get16 (d + 2 * k);
     hi \<leftarrow> decomp_byte (d + p + k div 4);
     Some (lo OR push_bit 16 (drop_bit (k mod 4 * 2) hi AND 3)) }"

definition decomp_base :: "nat \<Rightarrow> nat \<Rightarrow> nat \<Rightarrow> u32 list option" where
  "decomp_base d off l = do {
     c_min \<leftarrow> unicode_get16 d;
     decomp_fill False (\<lambda>i. do {
       c1 \<leftarrow> decomp_byte (d + 2 + off * l + i);
       Some (if c1 = 0xff then 0x20 else c1 + c_min) }) 0 l [] }"

definition decomp_incr :: "nat \<Rightarrow> nat \<Rightarrow> nat \<Rightarrow> nat \<Rightarrow> u32 list option" where
  "decomp_incr d off l p =
     decomp_fill False (\<lambda>i. do {
       c1 \<leftarrow> unicode_get16 (d + 2 * i);
       Some (if i = p then c1 + of_nat off else c1) }) 0 l []"

text \<open>The offset \<open>off\<close> is \<^verbatim>\<open>c - code\<close>. The result is the part of \<open>res\<close> that counts.\<close>

definition unicode_decomp_entry :: "nat \<Rightarrow> nat \<Rightarrow> nat \<Rightarrow> nat \<Rightarrow> u32 list option" where
  "unicode_decomp_entry off idx len type = do {
     d16 \<leftarrow> rd unicode_decomp_table2 idx;
     let d = unat d16;
     if type = DECOMP_TYPE_C1 then Some [ucast d16]
     else if DECOMP_TYPE_L1 \<le> type \<and> type \<le> DECOMP_TYPE_L7 then
       (let l = type - DECOMP_TYPE_L1 + 1 in decomp_fill True (\<lambda>i. unicode_get16 (d + off * l * 2 + 2 * i)) 0 l [])
     else if DECOMP_TYPE_LL1 \<le> type \<and> type \<le> DECOMP_TYPE_LL2 then
       (let l = type - DECOMP_TYPE_LL1 + 1 in decomp_fill True (\<lambda>i. decomp_18 d (len * l * 2) (off * l + i)) 0 l [])
     else if DECOMP_TYPE_S1 \<le> type \<and> type \<le> DECOMP_TYPE_S5 then
       (let l = type - DECOMP_TYPE_S1 + 1 in decomp_fill True (\<lambda>i. decomp_short (d + off * l + i)) 0 l [])
     else if type = DECOMP_TYPE_I1 then decomp_incr d off 1 0
     else if DECOMP_TYPE_I2_0 \<le> type \<and> type \<le> DECOMP_TYPE_I4_2 then
       (let l = 2 + (type - DECOMP_TYPE_I2_0) div 2; p = (type - DECOMP_TYPE_I2_0) mod 2 + of_bool (l > 2) in
        decomp_incr d off l p)
     else if type = DECOMP_TYPE_B18 then decomp_base d off 18
     else if DECOMP_TYPE_B1 \<le> type \<and> type \<le> DECOMP_TYPE_B8 then decomp_base d off (type - DECOMP_TYPE_B1 + 1)
     else if type = DECOMP_TYPE_LS2 then do {
       a \<leftarrow> unicode_get16 (d + off * 3);
       if a = 0 then Some []
       else do { b \<leftarrow> decomp_short (d + off * 3 + 2); Some [a, b] } }
     else if type = DECOMP_TYPE_PAT3 then do {
       a \<leftarrow> unicode_get16 d;
       e \<leftarrow> unicode_get16 (d + 2);
       b \<leftarrow> unicode_get16 (d + 4 + off * 2);
       Some [a, b, e] }
     else if type = DECOMP_TYPE_S2_UL then do {
       c \<leftarrow> decomp_short (d + off div 2 * 2);
       b \<leftarrow> decomp_short (d + off div 2 * 2 + 1);
       Some [if odd off then unicode_get_lower_simple c else c, b] }
     else if type = DECOMP_TYPE_LS2_UL then do {
       c \<leftarrow> unicode_get16 (d + off div 2 * 3);
       b \<leftarrow> decomp_short (d + off div 2 * 3 + 2);
       Some [if odd off then unicode_get_lower_simple c else c, b] }
     else Some [] }"

text \<open>The fields of an entry of \<open>unicode_decomp_table1\<close>.\<close>

definition decomp_code :: "u32 \<Rightarrow> u32" where "decomp_code v = drop_bit (32 - 18) v"
definition decomp_len :: "u32 \<Rightarrow> u32" where "decomp_len v = drop_bit (32 - 18 - 7) v AND 0x7f"
definition decomp_type :: "u32 \<Rightarrow> u32" where "decomp_type v = drop_bit (32 - 18 - 7 - 6) v AND 0x3f"

function decomp_search :: "u32 \<Rightarrow> bool \<Rightarrow> int \<Rightarrow> int \<Rightarrow> u32 list option" where
  "decomp_search c is_compat1 idx_min idx_max =
     (if idx_min \<le> idx_max then
        let idx = (idx_max + idx_min) div 2 in do {
          v \<leftarrow> rd unicode_decomp_table1 (nat idx);
          if c < decomp_code v then decomp_search c is_compat1 idx_min (idx - 1)
          else if c \<ge> decomp_code v + decomp_len v then decomp_search c is_compat1 (idx + 1) idx_max
          else if \<not> is_compat1 \<and> v AND 1 \<noteq> 0 then Some []
          else unicode_decomp_entry (unat (c - decomp_code v)) (nat idx) (unat (decomp_len v)) (unat (decomp_type v)) }
      else Some [])"
  by pat_completeness auto
termination
  by (relation "measure (\<lambda>(c, k, idx_min, idx_max). nat (idx_max + 1 - idx_min))") auto

declare decomp_search.simps [simp del]

definition unicode_decomp_char :: "u32 \<Rightarrow> bool \<Rightarrow> u32 list option" where
  "unicode_decomp_char c is_compat1 = decomp_search c is_compat1 0 (int (length unicode_decomp_table1) - 1)"

section \<open>Combining classes\<close>

text \<open>One entry of the table of combining classes: its type, the length of the run less one, its class
  byte (only types 0 and 1 have one) and the rest.\<close>

definition cc_run :: "u8 list \<Rightarrow> (u32 \<times> u32 \<times> u32 \<times> u8 list) option" where
  "cc_run p =
     (case p of
        [] \<Rightarrow> None
      | byte # p \<Rightarrow>
          let b = ucast byte :: u32; type = drop_bit 6 b; n = b AND 0x3f in do {
            (n, p) \<leftarrow>
              (if n < 48 then Some (n, p)
               else if n < 56 then
                 (case p of p0 # p' \<Rightarrow> Some ((push_bit 8 (n - 48) OR ucast p0) + 48, p') | _ \<Rightarrow> None)
               else
                 (case p of p0 # p1 # p' \<Rightarrow>
                    Some ((push_bit 8 (n - 56) OR push_bit 8 (ucast p0) OR ucast p1) + (48 + push_bit 11 1), p')
                  | _ \<Rightarrow> None));
            if type \<le> 1 then (case p of v # p' \<Rightarrow> Some (type, n, ucast v, p') | _ \<Rightarrow> None)
            else Some (type, n, 0, p) })"

lemma cc_run_length: "cc_run p = Some (type, n, v, p') \<Longrightarrow> length p' < length p"
  by (auto simp: cc_run_def Let_def split: list.splits if_splits bind_splits)

text \<open>The class of a code point at distance \<open>off\<close> from the start of a run.\<close>

definition cc_value :: "u32 \<Rightarrow> u32 \<Rightarrow> u32 \<Rightarrow> u32" where
  "cc_value type v off = (if type = 0 then v else if type = 1 then v + off else if type = 2 then 0 else 230)"

function cc_walk :: "u32 \<Rightarrow> u32 \<Rightarrow> u8 list \<Rightarrow> u32 option" where
  "cc_walk c code p =
     (case cc_run p of
        None \<Rightarrow> None
      | Some (type, n, v, p') \<Rightarrow>
          let c1 = code + n + 1 in
          if c < c1 then Some (cc_value type v (c - code)) else cc_walk c c1 p')"
  by pat_completeness auto
termination
  by (relation "measure (\<lambda>(c, code, p). length p)") (auto dest: cc_run_length)

declare cc_walk.simps [simp del]

definition unicode_get_cc :: "u32 \<Rightarrow> u32 option" where
  "unicode_get_cc c = do {
     r \<leftarrow> get_index_pos c unicode_cc_index (length unicode_cc_index div 3);
     case r of
       None \<Rightarrow> Some 0
     | Some (pos, code) \<Rightarrow> if pos \<le> length unicode_cc_table then cc_walk c code (drop pos unicode_cc_table) else None }"

section \<open>Canonical ordering\<close>

text \<open>The innermost loop: the elements of a larger class than \<open>cc1\<close> move up by one place.\<close>

function sort_shift :: "u32 list \<Rightarrow> nat \<Rightarrow> int \<Rightarrow> u32 \<Rightarrow> (int \<times> u32 list) option" where
  "sort_shift buf start k cc1 =
     (if k \<ge> int start then do {
        b \<leftarrow> rd buf (nat k);
        cc \<leftarrow> unicode_get_cc b;
        if cc \<le> cc1 then Some (k, buf)
        else do { buf \<leftarrow> wr buf (nat (k + 1)) b; sort_shift buf start (k - 1) cc1 } }
      else Some (k, buf))"
  by pat_completeness auto
termination
  by (relation "measure (\<lambda>(buf, start, k, cc1). nat (k + 1))") auto

declare sort_shift.simps [simp del]

function sort_run :: "u32 list \<Rightarrow> nat \<Rightarrow> nat \<Rightarrow> nat \<Rightarrow> (nat \<times> u32 list) option" where
  "sort_run buf start j len =
     (if j < len then do {
        ch1 \<leftarrow> rd buf j;
        cc1 \<leftarrow> unicode_get_cc ch1;
        if cc1 = 0 then Some (j, buf)
        else do {
          (k, buf) \<leftarrow> sort_shift buf start (int j - 1) cc1;
          buf \<leftarrow> wr buf (nat (k + 1)) ch1;
          sort_run buf start (j + 1) len } }
      else Some (j, buf))"
  by pat_completeness auto
termination
  by (relation "measure (\<lambda>(buf, start, j, len). len - j)") auto

declare sort_run.simps [simp del]

lemma sort_run_ge: "sort_run buf start j len = Some (j', buf') \<Longrightarrow> j \<le> j'"
proof (induction "len - j" arbitrary: buf j rule: less_induct)
  case less
  have step: "j \<le> j'" if "j < len" "sort_run b start (Suc j) len = Some (j', buf')" for b
    using less.hyps [of "Suc j" b, OF diff_less_mono2 that(2)] that(1) by simp
  show ?case
    using less.prems by (subst (asm) sort_run.simps) (auto split: if_splits bind_splits intro: step)
qed

text \<open>After a run of marks the index continues behind the element that ended the run.\<close>

function sort_cc_loop :: "u32 list \<Rightarrow> nat \<Rightarrow> nat \<Rightarrow> u32 list option" where
  "sort_cc_loop buf i len =
     (if i < len then do {
        c \<leftarrow> rd buf i;
        cc \<leftarrow> unicode_get_cc c;
        if cc \<noteq> 0 then do { (j, buf) \<leftarrow> sort_run buf i (i + 1) len; sort_cc_loop buf (j + 1) len }
        else sort_cc_loop buf (i + 1) len }
      else Some buf)"
  by pat_completeness auto
termination
  by (relation "measure (\<lambda>(buf, i, len). len - i)") (auto dest!: sort_run_ge)

declare sort_cc_loop.simps [simp del]

definition sort_cc :: "u32 list \<Rightarrow> u32 list option" where
  "sort_cc buf = sort_cc_loop buf 0 (length buf)"

section \<open>Normalisation\<close>

text \<open>The recursion of \<open>to_nfd_rec\<close> goes through the decomposition of a decomposition; \<open>depth\<close> bounds how
  deep. \<open>src\<close> is the array \<^verbatim>\<open>src\<close> from the current index. The results of \<open>dbuf_put_u32\<close> are ignored, the
  buffer remembers the error.\<close>

definition put_u32_ignore :: "DynBuf \<Rightarrow> u32 \<Rightarrow> DynBuf option" where
  "put_u32_ignore dbuf c = map_option snd (dbuf_put_u32 dbuf c)"

definition hangul_decomp :: "DynBuf \<Rightarrow> u32 \<Rightarrow> DynBuf option" where
  "hangul_decomp dbuf c =
     (let c = c - 0xac00; v = c mod 28 in do {
        dbuf \<leftarrow> put_u32_ignore dbuf (0x1100 + c div 588);
        dbuf \<leftarrow> put_u32_ignore dbuf (0x1161 + (c mod 588) div 28);
        if v \<noteq> 0 then put_u32_ignore dbuf (0x11a7 + v) else Some dbuf })"

function to_nfd_rec :: "nat \<Rightarrow> DynBuf \<Rightarrow> u32 list \<Rightarrow> bool \<Rightarrow> DynBuf option" where
  "to_nfd_rec depth dbuf [] is_compat = Some dbuf"
| "to_nfd_rec depth dbuf (c # src) is_compat = do {
     dbuf \<leftarrow>
       (if c \<ge> 0xac00 \<and> c < 0xd7a4 then hangul_decomp dbuf c
        else do {
          res \<leftarrow> unicode_decomp_char c is_compat;
          if length res > UNICODE_DECOMP_LEN_MAX then None
          else if res \<noteq> [] then (case depth of 0 \<Rightarrow> None | Suc depth' \<Rightarrow> to_nfd_rec depth' dbuf res is_compat)
          else put_u32_ignore dbuf c });
     to_nfd_rec depth dbuf src is_compat }"
  by pat_completeness auto
termination
  by (relation "measures [\<lambda>(depth, dbuf, src, k). depth, \<lambda>(depth, dbuf, src, k). length src]") auto

declare to_nfd_rec.simps [simp del]

text \<open>The search in the table of compositions, which lists entries of the decomposition table in the order
  of the pairs they decompose into. A decomposition that is not a pair leaves \<^verbatim>\<open>pair\<close> partly unwritten or
  overflows it.\<close>

function compose_search :: "u32 \<Rightarrow> u32 \<Rightarrow> int \<Rightarrow> int \<Rightarrow> u32 option" where
  "compose_search c0 c1 idx_min idx_max =
     (if idx_min \<le> idx_max then
        let idx = (idx_max + idx_min) div 2 in do {
          idx1 \<leftarrow> rd unicode_comp_table (nat idx);
          let d_idx = unat (drop_bit 6 idx1);
          let d_offset = unat (idx1 AND 0x3f);
          v \<leftarrow> rd unicode_decomp_table1 d_idx;
          let ch = decomp_code v + of_nat d_offset;
          pair \<leftarrow> unicode_decomp_entry d_offset d_idx (unat (decomp_len v)) (unat (decomp_type v));
          if length pair \<noteq> 2 then None
          else do {
            let d = c0 - pair ! 0;
            let d = (if d = 0 then c1 - pair ! 1 else d);
            if sint d < 0 then compose_search c0 c1 idx_min (idx - 1)
            else if sint d > 0 then compose_search c0 c1 (idx + 1) idx_max
            else Some ch } }
      else Some 0)"
  by pat_completeness auto
termination
  by (relation "measure (\<lambda>(c0, c1, idx_min, idx_max). nat (idx_max + 1 - idx_min))") auto

declare compose_search.simps [simp del]

definition unicode_compose_pair :: "u32 \<Rightarrow> u32 \<Rightarrow> u32 option" where
  "unicode_compose_pair c0 c1 = compose_search c0 c1 0 (int (length unicode_comp_table) - 1)"

definition compose_pair :: "u32 \<Rightarrow> u32 \<Rightarrow> u32 option" where
  "compose_pair c0 c1 =
     (if c0 \<ge> 0x1100 \<and> c0 < 0x1100 + 19 \<and> c1 \<ge> 0x1161 \<and> c1 < 0x1161 + 21
      then Some (0xac00 + (c0 - 0x1100) * 588 + (c1 - 0x1161) * 28)
      else if c0 \<ge> 0xac00 \<and> c0 < 0xac00 + 11172 \<and> (c0 - 0xac00) mod 28 = 0 \<and> c1 \<ge> 0x11a7 \<and> c1 < 0x11a7 + 28
      then Some (c0 + c1 - 0x11a7)
      else unicode_compose_pair c0 c1)"

text \<open>The search for the starter that the character at \<open>i\<close> may be composed with: its position, -1 when
  there is none, and \<open>None\<close> inside when the character is blocked.\<close>

function find_starter :: "u32 list \<Rightarrow> int \<Rightarrow> u32 \<Rightarrow> int option option" where
  "find_starter buf starter_pos last_cc =
     (if starter_pos \<ge> 0 then do {
        b \<leftarrow> rd buf (nat starter_pos);
        cc \<leftarrow> unicode_get_cc b;
        if cc = 0 then Some (Some starter_pos)
        else if cc \<ge> last_cc then Some None
        else find_starter buf (starter_pos - 1) 256 }
      else Some (Some starter_pos))"
  by pat_completeness auto
termination
  by (relation "measure (\<lambda>(buf, starter_pos, last_cc). nat (starter_pos + 1))") auto

declare find_starter.simps [simp del]

text \<open>What happens to the character at \<open>i\<close>: composed with the starter at a position, or kept.\<close>

definition compose_at :: "u32 list \<Rightarrow> nat \<Rightarrow> nat \<Rightarrow> (nat \<times> u32) option option" where
  "compose_at buf i out_len = do {
     b \<leftarrow> rd buf i;
     last_cc \<leftarrow> unicode_get_cc b;
     s \<leftarrow> find_starter buf (int out_len - 1) last_cc;
     case s of
       None \<Rightarrow> Some None
     | Some pos \<Rightarrow>
         if pos \<ge> 0 then do {
           a \<leftarrow> rd buf (nat pos);
           p \<leftarrow> compose_pair a b;
           Some (if p \<noteq> 0 then Some (nat pos, p) else None) }
         else Some None }"

function compose_loop :: "u32 list \<Rightarrow> nat \<Rightarrow> nat \<Rightarrow> nat \<Rightarrow> (nat \<times> u32 list) option" where
  "compose_loop buf i out_len buf_len =
     (if i < buf_len then do {
        r \<leftarrow> compose_at buf i out_len;
        case r of
          Some (pos, p) \<Rightarrow> do { buf \<leftarrow> wr buf pos p; compose_loop buf (i + 1) out_len buf_len }
        | None \<Rightarrow> do {
            b \<leftarrow> rd buf i;
            buf \<leftarrow> wr buf out_len b;
            compose_loop buf (i + 1) (out_len + 1) buf_len } }
      else Some (out_len, buf))"
  by pat_completeness auto
termination
  by (relation "measure (\<lambda>(buf, i, out_len, buf_len). buf_len - i)") auto

declare compose_loop.simps [simp del]

datatype UnicodeNormalizationEnum = UNICODE_NFC | UNICODE_NFD | UNICODE_NFKC | UNICODE_NFKD

text \<open>The bytes of a buffer as an array of \<^verbatim>\<open>int\<close>.\<close>

function words_of :: "u8 list \<Rightarrow> u32 list" where
  "words_of bs = (if length bs < 4 then [] else of_le (take 4 bs) # words_of (drop 4 bs))"
  by pat_completeness auto
termination
  by (relation "measure length") auto

declare words_of.simps [simp del]

definition dbuf_words :: "DynBuf \<Rightarrow> u32 list" where
  "dbuf_words dbuf = words_of (take (db_size dbuf) (db_buf dbuf))"

text \<open>The result is the return value and the array \<^verbatim>\<open>*pdst\<close> of that length.\<close>

definition unicode_normalize ::
  "nat \<Rightarrow> u32 list \<Rightarrow> UnicodeNormalizationEnum \<Rightarrow> (nat \<Rightarrow> bool) \<Rightarrow> (int \<times> u32 list) option" where
  "unicode_normalize depth src n_type alloc =
     (let is_compat = (n_type = UNICODE_NFKC \<or> n_type = UNICODE_NFKD) in do {
        (r, dbuf) \<leftarrow> dbuf_realloc (dbuf_init2 alloc) (4 * length src);
        if r \<noteq> 0 then Some (-1, [])
        else if n_type = UNICODE_NFC \<and> list_all (\<lambda>c. c < 0x100) src then do {
          b \<leftarrow> memcpy (db_buf dbuf) 0 (concat (map (le_bytes 4) src));
          Some (int (length src), words_of (take (4 * length src) b)) }
        else do {
          dbuf \<leftarrow> to_nfd_rec depth dbuf src is_compat;
          if dbuf_error dbuf then Some (-1, [])
          else do {
            buf \<leftarrow> sort_cc (dbuf_words dbuf);
            let buf_len = length buf;
            if buf_len \<le> 1 \<or> n_type = UNICODE_NFD \<or> n_type = UNICODE_NFKD then Some (int buf_len, buf)
            else do {
              (out_len, buf) \<leftarrow> compose_loop buf 1 1 buf_len;
              Some (int out_len, take out_len buf) } } } })"

end
