(* ===== verification/Unicode_Cc.thy ===== *)
theory Unicode_Cc
  imports Unicode_Normalize
begin

text \<open>
  Combining classes: the indexed lookup \<open>unicode_get_cc\<close> agrees with a reading of the whole table from its
  start, is defined for every code point and stays below 256.
\<close>

section \<open>The table in integers\<close>

text \<open>One entry: the length of the run less one, the size of the entry in bytes and the rest. The form
  with two length bytes is only accepted without high bits, and a class that counts up has to stay below
  256.\<close>

definition cc_tail :: "int \<Rightarrow> int \<Rightarrow> int \<Rightarrow> int list \<Rightarrow> (int \<times> int \<times> int list) option" where
  "cc_tail b n k p =
     (if b < 128 then
        (case p of v # p' \<Rightarrow> if b < 64 \<or> v + n < 256 then Some (n, k + 1, p') else None | _ \<Rightarrow> None)
      else Some (n, k, p))"

fun cc_entry :: "int list \<Rightarrow> (int \<times> int \<times> int list) option" where
  "cc_entry [] = None"
| "cc_entry (b # p) =
     (let n = b mod 64 in
      if n < 48 then cc_tail b n 1 p
      else if n < 56 then (case p of p0 # p' \<Rightarrow> cc_tail b ((n - 48) * 256 + p0 + 48) 2 p' | _ \<Rightarrow> None)
      else if n = 56 then (case p of p0 # p1 # p' \<Rightarrow> cc_tail b (p0 * 256 + p1 + 2096) 3 p' | _ \<Rightarrow> None)
      else None)"

lemma cc_tail_length: "cc_tail b n k p = Some (n', k', q) \<Longrightarrow> length q \<le> length p \<and> k' = k + int (length p) - int (length q)"
  by (auto simp: cc_tail_def split: if_splits list.splits)

lemma cc_entry_length: "cc_entry p = Some (n, k, q) \<Longrightarrow> length q < length p \<and> k = int (length p) - int (length q)"
  by (cases p) (auto simp: Let_def dest!: cc_tail_length split: if_splits list.splits)

definition pop_entry :: "int \<Rightarrow> int \<Rightarrow> (int \<times> int) list \<Rightarrow> (int \<times> int) list" where
  "pop_entry off code es = (case es of e # r \<Rightarrow> if e = (off, code) then r else es | [] \<Rightarrow> [])"

lemma pop_entry_set: "e \<in> set es \<Longrightarrow> e \<in> set (pop_entry off code es) \<or> e = (off, code)"
  by (cases es) (auto simp: pop_entry_def)

function cc_scan :: "int \<Rightarrow> int \<Rightarrow> int list \<Rightarrow> (int \<times> int) list \<Rightarrow> (int \<times> int \<times> (int \<times> int) list) option" where
  "cc_scan off code p es =
     (if p = [] then Some (off, code, es)
      else case cc_entry p of
             None \<Rightarrow> None
           | Some (n, k, p') \<Rightarrow> cc_scan (off + k) (code + n + 1) p' (pop_entry off code es))"
  by pat_completeness auto
termination
  by (relation "measure (\<lambda>(off, code, p, es). length p)") (auto dest: cc_entry_length)

declare cc_scan.simps [simp del]

lemma cc_tail_append: "cc_tail b n k p = Some (n', k', q) \<Longrightarrow> cc_tail b n k (p @ ys) = Some (n', k', q @ ys)"
  by (auto simp: cc_tail_def split: if_splits list.splits)

lemma cc_entry_append: "cc_entry p = Some (n, k, q) \<Longrightarrow> cc_entry (p @ ys) = Some (n, k, q @ ys)"
  by (cases p) (auto simp: Let_def cc_tail_append split: if_splits list.splits)

lemma cc_scan_append:
  "cc_scan off code xs es = Some (off', code', es') \<Longrightarrow> cc_scan off code (xs @ ys) es = cc_scan off' code' ys es'"
proof (induction off code xs es rule: cc_scan.induct)
  case (1 off code p es)
  show ?case
  proof (cases "p = []")
    case True
    then show ?thesis using "1.prems" by (simp add: cc_scan.simps [of off code "[]"])
  next
    case False
    then obtain n k p' where e: "cc_entry p = Some (n, k, p')"
        "cc_scan (off + k) (code + n + 1) p' (pop_entry off code es) = Some (off', code', es')"
      using "1.prems" by (subst (asm) cc_scan.simps) (auto split: option.splits)
    then show ?thesis
      using "1.IH" [OF False e(1)] False cc_entry_append [OF e(1)] by (subst cc_scan.simps) simp
  qed
qed

fun cc_scan_rows :: "u8 list list \<Rightarrow> int \<times> int \<times> (int \<times> int) list \<Rightarrow> (int \<times> int \<times> (int \<times> int) list) option" where
  "cc_scan_rows [] st = Some st"
| "cc_scan_rows (r # rs) (off, code, es) = do { st \<leftarrow> cc_scan off code (map uint r) es; cc_scan_rows rs st }"

lemma cc_scan_rows_concat:
  "cc_scan_rows rows (off, code, es) = Some st \<Longrightarrow> cc_scan off code (map uint (concat rows)) es = Some st"
proof (induction rows arbitrary: off code es)
  case Nil
  then show ?case by (simp add: cc_scan.simps)
next
  case (Cons r rs)
  then obtain off' code' es' where
    "cc_scan off code (map uint r) es = Some (off', code', es')" "cc_scan_rows rs (off', code', es') = Some st"
    by (auto split: bind_splits)
  then show ?case using Cons.IH cc_scan_append by simp
qed

section \<open>The walk\<close>

text \<open>An entry in integers is the entry of the model.\<close>

lemma cc_tail_run:
  assumes "cc_tail (uint byte) n k (map uint (p :: u8 list)) = Some (n', k', q)" "uint m = n"
    "ty = drop_bit 6 (ucast (byte :: u8) :: u32)"
  shows "\<exists>v p'. (if ty \<le> 1 then (case p of v # p' \<Rightarrow> Some (ty, m, ucast v, p') | _ \<Rightarrow> None) else Some (ty, m, 0, p)) =
      Some (ty, m, v :: u32, p') \<and> n' = n \<and> q = map uint p' \<and> (\<forall>off. uint off \<le> n \<longrightarrow> uint (cc_value ty v off) < 256)"
proof -
  have ty: "uint ty = uint byte div 64" using uint_drop_bit_byte [of 6 byte] assms(3) by simp
  have le: "(ty \<le> 1) = (uint byte < 128)" "(ty = 0) = (uint byte < 64)" "(ty = 1) = (64 \<le> uint byte \<and> uint byte < 128)"
    using ty uint_byte_lt [of byte] by (auto simp: word_le_def word_uint_eq_iff)
  have add: "uint (ucast v + off :: u32) = uint v + uint off" if "uint v + uint off < 256" for v :: u8 and off
    using uint_add_lt [of "ucast v" off] that by simp
  show ?thesis
    using assms(1) le uint_byte_lt
    by (auto simp: cc_tail_def cc_value_def add split: list.splits if_splits)
qed

lemma cc_entry_run:
  assumes "cc_entry (map uint p) = Some (n, k, q)"
  shows "\<exists>ty m v p'. cc_run p = Some (ty, m, v, p') \<and> uint m = n \<and> q = map uint p' \<and>
    (\<forall>off. uint off \<le> n \<longrightarrow> uint (cc_value ty v off) < 256)"
proof -
  obtain byte r where p: "p = byte # r" using assms by (cases p) auto
  let ?b = "ucast byte :: u32"
  define m where "m = (?b AND 0x3f)"
  have um: "uint m = uint byte mod 64"
    using uint_field [of 6 0 ?b] by (simp add: m_def take_bit_eq_mask mask_eq_exp_minus_1)
  have cmp: "(m < 48) = (uint byte mod 64 < 48)" "(m < 56) = (uint byte mod 64 < 56)" using um by (simp_all add: word_less_def)
  have m56: "m = 56" if "uint byte mod 64 = 56" using that um by (simp add: word_uint_eq_iff)
  have two: "uint ((push_bit 8 (m - 48) OR ucast p0) + 48 :: u32) = (uint byte mod 64 - 48) * 256 + uint p0 + 48"
    if "\<not> m < 48" for p0 :: u8
    using uint_sub_const [of 48 m] uint_two_bytes [of "m - 48" 48 p0] um that by (simp add: word_less_def)
  have three: "uint ((push_bit 8 (ucast p0) OR ucast p1) + 2096 :: u32) = uint p0 * 256 + uint p1 + 2096" for p0 p1 :: u8
    using uint_two_bytes [of "ucast p0" 2096 p1] uint_byte_lt [of p0] by simp
  note tail = cc_tail_run [of byte _ _ _ n k q, OF _ _ refl]
  consider "uint byte mod 64 < 48" | "\<not> uint byte mod 64 < 48" "uint byte mod 64 < 56" | "uint byte mod 64 = 56"
    using assms p by (auto simp: Let_def split: if_splits)
  then show ?thesis
  proof cases
    case 1
    then have "cc_tail (uint byte) (uint byte mod 64) 1 (map uint r) = Some (n, k, q)" using assms p by (simp add: Let_def)
    from tail [OF this um] 1 show ?thesis by (auto simp: p cc_run_def Let_def m_def [symmetric] cmp um)
  next
    case 2
    then obtain p0 r' where r: "r = p0 # r'"
        "cc_tail (uint byte) ((uint byte mod 64 - 48) * 256 + uint p0 + 48) 2 (map uint r') = Some (n, k, q)"
      using assms p by (auto simp: Let_def split: list.splits)
    have "\<not> m < 48" using 2 cmp by simp
    from tail [OF r(2) two [OF this]] 2 two [OF this] show ?thesis by (auto simp: p r(1) cc_run_def Let_def m_def [symmetric] cmp)
  next
    case 3
    then obtain p0 p1 r' where r: "r = p0 # p1 # r'" "cc_tail (uint byte) (uint p0 * 256 + uint p1 + 2096) 3 (map uint r') = Some (n, k, q)"
      using assms p by (auto simp: Let_def split: list.splits)
    from tail [OF r(2) three] 3 three [of p0 p1] show ?thesis
      by (auto simp: p r(1) cc_run_def Let_def m_def [symmetric] m56 [OF 3])
  qed
qed

lemma cc_run_suffix: "cc_run p = Some (ty, m, v, p') \<Longrightarrow> \<exists>h. p = h @ p'"
  by (auto simp: cc_run_def Let_def split: list.splits if_splits bind_splits)

lemma cc_scan_mono: "cc_scan off code q es = Some (off', t, es') \<Longrightarrow> (\<forall>b \<in> set q. 0 \<le> b) \<Longrightarrow> code \<le> t"
proof (induction off code q es rule: cc_scan.induct)
  case (1 off code p es)
  show ?case
  proof (cases "p = []")
    case True
    then show ?thesis using "1.prems" by (simp add: cc_scan.simps)
  next
    case False
    then obtain n k p' where e: "cc_entry p = Some (n, k, p')"
        "cc_scan (off + k) (code + n + 1) p' (pop_entry off code es) = Some (off', t, es')"
      using "1.prems"(1) by (subst (asm) cc_scan.simps) (auto split: option.splits)
    have "set p' \<subseteq> set p \<and> 0 \<le> n"
      using e(1) "1.prems"(2) by (cases p) (auto simp: Let_def cc_tail_def split: if_splits list.splits)
    moreover from this "1.prems"(2) have "\<forall>b \<in> set p'. 0 \<le> b" by blast
    ultimately show ?thesis using "1.IH" [OF False e(1) refl _ e(2)] by auto
  qed
qed
text \<open>Position \<open>e\<close> of the table is the start of a run, and the walk can start there.\<close>

definition cc_start :: "int \<Rightarrow> u32 \<Rightarrow> u8 list \<Rightarrow> int \<times> int \<Rightarrow> bool" where
  "cc_start off code p e \<longleftrightarrow> (\<exists>p1 p2. p = p1 @ p2 \<and> off + int (length p1) = fst e \<and> uint code \<le> snd e \<and> snd e < 2 ^ 32 \<and>
     (\<forall>c. snd e \<le> uint c \<longrightarrow> cc_walk c code p = cc_walk c (word_of_int (snd e)) p2))"

lemma cc_start_here: "cc_start off code p (off, uint code)"
  unfolding cc_start_def using uint_lt2p [of code] by (intro exI [of _ "[]"] exI [of _ p]) simp

lemma cc_scan_sound:
  assumes "cc_scan off (uint code) (map uint p) es = Some (off', t, [])" "t < 2 ^ 32"
  shows "uint code \<le> t \<and> (\<forall>e \<in> set es. cc_start off code p e \<or> e = (off', t)) \<and>
    (\<forall>c. uint code \<le> uint c \<and> uint c < t \<longrightarrow> (\<exists>x. cc_walk c code p = Some x \<and> uint x < 256)) \<and>
    (\<forall>c. t \<le> uint c \<longrightarrow> cc_walk c code p = None)"
  using assms(1)
proof (induction p arbitrary: off code es rule: length_induct)
  case (1 p)
  show ?case
  proof (cases "p = []")
    case True
    then show ?thesis using "1.prems" by (simp add: cc_scan.simps cc_walk.simps [of _ code] cc_run_def)
  next
    case False
    then obtain n k q where e: "cc_entry (map uint p) = Some (n, k, q)"
        "cc_scan (off + k) (uint code + n + 1) q (pop_entry off (uint code) es) = Some (off', t, [])"
      using "1.prems" by (subst (asm) cc_scan.simps) (auto split: option.splits)
    obtain ty m v p' where r: "cc_run p = Some (ty, m, v, p')" "uint m = n" "q = map uint p'"
        "\<And>d. uint d \<le> n \<Longrightarrow> uint (cc_value ty v d) < 256"
      using cc_entry_run [OF e(1)] by blast
    have k: "k = int (length p) - int (length p')" using cc_entry_length [OF e(1)] r(3) by simp
    obtain h where h: "p = h @ p'" "int (length h) = k"
      using cc_run_suffix [OF r(1)] k by force
    have t: "uint code + n + 1 \<le> t" using cc_scan_mono [OF e(2)] r(3) by auto
    define c1 where "c1 = code + m + 1"
    have un: "uint (code + m) = uint code + n" using uint_add_lt [of code m] t assms(2) r(2) by simp
    have uc: "uint c1 = uint code + n + 1" unfolding c1_def using uint_Suc_lt [of "code + m"] un t assms(2) by simp
    have walk: "cc_walk c code p = (if c < c1 then Some (cc_value ty v (c - code)) else cc_walk c c1 p')" for c
      using r(1) by (subst cc_walk.simps) (simp add: c1_def Let_def)
    have IH: "uint c1 \<le> t" "\<forall>e \<in> set (pop_entry off (uint code) es). cc_start (off + k) c1 p' e \<or> e = (off', t)"
      "\<forall>c. uint c1 \<le> uint c \<and> uint c < t \<longrightarrow> (\<exists>x. cc_walk c c1 p' = Some x \<and> uint x < 256)"
      "\<forall>c. t \<le> uint c \<longrightarrow> cc_walk c c1 p' = None"
      using "1.IH" [rule_format, OF cc_run_length [OF r(1)], of "off + k" c1 "pop_entry off (uint code) es"] e(2) r(3) uc by simp_all
    have lift: "cc_start off code p e" if start: "cc_start (off + k) c1 p' e" for e
    proof -
      obtain p1 p2 where s: "p' = p1 @ p2" "off + k + int (length p1) = fst e" "uint c1 \<le> snd e" "snd e < 2 ^ 32"
        "\<forall>c. snd e \<le> uint c \<longrightarrow> cc_walk c c1 p' = cc_walk c (word_of_int (snd e)) p2"
        using start unfolding cc_start_def by blast
      have "cc_walk c code p = cc_walk c (word_of_int (snd e)) p2" if "snd e \<le> uint c" for c
        using s(3,5) that walk [of c] by (simp add: word_less_def)
      then show ?thesis
        unfolding cc_start_def using s h uc r(2) uint_ge_0 [of m] by (intro exI [of _ "h @ p1"] exI [of _ p2]) auto
    qed
    have "\<forall>e \<in> set es. cc_start off code p e \<or> e = (off', t)"
      using IH(2) lift cc_start_here pop_entry_set by blast
    moreover have "\<exists>x. cc_walk c code p = Some x \<and> uint x < 256" if "uint code \<le> uint c" "uint c < t" for c
    proof (cases "c < c1")
      case True
      then have "uint (c - code) \<le> n" using uint_sub_const [OF that(1)] uc by (simp add: word_less_def)
      then show ?thesis using walk True r(4) by simp
    next
      case False
      then show ?thesis using walk IH(3) that by (simp add: word_less_def)
    qed
    moreover have "cc_walk c code p = None" if "t \<le> uint c" for c
      using walk [of c] IH(1,4) that by (simp add: word_less_def)
    ultimately show ?thesis using IH(1) uc r(2) uint_ge_0 [of m] by auto
  qed
qed

section \<open>The lookup\<close>

lemma cc_table_scan:
  "cc_scan 0 0 (map uint unicode_cc_table) (map (index_entry unicode_cc_index) [0..<26]) = Some (851, 0x1e94b, [])"
  unfolding unicode_cc_table_def by (rule cc_scan_rows_concat) code_simp

lemma cc_index_length: "length unicode_cc_index = 81" "length unicode_cc_table = 851"
  by (simp_all add: unicode_cc_index_def unicode_cc_table_def)

lemma cc_index_first: "get_le24 unicode_cc_index 0 = Some v \<Longrightarrow> uint (index_code v) \<le> 0x1e94b"
proof -
  have "map_option (\<lambda>v. uint (index_code v) \<le> 0x1e94b) (get_le24 unicode_cc_index 0) = Some True" by code_simp
  then show "get_le24 unicode_cc_index 0 = Some v \<Longrightarrow> uint (index_code v) \<le> 0x1e94b" by simp
qed

lemma cc_index_ends: "get_le24 unicode_cc_index 78 = Some 0x1e94b"
  by code_simp

lemmas cc_sound = cc_scan_sound [where off = 0 and code = 0 and p = unicode_cc_table, simplified, OF cc_table_scan]

lemma cc_index_start:
  assumes "i < 26" "get_le24 unicode_cc_index (i * 3) = Some v"
  shows "cc_start 0 0 unicode_cc_table (int ((i + 1) * 32 + unat (drop_bit 21 v)), uint (index_code v)) \<or> index_code v = 0x1e94b"
proof -
  have "index_entry unicode_cc_index i \<in> set (map (index_entry unicode_cc_index) [0..<26])" using assms(1) by simp
  then have "cc_start 0 0 unicode_cc_table (index_entry unicode_cc_index i) \<or> index_entry unicode_cc_index i = (851, 0x1e94b)"
    using cc_sound by auto
  moreover have "index_entry unicode_cc_index i = (int ((i + 1) * 32 + unat (drop_bit 21 v)), uint (index_code v))"
    using assms(2) by (simp add: index_entry_def algebra_simps)
  ultimately show ?thesis by (auto simp: word_uint_eq_iff)
qed

text \<open>The class of a code point when the table is read from its start.\<close>

definition cc_of :: "u32 \<Rightarrow> u32" where
  "cc_of c = (case cc_walk c 0 unicode_cc_table of None \<Rightarrow> 0 | Some cc \<Rightarrow> cc)"

lemma cc_of_bound: "uint (cc_of c) < 256"
  using cc_sound unfolding cc_of_def by (cases "uint c < 0x1e94b") (force split: option.splits)+

lemma cc_walk_from:
  assumes "cc_start 0 0 unicode_cc_table (int pos, uint code)" "code \<le> c" "uint c < 0x1e94b"
  shows "pos \<le> length unicode_cc_table \<and> cc_walk c code (drop pos unicode_cc_table) = Some (cc_of c)"
proof -
  obtain p1 p2 where p: "unicode_cc_table = p1 @ p2" "length p1 = pos"
      "\<forall>c. uint code \<le> uint c \<longrightarrow> cc_walk c 0 unicode_cc_table = cc_walk c code p2"
    using assms(1) unfolding cc_start_def by auto
  have "drop pos unicode_cc_table = p2" using p(1,2) by (metis append_eq_conv_conj)
  moreover have "pos \<le> length unicode_cc_table" using arg_cong [OF p(1), of length] p(2) by simp
  moreover obtain x where "cc_walk c 0 unicode_cc_table = Some x" using cc_sound assms(3) by force
  ultimately show ?thesis using p(3) assms(2) by (simp add: word_le_def cc_of_def)
qed

lemma unicode_get_cc_eq: "unicode_get_cc c = Some (cc_of c)"
proof -
  obtain v0 where v0: "get_le24 unicode_cc_index 0 = Some v0" using get_le24_fits [of 0 unicode_cc_index] cc_index_length by auto
  have pos0: "get_index_pos c unicode_cc_index 27 = Some (Some (0, 0))" if "c < index_code v0"
    using v0 that by (simp add: get_index_pos_def)
  show ?thesis
  proof (cases "c \<ge> 0x1e94b")
    case True
    then have "cc_of c = 0" using cc_sound by (auto simp: cc_of_def word_le_def)
    moreover have "\<not> c < index_code v0"
      using v0 True cc_index_first by (simp add: word_le_def word_less_def)
    ultimately show ?thesis using True v0 cc_index_ends by (simp add: unicode_get_cc_def get_index_pos_def cc_index_length)
  next
    case False
    then have lt: "uint c < 0x1e94b" by (simp add: word_le_def)
    show ?thesis
    proof (cases "c < index_code v0")
      case True
      have "cc_start 0 0 unicode_cc_table (int 0, uint (0 :: u32))" using cc_start_here [of 0 0] by simp
      from cc_walk_from [OF this _ lt] pos0 [OF True] show ?thesis by (simp add: unicode_get_cc_def cc_index_length)
    next
      case ge: False
      obtain i w where i: "index_search c unicode_cc_index 0 26 = Some i" "i \<le> max 0 (26 - 1)"
          "get_le24 unicode_cc_index (i * 3) = Some w" "index_code w \<le> c"
        using index_search_ok [of 27 unicode_cc_index 0 26 v0 c] cc_index_length v0 ge by (auto simp: not_less)
      have "cc_start 0 0 unicode_cc_table (int ((i + 1) * 32 + unat (drop_bit 21 w)), uint (index_code w))"
        using cc_index_start [OF _ i(3)] i(2,4) False by auto
      from cc_walk_from [OF this i(4) lt] show ?thesis
        using i ge v0 cc_index_ends False
        by (simp add: unicode_get_cc_def get_index_pos_def cc_index_length UNICODE_INDEX_BLOCK_LEN_def)
    qed
  qed
qed

text \<open>An interval of class zero, found by reading the runs from some position of the table.\<close>

function cc_zero :: "u32 \<Rightarrow> u8 list \<Rightarrow> u32 \<Rightarrow> u32 \<Rightarrow> bool" where
  "cc_zero code p lo hi =
     (case cc_run p of
        None \<Rightarrow> False
      | Some (ty, n, v, p') \<Rightarrow>
          let c1 = code + n + 1 in
          if lo < c1 then ty = 2 \<and> hi < c1 else cc_zero c1 p' lo hi)"
  by pat_completeness auto
termination
  by (relation "measure (\<lambda>(code, p, lo, hi). length p)") (auto dest: cc_run_length)

declare cc_zero.simps [simp del]

lemma cc_zero_walk: "cc_zero code p lo hi \<Longrightarrow> lo \<le> c \<Longrightarrow> c \<le> hi \<Longrightarrow> cc_walk c code p = Some 0"
proof (induction code p lo hi rule: cc_zero.induct)
  case (1 code p lo hi)
  show ?case
    using "1.prems" "1.IH"
    by (subst cc_walk.simps, subst (asm) (3) cc_zero.simps)
      (auto simp: Let_def cc_value_def split: option.splits if_splits)
qed

lemma cc_zero_of:
  assumes "i < 26" "get_le24 unicode_cc_index (i * 3) = Some v" "index_code v \<le> lo" "hi < 0x1e94b"
    "cc_zero (index_code v) (drop ((i + 1) * 32 + unat (drop_bit 21 v)) unicode_cc_table) lo hi" "lo \<le> c" "c \<le> hi"
  shows "cc_of c = 0"
proof -
  have c: "uint c < 0x1e94b" "index_code v \<le> c" using assms(3,4,6,7) by (auto simp: word_le_def word_less_def)
  then have "index_code v \<noteq> 0x1e94b" by (auto simp: word_le_def)
  then show ?thesis
    using cc_walk_from [OF _ c(2,1)] cc_index_start [OF assms(1,2)] cc_zero_walk [OF assms(5-7)] by auto
qed

lemma cc_of_hangul_jamo: "0x1100 \<le> c \<Longrightarrow> c < 0x1200 \<Longrightarrow> cc_of c = 0"
  by (rule cc_zero_of [where i = 9 and v = "0x200f73" and lo = "0x1100" and hi = "0x11ff"]) (code_simp, code_simp, code_simp, code_simp, code_simp, simp_all add: word_le_def word_less_def)

lemma cc_of_hangul_syllable: "0xac00 \<le> c \<Longrightarrow> c < 0xd7a4 \<Longrightarrow> cc_of c = 0"
  by (rule cc_zero_of [where i = 17 and v = "0xaab2" and lo = "0xac00" and hi = "0xd7a3"]) (code_simp, code_simp, code_simp, code_simp, code_simp, simp_all add: word_le_def word_less_def)

lemma cc_of_ascii: "c < 0x80 \<Longrightarrow> cc_of c = 0"
proof -
  assume c: "c < 0x80"
  have "cc_zero 0 (take 2 unicode_cc_table @ drop 2 unicode_cc_table) 0 0x7f" by (subst cc_zero.simps) code_simp
  then have "cc_walk c 0 unicode_cc_table = Some 0" using cc_zero_walk [of 0 unicode_cc_table 0 "0x7f" c] c by (simp add: word_le_def word_less_def)
  then show "cc_of c = 0" by (simp add: cc_of_def)
qed

end
