(* ===== verification/Unicode_Norm_Correct.thy ===== *)
theory Unicode_Norm_Correct
  imports Unicode_Cc "HOL-Library.Multiset"
begin

text \<open>
  What normalisation computes: canonical ordering is a stable sort of every run of marks by combining
  class, Hangul syllables survive decomposition and composition, decompositions stay inside their tables,
  and the composition loop stays inside its buffer.
\<close>

section \<open>Canonical ordering\<close>

text \<open>The reference: every maximal run of marks, code points of a class that is not zero, is sorted by
  class and keeps the order inside a class; \<open>sort_key\<close> of the library is stable.\<close>

function canonical_order :: "u32 list \<Rightarrow> u32 list" where
  "canonical_order cs =
     (case cs of
        [] \<Rightarrow> []
      | c # cs' \<Rightarrow>
          if cc_of c = 0 then c # canonical_order cs'
          else sort_key cc_of (takeWhile (\<lambda>c. cc_of c \<noteq> 0) cs) @ canonical_order (dropWhile (\<lambda>c. cc_of c \<noteq> 0) cs))"
  by pat_completeness auto
termination
proof (relation "measure length", goal_cases)
  case (3 cs c cs')
  then show ?case using length_dropWhile_le [of "\<lambda>c. cc_of c \<noteq> 0" cs'] by simp
qed simp_all

declare canonical_order.simps [simp del]

text \<open>The innermost loop moves the marks of larger class up by one place.\<close>

lemma sort_shift_eq:
  assumes "length pre = start"
  shows "\<exists>s1 s2 h'. seg = s1 @ s2 \<and> (s1 = [] \<or> cc_of (last s1) \<le> cc1) \<and> (\<forall>y \<in> set s2. cc1 < cc_of y) \<and>
    sort_shift (pre @ seg @ h # post) start (int (start + length seg) - 1) cc1 =
      Some (int (start + length s1) - 1, pre @ s1 @ h' # s2 @ post)"
proof (induction seg arbitrary: h post rule: rev_induct)
  case Nil
  then show ?case using assms by (subst sort_shift.simps) auto
next
  case (snoc b seg)
  have b: "(pre @ (seg @ [b]) @ h # post) ! (start + length seg) = b" using assms by (simp add: nth_append)
  show ?case
  proof (cases "cc_of b \<le> cc1")
    case True
    then show ?thesis
      using assms b by (intro exI [of _ "seg @ [b]"] exI [of _ "[]"] exI [of _ h], subst sort_shift.simps)
        (simp add: rd_def unicode_get_cc_eq nat_add_distrib)
  next
    case False
    have k: "nat (int (start + length (seg @ [b])) - 1) = start + length seg"
      "nat (int (start + length (seg @ [b])) - 1 + 1) = start + length seg + 1" by simp_all
    have w: "wr (pre @ (seg @ [b]) @ h # post) (start + length seg + 1) b = Some (pre @ seg @ b # b # post)"
      using assms by (simp add: wr_def list_update_append)
    have "sort_shift (pre @ (seg @ [b]) @ h # post) start (int (start + length (seg @ [b])) - 1) cc1 =
        sort_shift (pre @ seg @ b # b # post) start (int (start + length seg) - 1) cc1"
      using assms b w False by (subst sort_shift.simps, unfold k) (simp add: rd_def unicode_get_cc_eq)
    moreover obtain s1 s2 h' where "seg = s1 @ s2" "s1 = [] \<or> cc_of (last s1) \<le> cc1" "\<forall>y \<in> set s2. cc1 < cc_of y"
      "sort_shift (pre @ seg @ b # b # post) start (int (start + length seg) - 1) cc1 =
        Some (int (start + length s1) - 1, pre @ s1 @ h' # s2 @ b # post)"
      using snoc.IH [of b "b # post"] by blast
    ultimately show ?thesis
      using False by (intro exI [of _ s1] exI [of _ "s2 @ [b]"] exI [of _ h']) auto
  qed
qed

text \<open>Inserting behind the last element that is not larger extends a stable sort by one element.\<close>

lemma sort_key_snoc:
  assumes "sort_key f xs = s1 @ s2" "s1 = [] \<or> f (last s1) \<le> f x" "\<forall>y \<in> set s2. f x < f y"
  shows "sort_key f (xs @ [x]) = s1 @ x # s2"
proof (rule properties_for_sort_key)
  have s: "sorted (map f (s1 @ s2))" using sorted_sort_key [of f xs] assms(1) by simp
  have le: "f y \<le> f x" if "y \<in> set s1" for y
    using assms(2) that s by (cases s1 rule: rev_cases) (auto simp: sorted_append intro: order_trans)
  show "sorted (map f (s1 @ x # s2))" using s le assms(3) by (auto simp: sorted_append less_imp_le)
  have "mset (s1 @ s2) = mset xs" using assms(1) by (metis mset_sort)
  then show "mset (s1 @ x # s2) = mset (xs @ [x])" by simp
  show "filter (\<lambda>y. f k = f y) (s1 @ x # s2) = filter (\<lambda>y. f k = f y) (xs @ [x])" for k
  proof -
    have "filter (\<lambda>y. f k = f y) (s1 @ s2) = filter (\<lambda>y. f k = f y) xs"
      using sort_key_stable [of f "f k" xs] assms(1) by (simp add: eq_commute [of "f k"])
    moreover have "filter (\<lambda>y. f x = f y) s2 = []" using assms(3) by (auto simp: filter_empty_conv)
    ultimately show ?thesis by (cases "f k = f x") simp_all
  qed
qed

abbreviation mark :: "u32 \<Rightarrow> bool" where
  "mark c \<equiv> cc_of c \<noteq> 0"

lemma sort_run_eq:
  assumes "length pre = start" "len = start + length seg + length rest"
  shows "sort_run (pre @ sort_key cc_of seg @ rest) start (start + length seg) len =
    Some (start + length seg + length (takeWhile mark rest),
      pre @ sort_key cc_of (seg @ takeWhile mark rest) @ dropWhile mark rest)"
  using assms(2)
proof (induction rest arbitrary: seg)
  case Nil
  then show ?case by (subst sort_run.simps) simp
next
  case (Cons c rest)
  have c: "(pre @ sort_key cc_of seg @ c # rest) ! (start + length seg) = c" using assms(1) by (simp add: nth_append)
  show ?case
  proof (cases "mark c")
    case False
    then show ?thesis using Cons.prems assms(1) c by (subst sort_run.simps) (simp add: rd_def unicode_get_cc_eq)
  next
    case True
    obtain s1 s2 h' where s: "sort_key cc_of seg = s1 @ s2" "s1 = [] \<or> cc_of (last s1) \<le> cc_of c" "\<forall>y \<in> set s2. cc_of c < cc_of y"
      and sh: "sort_shift (pre @ sort_key cc_of seg @ c # rest) start (int (start + length (sort_key cc_of seg)) - 1) (cc_of c) =
        Some (int (start + length s1) - 1, pre @ s1 @ h' # s2 @ rest)"
      using sort_shift_eq [OF assms(1), where seg = "sort_key cc_of seg" and ?cc1.0 = "cc_of c" and h = c and post = rest] by blast
    have "nat (int (start + length s1) - 1 + 1) = length (pre @ s1)" using assms(1) by simp
    then have w: "wr (pre @ s1 @ h' # s2 @ rest) (nat (int (start + length s1) - 1 + 1)) c = Some (pre @ (s1 @ c # s2) @ rest)"
      by (simp only: wr_def) (simp add: list_update_append)
    have snoc: "s1 @ c # s2 = sort_key cc_of (seg @ [c])" using sort_key_snoc [OF s] by simp
    have "sort_run (pre @ sort_key cc_of seg @ c # rest) start (start + length seg) len =
        sort_run (pre @ sort_key cc_of (seg @ [c]) @ rest) start (start + length (seg @ [c])) len"
      using Cons.prems assms(1) c True sh w unfolding snoc
      by (subst sort_run.simps) (simp add: rd_def unicode_get_cc_eq)
    also have "\<dots> = Some (start + length (seg @ [c]) + length (takeWhile mark rest),
        pre @ sort_key cc_of ((seg @ [c]) @ takeWhile mark rest) @ dropWhile mark rest)"
      by (rule Cons.IH) (use Cons.prems in simp)
    finally show ?thesis using True by simp
  qed
qed

lemma sort_cc_loop_eq:
  "length pre = i \<Longrightarrow> len = i + length rest \<Longrightarrow> sort_cc_loop (pre @ rest) i len = Some (pre @ canonical_order rest)"
proof (induction rest arbitrary: pre i rule: length_induct)
  case (1 rest)
  show ?case
  proof (cases rest)
    case Nil
    then show ?thesis using "1.prems" by (simp add: sort_cc_loop.simps canonical_order.simps [of "[]"])
  next
    case (Cons c cs)
    have c: "rd (pre @ c # cs) i = Some c" using "1.prems" by (simp add: rd_def nth_append)
    show ?thesis
    proof (cases "mark c")
      case False
      have "sort_cc_loop ((pre @ [c]) @ cs) (Suc i) len = Some ((pre @ [c]) @ canonical_order cs)"
        using "1.IH" [rule_format, of cs "pre @ [c]" "Suc i"] "1.prems" Cons by simp
      then show ?thesis
        using Cons c False "1.prems" by (subst sort_cc_loop.simps) (simp add: unicode_get_cc_eq canonical_order.simps [of "c # cs"])
    next
      case True
      let ?seg = "takeWhile mark cs" and ?rest = "dropWhile mark cs"
      have run: "sort_run (pre @ c # cs) i (Suc i) len = Some (Suc (i + length ?seg), pre @ sort_key cc_of (c # ?seg) @ ?rest)"
        using sort_run_eq [of pre i len "[c]" cs] "1.prems" Cons by simp
      have order: "canonical_order (c # cs) = sort_key cc_of (c # ?seg) @ canonical_order ?rest"
        using True by (subst canonical_order.simps) simp
      show ?thesis
      proof (cases ?rest)
        case Nil
        then have "length ?seg = length cs" by (metis append_Nil2 takeWhile_dropWhile_id)
        then have "Suc (Suc (i + length ?seg)) > len" using "1.prems" Cons by simp
        then show ?thesis
          using Cons c True run order Nil "1.prems"
          by (subst sort_cc_loop.simps) (simp add: unicode_get_cc_eq sort_cc_loop.simps [of _ "Suc (Suc (i + length ?seg))"] canonical_order.simps [of "[]"])
      next
        case rest: (Cons d ds)
        have "\<not> mark d" using rest by (auto simp: dropWhile_eq_Cons_conv)
        then have d: "canonical_order ?rest = d # canonical_order ds" using rest by (simp add: canonical_order.simps [of "d # ds"])
        have len: "length cs = length ?seg + Suc (length ds)"
          using arg_cong [OF takeWhile_dropWhile_id [of mark cs], of length] rest by simp
        let ?pre = "pre @ sort_key cc_of (c # ?seg) @ [d]"
        have "sort_cc_loop (?pre @ ds) (Suc (Suc (i + length ?seg))) len = Some (?pre @ canonical_order ds)"
          using "1.IH" [rule_format, of ds ?pre "Suc (Suc (i + length ?seg))"] "1.prems" Cons len by simp
        then show ?thesis
          using Cons c True run order d rest "1.prems" by (subst sort_cc_loop.simps) (simp add: unicode_get_cc_eq)
      qed
    qed
  qed
qed

lemma sort_cc_eq: "sort_cc buf = Some (canonical_order buf)"
  unfolding sort_cc_def using sort_cc_loop_eq [of "[]" 0 "length buf" buf] by simp

lemma canonical_order_mset: "mset (canonical_order cs) = mset cs"
proof (induction cs rule: length_induct)
  case (1 cs)
  show ?case
  proof (cases cs)
    case Nil
    then show ?thesis by (simp add: canonical_order.simps)
  next
    case (Cons c cs')
    have "mset (takeWhile mark cs') + mset (dropWhile mark cs') = mset cs'"
      by (metis mset_append takeWhile_dropWhile_id)
    then show ?thesis
      using Cons "1.IH" length_dropWhile_le [of mark cs'] by (subst canonical_order.simps) (simp add: le_imp_less_Suc)
  qed
qed

lemma canonical_order_length: "length (canonical_order cs) = length cs"
  by (metis canonical_order_mset size_mset)

text \<open>No mark follows a mark of a larger class.\<close>

lemma sorted_successively: "sorted (map f xs) \<Longrightarrow> successively (\<lambda>a b. P b \<or> f a \<le> f b) xs"
  by (induction xs rule: induct_list012) auto

lemma canonical_order_successively: "successively (\<lambda>a b. cc_of b = 0 \<or> cc_of a \<le> cc_of b) (canonical_order cs)"
proof (induction cs rule: length_induct)
  case (1 cs)
  show ?case
  proof (cases cs)
    case Nil
    then show ?thesis by (subst canonical_order.simps) simp
  next
    case (Cons c cs')
    let ?rest = "dropWhile mark cs'"
    have hd_rest: "canonical_order ?rest \<noteq> [] \<Longrightarrow> cc_of (hd (canonical_order ?rest)) = 0"
    proof (cases ?rest)
      case (Cons d ds)
      then have "cc_of d = 0" by (auto simp: dropWhile_eq_Cons_conv)
      then show ?thesis using Cons by (simp add: canonical_order.simps [of "d # ds"])
    qed (simp add: canonical_order.simps [of "[]"])
    have rest: "successively (\<lambda>a b. cc_of b = 0 \<or> cc_of a \<le> cc_of b) (canonical_order ?rest)"
      using "1.IH" Cons length_dropWhile_le [of mark cs'] by (simp add: le_imp_less_Suc)
    have run: "successively (\<lambda>a b. cc_of b = 0 \<or> cc_of a \<le> cc_of b) (sort_key cc_of (c # takeWhile mark cs'))"
      by (rule sorted_successively) (rule sorted_sort_key)
    have "successively (\<lambda>a b. cc_of b = 0 \<or> cc_of a \<le> cc_of b) (canonical_order cs')" using "1.IH" Cons by simp
    then show ?thesis
      using Cons run rest hd_rest
      by (subst canonical_order.simps) (auto simp: successively_append_iff successively_Cons simp del: sort_key_simps)
  qed
qed

end
