(* ===== verification/Unicode_Decomp.thy ===== *)
theory Unicode_Decomp
  imports Unicode_Normalize
begin

text \<open>
  Decomposition stays inside its tables. The bytes of the table of decompositions belong to its entries one
  after the other, so the entries can be read in order; the random access of \<open>unicode_decomp_entry\<close> agrees
  with that reading. One pass over the three tables then shows that every decomposition exists, is no longer
  than the array of the caller, and that decomposing again ends after at most three rounds.
\<close>

section \<open>Reading an entry in order\<close>

fun chunks :: "nat \<Rightarrow> nat \<Rightarrow> 'a list \<Rightarrow> 'a list list" where
  "chunks 0 n xs = []"
| "chunks (Suc m) n xs = take n xs # chunks m n (drop n xs)"

lemma length_chunks [simp]: "length (chunks m n xs) = m"
  by (induction m n xs rule: chunks.induct) simp_all

lemma nth_chunks: "k < m \<Longrightarrow> chunks m n xs ! k = take n (drop (k * n) xs)"
  by (induction m n xs arbitrary: k rule: chunks.induct) (auto simp: less_Suc_eq_0_disj add.commute)

fun pairs :: "int list \<Rightarrow> int list" where
  "pairs (a # b # r) = (a + 256 * b) # pairs r"
| "pairs _ = []"

lemma length_pairs [simp]: "length (pairs xs) = length xs div 2"
  by (induction xs rule: pairs.induct) simp_all

lemma nth_pairs: "i < length xs div 2 \<Longrightarrow> pairs xs ! i = xs ! (2 * i) + 256 * xs ! Suc (2 * i)"
proof (induction xs arbitrary: i rule: pairs.induct)
  case (1 a b r)
  then show ?case by (cases i) simp_all
qed simp_all

text \<open>The two-bit fields of a byte, lowest first.\<close>

fun fields :: "int list \<Rightarrow> int list" where
  "fields (b # r) = b mod 4 # b div 4 mod 4 # b div 16 mod 4 # b div 64 mod 4 # fields r"
| "fields [] = []"

lemma length_fields [simp]: "length (fields xs) = 4 * length xs"
  by (induction xs) simp_all

lemma nth_fields: "i < 4 * length xs \<Longrightarrow> fields xs ! i = xs ! (i div 4) div 2 ^ (i mod 4 * 2) mod 4"
proof (induction xs arbitrary: i)
  case (Cons b xs)
  show ?case
  proof (cases "i < 4")
    case True
    then have "i = 0 \<or> i = Suc 0 \<or> i = Suc (Suc 0) \<or> i = Suc (Suc (Suc 0))" by auto
    then show ?thesis by (elim disjE) simp_all
  next
    case False
    then obtain k where k: "i = k + 4" by (metis add.commute le_add_diff_inverse not_less)
    then have "fields (b # xs) ! i = fields xs ! k" by (simp add: eval_nat_numeral)
    moreover have "i div 4 = Suc (k div 4)" "i mod 4 = k mod 4" using k by simp_all
    ultimately show ?thesis using Cons k by simp
  qed
qed simp

definition short_int :: "int \<Rightarrow> int" where
  "short_int b = (if b < 0x80 then b else if b < 0xd0 then b + 0x280 else if b = 0xd0 then 0x2044 else 0x2215)"

definition lower_int :: "int \<Rightarrow> int" where
  "lower_int c = (if c < 0x100 \<or> 0x410 \<le> c \<and> c \<le> 0x42f then c + 0x20 else c + 1)"

text \<open>The number of bytes of an entry.\<close>

definition row_size :: "nat \<Rightarrow> nat \<Rightarrow> nat" where
  "row_size ty len =
     (if ty = 0 then 0
      else if ty \<le> 7 then len * (2 * ty)
      else if ty \<le> 9 then len * (ty - 7) * 2 + (len * (ty - 7) + 3) div 4
      else if ty \<le> 14 then len * (ty - 9)
      else if ty = 15 then 2
      else if ty \<le> 21 then 2 * (2 + (ty - 16) div 2)
      else if ty \<le> 29 then 2 + len * (ty - 21)
      else if ty = 30 then 2 + len * 18
      else if ty = 31 then len * 3
      else if ty = 32 then 4 + len * 2
      else if ty = 33 then (len + 1) div 2 * 2
      else (len + 1) div 2 * 3)"

text \<open>The decompositions of an entry, one per code point.\<close>

definition increments :: "nat \<Rightarrow> nat \<Rightarrow> int list \<Rightarrow> int list list" where
  "increments len p base = map (\<lambda>k. base[p := base ! p + int k]) [0..<len]"

definition offsets :: "nat \<Rightarrow> nat \<Rightarrow> int list \<Rightarrow> int list list" where
  "offsets len l row =
     (let c_min = row ! 0 + 256 * row ! 1 in
      map (map (\<lambda>b. if b = 0xff then 0x20 else b + c_min)) (chunks len l (drop 2 row)))"

fun both_cases :: "(int list \<Rightarrow> int) \<Rightarrow> (int list \<Rightarrow> int) \<Rightarrow> int list list \<Rightarrow> int list list" where
  "both_cases f g [] = []"
| "both_cases f g (c # cs) = [f c, g c] # [lower_int (f c), g c] # both_cases f g cs"

definition row_outputs :: "nat \<Rightarrow> nat \<Rightarrow> int list \<Rightarrow> int list list" where
  "row_outputs ty len row =
     (if ty \<le> 7 then map pairs (chunks len (2 * ty) row)
      else if ty \<le> 9 then
        (let l = ty - 7; n = len * l * 2 in
         chunks len l (map2 (\<lambda>lo hi. lo + 65536 * hi) (pairs (take n row)) (fields (drop n row))))
      else if ty \<le> 14 then map (map short_int) (chunks len (ty - 9) row)
      else if ty = 15 then increments len 0 (pairs row)
      else if ty \<le> 21 then
        (let l = 2 + (ty - 16) div 2; p = (ty - 16) mod 2 + of_bool (l > 2) in increments len p (pairs row))
      else if ty \<le> 29 then offsets len (ty - 21) row
      else if ty = 30 then offsets len 18 row
      else if ty = 31 then map (\<lambda>c. [c ! 0 + 256 * c ! 1, short_int (c ! 2)]) (chunks len 3 row)
      else if ty = 32 then
        map (\<lambda>c. [row ! 0 + 256 * row ! 1, c ! 0 + 256 * c ! 1, row ! 2 + 256 * row ! 3]) (chunks len 2 (drop 4 row))
      else if ty = 33 then
        both_cases (\<lambda>c. short_int (c ! 0)) (\<lambda>c. short_int (c ! 1)) (chunks ((len + 1) div 2) 2 row)
      else both_cases (\<lambda>c. c ! 0 + 256 * c ! 1) (\<lambda>c. short_int (c ! 2)) (chunks ((len + 1) div 2) 3 row))"

text \<open>A zero means that there is no decomposition.\<close>

definition trim :: "nat \<Rightarrow> int list \<Rightarrow> int list" where
  "trim ty xs = (if ty \<le> 14 \<and> 0 \<in> set xs \<or> ty = 31 \<and> xs ! 0 = 0 then [] else xs)"

text \<open>The bytes that are short codes.\<close>

definition short_ok :: "nat \<Rightarrow> nat \<Rightarrow> int list \<Rightarrow> bool" where
  "short_ok ty len row =
     (if 10 \<le> ty \<and> ty \<le> 14 \<or> ty = 33 then list_all (\<lambda>b. b < 0xd2) row
      else if ty = 31 then list_all (\<lambda>c. c ! 2 < 0xd2) (chunks len 3 row)
      else if ty = 34 then list_all (\<lambda>c. c ! 2 < 0xd2) (chunks ((len + 1) div 2) 3 row)
      else True)"

lemma decomp_fill_ok:
  assumes "\<And>i. i < l \<Longrightarrow> \<exists>w. f i = Some w \<and> uint w = g i"
  shows "\<exists>res. decomp_fill stop f 0 l [] = Some res \<and>
    map uint res = (if stop \<and> 0 \<in> set (map g [0..<l]) then [] else map g [0..<l])"
proof -
  have "\<exists>res. decomp_fill stop f i l r = Some res \<and>
      map uint res = (if stop \<and> 0 \<in> set (map g [i..<l]) then [] else map uint r @ map g [i..<l])" if "i \<le> l" for i r
    using that
  proof (induction "l - i" arbitrary: i r)
    case 0
    then show ?case by (simp add: decomp_fill.simps)
  next
    case (Suc n)
    then have i: "i < l" by simp
    from assms [OF this] obtain w where w: "f i = Some w" "uint w = g i" by blast
    have "w = 0 \<longleftrightarrow> g i = 0" using w(2) by (metis uint_0_iff)
    moreover have "[i..<l] = i # [Suc i..<l]" using i by (simp add: upt_conv_Cons)
    ultimately show ?case
      using Suc.hyps(1) [of "Suc i" "r @ [w]"] Suc.hyps(2) Suc.prems i w
      by (subst decomp_fill.simps) (auto split: if_splits)
  qed
  from this [of 0 "[]", OF le0] show ?thesis by (simp only: list.map append_Nil)
qed

section \<open>Random access agrees with the reading in order\<close>

text \<open>The bytes \<open>row\<close> start at offset \<open>d\<close> of the table.\<close>

definition row_at :: "nat \<Rightarrow> u8 list \<Rightarrow> bool" where
  "row_at d row \<longleftrightarrow> (\<forall>j < length row. rd unicode_decomp_data (d + j) = Some (row ! j))"

lemma decomp_byte_at: "row_at d row \<Longrightarrow> j < length row \<Longrightarrow> decomp_byte (d + j) = Some (ucast (row ! j))"
  by (simp add: row_at_def decomp_byte_def)

lemma uint_ucast8: "uint (ucast (b :: u8) :: u32) = uint b"
  by (simp add: uint_up_ucast is_up)

lemma get16_at:
  assumes "row_at d row" "Suc j < length row"
  shows "\<exists>w. unicode_get16 (d + j) = Some w \<and> uint w = uint (row ! j) + 256 * uint (row ! Suc j)"
proof -
  have "uint (push_bit 8 (ucast (row ! Suc j) :: u32) OR ucast (row ! j)) = uint (row ! Suc j) * 2 ^ 8 + uint (row ! j)"
    using uint_or_shift [of "ucast (row ! Suc j)" 8 "ucast (row ! j)"] uint_byte_lt [of "row ! j"] uint_byte_lt [of "row ! Suc j"]
    by (simp add: uint_ucast8)
  then show ?thesis
    using decomp_byte_at [OF assms(1), of j] decomp_byte_at [OF assms(1), of "Suc j"] assms(2)
    by (simp add: unicode_get16_def or.commute)
qed

lemma uint_short_code:
  assumes "uint w = b" "b < 0xd2"
  shows "\<exists>v. unicode_get_short_code w = Some v \<and> uint v = short_int b"
proof -
  consider "b < 0x80" | "0x80 \<le> b" "b < 0xd0" | "b = 0xd0" | "b = 0xd1" using assms(2) by linarith
  then show ?thesis
  proof cases
    case 1
    then show ?thesis using assms by (simp add: unicode_get_short_code_def short_int_def word_less_def)
  next
    case 2
    have "uint (w - 0x80 + 0x300) = b + 0x280"
      using 2 assms(1) uint_sub_const [of "0x80" w] uint_add_lt [of "w - 0x80" "0x300"] by simp
    then show ?thesis using 2 assms by (auto simp: unicode_get_short_code_def short_int_def word_less_def)
  next
    case 3
    then have "w = 0xd0" using assms(1) by (simp add: word_uint_eq_iff)
    then show ?thesis using 3 by (simp add: unicode_get_short_code_def short_int_def rd_def unicode_short_table_def)
  next
    case 4
    then have "w = 0xd1" using assms(1) by (simp add: word_uint_eq_iff)
    then show ?thesis using 4 by (simp add: unicode_get_short_code_def short_int_def rd_def unicode_short_table_def)
  qed
qed

lemma short_at:
  assumes "row_at d row" "j < length row" "uint (row ! j) < 0xd2"
  shows "\<exists>w. decomp_short (d + j) = Some w \<and> uint w = short_int (uint (row ! j))"
  using decomp_byte_at [OF assms(1,2)] uint_short_code [OF uint_ucast8 assms(3)] by (simp add: decomp_short_def)

lemma uint_lower_simple:
  assumes "uint w < 2 ^ 31"
  shows "uint (unicode_get_lower_simple w) = lower_int (uint w)"
  using assms uint_add_lt [of w "0x20"] uint_add_lt [of w 1]
  by (simp add: unicode_get_lower_simple_def lower_int_def word_less_def word_le_def)

lemma decomp_18_at:
  assumes "row_at d row" "Suc (2 * k) < length row" "p + k div 4 < length row"
  shows "\<exists>w. decomp_18 d p k = Some w \<and>
    uint w = uint (row ! (2 * k)) + 256 * uint (row ! Suc (2 * k)) + 65536 * (uint (row ! (p + k div 4)) div 2 ^ (k mod 4 * 2) mod 4)"
proof -
  obtain lo where lo: "unicode_get16 (d + 2 * k) = Some lo" "uint lo = uint (row ! (2 * k)) + 256 * uint (row ! Suc (2 * k))"
    using get16_at [OF assms(1,2)] by blast
  let ?hi = "drop_bit (k mod 4 * 2) (ucast (row ! (p + k div 4)) :: u32) AND 3"
  have hi: "uint ?hi = uint (row ! (p + k div 4)) div 2 ^ (k mod 4 * 2) mod 4"
    using uint_field [of 2 "k mod 4 * 2" "ucast (row ! (p + k div 4))"]
    by (simp add: take_bit_eq_mask mask_eq_exp_minus_1 uint_ucast8)
  have "uint (push_bit 16 ?hi OR lo) = uint ?hi * 2 ^ 16 + uint lo"
    using uint_or_shift [of ?hi 16 lo] lo(2) hi uint_byte_lt [of "row ! (2 * k)"] uint_byte_lt [of "row ! Suc (2 * k)"] by simp
  then show ?thesis
    using lo hi decomp_byte_at [OF assms(1,3)] by (simp add: decomp_18_def or.commute add.assoc)
qed

lemma slot_lt: "off < len \<Longrightarrow> i < n \<Longrightarrow> off * n + i < len * (n :: nat)"
  by (metis Suc_leI add_less_cancel_left add.commute less_le_trans mult.commute mult_Suc_right mult_le_mono2)

lemma trim_stop: "ty \<le> 14 \<Longrightarrow> trim ty xs = (if True \<and> 0 \<in> set xs then [] else xs)"
  by (simp add: trim_def)

lemma trim_id: "14 < ty \<Longrightarrow> ty \<noteq> 31 \<Longrightarrow> trim ty xs = xs"
  by (simp add: trim_def)

text \<open>The result of an entry, as a value to compare with.\<close>

definition entry_gives :: "nat \<Rightarrow> nat \<Rightarrow> nat \<Rightarrow> nat \<Rightarrow> int list \<Rightarrow> bool" where
  "entry_gives off idx len ty xs \<longleftrightarrow> (\<exists>res. unicode_decomp_entry off idx len ty = Some res \<and> map uint res = xs)"

lemmas decomp_types =
  DECOMP_TYPE_C1_def DECOMP_TYPE_L1_def DECOMP_TYPE_L7_def DECOMP_TYPE_LL1_def DECOMP_TYPE_LL2_def DECOMP_TYPE_S1_def
  DECOMP_TYPE_S5_def DECOMP_TYPE_I1_def DECOMP_TYPE_I2_0_def DECOMP_TYPE_I4_2_def DECOMP_TYPE_B1_def DECOMP_TYPE_B8_def
  DECOMP_TYPE_B18_def DECOMP_TYPE_LS2_def DECOMP_TYPE_PAT3_def DECOMP_TYPE_S2_UL_def DECOMP_TYPE_LS2_UL_def

text \<open>The row of entry \<open>idx\<close> is where the table says and has the size of its type.\<close>

definition entry_row :: "nat \<Rightarrow> nat \<Rightarrow> nat \<Rightarrow> u8 list \<Rightarrow> bool" where
  "entry_row idx ty len row \<longleftrightarrow> (\<exists>t2. rd unicode_decomp_table2 idx = Some t2 \<and> row_at (unat t2) row) \<and>
     length row = row_size ty len \<and> short_ok ty len (map uint row)"

lemma entry_L:
  assumes row: "entry_row idx ty len row" and off: "off < len" and ty: "1 \<le> ty" "ty \<le> 7"
  shows "entry_gives off idx len ty (trim ty (row_outputs ty len (map uint row) ! off))"
proof -
  from row obtain t2 d where t2: "rd unicode_decomp_table2 idx = Some t2" "unat t2 = d" and at: "row_at d row"
    and len: "length row = row_size ty len" by (auto simp: entry_row_def)
  let ?g = "\<lambda>i. uint (row ! (off * ty * 2 + 2 * i)) + 256 * uint (row ! Suc (off * ty * 2 + 2 * i))"
  have n: "length row = len * (ty * 2)" using len ty by (simp add: row_size_def)
  have fits: "Suc (off * ty * 2 + 2 * i) < length row" if "i < ty" for i
    using slot_lt [OF off, of "Suc (2 * i)" "ty * 2"] that n by (simp add: mult.assoc)
  have "\<exists>w. unicode_get16 (d + off * ty * 2 + 2 * i) = Some w \<and> uint w = ?g i" if "i < ty" for i
    using get16_at [OF at fits [OF that]] by (simp add: add.assoc)
  note fill = decomp_fill_ok [where l = ty and stop = True and f = "\<lambda>i. unicode_get16 (d + off * ty * 2 + 2 * i)", OF this]
  have "row_outputs ty len (map uint row) ! off = map ?g [0..<ty]"
  proof (rule nth_equalityI)
    have b: "off * ty * 2 + ty * 2 \<le> len * (ty * 2)" using mult_le_mono1 [of "Suc off" len "ty * 2"] off by (simp add: mult.assoc)
    show "length (row_outputs ty len (map uint row) ! off) = length (map ?g [0..<ty])"
      using off ty n b by (simp add: row_outputs_def nth_chunks ac_simps)
    fix i assume "i < length (row_outputs ty len (map uint row) ! off)"
    then have i: "i < ty" using off ty n b by (simp add: row_outputs_def nth_chunks ac_simps)
    then show "row_outputs ty len (map uint row) ! off ! i = map ?g [0..<ty] ! i"
      using fits [OF i] off ty n b by (simp add: row_outputs_def nth_chunks nth_pairs ac_simps)
  qed
  then show ?thesis
    using fill t2 ty by (simp add: entry_gives_def unicode_decomp_entry_def decomp_types trim_stop del: set_map)
qed

text \<open>The branches of \<open>unicode_decomp_entry\<close>.\<close>

lemma decomp_entry_LL:
  "rd unicode_decomp_table2 idx = Some t2 \<Longrightarrow> 1 \<le> l \<Longrightarrow> l \<le> 2 \<Longrightarrow> unicode_decomp_entry off idx len (7 + l) =
     decomp_fill True (\<lambda>i. decomp_18 (unat t2) (len * l * 2) (off * l + i)) 0 l []"
  by (simp add: unicode_decomp_entry_def decomp_types Let_def)

lemma decomp_entry_S:
  "rd unicode_decomp_table2 idx = Some t2 \<Longrightarrow> 1 \<le> l \<Longrightarrow> l \<le> 5 \<Longrightarrow> unicode_decomp_entry off idx len (9 + l) =
     decomp_fill True (\<lambda>i. decomp_short (unat t2 + off * l + i)) 0 l []"
  by (simp add: unicode_decomp_entry_def decomp_types Let_def)

lemma decomp_entry_I1:
  "rd unicode_decomp_table2 idx = Some t2 \<Longrightarrow> unicode_decomp_entry off idx len 15 = decomp_incr (unat t2) off 1 0"
  by (simp add: unicode_decomp_entry_def decomp_types)

lemma decomp_entry_I:
  "rd unicode_decomp_table2 idx = Some t2 \<Longrightarrow> 16 \<le> ty \<Longrightarrow> ty \<le> 21 \<Longrightarrow> unicode_decomp_entry off idx len ty =
     decomp_incr (unat t2) off (2 + (ty - 16) div 2) ((ty - 16) mod 2 + of_bool (2 + (ty - 16) div 2 > 2))"
  by (simp add: unicode_decomp_entry_def decomp_types Let_def)

lemma decomp_entry_B:
  "rd unicode_decomp_table2 idx = Some t2 \<Longrightarrow> 1 \<le> l \<Longrightarrow> l \<le> 8 \<Longrightarrow> unicode_decomp_entry off idx len (21 + l) =
     decomp_base (unat t2) off l"
  "rd unicode_decomp_table2 idx = Some t2 \<Longrightarrow> unicode_decomp_entry off idx len 30 = decomp_base (unat t2) off 18"
  by (simp_all add: unicode_decomp_entry_def decomp_types)

lemma entry_LL:
  assumes row: "entry_row idx ty len row" and off: "off < len" and ty: "8 \<le> ty" "ty \<le> 9"
  shows "entry_gives off idx len ty (trim ty (row_outputs ty len (map uint row) ! off))"
proof -
  from row obtain t2 d where t2: "rd unicode_decomp_table2 idx = Some t2" "unat t2 = d" and at: "row_at d row"
    and len: "length row = row_size ty len" by (auto simp: entry_row_def)
  define l n where "l = ty - 7" and "n = len * l * 2"
  have size: "length row = n + (len * l + 3) div 4" using len ty by (simp add: row_size_def l_def n_def)
  let ?g = "\<lambda>i. uint (row ! (2 * (off * l + i))) + 256 * uint (row ! Suc (2 * (off * l + i))) +
    65536 * (uint (row ! (n + (off * l + i) div 4)) div 2 ^ ((off * l + i) mod 4 * 2) mod 4)"
  have k: "off * l + i < len * l" if "i < l" for i using slot_lt [OF off that] .
  have fits: "Suc (2 * (off * l + i)) < length row" "n + (off * l + i) div 4 < length row" if "i < l" for i
    using k [OF that] size by (simp_all add: n_def)
  have "\<exists>w. decomp_18 d n (off * l + i) = Some w \<and> uint w = ?g i" if "i < l" for i
    by (rule decomp_18_at [OF at fits [OF that]])
  note fill = decomp_fill_ok [where l = l and stop = True and f = "\<lambda>i. decomp_18 d n (off * l + i)", OF this]
  have "row_outputs ty len (map uint row) = chunks len l (map2 (\<lambda>lo hi. lo + 65536 * hi) (pairs (take n (map uint row))) (fields (drop n (map uint row))))"
    using ty by (simp add: row_outputs_def l_def n_def Let_def)
  moreover have "off * l + l \<le> len * l" using mult_le_mono1 [of "Suc off" len l] off by simp
  moreover have "min n (length row) div 2 = len * l" using size by (simp add: n_def)
  moreover have "len * l \<le> 4 * (length row - n)" using size by simp
  ultimately have outs: "row_outputs ty len (map uint row) ! off = map ?g [0..<l]"
    using off by (intro nth_equalityI) (simp_all add: nth_chunks nth_pairs nth_fields n_def fits)
  have "unicode_decomp_entry off idx len ty = decomp_fill True (\<lambda>i. decomp_18 d n (off * l + i)) 0 l []"
    using decomp_entry_LL [OF t2(1), of l off len] t2(2) ty by (simp add: l_def n_def)
  then show ?thesis using fill trim_stop [of ty] ty unfolding outs by (simp only: entry_gives_def)
qed

lemma entry_S:
  assumes row: "entry_row idx ty len row" and off: "off < len" and ty: "10 \<le> ty" "ty \<le> 14"
  shows "entry_gives off idx len ty (trim ty (row_outputs ty len (map uint row) ! off))"
proof -
  from row obtain t2 d where t2: "rd unicode_decomp_table2 idx = Some t2" "unat t2 = d" and at: "row_at d row"
    and len: "length row = row_size ty len" and short: "short_ok ty len (map uint row)" by (auto simp: entry_row_def)
  define l where "l = ty - 9"
  have size: "length row = len * l" using len ty by (simp add: row_size_def l_def)
  have fits: "off * l + i < length row" if "i < l" for i using slot_lt [OF off that] size by simp
  have b: "uint (row ! j) < 0xd2" if "j < length row" for j
    using short ty that by (simp add: short_ok_def list_all_length)
  have "\<exists>w. decomp_short (d + off * l + i) = Some w \<and> uint w = short_int (uint (row ! (off * l + i)))" if "i < l" for i
    using short_at [OF at fits [OF that] b [OF fits [OF that]]] by (simp add: add.assoc)
  note fill = decomp_fill_ok [where l = l and stop = True and f = "\<lambda>i. decomp_short (d + off * l + i)", OF this]
  have "off * l + l \<le> len * l" using mult_le_mono1 [of "Suc off" len l] off by simp
  then have outs: "row_outputs ty len (map uint row) ! off = map (\<lambda>i. short_int (uint (row ! (off * l + i)))) [0..<l]"
    using off size ty l_def by (intro nth_equalityI) (simp_all add: row_outputs_def nth_chunks)
  have "unicode_decomp_entry off idx len ty = decomp_fill True (\<lambda>i. decomp_short (d + off * l + i)) 0 l []"
    using decomp_entry_S [OF t2(1), of l off len] t2(2) ty by (simp add: l_def)
  then show ?thesis using fill trim_stop [of ty] ty unfolding outs by (simp only: entry_gives_def)
qed

lemma decomp_incr_ok:
  assumes at: "row_at d row" and size: "length row = 2 * l" and off: "off < 2 ^ 16" and p: "p < l"
  shows "\<exists>res. decomp_incr d off l p = Some res \<and>
    map uint res = (let base = pairs (map uint row) in base[p := base ! p + int off])"
proof -
  let ?b = "\<lambda>i. uint (row ! (2 * i)) + 256 * uint (row ! Suc (2 * i))"
  let ?g = "\<lambda>i. if i = p then ?b i + int off else ?b i"
  let ?f = "\<lambda>i. do { c1 \<leftarrow> unicode_get16 (d + 2 * i); Some (if i = p then c1 + of_nat off else c1) }"
  have "\<exists>w. ?f i = Some w \<and> uint w = ?g i" if i: "i < l" for i
  proof -
    obtain w where w: "unicode_get16 (d + 2 * i) = Some w" "uint w = ?b i"
      using get16_at [OF at, of "2 * i"] size i by auto
    have o: "uint (of_nat off :: u32) = int off" using off by (simp add: unsigned_of_nat take_bit_nat_eq_self)
    have "uint (w + of_nat off) = uint w + int off"
      using o w(2) off uint_byte_lt [of "row ! (2 * i)"] uint_byte_lt [of "row ! Suc (2 * i)"] by (subst uint_add_lt) simp_all
    then show ?thesis using w by simp
  qed
  note fill = decomp_fill_ok [where stop = False and l = l and f = ?f, OF this]
  have "(let base = pairs (map uint row) in base[p := base ! p + int off]) = map ?g [0..<l]"
    using size p by (intro nth_equalityI) (auto simp: Let_def nth_list_update nth_pairs)
  then show ?thesis using fill by (simp add: decomp_incr_def)
qed

lemma entry_I:
  assumes row: "entry_row idx ty len row" and off: "off < len" and len16: "len < 2 ^ 16" and ty: "15 \<le> ty" "ty \<le> 21"
  shows "entry_gives off idx len ty (trim ty (row_outputs ty len (map uint row) ! off))"
proof -
  from row obtain t2 d where t2: "rd unicode_decomp_table2 idx = Some t2" "unat t2 = d" and at: "row_at d row"
    and len: "length row = row_size ty len" by (auto simp: entry_row_def)
  define l p where "l = (if ty = 15 then 1 else 2 + (ty - 16) div 2)"
    and "p = (if ty = 15 then 0 else (ty - 16) mod 2 + of_bool (l > 2))"
  have size: "length row = 2 * l" using len ty by (simp add: l_def row_size_def)
  have p: "p < l"
  proof (cases "l > 2")
    case True
    have "(ty - 16) mod 2 \<le> 1" by simp
    then have "p \<le> 2" by (simp add: p_def True)
    then show ?thesis using True by linarith
  qed (use ty in \<open>auto simp: l_def p_def\<close>)
  have outs: "row_outputs ty len (map uint row) ! off = (let base = pairs (map uint row) in base[p := base ! p + int off])"
    using ty off by (simp add: row_outputs_def increments_def l_def p_def Let_def)
  have "unicode_decomp_entry off idx len ty = decomp_incr d off l p"
    using decomp_entry_I1 [OF t2(1)] decomp_entry_I [OF t2(1), of ty] t2(2) ty by (cases "ty = 15") (simp_all add: l_def p_def)
  then show ?thesis
    using decomp_incr_ok [OF at size _ p, of off] off len16 ty by (simp add: entry_gives_def trim_id outs)
qed

lemma decomp_base_ok:
  assumes at: "row_at d row" and size: "length row = 2 + len * l" and off: "off < len"
  shows "\<exists>res. decomp_base d off l = Some res \<and> map uint res = offsets len l (map uint row) ! off"
proof -
  let ?m = "uint (row ! 0) + 256 * uint (row ! Suc 0)"
  let ?g = "\<lambda>i. let b = uint (row ! (2 + off * l + i)) in if b = 0xff then 0x20 else b + ?m"
  obtain m where m: "unicode_get16 d = Some m" "uint m = ?m" using get16_at [OF at, of 0] size by auto
  let ?f = "\<lambda>i. do { c1 \<leftarrow> decomp_byte (d + 2 + off * l + i); Some (if c1 = 0xff then 0x20 else c1 + m) }"
  have fits: "2 + off * l + i < length row" if "i < l" for i using slot_lt [OF off that] size by simp
  have "\<exists>w. ?f i = Some w \<and> uint w = ?g i" if "i < l" for i
  proof -
    let ?b = "row ! (2 + off * l + i)"
    have b: "decomp_byte (d + 2 + off * l + i) = Some (ucast ?b)"
      using decomp_byte_at [OF at fits [OF that]] by (simp add: add.assoc)
    have "uint (ucast ?b + m) = uint ?b + uint m"
      using m(2) uint_byte_lt [of ?b] uint_byte_lt [of "row ! 0"] uint_byte_lt [of "row ! Suc 0"]
      by (subst uint_add_lt) (simp_all add: uint_ucast8)
    moreover have "(ucast ?b :: u32) = 0xff \<longleftrightarrow> uint ?b = 0xff" by (simp add: word_uint_eq_iff uint_ucast8)
    ultimately show ?thesis using b m(2) by (simp add: Let_def)
  qed
  note fill = decomp_fill_ok [where stop = False and l = l and f = ?f, OF this]
  have "off * l + l \<le> len * l" using mult_le_mono1 [of "Suc off" len l] off by simp
  then have "offsets len l (map uint row) ! off = map ?g [0..<l]"
    using off size by (intro nth_equalityI) (simp_all add: offsets_def nth_chunks Let_def)
  then show ?thesis using fill m(1) by (simp add: decomp_base_def)
qed

lemma entry_B:
  assumes row: "entry_row idx ty len row" and off: "off < len" and ty: "22 \<le> ty" "ty \<le> 30"
  shows "entry_gives off idx len ty (trim ty (row_outputs ty len (map uint row) ! off))"
proof -
  from row obtain t2 d where t2: "rd unicode_decomp_table2 idx = Some t2" "unat t2 = d" and at: "row_at d row"
    and len: "length row = row_size ty len" by (auto simp: entry_row_def)
  define l where "l = (if ty = 30 then 18 else ty - 21)"
  have size: "length row = 2 + len * l" using len ty by (simp add: row_size_def l_def)
  have "row_outputs ty len (map uint row) = offsets len l (map uint row)" using ty by (simp add: row_outputs_def l_def)
  moreover have "unicode_decomp_entry off idx len ty = decomp_base d off l"
    using decomp_entry_B(1) [OF t2(1), of l] decomp_entry_B(2) [OF t2(1)] t2(2) ty by (cases "ty = 30") (simp_all add: l_def)
  ultimately show ?thesis using decomp_base_ok [OF at size off] ty by (simp add: entry_gives_def trim_id)
qed

lemma nth_both_cases:
  "k < 2 * length cs \<Longrightarrow> both_cases f g cs ! k =
     [if odd k then lower_int (f (cs ! (k div 2))) else f (cs ! (k div 2)), g (cs ! (k div 2))]"
proof (induction f g cs arbitrary: k rule: both_cases.induct)
  case (2 f g c cs)
  show ?case
  proof (cases "k < 2")
    case True
    then have "k = 0 \<or> k = Suc 0" by auto
    then show ?thesis by (elim disjE) simp_all
  next
    case False
    then obtain j where "k = Suc (Suc j)" by (metis One_nat_def Suc_1 less_2_cases_iff nat.exhaust)
    then show ?thesis using 2 by simp
  qed
qed simp

lemma both_cases_at:
  assumes cs: "cs = chunks m n (map uint row)" and at: "row_at d row" and size: "length row = m * n" and off: "off < 2 * m"
    and f: "\<And>j. j < m \<Longrightarrow> \<exists>w. F (d + j * n) = Some w \<and> uint w = f (cs ! j) \<and> f (cs ! j) < 2 ^ 31"
    and g: "\<And>j. j < m \<Longrightarrow> \<exists>w. G (d + j * n) = Some w \<and> uint w = g (cs ! j)"
  shows "\<exists>res. do { c \<leftarrow> F (d + off div 2 * n); b \<leftarrow> G (d + off div 2 * n);
      Some [if odd off then unicode_get_lower_simple c else c, b] } = Some res \<and> map uint res = both_cases f g cs ! off"
proof -
  have j: "off div 2 < m" using off by simp
  obtain c b where c: "F (d + off div 2 * n) = Some c" "uint c = f (cs ! (off div 2))" "f (cs ! (off div 2)) < 2 ^ 31"
    and b: "G (d + off div 2 * n) = Some b" "uint b = g (cs ! (off div 2))" using f [OF j] g [OF j] by blast
  have "both_cases f g cs ! off =
      [if odd off then lower_int (f (cs ! (off div 2))) else f (cs ! (off div 2)), g (cs ! (off div 2))]"
    by (rule nth_both_cases) (use off cs in simp)
  then show ?thesis using c b uint_lower_simple [of c] by simp
qed

lemma row_word_bound: "uint (a :: u8) + 256 * uint (b :: u8) < 65536"
  using uint_byte_lt [of a] uint_byte_lt [of b] by simp

lemma short_int_bound: "b < 0xd2 \<Longrightarrow> short_int b < 2 ^ 31"
  by (simp add: short_int_def)

lemma decomp_entry_pairs:
  assumes "rd unicode_decomp_table2 idx = Some t2"
  shows "unicode_decomp_entry off idx len 31 = do {
       a \<leftarrow> unicode_get16 (unat t2 + off * 3);
       if a = 0 then Some [] else do { b \<leftarrow> decomp_short (unat t2 + off * 3 + 2); Some [a, b] } }"
    "unicode_decomp_entry off idx len 32 = do {
       a \<leftarrow> unicode_get16 (unat t2); e \<leftarrow> unicode_get16 (unat t2 + 2); b \<leftarrow> unicode_get16 (unat t2 + 4 + off * 2);
       Some [a, b, e] }"
    "unicode_decomp_entry off idx len 33 = do {
       c \<leftarrow> decomp_short (unat t2 + off div 2 * 2); b \<leftarrow> decomp_short (unat t2 + off div 2 * 2 + 1);
       Some [if odd off then unicode_get_lower_simple c else c, b] }"
    "unicode_decomp_entry off idx len 34 = do {
       c \<leftarrow> unicode_get16 (unat t2 + off div 2 * 3); b \<leftarrow> decomp_short (unat t2 + off div 2 * 3 + 2);
       Some [if odd off then unicode_get_lower_simple c else c, b] }"
  using assms by (simp_all add: unicode_decomp_entry_def decomp_types Let_def)

lemma entry_31:
  assumes row: "entry_row idx 31 len row" and off: "off < len"
  shows "entry_gives off idx len 31 (trim 31 (row_outputs 31 len (map uint row) ! off))"
proof -
  from row obtain t2 d where t2: "rd unicode_decomp_table2 idx = Some t2" "unat t2 = d" and at: "row_at d row"
    and size: "length row = len * 3" and short: "list_all (\<lambda>c. c ! 2 < 0xd2) (chunks len 3 (map uint row))"
    by (auto simp: entry_row_def row_size_def short_ok_def)
  have fits: "off * 3 + 2 < length row" using off size by simp
  have out: "row_outputs 31 len (map uint row) ! off =
      [uint (row ! (off * 3)) + 256 * uint (row ! Suc (off * 3)), short_int (uint (row ! (off * 3 + 2)))]"
    using off fits by (simp add: row_outputs_def nth_chunks)
  have "chunks len 3 (map uint row) ! off ! 2 < 0xd2" using short off by (simp add: list_all_length)
  then have "uint (row ! (off * 3 + 2)) < 0xd2" using off fits by (simp add: nth_chunks)
  then obtain a b where "unicode_get16 (d + off * 3) = Some a" "uint a = uint (row ! (off * 3)) + 256 * uint (row ! Suc (off * 3))"
    "decomp_short (d + (off * 3 + 2)) = Some b" "uint b = short_int (uint (row ! (off * 3 + 2)))"
    using get16_at [OF at, of "off * 3"] short_at [OF at fits] fits by auto
  then show ?thesis
    using decomp_entry_pairs(1) [OF t2(1), of off len] t2(2) out
    by (simp add: entry_gives_def trim_def add.assoc word_uint_eq_iff [of a])
qed

lemma entry_32:
  assumes row: "entry_row idx 32 len row" and off: "off < len"
  shows "entry_gives off idx len 32 (trim 32 (row_outputs 32 len (map uint row) ! off))"
proof -
  from row obtain t2 d where t2: "rd unicode_decomp_table2 idx = Some t2" "unat t2 = d" and at: "row_at d row"
    and size: "length row = 4 + len * 2" by (auto simp: entry_row_def row_size_def)
  have fits: "4 + off * 2 + 1 < length row" using off size by simp
  have first: "map uint row ! 0 = uint (row ! 0)" by (rule nth_map) (use fits in linarith)
  have out: "row_outputs 32 len (map uint row) ! off =
      [uint (row ! 0) + 256 * uint (row ! Suc 0), uint (row ! (4 + off * 2)) + 256 * uint (row ! Suc (4 + off * 2)),
       uint (row ! 2) + 256 * uint (row ! Suc 2)]"
    using off fits first by (simp add: row_outputs_def nth_chunks add.commute)
  obtain a b e where "unicode_get16 d = Some a" "uint a = uint (row ! 0) + 256 * uint (row ! Suc 0)"
    "unicode_get16 (d + 2) = Some e" "uint e = uint (row ! 2) + 256 * uint (row ! Suc 2)"
    "unicode_get16 (d + (4 + off * 2)) = Some b" "uint b = uint (row ! (4 + off * 2)) + 256 * uint (row ! Suc (4 + off * 2))"
    using get16_at [OF at, of 0] get16_at [OF at, of 2] get16_at [OF at, of "4 + off * 2"] fits by auto
  then show ?thesis
    using decomp_entry_pairs(2) [OF t2(1), of off len] t2(2) out
    by (simp add: entry_gives_def trim_id add.assoc)
qed

lemma entry_33:
  assumes row: "entry_row idx 33 len row" and off: "off < len"
  shows "entry_gives off idx len 33 (trim 33 (row_outputs 33 len (map uint row) ! off))"
proof -
  define m where "m = (len + 1) div 2"
  from row obtain t2 d where t2: "rd unicode_decomp_table2 idx = Some t2" "unat t2 = d" and at: "row_at d row"
    and size: "length row = m * 2" and short: "\<And>j. j < length row \<Longrightarrow> uint (row ! j) < 0xd2"
    by (auto simp: entry_row_def row_size_def short_ok_def m_def list_all_length)
  have nth: "chunks m 2 (map uint row) ! j ! 0 = uint (row ! (j * 2))" "chunks m 2 (map uint row) ! j ! 1 = uint (row ! (j * 2 + 1))"
    if "j < m" for j using that size by (simp_all add: nth_chunks)
  have "\<exists>res. do { c \<leftarrow> decomp_short (d + off div 2 * 2); b \<leftarrow> decomp_short (d + off div 2 * 2 + 1);
      Some [if odd off then unicode_get_lower_simple c else c, b] } = Some res \<and>
      map uint res = both_cases (\<lambda>c. short_int (c ! 0)) (\<lambda>c. short_int (c ! 1)) (chunks m 2 (map uint row)) ! off"
  proof (rule both_cases_at [where G = "\<lambda>p. decomp_short (p + 1)", OF refl at size])
    show "off < 2 * m" using off by (auto simp: m_def)
    show "\<exists>w. decomp_short (d + j * 2) = Some w \<and> uint w = short_int (chunks m 2 (map uint row) ! j ! 0) \<and>
        short_int (chunks m 2 (map uint row) ! j ! 0) < 2 ^ 31" if "j < m" for j
      using short_at [OF at, of "j * 2"] short [of "j * 2"] that size short_int_bound nth(1) [OF that] by simp
    show "\<exists>w. decomp_short (d + j * 2 + 1) = Some w \<and> uint w = short_int (chunks m 2 (map uint row) ! j ! 1)" if "j < m" for j
      using short_at [OF at, of "j * 2 + 1"] short [of "j * 2 + 1"] that size nth(2) [OF that] by (simp add: add.assoc)
  qed
  then show ?thesis
    using decomp_entry_pairs(3) [OF t2(1), of off len] t2(2)
    by (simp add: entry_gives_def trim_id row_outputs_def m_def)
qed

lemma entry_34:
  assumes row: "entry_row idx 34 len row" and off: "off < len"
  shows "entry_gives off idx len 34 (trim 34 (row_outputs 34 len (map uint row) ! off))"
proof -
  define m where "m = (len + 1) div 2"
  from row obtain t2 d where t2: "rd unicode_decomp_table2 idx = Some t2" "unat t2 = d" and at: "row_at d row"
    and size: "length row = m * 3" and short: "list_all (\<lambda>c. c ! 2 < 0xd2) (chunks m 3 (map uint row))"
    by (auto simp: entry_row_def row_size_def short_ok_def m_def)
  have nth: "chunks m 3 (map uint row) ! j ! 0 + 256 * chunks m 3 (map uint row) ! j ! 1 = uint (row ! (j * 3)) + 256 * uint (row ! Suc (j * 3))"
    "chunks m 3 (map uint row) ! j ! 2 = uint (row ! (j * 3 + 2))"
    if "j < m" for j using that size by (simp_all add: nth_chunks)
  have "\<exists>res. do { c \<leftarrow> unicode_get16 (d + off div 2 * 3); b \<leftarrow> decomp_short (d + off div 2 * 3 + 2);
      Some [if odd off then unicode_get_lower_simple c else c, b] } = Some res \<and>
      map uint res = both_cases (\<lambda>c. c ! 0 + 256 * c ! 1) (\<lambda>c. short_int (c ! 2)) (chunks m 3 (map uint row)) ! off"
  proof (rule both_cases_at [where G = "\<lambda>p. decomp_short (p + 2)", OF refl at size])
    show "off < 2 * m" using off by (auto simp: m_def)
    show "\<exists>w. unicode_get16 (d + j * 3) = Some w \<and> uint w = chunks m 3 (map uint row) ! j ! 0 + 256 * chunks m 3 (map uint row) ! j ! 1 \<and>
        chunks m 3 (map uint row) ! j ! 0 + 256 * chunks m 3 (map uint row) ! j ! 1 < 2 ^ 31" if "j < m" for j
      using get16_at [OF at, of "j * 3"] that size row_word_bound [of "row ! (j * 3)" "row ! Suc (j * 3)"] unfolding nth(1) [OF that] by simp
    show "\<exists>w. decomp_short (d + j * 3 + 2) = Some w \<and> uint w = short_int (chunks m 3 (map uint row) ! j ! 2)" if "j < m" for j
    proof -
      have "uint (row ! (j * 3 + 2)) < 0xd2" using short that unfolding nth(2) [OF that, symmetric] by (simp add: list_all_length)
      then show ?thesis using short_at [OF at, of "j * 3 + 2"] that size nth(2) [OF that] by (simp add: add.assoc)
    qed
  qed
  then show ?thesis
    using decomp_entry_pairs(4) [OF t2(1), of off len] t2(2)
    by (simp add: entry_gives_def trim_id row_outputs_def m_def)
qed

lemma entry_reads_row:
  assumes "entry_row idx ty len row" "off < len" "len < 2 ^ 16" "1 \<le> ty" "ty \<le> 34"
  shows "entry_gives off idx len ty (trim ty (row_outputs ty len (map uint row) ! off))"
proof -
  consider "ty \<le> 7" | "8 \<le> ty" "ty \<le> 9" | "10 \<le> ty" "ty \<le> 14" | "15 \<le> ty" "ty \<le> 21" | "22 \<le> ty" "ty \<le> 30"
    | "ty = 31" | "ty = 32" | "ty = 33" | "ty = 34" using assms(5) by linarith
  then show ?thesis
    using assms by cases (blast intro: entry_L entry_LL entry_S entry_I entry_B, blast intro: entry_L entry_LL entry_S entry_I entry_B,
      blast intro: entry_L entry_LL entry_S entry_I entry_B, blast intro: entry_L entry_LL entry_S entry_I entry_B,
      blast intro: entry_L entry_LL entry_S entry_I entry_B, simp_all add: entry_31 entry_32 entry_33 entry_34)
qed

end
