(* ===== verification/Unicode_Decomp_Check.thy ===== *)
theory Unicode_Decomp_Check
  imports Unicode_Decomp
begin

text \<open>
  One pass over the decomposition tables in whole numbers. It checks that the entries of the table of
  decompositions follow each other without gaps, that no decomposition is longer than the array of the caller,
  and that the code points of a decomposition have a smaller level than the code point that is decomposed.
\<close>

section \<open>Levels\<close>

text \<open>How often a code point can be decomposed again, a bound: 0 for the code points that occur in a decomposition and
  have none of their own, 3 for those that never occur in one.\<close>

definition level_0 :: "int \<Rightarrow> int" where
  "level_0 c =
     (if c < 0xb7 then (if c < 0xaa then (if c < 0xa0 then (if c < 0x20 then 0 else 0) else (if c < 0xa2 then 3 else (if c < 0xa8 then 0 else 1))) else (if
     c < 0xb0 then (if c < 0xac then 3 else (if c < 0xaf then 0 else 1)) else (if c < 0xb2 then 0 else (if c < 0xb5 then 1 else 3)))) else (if c < 0xc6
     then (if c < 0xc2 then (if c < 0xb8 then 0 else 3) else (if c < 0xc3 then 1 else (if c < 0xc4 then 3 else 1))) else (if c < 0xca then (if c < 0xc7
     then 0 else (if c < 0xc8 then 1 else 3)) else (if c < 0xcb then 1 else (if c < 0xcf then 3 else 1)))))"

definition level_1 :: "int \<Rightarrow> int" where
  "level_1 c =
     (if c < 0xe7 then (if c < 0xdc then (if c < 0xd7 then (if c < 0xd4 then 3 else 1) else (if c < 0xd8 then 3 else (if c < 0xd9 then 0 else 3))) else (if
     c < 0xe3 then (if c < 0xdd then 1 else (if c < 0xe2 then 3 else 1)) else (if c < 0xe4 then 3 else (if c < 0xe6 then 1 else 0)))) else (if c < 0xf0
     then (if c < 0xea then (if c < 0xe8 then 1 else 3) else (if c < 0xeb then 1 else (if c < 0xef then 3 else 1))) else (if c < 0xf7 then (if c < 0xf1
     then 0 else (if c < 0xf4 then 3 else 1)) else (if c < 0xf8 then 3 else (if c < 0xf9 then 0 else 3)))))"

definition level_2 :: "int \<Rightarrow> int" where
  "level_2 c =
     (if c < 0x14c then (if c < 0x114 then (if c < 0x102 then (if c < 0xfd then 1 else 3) else (if c < 0x104 then 1 else (if c < 0x112 then 3 else 1)))
     else (if c < 0x131 then (if c < 0x126 then 3 else (if c < 0x128 then 0 else 3)) else (if c < 0x132 then 0 else (if c < 0x14b then 3 else 0)))) else
     (if c < 0x15c then (if c < 0x153 then (if c < 0x14e then 1 else 3) else (if c < 0x154 then 0 else (if c < 0x15a then 3 else 1))) else (if c < 0x168
     then (if c < 0x160 then 3 else (if c < 0x162 then 1 else 3)) else (if c < 0x16c then 1 else (if c < 0x17d then 3 else 1)))))"

definition level_3 :: "int \<Rightarrow> int" where
  "level_3 c =
     (if c < 0x22e then (if c < 0x1c4 then (if c < 0x1ab then (if c < 0x1a0 then 0 else 1) else (if c < 0x1af then 0 else (if c < 0x1b7 then 1 else 0)))
     else (if c < 0x222 then (if c < 0x1ea then 3 else (if c < 0x1ec then 1 else 3)) else (if c < 0x226 then 0 else (if c < 0x22a then 1 else 3)))) else
     (if c < 0x2d8 then (if c < 0x237 then (if c < 0x230 then 1 else 3) else (if c < 0x2b0 then 0 else (if c < 0x2b9 then 3 else 0))) else (if c < 0x342
     then (if c < 0x300 then 3 else (if c < 0x340 then 0 else 3)) else (if c < 0x343 then 0 else (if c < 0x345 then 3 else 0)))))"

definition level_4 :: "int \<Rightarrow> int" where
  "level_4 c =
     (if c < 0x3aa then (if c < 0x38b then (if c < 0x386 then (if c < 0x385 then 3 else 2) else (if c < 0x387 then 1 else (if c < 0x388 then 3 else 1)))
     else (if c < 0x38e then (if c < 0x38c then 3 else (if c < 0x38d then 1 else 3)) else (if c < 0x390 then 1 else (if c < 0x391 then 2 else 0)))) else
     (if c < 0x3d0 then (if c < 0x3b0 then (if c < 0x3ac then 3 else 1) else (if c < 0x3b1 then 2 else (if c < 0x3ca then 0 else 1))) else (if c < 0x3d5
     then (if c < 0x3d1 then 3 else (if c < 0x3d3 then 1 else 3)) else (if c < 0x3dc then 1 else (if c < 0x3f0 then 0 else 1)))))"

definition level_5 :: "int \<Rightarrow> int" where
  "level_5 c =
     (if c < 0x456 then (if c < 0x410 then (if c < 0x3f9 then (if c < 0x3f4 then 3 else 1) else (if c < 0x406 then 3 else (if c < 0x407 then 0 else 3)))
     else (if c < 0x439 then (if c < 0x419 then 0 else (if c < 0x41a then 3 else 0)) else (if c < 0x43a then 3 else (if c < 0x450 then 0 else 3)))) else
     (if c < 0x4da then (if c < 0x474 then (if c < 0x457 then 0 else 3) else (if c < 0x476 then 0 else (if c < 0x4d8 then 3 else 0))) else (if c < 0x565
     then (if c < 0x4e8 then 3 else (if c < 0x4ea then 0 else 3)) else (if c < 0x587 then 0 else (if c < 0x5b4 then 3 else 0)))))"

definition level_6 :: "int \<Rightarrow> int" where
  "level_6 c =
     (if c < 0x6d5 then (if c < 0x679 then (if c < 0x675 then (if c < 0x627 then 1 else 0) else (if c < 0x677 then 3 else (if c < 0x678 then 1 else 3)))
     else (if c < 0x6c2 then (if c < 0x6c0 then 0 else (if c < 0x6c1 then 1 else 0)) else (if c < 0x6c5 then 3 else (if c < 0x6d3 then 0 else 1)))) else
     (if c < 0x934 then (if c < 0x92b then (if c < 0x929 then 0 else 3) else (if c < 0x931 then 0 else (if c < 0x933 then 3 else 0))) else (if c < 0x9a1
     then (if c < 0x93c then 3 else (if c < 0x958 then 0 else 3)) else (if c < 0x9cb then 0 else (if c < 0x9d7 then 3 else 0)))))"

definition level_7 :: "int \<Rightarrow> int" where
  "level_7 c =
     (if c < 0xbbe then (if c < 0xb21 then (if c < 0xa33 then (if c < 0xa16 then 3 else 0) else (if c < 0xa38 then 3 else (if c < 0xa59 then 0 else 3)))
     else (if c < 0xb5c then (if c < 0xb48 then 0 else (if c < 0xb56 then 3 else 0)) else (if c < 0xb92 then 3 else (if c < 0xb94 then 0 else 3)))) else
     (if c < 0xcc0 then (if c < 0xbd7 then (if c < 0xbca then 0 else 3) else (if c < 0xc48 then 0 else (if c < 0xc56 then 3 else 0))) else (if c < 0xcca
     then (if c < 0xcc2 then 3 else (if c < 0xcc7 then 0 else 3)) else (if c < 0xccb then 1 else (if c < 0xcd5 then 3 else 0)))))"

definition level_8 :: "int \<Rightarrow> int" where
  "level_8 c =
     (if c < 0xf0b then (if c < 0xddf then (if c < 0xdda then (if c < 0xd57 then 3 else 0) else (if c < 0xddc then 3 else (if c < 0xddd then 1 else 3)))
     else (if c < 0xeb3 then (if c < 0xe33 then 0 else (if c < 0xe4d then 3 else 0)) else (if c < 0xecd then 3 else (if c < 0xedc then 0 else 3)))) else
     (if c < 0xf4d then (if c < 0xf40 then (if c < 0xf0c then 0 else 3) else (if c < 0xf43 then 0 else (if c < 0xf4c then 3 else 0))) else (if c < 0xf56
     then (if c < 0xf51 then 3 else (if c < 0xf52 then 0 else 3)) else (if c < 0xf57 then 0 else (if c < 0xf5b then 3 else 0)))))"

definition level_9 :: "int \<Rightarrow> int" where
  "level_9 c =
     (if c < 0xfa1 then (if c < 0xf80 then (if c < 0xf73 then (if c < 0xf71 then 3 else 0) else (if c < 0xf74 then 3 else (if c < 0xf75 then 0 else 3)))
     else (if c < 0xf93 then (if c < 0xf81 then 0 else (if c < 0xf90 then 1 else 0)) else (if c < 0xf9c then 3 else (if c < 0xf9d then 0 else 3)))) else
     (if c < 0xfac then (if c < 0xfa6 then (if c < 0xfa2 then 0 else 3) else (if c < 0xfa7 then 0 else (if c < 0xfab then 3 else 0))) else (if c < 0x1025
     then (if c < 0xfb2 then 3 else (if c < 0xfb9 then 0 else 3)) else (if c < 0x1026 then 0 else (if c < 0x102e then 3 else 0)))))"

definition level_10 :: "int \<Rightarrow> int" where
  "level_10 c =
     (if c < 0x1b11 then (if c < 0x1b09 then (if c < 0x1b06 then (if c < 0x1100 then 3 else 0) else (if c < 0x1b07 then 3 else (if c < 0x1b08 then 0 else
     3))) else (if c < 0x1b0c then (if c < 0x1b0a then 0 else (if c < 0x1b0b then 3 else 0)) else (if c < 0x1b0d then 3 else (if c < 0x1b0e then 0 else
     3)))) else (if c < 0x1b3d then (if c < 0x1b35 then (if c < 0x1b12 then 0 else 3) else (if c < 0x1b3b then 0 else (if c < 0x1b3c then 3 else 0))) else
     (if c < 0x1b42 then (if c < 0x1b3e then 3 else (if c < 0x1b40 then 0 else 3)) else (if c < 0x1b43 then 0 else (if c < 0x1d02 then 3 else 0)))))"

definition level_11 :: "int \<Rightarrow> int" where
  "level_11 c =
     (if c < 0x1eb8 then (if c < 0x1e5a then (if c < 0x1d9b then (if c < 0x1d7b then 3 else 0) else (if c < 0x1e36 then 3 else (if c < 0x1e38 then 1 else
     3))) else (if c < 0x1e64 then (if c < 0x1e5c then 1 else (if c < 0x1e62 then 3 else 1)) else (if c < 0x1ea0 then 3 else (if c < 0x1ea2 then 1 else
     3)))) else (if c < 0x1f02 then (if c < 0x1ecc then (if c < 0x1eba then 1 else 3) else (if c < 0x1ece then 1 else (if c < 0x1f00 then 3 else 1))) else
     (if c < 0x1f10 then (if c < 0x1f08 then 2 else (if c < 0x1f0a then 1 else 2)) else (if c < 0x1f12 then 1 else (if c < 0x1f18 then 3 else 1)))))"

definition level_12 :: "int \<Rightarrow> int" where
  "level_12 c =
     (if c < 0x1f48 then (if c < 0x1f30 then (if c < 0x1f22 then (if c < 0x1f20 then 3 else 1) else (if c < 0x1f28 then 2 else (if c < 0x1f2a then 1 else
     2))) else (if c < 0x1f3a then (if c < 0x1f32 then 1 else (if c < 0x1f38 then 3 else 1)) else (if c < 0x1f40 then 3 else (if c < 0x1f42 then 1 else
     3)))) else (if c < 0x1f5a then (if c < 0x1f50 then (if c < 0x1f4a then 1 else 3) else (if c < 0x1f52 then 1 else (if c < 0x1f59 then 3 else 1))) else
     (if c < 0x1f68 then (if c < 0x1f60 then 3 else (if c < 0x1f62 then 1 else 2)) else (if c < 0x1f6a then 1 else (if c < 0x1f70 then 2 else 1)))))"

definition level_13 :: "int \<Rightarrow> int" where
  "level_13 c =
     (if c < 0x1ff6 then (if c < 0x1fb6 then (if c < 0x1f75 then (if c < 0x1f74 then 3 else 1) else (if c < 0x1f7c then 3 else (if c < 0x1f7d then 1 else
     3))) else (if c < 0x1fc0 then (if c < 0x1fb7 then 1 else (if c < 0x1fbf then 3 else 1)) else (if c < 0x1fc6 then 3 else (if c < 0x1fc7 then 1 else
     3)))) else (if c < 0x2004 then (if c < 0x1ffe then (if c < 0x1ff7 then 1 else 3) else (if c < 0x2000 then 1 else (if c < 0x2002 then 3 else 1))) else
     (if c < 0x2013 then (if c < 0x2010 then 3 else (if c < 0x2011 then 0 else 3)) else (if c < 0x2017 then 0 else (if c < 0x2025 then 3 else 1)))))"

definition level_14 :: "int \<Rightarrow> int" where
  "level_14 c =
     (if c < 0x2115 then (if c < 0x203e then (if c < 0x2033 then (if c < 0x2032 then 3 else 0) else (if c < 0x2035 then 3 else (if c < 0x2036 then 0 else
     3))) else (if c < 0x20a9 then (if c < 0x2044 then 1 else (if c < 0x2047 then 0 else 3)) else (if c < 0x2100 then 0 else (if c < 0x2113 then 3 else
     1)))) else (if c < 0x2207 then (if c < 0x219a then (if c < 0x2190 then 3 else 0) else (if c < 0x21d0 then 3 else (if c < 0x2204 then 0 else 3))) else
     (if c < 0x220c then (if c < 0x2209 then 0 else (if c < 0x220b then 3 else 0)) else (if c < 0x2211 then 3 else (if c < 0x2224 then 0 else 3)))))"

definition level_15 :: "int \<Rightarrow> int" where
  "level_15 c =
     (if c < 0x2247 then (if c < 0x222f then (if c < 0x222b then (if c < 0x2226 then 0 else 3) else (if c < 0x222c then 0 else (if c < 0x222e then 3 else
     0))) else (if c < 0x2243 then (if c < 0x223c then 3 else (if c < 0x2241 then 0 else 3)) else (if c < 0x2244 then 0 else (if c < 0x2245 then 3 else
     0)))) else (if c < 0x2261 then (if c < 0x2249 then (if c < 0x2248 then 3 else 0) else (if c < 0x224d then 3 else (if c < 0x2260 then 0 else 3))) else
     (if c < 0x226d then (if c < 0x2262 then 0 else (if c < 0x2264 then 3 else 0)) else (if c < 0x2272 then 3 else (if c < 0x2274 then 0 else 3)))))"

definition level_16 :: "int \<Rightarrow> int" where
  "level_16 c =
     (if c < 0x22e0 then (if c < 0x2284 then (if c < 0x227a then (if c < 0x2278 then 0 else 3) else (if c < 0x2280 then 0 else (if c < 0x2282 then 3 else
     0))) else (if c < 0x2291 then (if c < 0x2286 then 3 else (if c < 0x2288 then 0 else 3)) else (if c < 0x22ac then 0 else (if c < 0x22b2 then 3 else
     0)))) else (if c < 0x2d61 then (if c < 0x2a0c then (if c < 0x2502 then 3 else 0) else (if c < 0x2add then 3 else (if c < 0x2c7c then 0 else 3))) else
     (if c < 0x3036 then (if c < 0x2d6f then 0 else (if c < 0x3001 then 3 else 0)) else (if c < 0x3046 then 3 else (if c < 0x304c then 0 else 3)))))"

definition level_17 :: "int \<Rightarrow> int" where
  "level_17 c =
     (if c < 0x3058 then (if c < 0x3052 then (if c < 0x304f then (if c < 0x304e then 0 else 3) else (if c < 0x3050 then 0 else (if c < 0x3051 then 3 else
     0))) else (if c < 0x3055 then (if c < 0x3053 then 3 else (if c < 0x3054 then 0 else 3)) else (if c < 0x3056 then 0 else (if c < 0x3057 then 3 else
     0)))) else (if c < 0x305d then (if c < 0x305a then (if c < 0x3059 then 3 else 0) else (if c < 0x305b then 3 else (if c < 0x305c then 0 else 3))) else
     (if c < 0x3060 then (if c < 0x305e then 0 else (if c < 0x305f then 3 else 0)) else (if c < 0x3061 then 3 else (if c < 0x3062 then 0 else 3)))))"

definition level_18 :: "int \<Rightarrow> int" where
  "level_18 c =
     (if c < 0x3076 then (if c < 0x3069 then (if c < 0x3066 then (if c < 0x3065 then 0 else 3) else (if c < 0x3067 then 0 else (if c < 0x3068 then 3 else
     0))) else (if c < 0x3072 then (if c < 0x306f then 3 else (if c < 0x3070 then 0 else 3)) else (if c < 0x3073 then 0 else (if c < 0x3075 then 3 else
     0)))) else (if c < 0x3088 then (if c < 0x3079 then (if c < 0x3078 then 3 else 0) else (if c < 0x307b then 3 else (if c < 0x307c then 0 else 3))) else
     (if c < 0x309b then (if c < 0x3094 then 0 else (if c < 0x3099 then 3 else 0)) else (if c < 0x309d then 3 else (if c < 0x309e then 0 else 3)))))"

definition level_19 :: "int \<Rightarrow> int" where
  "level_19 c =
     (if c < 0x30b6 then (if c < 0x30b0 then (if c < 0x30ad then (if c < 0x30ac then 0 else 1) else (if c < 0x30ae then 0 else (if c < 0x30af then 1 else
     0))) else (if c < 0x30b3 then (if c < 0x30b1 then 1 else (if c < 0x30b2 then 0 else 1)) else (if c < 0x30b4 then 0 else (if c < 0x30b5 then 3 else
     0)))) else (if c < 0x30bb then (if c < 0x30b8 then (if c < 0x30b7 then 3 else 0) else (if c < 0x30b9 then 1 else (if c < 0x30ba then 0 else 3))) else
     (if c < 0x30be then (if c < 0x30bc then 0 else (if c < 0x30bd then 1 else 0)) else (if c < 0x30bf then 3 else (if c < 0x30c0 then 0 else 1)))))"

definition level_20 :: "int \<Rightarrow> int" where
  "level_20 c =
     (if c < 0x30d3 then (if c < 0x30c7 then (if c < 0x30c3 then (if c < 0x30c2 then 0 else 3) else (if c < 0x30c5 then 0 else (if c < 0x30c6 then 3 else
     0))) else (if c < 0x30ca then (if c < 0x30c8 then 1 else (if c < 0x30c9 then 0 else 1)) else (if c < 0x30d0 then 0 else (if c < 0x30d2 then 1 else
     0)))) else (if c < 0x30d9 then (if c < 0x30d6 then (if c < 0x30d5 then 1 else 0) else (if c < 0x30d7 then 1 else (if c < 0x30d8 then 3 else 0))) else
     (if c < 0x30de then (if c < 0x30db then 1 else (if c < 0x30dc then 0 else 1)) else (if c < 0x30f4 then 0 else (if c < 0x30fb then 3 else 0)))))"

definition level_21 :: "int \<Rightarrow> int" where
  "level_21 c =
     (if c < 0x11099 then (if c < 0xa727 then (if c < 0x3165 then (if c < 0x3131 then 3 else 1) else (if c < 0x349e then 3 else (if c < 0xa69c then 0 else
     3))) else (if c < 0xab5c then (if c < 0xa770 then 0 else (if c < 0xab37 then 3 else 0)) else (if c < 0xfb49 then 3 else (if c < 0xfb4a then 1 else
     3)))) else (if c < 0x110ab then (if c < 0x1109b then (if c < 0x1109a then 0 else 3) else (if c < 0x1109c then 0 else (if c < 0x110a5 then 3 else 0)))
     else (if c < 0x11131 then (if c < 0x110ba then 3 else (if c < 0x1112e then 0 else 3)) else (if c < 0x1134b then 0 else (if c < 0x11357 then 3 else
     0)))))"

definition level_22 :: "int \<Rightarrow> int" where
  "level_22 c =
     (if c < 0x1d15e then (if c < 0x115ba then (if c < 0x114be then (if c < 0x114bd then 3 else 0) else (if c < 0x115af then 3 else 0)) else (if c <
     0x11938 then (if c < 0x11930 then 3 else 0) else (if c < 0x1d157 then 3 else 0))) else (if c < 0x1d1bb then (if c < 0x1d160 then (if c < 0x1d15f then
     3 else 1) else (if c < 0x1d165 then 3 else 0)) else (if c < 0x20122 then (if c < 0x1d1bd then 1 else 3) else (if c < 0x2f800 then 0 else 3))))"

definition level :: "int \<Rightarrow> int" where
  "level c =
     (if c < 0x1d2c then (if c < 0x3f2 then (if c < 0xfc then (if c < 0xd0 then level_0 c else level_1 c) else (if c < 0x18e then level_2 c else (if c <
     0x374 then level_3 c else level_4 c))) else (if c < 0xd4a then (if c < 0x622 then level_5 c else (if c < 0x9dc then level_6 c else level_7 c)) else
     (if c < 0xf5c then level_8 c else (if c < 0x10fc then level_9 c else level_10 c)))) else (if c < 0x304d then (if c < 0x202f then (if c < 0x1f1a then
     level_11 c else (if c < 0x1f71 then level_12 c else level_13 c)) else (if c < 0x2225 then level_14 c else (if c < 0x2276 then level_15 c else level_16
     c))) else (if c < 0x30c1 then (if c < 0x3064 then level_17 c else (if c < 0x30a1 then level_18 c else level_19 c)) else (if c < 0x30fe then level_20 c
     else (if c < 0x114bb then level_21 c else level_22 c)))))"

section \<open>The check\<close>

fun levels_ok :: "int \<Rightarrow> int list list \<Rightarrow> bool" where
  "levels_ok c [] = True"
| "levels_ok c (out # outs) \<longleftrightarrow>
     length out \<le> UNICODE_DECOMP_LEN_MAX \<and> (let n = level c in list_all (\<lambda>x. level x < n) out) \<and> levels_ok (c + 1) outs"

lemma levels_ok_nth:
  "levels_ok c outs \<Longrightarrow> k < length outs \<Longrightarrow>
     length (outs ! k) \<le> UNICODE_DECOMP_LEN_MAX \<and> (\<forall>x \<in> set (outs ! k). level x < level (c + int k))"
proof (induction c outs arbitrary: k rule: levels_ok.induct)
  case (2 c out outs)
  show ?case
  proof (cases k)
    case 0
    then show ?thesis using "2.prems" by (simp add: Let_def list_all_iff)
  next
    case (Suc j)
    then show ?thesis using "2.prems" "2.IH" [of j] by (simp add: add.assoc)
  qed
qed simp

definition check_entry :: "int \<Rightarrow> int \<Rightarrow> int \<Rightarrow> int list \<Rightarrow> bool" where
  "check_entry d v t2 row =
     (let code = v div 16384; len = nat (v div 128 mod 128); ty = nat (v div 2 mod 64) in
      if ty = 0 then row = [] \<and> levels_ok code (replicate len [t2])
      else ty \<le> 34 \<and> t2 = d \<and> length row = row_size ty len \<and> short_ok ty len row \<and>
        levels_ok code (map (trim ty) (take len (row_outputs ty len row))))"

fun check_entries :: "int \<Rightarrow> int list \<Rightarrow> int list \<Rightarrow> int list list \<Rightarrow> int option" where
  "check_entries d (v # vs) (t2 # t2s) (row # rows) =
     (if check_entry d v t2 row then check_entries (d + int (length row)) vs t2s rows else None)"
| "check_entries d [] [] [] = Some d"
| "check_entries d _ _ _ = None"

lemma check_entries_append:
  "check_entries d vs t2s rows = Some d' \<Longrightarrow>
     check_entries d (vs @ vs') (t2s @ t2s') (rows @ rows') = check_entries d' vs' t2s' rows'"
  by (induction d vs t2s rows rule: check_entries.induct) (auto split: if_splits)

text \<open>The tables come in blocks of nine entries.\<close>

fun check_blocks :: "int \<Rightarrow> u32 list list \<Rightarrow> u16 list list \<Rightarrow> u8 list list list \<Rightarrow> int option" where
  "check_blocks d (vs # vss) (t2s # t2ss) (rows # rowss) =
     (case check_entries d (map uint vs) (map uint t2s) (map (map uint) rows) of
        None \<Rightarrow> None
      | Some d' \<Rightarrow> check_blocks d' vss t2ss rowss)"
| "check_blocks d [] [] [] = Some d"
| "check_blocks d _ _ _ = None"

definition part_ok :: "int \<Rightarrow> u32 list \<Rightarrow> u16 list \<Rightarrow> u8 list \<Rightarrow> int \<Rightarrow> bool" where
  "part_ok d vs t2s data d' \<longleftrightarrow>
     (\<exists>rows. data = concat rows \<and> check_entries d (map uint vs) (map uint t2s) (map (map uint) rows) = Some d')"

lemma part_ok_blocks:
  "check_blocks d vss t2ss rowss = Some d' \<Longrightarrow> part_ok d (concat vss) (concat t2ss) (concat (concat rowss)) d'"
proof (induction d vss t2ss rowss rule: check_blocks.induct)
  case (1 d vs vss t2s t2ss rows rowss)
  then obtain d1 where d1: "check_entries d (map uint vs) (map uint t2s) (map (map uint) rows) = Some d1"
    "check_blocks d1 vss t2ss rowss = Some d'" by (auto split: option.splits)
  from "1.IH" [OF d1] obtain rs where "concat (concat rowss) = concat rs"
    "check_entries d1 (map uint (concat vss)) (map uint (concat t2ss)) (map (map uint) rs) = Some d'" by (auto simp: part_ok_def)
  then show ?case
    using check_entries_append [OF d1(1)] unfolding part_ok_def by (intro exI [of _ "rows @ rs"]) simp
next
  case (2 d)
  then show ?case unfolding part_ok_def by (intro exI [of _ "[]"]) simp
qed simp_all

lemma part_ok_append:
  assumes "part_ok d vs t2s data d1" "part_ok d1 vs' t2s' data' d'"
  shows "part_ok d (vs @ vs') (t2s @ t2s') (data @ data') d'"
proof -
  obtain rows rows' where "data = concat rows" "check_entries d (map uint vs) (map uint t2s) (map (map uint) rows) = Some d1"
    "data' = concat rows'" "check_entries d1 (map uint vs') (map uint t2s') (map (map uint) rows') = Some d'"
    using assms by (auto simp: part_ok_def)
  then show ?thesis
    unfolding part_ok_def by (intro exI [of _ "rows @ rows'"]) (simp add: check_entries_append)
qed

text \<open>The ten parts of the tables pass.\<close>

lemma decomp_part_1: "part_ok 0 unicode_decomp_table1_1 unicode_decomp_table2_1 unicode_decomp_data_1 917"
  unfolding unicode_decomp_table1_1_def unicode_decomp_table2_1_def unicode_decomp_data_1_def
  by (rule part_ok_blocks) code_simp

lemma decomp_part_2: "part_ok 917 unicode_decomp_table1_2 unicode_decomp_table2_2 unicode_decomp_data_2 1842"
  unfolding unicode_decomp_table1_2_def unicode_decomp_table2_2_def unicode_decomp_data_2_def
  by (rule part_ok_blocks) code_simp

lemma decomp_part_3: "part_ok 1842 unicode_decomp_table1_3 unicode_decomp_table2_3 unicode_decomp_data_3 2837"
  unfolding unicode_decomp_table1_3_def unicode_decomp_table2_3_def unicode_decomp_data_3_def
  by (rule part_ok_blocks) code_simp

lemma decomp_part_4: "part_ok 2837 unicode_decomp_table1_4 unicode_decomp_table2_4 unicode_decomp_data_4 3703"
  unfolding unicode_decomp_table1_4_def unicode_decomp_table2_4_def unicode_decomp_data_4_def
  by (rule part_ok_blocks) code_simp

lemma decomp_part_5: "part_ok 3703 unicode_decomp_table1_5 unicode_decomp_table2_5 unicode_decomp_data_5 4621"
  unfolding unicode_decomp_table1_5_def unicode_decomp_table2_5_def unicode_decomp_data_5_def
  by (rule part_ok_blocks) code_simp

lemma decomp_part_6: "part_ok 4621 unicode_decomp_table1_6 unicode_decomp_table2_6 unicode_decomp_data_6 5499"
  unfolding unicode_decomp_table1_6_def unicode_decomp_table2_6_def unicode_decomp_data_6_def
  by (rule part_ok_blocks) code_simp

lemma decomp_part_7: "part_ok 5499 unicode_decomp_table1_7 unicode_decomp_table2_7 unicode_decomp_data_7 6608"
  unfolding unicode_decomp_table1_7_def unicode_decomp_table2_7_def unicode_decomp_data_7_def
  by (rule part_ok_blocks) code_simp

lemma decomp_part_8: "part_ok 6608 unicode_decomp_table1_8 unicode_decomp_table2_8 unicode_decomp_data_8 7338"
  unfolding unicode_decomp_table1_8_def unicode_decomp_table2_8_def unicode_decomp_data_8_def
  by (rule part_ok_blocks) code_simp

lemma decomp_part_9: "part_ok 7338 unicode_decomp_table1_9 unicode_decomp_table2_9 unicode_decomp_data_9 8337"
  unfolding unicode_decomp_table1_9_def unicode_decomp_table2_9_def unicode_decomp_data_9_def
  by (rule part_ok_blocks) code_simp

lemma decomp_part_10: "part_ok 8337 unicode_decomp_table1_10 unicode_decomp_table2_10 unicode_decomp_data_10 9165"
  unfolding unicode_decomp_table1_10_def unicode_decomp_table2_10_def unicode_decomp_data_10_def
  by (rule part_ok_blocks) code_simp

lemma decomp_tables_ok: "part_ok 0 unicode_decomp_table1 unicode_decomp_table2 unicode_decomp_data 9165"
proof -
  note 2 = part_ok_append [OF decomp_part_1 decomp_part_2]
  note 4 = part_ok_append [OF part_ok_append [OF 2 decomp_part_3] decomp_part_4]
  note 6 = part_ok_append [OF part_ok_append [OF 4 decomp_part_5] decomp_part_6]
  note 8 = part_ok_append [OF part_ok_append [OF 6 decomp_part_7] decomp_part_8]
  note part_ok_append [OF part_ok_append [OF 8 decomp_part_9] decomp_part_10]
  then show ?thesis unfolding unicode_decomp_table1_def unicode_decomp_table2_def unicode_decomp_data_def by simp
qed

section \<open>What the check shows\<close>

lemma check_entries_nth:
  "check_entries d vs t2s rows = Some d' \<Longrightarrow> length t2s = length vs \<and> length rows = length vs \<and>
     (\<forall>i < length vs. check_entry (d + int (length (concat (take i rows)))) (vs ! i) (t2s ! i) (rows ! i))"
proof (induction d vs t2s rows rule: check_entries.induct)
  case (1 d v vs t2 t2s row rows)
  then have e: "check_entry d v t2 row" and rest: "check_entries (d + int (length row)) vs t2s rows = Some d'"
    by (auto split: if_splits)
  note IH = "1.IH" [OF e rest]
  show ?case
  proof (intro conjI allI impI)
    fix i assume "i < length (v # vs)"
    then show "check_entry (d + int (length (concat (take i (row # rows))))) ((v # vs) ! i) ((t2 # t2s) ! i) ((row # rows) ! i)"
      using e IH by (cases i) (simp_all add: add.assoc)
  qed (use IH in simp_all)
qed simp_all

lemma row_at_concat:
  assumes "unicode_decomp_data = concat rows" "i < length rows"
  shows "row_at (length (concat (take i rows))) (rows ! i)"
proof -
  have "concat rows = concat (take i rows) @ rows ! i @ concat (drop (Suc i) rows)"
    by (metis append_take_drop_id assms(2) Cons_nth_drop_Suc concat.simps(2) concat_append)
  then show ?thesis unfolding row_at_def assms(1) by (simp add: rd_def nth_append)
qed

lemma decomp_code_int: "uint (decomp_code v) = uint v div 16384"
  by (simp add: decomp_code_def uint_drop_bit)

lemma decomp_len_int: "uint (decomp_len v) = uint v div 128 mod 128"
  using uint_field [of 7 7 v] by (simp add: decomp_len_def take_bit_eq_mask mask_eq_exp_minus_1)

lemma decomp_type_int: "uint (decomp_type v) = uint v div 2 mod 64"
  using uint_field [of 6 1 v] by (simp add: decomp_type_def take_bit_eq_mask mask_eq_exp_minus_1)

lemma decomp_entry_C1:
  "rd unicode_decomp_table2 idx = Some t2 \<Longrightarrow> unicode_decomp_entry off idx len 0 = Some [ucast t2]"
  by (simp add: unicode_decomp_entry_def DECOMP_TYPE_C1_def Let_def)

lemma length_row_outputs: "len \<le> length (row_outputs ty len row)"
proof -
  have both: "length (both_cases f g cs) = 2 * length cs" for f g cs by (induction f g cs rule: both_cases.induct) simp_all
  have "len \<le> 2 * (Suc len div 2)" by presburger
  then show ?thesis by (simp add: row_outputs_def increments_def offsets_def both Let_def)
qed

lemma unicode_decomp_entry_ok:
  assumes idx: "idx < length unicode_decomp_table1" and v: "v = unicode_decomp_table1 ! idx" and off: "off < unat (decomp_len v)"
  shows "\<exists>res. unicode_decomp_entry off idx (unat (decomp_len v)) (unat (decomp_type v)) = Some res \<and>
    length res \<le> UNICODE_DECOMP_LEN_MAX \<and> (\<forall>x \<in> set res. level (uint x) < level (uint (decomp_code v) + int off))"
proof -
  define len ty where "len = unat (decomp_len v)" and "ty = unat (decomp_type v)"
  obtain rows where data: "unicode_decomp_data = concat rows"
    and chk: "check_entries 0 (map uint unicode_decomp_table1) (map uint unicode_decomp_table2) (map (map uint) rows) = Some 9165"
    using decomp_tables_ok by (auto simp: part_ok_def)
  define row t2 where "row = rows ! idx" and "t2 = unicode_decomp_table2 ! idx"
  note n = check_entries_nth [OF chk]
  have rd: "rd unicode_decomp_table2 idx = Some t2" using n idx by (simp add: rd_def t2_def)
  have rows: "idx < length rows" using n idx by simp
  have i: "int len = uint v div 128 mod 128" "int ty = uint v div 2 mod 64"
    unfolding len_def ty_def by (metis decomp_len_int uint_nat, metis decomp_type_int uint_nat)
  moreover have "uint v div 128 mod 128 < 128" by simp
  ultimately have len: "nat (uint v div 128 mod 128) = len" "nat (uint v div 2 mod 64) = ty" "len < 128"
    by (metis nat_int, metis nat_int, linarith)
  have e: "check_entry (int (length (concat (take idx rows)))) (uint v) (uint t2) (map uint row)"
    using n [THEN conjunct2, THEN conjunct2, rule_format, of idx] n idx rows
    by (simp add: v t2_def row_def length_concat take_map comp_def)
  let ?ok = "\<lambda>xs. length xs \<le> UNICODE_DECOMP_LEN_MAX \<and> (\<forall>x \<in> set xs. level x < level (uint (decomp_code v) + int off))"
  have "\<exists>xs. entry_gives off idx len ty xs \<and> ?ok xs"
  proof (cases "ty = 0")
    case True
    then have "levels_ok (uint v div 16384) (replicate len [uint t2])" using e len by (simp add: check_entry_def Let_def)
    from levels_ok_nth [OF this, of off] have "?ok [uint t2]" using off by (simp add: len_def decomp_code_int)
    moreover have "entry_gives off idx len ty [uint t2]"
      using True decomp_entry_C1 [OF rd] by (simp add: entry_gives_def uint_up_ucast is_up)
    ultimately show ?thesis by blast
  next
    case False
    then have c: "ty \<le> 34" "uint t2 = int (length (concat (take idx rows)))" "length row = row_size ty len"
      "short_ok ty len (map uint row)" "levels_ok (uint v div 16384) (map (trim ty) (take len (row_outputs ty len (map uint row))))"
      using e len by (auto simp: check_entry_def Let_def)
    have "unat t2 = length (concat (take idx rows))" using c(2) by (metis nat_int unat_eq_nat_uint)
    then have "entry_row idx ty len row"
      using rd c row_at_concat [OF data rows] by (auto simp: entry_row_def row_def)
    then have "entry_gives off idx len ty (trim ty (row_outputs ty len (map uint row) ! off))"
      using entry_reads_row off len c(1) False by (simp add: len_def)
    moreover have "?ok (trim ty (row_outputs ty len (map uint row) ! off))"
      using levels_ok_nth [OF c(5), of off] off length_row_outputs [of len ty "map uint row"] by (simp add: len_def decomp_code_int)
    ultimately show ?thesis by blast
  qed
  then obtain res where "unicode_decomp_entry off idx len ty = Some res" "?ok (map uint res)" by (auto simp: entry_gives_def)
  then show ?thesis by (auto simp: len_def ty_def)
qed

end
