(* ===== verification/Unicode_Nfd.thy ===== *)
theory Unicode_Nfd
  imports Unicode_Norm_Correct Unicode_Decomp_Check
begin

text \<open>
  Normalisation to the decomposed forms. The reference decomposes a code point completely, without a buffer
  and without a bound on the depth, and puts the marks into canonical order; \<open>unicode_normalize\<close> computes the
  same within a depth of three, or reports that memory ran out.
\<close>

section \<open>Complete decomposition\<close>

lemma level_parts:
  "0 \<le> level_0 c \<and> level_0 c \<le> 3" "0 \<le> level_1 c \<and> level_1 c \<le> 3" "0 \<le> level_2 c \<and> level_2 c \<le> 3"
  "0 \<le> level_3 c \<and> level_3 c \<le> 3" "0 \<le> level_4 c \<and> level_4 c \<le> 3" "0 \<le> level_5 c \<and> level_5 c \<le> 3"
  "0 \<le> level_6 c \<and> level_6 c \<le> 3" "0 \<le> level_7 c \<and> level_7 c \<le> 3" "0 \<le> level_8 c \<and> level_8 c \<le> 3"
  "0 \<le> level_9 c \<and> level_9 c \<le> 3" "0 \<le> level_10 c \<and> level_10 c \<le> 3" "0 \<le> level_11 c \<and> level_11 c \<le> 3"
  "0 \<le> level_12 c \<and> level_12 c \<le> 3" "0 \<le> level_13 c \<and> level_13 c \<le> 3" "0 \<le> level_14 c \<and> level_14 c \<le> 3"
  "0 \<le> level_15 c \<and> level_15 c \<le> 3" "0 \<le> level_16 c \<and> level_16 c \<le> 3" "0 \<le> level_17 c \<and> level_17 c \<le> 3"
  "0 \<le> level_18 c \<and> level_18 c \<le> 3" "0 \<le> level_19 c \<and> level_19 c \<le> 3" "0 \<le> level_20 c \<and> level_20 c \<le> 3"
  "0 \<le> level_21 c \<and> level_21 c \<le> 3" "0 \<le> level_22 c \<and> level_22 c \<le> 3"
  unfolding level_0_def level_1_def level_2_def level_3_def level_4_def level_5_def level_6_def level_7_def level_8_def
    level_9_def level_10_def level_11_def level_12_def level_13_def level_14_def level_15_def level_16_def level_17_def
    level_18_def level_19_def level_20_def level_21_def level_22_def
  by simp_all

lemma level_range: "0 \<le> level c" "level c \<le> 3"
  unfolding level_def using level_parts [of c] by simp_all

lemma decomp_search_ok:
  assumes "0 \<le> lo" "hi < int (length unicode_decomp_table1)"
  shows "\<exists>res. decomp_search c k lo hi = Some res \<and> length res \<le> UNICODE_DECOMP_LEN_MAX \<and> (\<forall>x \<in> set res. level (uint x) < level (uint c))"
  using assms
proof (induction "nat (hi + 1 - lo)" arbitrary: lo hi rule: less_induct)
  case less
  show ?case
  proof (cases "lo \<le> hi")
    case False
    then show ?thesis by (simp add: decomp_search.simps)
  next
    case True
    define idx v where "idx = (hi + lo) div 2" and "v = unicode_decomp_table1 ! nat idx"
    have idx: "lo \<le> idx" "idx \<le> hi" using True by (simp_all add: idx_def)
    have i: "nat idx < length unicode_decomp_table1" using idx less.prems by (simp add: nat_less_iff)
    have step: "decomp_search c k lo hi =
      (if c < decomp_code v then decomp_search c k lo (idx - 1)
       else if c \<ge> decomp_code v + decomp_len v then decomp_search c k (idx + 1) hi
       else if \<not> k \<and> v AND 1 \<noteq> 0 then Some []
       else unicode_decomp_entry (unat (c - decomp_code v)) (nat idx) (unat (decomp_len v)) (unat (decomp_type v)))"
      using True i by (subst decomp_search.simps) (simp add: idx_def [symmetric] v_def rd_def)
    consider "c < decomp_code v" | "\<not> c < decomp_code v" "decomp_code v + decomp_len v \<le> c"
      | "\<not> c < decomp_code v" "\<not> decomp_code v + decomp_len v \<le> c" by blast
    then show ?thesis
    proof cases
      case 1
      then show ?thesis using step less.hyps [of "idx - 1" lo] idx less.prems by simp
    next
      case 2
      then show ?thesis using step less.hyps [of hi "idx + 1"] idx less.prems by simp
    next
      case 3
      have code: "uint (decomp_code v) < 2 ^ 18" "uint (decomp_len v) < 2 ^ 7"
        using uint_lt2p [of v] by (simp_all add: decomp_code_int decomp_len_int)
      then have sum: "uint (decomp_code v + decomp_len v) = uint (decomp_code v) + uint (decomp_len v)"
        by (intro uint_add_lt) simp
      have c: "uint (c - decomp_code v) = uint c - uint (decomp_code v)"
        using 3 by (intro uint_sub_const) (simp add: word_less_def)
      then have "uint (c - decomp_code v) < uint (decomp_len v)" using 3 sum by (simp add: word_le_def)
      then have "unat (c - decomp_code v) < unat (decomp_len v)" by (simp only: uint_nat of_nat_less_iff)
      moreover have "int (unat (c - decomp_code v)) = uint c - uint (decomp_code v)" using c by (metis uint_nat)
      ultimately show ?thesis
        using step 3 unicode_decomp_entry_ok [OF i v_def, of "unat (c - decomp_code v)"] by simp
    qed
  qed
qed

lemma unicode_decomp_char_ok:
  "\<exists>res. unicode_decomp_char c k = Some res \<and> length res \<le> UNICODE_DECOMP_LEN_MAX \<and> (\<forall>x \<in> set res. level (uint x) < level (uint c))"
  unfolding unicode_decomp_char_def by (rule decomp_search_ok) simp_all

text \<open>The parts of a Hangul syllable: the leading consonant, the vowel and, if there is one, the trailing consonant.\<close>

definition hangul_parts :: "u32 \<Rightarrow> u32 list" where
  "hangul_parts c =
     (let s = c - 0xac00 in
      [0x1100 + s div 588, 0x1161 + s mod 588 div 28] @ (if s mod 28 = 0 then [] else [0x11a7 + s mod 28]))"

definition decomp_or_nil :: "bool \<Rightarrow> u32 \<Rightarrow> u32 list" where
  "decomp_or_nil k c = (case unicode_decomp_char c k of None \<Rightarrow> [] | Some res \<Rightarrow> res)"

lemma decomp_or_nil_eq: "unicode_decomp_char c k = Some (decomp_or_nil k c)"
  using unicode_decomp_char_ok [of c k] by (auto simp: decomp_or_nil_def)

lemma decomp_or_nil_level: "x \<in> set (decomp_or_nil k c) \<Longrightarrow> level (uint x) < level (uint c)"
  using unicode_decomp_char_ok [of c k] by (auto simp: decomp_or_nil_def)

function full_decomp :: "bool \<Rightarrow> u32 \<Rightarrow> u32 list" where
  "full_decomp k c =
     (if 0xac00 \<le> c \<and> c < 0xd7a4 then hangul_parts c
      else if decomp_or_nil k c = [] then [c]
      else concat (map (full_decomp k) (decomp_or_nil k c)))"
  by pat_completeness auto
termination
  using level_range by (relation "measure (\<lambda>(k, c). nat (level (uint c)))") (auto dest!: decomp_or_nil_level simp: zless_nat_conj intro: le_less_trans)

declare full_decomp.simps [simp del]

text \<open>\<open>to_nfd_rec\<close> appends the complete decompositions to the buffer one after the other.\<close>

lemma put_all_append: "put_all put s (xs @ ys) = Option.bind (put_all put s xs) (\<lambda>s. put_all put s ys)"
  by (induction put s xs rule: put_all.induct) (auto split: bind_splits)

definition put_words :: "DynBuf \<Rightarrow> u32 list \<Rightarrow> DynBuf option" where
  "put_words dbuf cs = put_all dbuf_put dbuf (map (le_bytes 4) cs)"

lemma put_words_append: "put_words dbuf (cs @ ds) = Option.bind (put_words dbuf cs) (\<lambda>dbuf. put_words dbuf ds)"
  by (simp add: put_words_def put_all_append)

lemma put_words_Nil [simp]: "put_words dbuf [] = Some dbuf"
  by (simp add: put_words_def)

lemma put_words_Cons: "put_words dbuf (c # cs) = Option.bind (put_u32_ignore dbuf c) (\<lambda>dbuf. put_words dbuf cs)"
  by (auto simp: put_words_def put_u32_ignore_def dbuf_put_u32_def split: bind_splits option.splits)

lemma hangul_decomp_eq: "hangul_decomp dbuf c = put_words dbuf (hangul_parts c)"
  by (auto simp: hangul_decomp_def hangul_parts_def put_words_Cons Let_def split: bind_splits)

lemma to_nfd_rec_eq:
  "\<forall>c \<in> set src. level (uint c) \<le> int depth \<Longrightarrow>
     to_nfd_rec depth dbuf src k = put_words dbuf (concat (map (full_decomp k) src))"
proof (induction depth dbuf src k rule: to_nfd_rec.induct)
  case (1 depth dbuf k)
  then show ?case by (simp add: to_nfd_rec.simps)
next
  case (2 depth dbuf c src k)
  let ?res = "decomp_or_nil k c"
  have first: "(if c \<ge> 0xac00 \<and> c < 0xd7a4 then hangul_decomp dbuf c
        else do {
          res \<leftarrow> unicode_decomp_char c k;
          if length res > UNICODE_DECOMP_LEN_MAX then None
          else if res \<noteq> [] then (case depth of 0 \<Rightarrow> None | Suc depth' \<Rightarrow> to_nfd_rec depth' dbuf res k)
          else put_u32_ignore dbuf c }) = put_words dbuf (full_decomp k c)" (is "?first = _")
  proof (cases "c \<ge> 0xac00 \<and> c < 0xd7a4 \<or> ?res = []")
    case True
    have "put_words dbuf [c] = put_u32_ignore dbuf c"
      by (cases "put_u32_ignore dbuf c") (simp_all add: put_words_Cons)
    then show ?thesis
      using True by (subst full_decomp.simps) (auto simp: hangul_decomp_eq decomp_or_nil_eq UNICODE_DECOMP_LEN_MAX_def)
  next
    case False
    have len: "\<not> length ?res > UNICODE_DECOMP_LEN_MAX"
      using unicode_decomp_char_ok [of c k] by (auto simp: decomp_or_nil_eq)
    have lev: "level (uint x) < level (uint c)" if "x \<in> set ?res" for x using decomp_or_nil_level [OF that] .
    obtain x xs where "?res = x # xs" using False by (cases ?res) auto
    then have "0 < level (uint c)" using lev [of x] level_range [of "uint x"] by simp
    then obtain depth' where d: "depth = Suc depth'" using "2.prems" by (cases depth) auto
    have "to_nfd_rec depth' dbuf ?res k = put_words dbuf (concat (map (full_decomp k) ?res))"
      using "2.IH" (1) [OF _ decomp_or_nil_eq _ _ d] False len lev "2.prems" d by force
    then show ?thesis using False len d by (subst full_decomp.simps) (auto simp: decomp_or_nil_eq)
  qed
  have "to_nfd_rec depth dbuf (c # src) k = Option.bind ?first (\<lambda>dbuf. to_nfd_rec depth dbuf src k)"
    by (simp add: to_nfd_rec.simps)
  also have "\<dots> = Option.bind (put_words dbuf (full_decomp k c)) (\<lambda>dbuf. put_words dbuf (concat (map (full_decomp k) src)))"
    unfolding first using "2.IH" (2) "2.prems" first by (auto split: bind_splits)
  finally show ?case by (simp add: put_words_append)
qed

section \<open>The decomposed forms\<close>

lemma words_of_bytes: "words_of (concat (map (le_bytes 4) cs)) = cs"
proof (induction cs)
  case Nil
  then show ?case by (simp add: words_of.simps)
next
  case (Cons c cs)
  have "of_le (le_bytes 4 c) = c" by (rule of_le_le_bytes) simp
  then show ?case using Cons by (subst words_of.simps) simp
qed

lemma full_decomp_nonempty: "full_decomp k c \<noteq> []"
proof (induction k c rule: full_decomp.induct)
  case (1 k c)
  have "full_decomp k (hd (decomp_or_nil k c)) \<noteq> []" if "\<not> (0xac00 \<le> c \<and> c < 0xd7a4)" "decomp_or_nil k c \<noteq> []"
    using "1.IH" [OF that] that(2) by simp
  then show ?case by (subst full_decomp.simps) (auto simp: hangul_parts_def Let_def intro: hd_in_set)
qed

lemma full_decomp_length: "length src \<le> length (concat (map (full_decomp k) src))"
proof (induction src)
  case (Cons c src)
  have "1 \<le> length (full_decomp k c)" using full_decomp_nonempty [of k c] by (cases "full_decomp k c") simp_all
  with Cons show ?case by simp
qed simp

lemma to_nfd_result:
  assumes inv: "dbuf_inv dbuf" "dbuf_data dbuf = []" and depth: "3 \<le> depth"
    and size: "4 * length (concat (map (full_decomp k) src)) < 2 ^ 64"
  shows "\<exists>dbuf'. to_nfd_rec depth dbuf src k = Some dbuf' \<and> (granted dbuf \<longrightarrow> \<not> dbuf_error dbuf') \<and>
    (\<not> dbuf_error dbuf' \<longrightarrow> dbuf_words dbuf' = concat (map (full_decomp k) src))"
proof -
  let ?cs = "concat (map (full_decomp k) src)"
  have "\<forall>c \<in> set src. level (uint c) \<le> int depth"
  proof
    fix c assume "c \<in> set src"
    show "level (uint c) \<le> int depth" using level_range(2) [of "uint c"] depth by linarith
  qed
  then have eq: "to_nfd_rec depth dbuf src k = put_all dbuf_put dbuf (map (le_bytes 4) ?cs)"
    by (simp add: to_nfd_rec_eq put_words_def)
  have len: "length (concat (map (le_bytes 4) cs)) = 4 * length cs" for cs :: "u32 list" by (induction cs) simp_all
  then have "length (dbuf_data dbuf) + length (concat (map (le_bytes 4) ?cs)) < 2 ^ 64" using inv(2) size by simp
  from db.put_all_spec [OF inv(1) this] obtain s' where s': "put_all dbuf_put dbuf (map (le_bytes 4) ?cs) = Some s'"
    "\<not> db_error s' \<longrightarrow> dbuf_data s' = concat (map (le_bytes 4) ?cs)" using inv(2) by auto
  show ?thesis
    using eq s' put_all_granted [OF _ s'(1)]
    by (auto simp: dbuf_error_def granted_def dbuf_words_def words_of_bytes simp flip: dbuf_data_def)
qed

lemma normalize_decomposed:
  assumes n: "n_type = UNICODE_NFD \<or> n_type = UNICODE_NFKD" and depth: "3 \<le> depth"
    and size: "length (concat (map (full_decomp (n_type = UNICODE_NFKD)) src)) < 2 ^ 31"
  defines "r \<equiv> canonical_order (concat (map (full_decomp (n_type = UNICODE_NFKD)) src))"
  shows "unicode_normalize depth src n_type alloc = Some (int (length r), r) \<or>
    unicode_normalize depth src n_type alloc = Some (-1, []) \<and> alloc \<noteq> (\<lambda>_. True)"
proof -
  let ?k = "n_type = UNICODE_NFKD"
  have k: "(n_type = UNICODE_NFKC \<or> n_type = UNICODE_NFKD) = ?k" using n by auto
  have "4 * length src < 2 ^ 64" using size full_decomp_length [where src = src and k = ?k] by simp
  from dbuf_realloc_spec [OF dbuf_init2_inv(1) [of alloc] this]
  obtain r1 s1 where s1: "dbuf_realloc (dbuf_init2 alloc) (4 * length src) = Some (r1, s1)" "dbuf_inv s1" "dbuf_data s1 = []"
    by (metis dbuf_init2_inv(2))
  have g: "r1 = 0 \<and> granted s1" if "alloc = (\<lambda>_. True)"
    using dbuf_realloc_granted [OF _ s1(1)] that by (simp add: granted_def dbuf_init2_def)
  obtain d where d: "to_nfd_rec depth s1 src ?k = Some d" "granted s1 \<longrightarrow> \<not> dbuf_error d"
    "\<not> dbuf_error d \<longrightarrow> dbuf_words d = concat (map (full_decomp ?k) src)"
    using to_nfd_result [OF s1(2,3) depth, of ?k src] size by auto
  show ?thesis
    using n s1(1) d g by (auto simp: unicode_normalize_def Let_def k sort_cc_eq r_def)
qed

end
