(* ===== verification/Unicode_Norm_Props.thy ===== *)
theory Unicode_Norm_Props
  imports Unicode_Nfd
begin

text \<open>
  Composition of Hangul syllables and the properties of normalisation.
\<close>

section \<open>Hangul syllables\<close>

lemma uint_const_div: "uint ((a :: u32) div b) = uint a div uint b" "uint (a mod b) = uint a mod uint b"
  by (simp_all add: uint_div uint_mod)

lemma hangul_split:
  assumes "0xac00 \<le> (c :: u32)" "c < 0xd7a4"
  obtains s l v t where "uint c = 0xac00 + s" "0 \<le> s" "s < 11172" "s = l * 588 + v * 28 + t" "0 \<le> l" "l < 19" "0 \<le> v" "v < 21" "0 \<le> t" "t < 28"
    "uint (0x1100 + (c - 0xac00) div 588) = 0x1100 + l" "uint (0x1161 + (c - 0xac00) mod 588 div 28) = 0x1161 + v"
    "uint ((c - 0xac00) mod 28) = t" "uint (0x11a7 + (c - 0xac00) mod 28) = 0x11a7 + t"
proof -
  define s where "s = uint c - 0xac00"
  have s: "0 \<le> s" "s < 11172" using assms by (simp_all add: s_def word_le_def word_less_def)
  have u: "uint (c - 0xac00) = s" using assms uint_sub_const [of "0xac00" c] by (simp add: s_def word_le_def)
  have l: "uint ((c - 0xac00) div 588) = s div 588" "uint ((c - 0xac00) mod 588 div 28) = s mod 588 div 28" "uint ((c - 0xac00) mod 28) = s mod 28"
    using u by (simp_all add: uint_const_div)
  have "s mod 588 \<le> 587" using pos_mod_bound [of 588 s] by linarith
  then have lb: "s div 588 < 19" "s mod 588 div 28 < 21" "s mod 28 < 28"
    using s zdiv_mono1 [of s 11171 588] zdiv_mono1 [of "s mod 588" 587 28] by simp_all
  have "s mod 588 mod 28 = s mod 28" by (rule mod_mod_cancel) simp
  then have split: "s = s div 588 * 588 + s mod 588 div 28 * 28 + s mod 28"
    using div_mult_mod_eq [of s 588] div_mult_mod_eq [of "s mod 588" 28] by linarith
  have L: "uint (0x1100 + (c - 0xac00) div 588) = 0x1100 + s div 588"
    using uint_add_lt [of "0x1100" "(c - 0xac00) div 588"] l(1) lb(1) by simp
  have V: "uint (0x1161 + (c - 0xac00) mod 588 div 28) = 0x1161 + s mod 588 div 28"
    using uint_add_lt [of "0x1161" "(c - 0xac00) mod 588 div 28"] l(2) lb(2) by simp
  have T: "uint (0x11a7 + (c - 0xac00) mod 28) = 0x11a7 + s mod 28"
    using uint_add_lt [of "0x11a7" "(c - 0xac00) mod 28"] l(3) lb(3) by simp
  have "uint c = 0xac00 + s" by (simp add: s_def)
  moreover have "0 \<le> s div 588" "0 \<le> s mod 588 div 28" "0 \<le> s mod 28" using s by (simp_all add: pos_imp_zdiv_nonneg_iff)
  ultimately show ?thesis using s split lb L V T l(3) by (intro that [of s "s div 588" "s mod 588 div 28" "s mod 28"])
qed

lemma hangul_parts_compose:
  assumes "0xac00 \<le> c" "c < 0xd7a4"
  shows "\<exists>lv. compose_pair (0x1100 + (c - 0xac00) div 588) (0x1161 + (c - 0xac00) mod 588 div 28) = Some lv \<and>
    0xac00 \<le> lv \<and> lv < 0xd7a4 \<and> ((c - 0xac00) mod 28 = 0 \<longrightarrow> lv = c) \<and>
    ((c - 0xac00) mod 28 \<noteq> 0 \<longrightarrow> compose_pair lv (0x11a7 + (c - 0xac00) mod 28) = Some c)"
proof -
  let ?L = "0x1100 + (c - 0xac00) div 588" and ?V = "0x1161 + (c - 0xac00) mod 588 div 28" and ?T = "0x11a7 + (c - 0xac00) mod 28"
  from assms obtain s l v t where h: "uint c = 0xac00 + s" "0 \<le> s" "s < 11172" "s = l * 588 + v * 28 + t" "0 \<le> l" "l < 19" "0 \<le> v" "v < 21" "0 \<le> t" "t < 28"
    "uint ?L = 0x1100 + l" "uint ?V = 0x1161 + v" "uint ((c - 0xac00) mod 28) = t" "uint ?T = 0x11a7 + t" by (rule hangul_split)
  define lv where "lv = 0xac00 + (?L - 0x1100) * 588 + (?V - 0x1161) * 28"
  have sub: "uint (?L - 0x1100) = l" "uint (?V - 0x1161) = v"
    using uint_sub_const [of "0x1100" ?L] uint_sub_const [of "0x1161" ?V] h by simp_all
  have mult: "uint ((?L - 0x1100) * 588) = l * 588" "uint ((?V - 0x1161) * 28) = v * 28"
    using sub h by (simp_all add: uint_word_ariths(3) mod_pos_pos_trivial)
  have lv: "uint lv = 0xac00 + l * 588 + v * 28"
    using mult h uint_add_lt [of "0xac00" "(?L - 0x1100) * 588"] uint_add_lt [of "0xac00 + (?L - 0x1100) * 588" "(?V - 0x1161) * 28"]
    by (simp add: lv_def)
  have c1: "compose_pair ?L ?V = Some lv" using h by (simp add: compose_pair_def lv_def word_le_def word_less_def)
  have range: "0xac00 \<le> lv" "lv < 0xd7a4" "lv < 0xac00 + 11172" using lv h by (simp_all add: word_le_def word_less_def)
  have zero: "(c - 0xac00) mod 28 = 0 \<longleftrightarrow> t = 0" using h(13) by (simp add: word_uint_eq_iff)
  have "uint (lv - 0xac00) = l * 588 + v * 28" using uint_sub_const [of "0xac00" lv] lv h by simp
  then have m: "(lv - 0xac00) mod 28 = 0" using h by (simp add: word_uint_eq_iff uint_const_div)
  have sum: "uint (lv + ?T) = uint lv + uint ?T" using lv h by (intro uint_add_lt) simp
  have "uint (lv + ?T - 0x11a7) = uint c" using uint_sub_const [of "0x11a7" "lv + ?T"] sum lv h by simp
  then have c2: "compose_pair lv ?T = Some c"
    using range m h lv by (simp add: compose_pair_def word_le_def word_less_def word_uint_eq_iff)
  have "lv = c" if "t = 0" using that lv h by (simp add: word_uint_eq_iff)
  with c1 c2 range zero show ?thesis by blast
qed

text \<open>The composition loop on the parts of one syllable.\<close>

lemma compose_first:
  assumes "cc_of a = 0" "cc_of b = 0" "compose_pair a b = Some p" "p \<noteq> 0"
  shows "compose_loop (a # b # xs) 1 1 n = (if 1 < n then compose_loop (p # b # xs) 2 1 n else Some (1, a # b # xs))"
  using assms by (subst compose_loop.simps)
    (simp add: compose_at_def find_starter.simps [of _ 0] rd_def wr_def unicode_get_cc_eq numeral_2_eq_2)

lemma compose_loop_end: "n \<le> i \<Longrightarrow> compose_loop buf i out_len n = Some (out_len, buf)"
  by (simp add: compose_loop.simps)

lemma compose_second:
  assumes "cc_of a = 0" "cc_of b = 0" "compose_pair a b = Some p" "p \<noteq> 0"
  shows "compose_loop [a, x, b] 2 1 3 = Some (1, [p, x, b])"
proof -
  have "compose_at [a, x, b] 2 1 = Some (Some (0, p))"
    using assms by (simp add: compose_at_def find_starter.simps [of _ 0] rd_def unicode_get_cc_eq)
  then show ?thesis by (subst compose_loop.simps) (simp add: wr_def compose_loop_end)
qed

lemma canonical_order_starters: "list_all (\<lambda>c. cc_of c = 0) cs \<Longrightarrow> canonical_order cs = cs"
proof (induction cs)
  case Nil
  show ?case by (subst canonical_order.simps) simp
next
  case (Cons c cs)
  then show ?case by (subst canonical_order.simps) simp
qed

lemma hangul_parts_starters:
  assumes "0xac00 \<le> c" "c < 0xd7a4"
  shows "list_all (\<lambda>c. cc_of c = 0) (hangul_parts c)"
proof -
  let ?L = "0x1100 + (c - 0xac00) div 588" and ?V = "0x1161 + (c - 0xac00) mod 588 div 28" and ?T = "0x11a7 + (c - 0xac00) mod 28"
  from assms obtain s l v t where h: "uint c = 0xac00 + s" "0 \<le> s" "s < 11172" "s = l * 588 + v * 28 + t" "0 \<le> l" "l < 19" "0 \<le> v" "v < 21" "0 \<le> t" "t < 28"
    "uint ?L = 0x1100 + l" "uint ?V = 0x1161 + v" "uint ((c - 0xac00) mod 28) = t" "uint ?T = 0x11a7 + t" by (rule hangul_split)
  have "cc_of ?L = 0" "cc_of ?V = 0" "cc_of ?T = 0"
    by (rule cc_of_hangul_jamo, use h in \<open>simp add: word_le_def word_less_def\<close>, use h in \<open>simp add: word_le_def word_less_def\<close>)+
  then show ?thesis by (simp add: hangul_parts_def Let_def)
qed

lemma compose_hangul:
  assumes "0xac00 \<le> c" "c < 0xd7a4"
  shows "\<exists>buf. compose_loop (hangul_parts c) 1 1 (length (hangul_parts c)) = Some (1, c # buf)"
proof -
  let ?L = "0x1100 + (c - 0xac00) div 588" and ?V = "0x1161 + (c - 0xac00) mod 588 div 28" and ?T = "0x11a7 + (c - 0xac00) mod 28"
  have cc: "cc_of ?L = 0" "cc_of ?V = 0" "(c - 0xac00) mod 28 \<noteq> 0 \<longrightarrow> cc_of ?T = 0"
    using hangul_parts_starters [OF assms] by (simp_all add: hangul_parts_def Let_def split: if_splits)
  obtain lv where lv: "compose_pair ?L ?V = Some lv" "0xac00 \<le> lv" "lv < 0xd7a4" "(c - 0xac00) mod 28 = 0 \<longrightarrow> lv = c"
      "(c - 0xac00) mod 28 \<noteq> 0 \<longrightarrow> compose_pair lv ?T = Some c" using hangul_parts_compose [OF assms] by (elim exE conjE) (rule that; assumption)
  have nz: "lv \<noteq> 0" "c \<noteq> 0" using lv(2) assms(1) by (auto simp: word_le_def)
  have first: "compose_loop (?L # ?V # xs) 1 1 (Suc (Suc n)) = compose_loop (lv # ?V # xs) 2 1 (Suc (Suc n))" for xs n
    using compose_first [OF cc(1,2) lv(1) nz(1)] by simp
  show ?thesis
  proof (cases "(c - 0xac00) mod 28 = 0")
    case True
    then show ?thesis using first [of "[]" 0] lv(4) by (simp add: hangul_parts_def Let_def compose_loop_end)
  next
    case False
    then have "compose_loop [lv, ?V, ?T] 2 1 3 = Some (1, [c, ?V, ?T])"
      using compose_second [OF cc_of_hangul_syllable [OF lv(2,3)] cc(3) [rule_format]] lv(5) nz(2) by simp
    then show ?thesis using False first [of "[?T]" 1] by (simp add: hangul_parts_def Let_def numeral_3_eq_3)
  qed
qed

text \<open>Normalisation to the composed forms, up to the composition loop.\<close>

lemma normalize_composed:
  assumes n: "n_type = UNICODE_NFC \<or> n_type = UNICODE_NFKC" and src: "\<not> list_all (\<lambda>c. c < 0x100) src"
    and len: "length (concat (map (full_decomp (n_type = UNICODE_NFKC)) src)) < 2 ^ 31"
  defines "buf \<equiv> canonical_order (concat (map (full_decomp (n_type = UNICODE_NFKC)) src))"
  shows "unicode_normalize 3 src n_type (\<lambda>_. True) =
    (if length buf \<le> 1 then Some (int (length buf), buf)
     else do { (out_len, buf) \<leftarrow> compose_loop buf 1 1 (length buf); Some (int out_len, take out_len buf) })"
proof -
  let ?k = "n_type = UNICODE_NFKC" and ?init = "dbuf_init2 (\<lambda>_. True)"
  have k: "(n_type = UNICODE_NFKC \<or> n_type = UNICODE_NFKD) = ?k" using n by auto
  have "4 * length src < 2 ^ 64" using len full_decomp_length [where src = src and k = ?k] by simp
  from dbuf_realloc_spec [OF dbuf_init2_inv(1) [of "\<lambda>_. True"] this]
  obtain r1 s1 where s1: "dbuf_realloc ?init (4 * length src) = Some (r1, s1)" "dbuf_inv s1" "dbuf_data s1 = []"
    by (metis dbuf_init2_inv(2))
  have g: "r1 = 0 \<and> granted s1" using dbuf_realloc_granted [OF _ s1(1)] by (simp add: granted_def dbuf_init2_def)
  obtain d where d: "to_nfd_rec 3 s1 src ?k = Some d" "\<not> dbuf_error d" "dbuf_words d = concat (map (full_decomp ?k) src)"
    using to_nfd_result [OF s1(2,3), of 3 ?k src] len g by auto
  show ?thesis using n s1(1) d g src by (auto simp: unicode_normalize_def Let_def k sort_cc_eq buf_def)
qed

lemma full_decomp_hangul: "0xac00 \<le> c \<Longrightarrow> c < 0xd7a4 \<Longrightarrow> full_decomp k c = hangul_parts c"
  by (subst full_decomp.simps) simp

lemma full_decomp_final: "level (uint c) = 0 \<Longrightarrow> \<not> (0xac00 \<le> c \<and> c < 0xd7a4) \<Longrightarrow> full_decomp k c = [c]"
proof -
  assume z: "level (uint c) = 0" and c: "\<not> (0xac00 \<le> c \<and> c < 0xd7a4)"
  have "x \<notin> set (decomp_or_nil k c)" for x
    using decomp_or_nil_level [of x k c] level_range(1) [of "uint x"] z by linarith
  then have "decomp_or_nil k c = []" by (cases "decomp_or_nil k c") auto
  then show "full_decomp k c = [c]" using c by (subst full_decomp.simps) auto
qed

lemma hangul_decomposed:
  assumes "0xac00 \<le> c" "c < 0xd7a4"
  shows "concat (map (full_decomp k) [c]) = hangul_parts c" "length (hangul_parts c) < 2 ^ 31" "\<not> length (hangul_parts c) \<le> 1"
    "canonical_order (hangul_parts c) = hangul_parts c"
  using full_decomp_hangul [OF assms] canonical_order_starters [OF hangul_parts_starters [OF assms]]
  by (simp_all add: hangul_parts_def Let_def)

lemma nfd_hangul:
  assumes "0xac00 \<le> c" "c < 0xd7a4"
  shows "unicode_normalize 3 [c] UNICODE_NFD (\<lambda>_. True) = Some (int (length (hangul_parts c)), hangul_parts c)"
  using normalize_decomposed [of UNICODE_NFD 3 "[c]"] hangul_decomposed(2) [OF assms]
  by (auto simp only: hangul_decomposed [OF assms] simp_thms UnicodeNormalizationEnum.distinct)

lemma nfc_hangul:
  assumes "0xac00 \<le> c" "c < 0xd7a4"
  shows "unicode_normalize 3 [c] UNICODE_NFC (\<lambda>_. True) = Some (1, [c])"
proof -
  have "\<not> list_all (\<lambda>c. c < 0x100) [c]" using assms by (simp add: word_le_def word_less_def)
  then show ?thesis
    using normalize_composed [of UNICODE_NFC "[c]"] compose_hangul [OF assms] hangul_decomposed(2,3) [OF assms]
    by (auto simp: hangul_decomposed(1,4) [OF assms] simp del: list.map concat.simps)
qed

section \<open>Properties\<close>

text \<open>C22: the combining class that the indexed lookup \<open>unicode_get_cc\<close> returns is the one that reading the run-length
  encoded table from its start gives, for every 32-bit value; the lookup never leaves the table and its result is
  below 256.\<close>

theorem unicode_get_cc_linear:
  "unicode_get_cc c = Some (case cc_walk c 0 unicode_cc_table of None \<Rightarrow> 0 | Some cc \<Rightarrow> cc) \<and>
   unicode_get_cc c \<in> Some ` {cc. uint cc < 256}"
  using unicode_get_cc_eq [of c] cc_of_bound [of c] by (auto simp: cc_of_def)

text \<open>C21: \<open>sort_cc\<close> stays inside the array and puts it into canonical order: every maximal run of marks is sorted by
  combining class, marks of one class keep their order, and starters keep their places; nothing is lost, and
  no mark follows a mark of a larger class.\<close>

theorem sort_cc_canonical:
  "sort_cc buf = Some (canonical_order buf) \<and> mset (canonical_order buf) = mset buf \<and>
   successively (\<lambda>a b. cc_of b = 0 \<or> cc_of a \<le> cc_of b) (canonical_order buf)"
  using sort_cc_eq canonical_order_mset canonical_order_successively by blast

text \<open>Decomposition is total and bounded: for every code point \<open>unicode_decomp_char\<close> stays inside its three tables and
  fills at most the 18 places of the caller's array.\<close>

theorem unicode_decomp_char_bounded:
  "\<exists>res. unicode_decomp_char c is_compat = Some res \<and> length res \<le> UNICODE_DECOMP_LEN_MAX"
  using unicode_decomp_char_ok [of c is_compat] by blast

text \<open>C20: \<open>to_nfd_rec\<close> ends: no code point leads to a recursion deeper than three calls, so a larger bound on the depth
  changes nothing, and what it appends to the buffer is the complete decomposition of every code point in order.\<close>

theorem to_nfd_rec_terminates:
  "to_nfd_rec (3 + n) dbuf src is_compat = put_words dbuf (concat (map (full_decomp is_compat) src))"
proof (rule to_nfd_rec_eq, rule ballI)
  fix c assume "c \<in> set src"
  show "level (uint c) \<le> int (3 + n)" using level_range(2) [of "uint c"] by simp
qed

text \<open>C19: for the forms NFD and NFKD \<open>unicode_normalize\<close> returns the complete (canonical or compatibility)
  decomposition in canonical order, or -1; it returns -1 only when the allocator refuses a request.\<close>

theorem unicode_normalize_decomposes:
  assumes "n_type = UNICODE_NFD \<or> n_type = UNICODE_NFKD"
    and "length (concat (map (full_decomp (n_type = UNICODE_NFKD)) src)) < 2 ^ 31"
  shows "let r = canonical_order (concat (map (full_decomp (n_type = UNICODE_NFKD)) src)) in
    unicode_normalize 3 src n_type alloc = Some (int (length r), r) \<or>
    unicode_normalize 3 src n_type alloc = Some (-1, []) \<and> alloc \<noteq> (\<lambda>_. True)"
  unfolding Let_def using normalize_decomposed [OF assms(1) _ assms(2)] by simp

theorem unicode_normalize_decomposes_witness:
  "unicode_normalize 3 [0xac01, 0x41] UNICODE_NFD (\<lambda>_. True) = Some (4, [0x1100, 0x1161, 0x11a8, 0x41])"
proof -
  have f: "full_decomp False 0xac01 = [0x1100, 0x1161, 0x11a8]" by (subst full_decomp.simps) (simp add: hangul_parts_def)
  have g: "full_decomp False 0x41 = [0x41]" by (rule full_decomp_final) (simp_all add: level_def level_0_def)
  have "list_all (\<lambda>c. cc_of c = 0) [0x1100, 0x1161, 0x11a8, 0x41]"
    using cc_of_hangul_jamo [of "0x1100"] cc_of_hangul_jamo [of "0x1161"] cc_of_hangul_jamo [of "0x11a8"] cc_of_ascii [of "0x41"] by simp
  then show ?thesis
    using unicode_normalize_decomposes [of UNICODE_NFD "[0xac01, 0x41]" "\<lambda>_. True"]
    by (simp add: f g Let_def canonical_order_starters)
qed

text \<open>C23: Hangul syllables survive a round trip: NFD splits a syllable into its two or three parts, and NFC of the syllable,
  which decomposes it and composes the parts again, is the syllable.\<close>

theorem hangul_roundtrip:
  assumes "0xac00 \<le> c" and "c < 0xd7a4"
  shows "unicode_normalize 3 [c] UNICODE_NFD (\<lambda>_. True) = Some (int (length (hangul_parts c)), hangul_parts c) \<and>
    unicode_normalize 3 [c] UNICODE_NFC (\<lambda>_. True) = Some (1, [c])"
  using nfd_hangul [OF assms] nfc_hangul [OF assms] by blast

theorem hangul_roundtrip_witness:
  "unicode_normalize 3 [0xac01] UNICODE_NFC (\<lambda>_. True) = Some (1, [0xac01]) \<and>
   unicode_normalize 3 [0xac01] UNICODE_NFD (\<lambda>_. True) = Some (3, [0x1100, 0x1161, 0x11a8])"
  using hangul_roundtrip [of "0xac01"] by (simp add: hangul_parts_def)

lemma full_decomp_jamo: "0x1100 \<le> c \<Longrightarrow> c < 0x1200 \<Longrightarrow> full_decomp k c = [c]"
  by (rule full_decomp_final) (auto simp: level_def level_10_def word_le_def word_less_def)

text \<open>C24: NFC of a Hangul syllable without a trailing consonant followed by a conjoining trailing consonant is the one
  syllable that contains the consonant, for all 399 syllables and every consonant. U+11A7, which is not a trailing
  consonant but the code point before the first one, is treated in the same way, as an empty trailing consonant: the
  syllable followed by U+11A7 has the same NFC as the syllable alone.\<close>

theorem nfc_composes_trailing:
  assumes "0xac00 \<le> c" "c < 0xd7a4" "(c - 0xac00) mod 28 = 0" "0x11a7 \<le> t" "t < 0x11a7 + 28"
  shows "unicode_normalize 3 [c, t] UNICODE_NFC (\<lambda>_. True) = Some (1, [c + (t - 0x11a7)]) \<and>
    unicode_normalize 3 [c, 0x11a7] UNICODE_NFC (\<lambda>_. True) = unicode_normalize 3 [c] UNICODE_NFC (\<lambda>_. True)"
proof -
  let ?L = "0x1100 + (c - 0xac00) div 588" and ?V = "0x1161 + (c - 0xac00) mod 588 div 28"
  have parts: "hangul_parts c = [?L, ?V]" using assms(3) by (simp add: hangul_parts_def Let_def)
  have cc: "cc_of ?L = 0" "cc_of ?V = 0" "cc_of c = 0"
    using hangul_parts_starters [OF assms(1,2)] cc_of_hangul_syllable [OF assms(1,2)] by (simp_all add: parts)
  have lv: "compose_pair ?L ?V = Some c" using hangul_parts_compose [OF assms(1,2)] assms(3) by auto
  have main: "unicode_normalize 3 [c, t] UNICODE_NFC (\<lambda>_. True) = Some (1, [c + (t - 0x11a7)])"
    if t: "0x11a7 \<le> t" "t < 0x11a7 + 28" for t
  proof -
    have ut: "uint (t - 0x11a7) = uint t - 0x11a7" using t uint_sub_const [of "0x11a7" t] by (simp add: word_le_def)
    then have "uint (c + (t - 0x11a7)) = uint c + (uint t - 0x11a7)"
      using t assms(2) uint_add_lt [of c "t - 0x11a7"] by (simp add: word_less_def)
    then have nz: "c + (t - 0x11a7) \<noteq> 0" using t assms(1) by (auto simp: word_le_def)
    have f: "full_decomp False t = [t]" by (rule full_decomp_jamo) (use t in \<open>simp_all add: word_le_def word_less_def\<close>)
    have ct: "cc_of t = 0" by (rule cc_of_hangul_jamo) (use t in \<open>simp_all add: word_le_def word_less_def\<close>)
    have "c < 0xac00 + 11172" "\<not> c < 0x1100 + 19" using assms(1,2) by (simp_all add: word_le_def word_less_def)
    then have "compose_pair c t = Some (c + t - 0x11a7)" using assms(1,3) t by (simp add: compose_pair_def)
    then have pair: "compose_pair c t = Some (c + (t - 0x11a7))" by (simp add: algebra_simps)
    have c0: "c \<noteq> 0" using assms(1) by (auto simp: word_le_def)
    have loop: "compose_loop [?L, ?V, t] 1 1 3 = Some (1, [c + (t - 0x11a7), ?V, t])"
      using compose_first [OF cc(1,2) lv c0, of "[t]" 3] compose_second [OF cc(3) ct pair nz] by simp
    have dec: "concat (map (full_decomp False) [c, t]) = [?L, ?V, t]"
      using full_decomp_hangul [OF assms(1,2)] f by (simp add: parts)
    have "canonical_order [?L, ?V, t] = [?L, ?V, t]" by (rule canonical_order_starters) (simp add: cc ct)
    moreover have "\<not> list_all (\<lambda>c. c < 0x100) [c, t]" using assms(1) by (simp add: word_le_def word_less_def)
    ultimately show ?thesis
      using normalize_composed [of UNICODE_NFC "[c, t]"] loop [unfolded numeral_3_eq_3] by (simp add: dec del: list.map concat.simps)
  qed
  have "unicode_normalize 3 [c] UNICODE_NFC (\<lambda>_. True) = Some (1, [c])" by (rule nfc_hangul [OF assms(1,2)])
  then show ?thesis using main [OF assms(4,5)] main [of "0x11a7"] by simp
qed

theorem nfc_composes_trailing_witness:
  "unicode_normalize 3 [0xac00, 0x11a8] UNICODE_NFC (\<lambda>_. True) = Some (1, [0xac01]) \<and>
   unicode_normalize 3 [0xac00, 0x11a7] UNICODE_NFC (\<lambda>_. True) = unicode_normalize 3 [0xac00] UNICODE_NFC (\<lambda>_. True)"
  using nfc_composes_trailing [of "0xac00" "0x11a8"] by simp

end
