(* ===== verification/Regexp_Code.thy ===== *)
theory Regexp_Code
  imports Cutils
begin

text \<open>
  The byte code of the regular expression engine: the opcodes of \<^verbatim>\<open>src/qjs/libregexp-opcode.h\<close> in
  their order, the size of each instruction, and the header in front of the code.
\<close>

datatype REOPCodeEnum =
    REOP_invalid | REOP_char | REOP_char32 | REOP_dot | REOP_any | REOP_line_start | REOP_line_end
  | REOP_goto | REOP_split_goto_first | REOP_split_next_first | REOP_match | REOP_save_start
  | REOP_save_end | REOP_save_reset | REOP_loop | REOP_push_i32 | REOP_drop | REOP_word_boundary
  | REOP_not_word_boundary | REOP_back_reference | REOP_backward_back_reference | REOP_range
  | REOP_range32 | REOP_lookahead | REOP_negative_lookahead | REOP_push_char_pos
  | REOP_bne_char_pos | REOP_prev | REOP_simple_greedy_quant

definition reops :: "REOPCodeEnum list" where
  "reops =
    [REOP_invalid, REOP_char, REOP_char32, REOP_dot, REOP_any, REOP_line_start, REOP_line_end,
     REOP_goto, REOP_split_goto_first, REOP_split_next_first, REOP_match, REOP_save_start,
     REOP_save_end, REOP_save_reset, REOP_loop, REOP_push_i32, REOP_drop, REOP_word_boundary,
     REOP_not_word_boundary, REOP_back_reference, REOP_backward_back_reference, REOP_range,
     REOP_range32, REOP_lookahead, REOP_negative_lookahead, REOP_push_char_pos,
     REOP_bne_char_pos, REOP_prev, REOP_simple_greedy_quant]"

text \<open>The number of an opcode and the opcode of a byte; bytes from \<^verbatim>\<open>REOP_COUNT\<close> on are no opcodes.\<close>

fun reop_num :: "REOPCodeEnum \<Rightarrow> nat" where
  "reop_num REOP_invalid = 0"
| "reop_num REOP_char = 1"
| "reop_num REOP_char32 = 2"
| "reop_num REOP_dot = 3"
| "reop_num REOP_any = 4"
| "reop_num REOP_line_start = 5"
| "reop_num REOP_line_end = 6"
| "reop_num REOP_goto = 7"
| "reop_num REOP_split_goto_first = 8"
| "reop_num REOP_split_next_first = 9"
| "reop_num REOP_match = 10"
| "reop_num REOP_save_start = 11"
| "reop_num REOP_save_end = 12"
| "reop_num REOP_save_reset = 13"
| "reop_num REOP_loop = 14"
| "reop_num REOP_push_i32 = 15"
| "reop_num REOP_drop = 16"
| "reop_num REOP_word_boundary = 17"
| "reop_num REOP_not_word_boundary = 18"
| "reop_num REOP_back_reference = 19"
| "reop_num REOP_backward_back_reference = 20"
| "reop_num REOP_range = 21"
| "reop_num REOP_range32 = 22"
| "reop_num REOP_lookahead = 23"
| "reop_num REOP_negative_lookahead = 24"
| "reop_num REOP_push_char_pos = 25"
| "reop_num REOP_bne_char_pos = 26"
| "reop_num REOP_prev = 27"
| "reop_num REOP_simple_greedy_quant = 28"

definition opcode_of :: "u8 \<Rightarrow> REOPCodeEnum option" where
  "opcode_of b = (if unat b < length reops then Some (reops ! unat b) else None)"

definition reop_byte :: "REOPCodeEnum \<Rightarrow> u8" where
  "reop_byte op = of_nat (reop_num op)"

fun reop_size :: "REOPCodeEnum \<Rightarrow> nat" where
  "reop_size REOP_char = 3"
| "reop_size REOP_char32 = 5"
| "reop_size REOP_goto = 5"
| "reop_size REOP_split_goto_first = 5"
| "reop_size REOP_split_next_first = 5"
| "reop_size REOP_save_start = 2"
| "reop_size REOP_save_end = 2"
| "reop_size REOP_save_reset = 3"
| "reop_size REOP_loop = 5"
| "reop_size REOP_push_i32 = 5"
| "reop_size REOP_back_reference = 2"
| "reop_size REOP_backward_back_reference = 2"
| "reop_size REOP_range = 3"
| "reop_size REOP_range32 = 3"
| "reop_size REOP_lookahead = 5"
| "reop_size REOP_negative_lookahead = 5"
| "reop_size REOP_bne_char_pos = 5"
| "reop_size REOP_simple_greedy_quant = 17"
| "reop_size _ = 1"

definition CAPTURE_COUNT_MAX :: nat where "CAPTURE_COUNT_MAX = 255"
definition STACK_SIZE_MAX :: nat where "STACK_SIZE_MAX = 255"

definition RE_HEADER_FLAGS :: nat where "RE_HEADER_FLAGS = 0"
definition RE_HEADER_CAPTURE_COUNT :: nat where "RE_HEADER_CAPTURE_COUNT = 1"
definition RE_HEADER_STACK_SIZE :: nat where "RE_HEADER_STACK_SIZE = 2"
definition RE_HEADER_LEN :: nat where "RE_HEADER_LEN = 7"

definition LRE_FLAG_GLOBAL :: u32 where "LRE_FLAG_GLOBAL = 1"
definition LRE_FLAG_IGNORECASE :: u32 where "LRE_FLAG_IGNORECASE = 2"
definition LRE_FLAG_MULTILINE :: u32 where "LRE_FLAG_MULTILINE = 4"
definition LRE_FLAG_DOTALL :: u32 where "LRE_FLAG_DOTALL = 8"
definition LRE_FLAG_UTF16 :: u32 where "LRE_FLAG_UTF16 = 16"
definition LRE_FLAG_STICKY :: u32 where "LRE_FLAG_STICKY = 32"
definition LRE_FLAG_NAMED_GROUPS :: u32 where "LRE_FLAG_NAMED_GROUPS = 128"

definition lre_get_capture_count :: "u8 list \<Rightarrow> u32 option" where
  "lre_get_capture_count bc_buf = get_u8 bc_buf RE_HEADER_CAPTURE_COUNT"

definition lre_get_flags :: "u8 list \<Rightarrow> u32 option" where
  "lre_get_flags bc_buf = get_u8 bc_buf RE_HEADER_FLAGS"

text \<open>The offset of the group names behind the code, or \<open>None\<close> inside the option when the expression
  has none.\<close>

definition lre_get_groupnames :: "u8 list \<Rightarrow> nat option option" where
  "lre_get_groupnames bc_buf = do {
     flags \<leftarrow> lre_get_flags bc_buf;
     if flags AND LRE_FLAG_NAMED_GROUPS = 0 then Some None
     else do {
       re_bytecode_len \<leftarrow> get_u32 bc_buf 3;
       Some (Some (7 + unat re_bytecode_len)) } }"

lemmas re_header_defs = RE_HEADER_FLAGS_def RE_HEADER_CAPTURE_COUNT_def RE_HEADER_STACK_SIZE_def RE_HEADER_LEN_def

lemma reops_reop_num: "reops ! reop_num op = op"
  by (cases op) (simp_all add: reops_def)

lemma reop_num_less: "reop_num op < 29"
  by (cases op) simp_all

lemma unat_reop_byte: "unat (reop_byte op) = reop_num op"
  using reop_num_less [of op] by (simp add: reop_byte_def unat_of_nat)

lemma opcode_of_reop_byte [simp]: "opcode_of (reop_byte op) = Some op"
  using reop_num_less [of op] by (simp add: opcode_of_def unat_reop_byte reops_reop_num) (simp add: reops_def)

lemma reop_size_pos [simp]: "0 < reop_size op"
  by (cases op) simp_all

end
