(* ===== verification/Regexp_Exec.thy ===== *)
theory Regexp_Exec
  imports Regexp_Code Unicode_Case
begin

text \<open>
  The backtracking matcher of \<^verbatim>\<open>src/qjs/libregexp.c\<close>: reading characters of the subject in its three
  encodings, the interpreter loop \<open>lre_exec_backtrack\<close> with its stack of saved states, and \<open>lre_exec\<close>.
  Pointers into the byte code and into the subject are offsets; the subject and the byte code are
  blocks of bytes, and a read outside them, a failing assertion, an unknown opcode or a push onto a
  full stack is the value \<open>None\<close>. The interpreter loop may run forever on some code, so it takes fuel;
  running out of fuel is a result of its own.
\<close>

section \<open>Characters of the subject\<close>

definition is_line_terminator :: "u32 \<Rightarrow> bool" where
  "is_line_terminator c \<longleftrightarrow> c = 0x0a \<or> c = 0x0d \<or> c = 0x2028 \<or> c = 0x2029"

definition is_word_char :: "u32 \<Rightarrow> bool" where
  "is_word_char c \<longleftrightarrow> c \<ge> 0x30 \<and> c \<le> 0x39 \<or> c \<ge> 0x61 \<and> c \<le> 0x7a \<or> c \<ge> 0x41 \<and> c \<le> 0x5a \<or> c = 0x5f"

definition is_hi_surrogate :: "u32 \<Rightarrow> bool" where
  "is_hi_surrogate c \<longleftrightarrow> c \<ge> 0xd800 \<and> c < 0xdc00"

definition is_lo_surrogate :: "u32 \<Rightarrow> bool" where
  "is_lo_surrogate c \<longleftrightarrow> c \<ge> 0xdc00 \<and> c < 0xe000"

definition from_surrogates :: "u32 \<Rightarrow> u32 \<Rightarrow> u32" where
  "from_surrogates hi lo = (push_bit 10 (hi AND 0x3ff) OR (lo AND 0x3ff)) + 0x10000"

text \<open>The macros. \<open>ty\<close> is \<^verbatim>\<open>cbuf_type\<close>: 0 for 8-bit characters, 1 for 16-bit characters, 2 for UTF-16.
  A pointer that would move before the block is \<open>None\<close>.\<close>

definition GET_CHAR :: "nat \<Rightarrow> u8 list \<Rightarrow> nat \<Rightarrow> nat \<Rightarrow> (u32 \<times> nat) option" where
  "GET_CHAR ty buf cptr cbuf_end =
     (if ty = 0 then do { c \<leftarrow> get_u8 buf cptr; Some (c, cptr + 1) }
      else do {
        c \<leftarrow> get_u16 buf cptr;
        let cptr = cptr + 2;
        if is_hi_surrogate c \<and> ty = 2 \<and> cptr < cbuf_end then do {
          c1 \<leftarrow> get_u16 buf cptr;
          Some (if is_lo_surrogate c1 then (from_surrogates c c1, cptr + 2) else (c, cptr)) }
        else Some (c, cptr) })"

definition PEEK_CHAR :: "nat \<Rightarrow> u8 list \<Rightarrow> nat \<Rightarrow> nat \<Rightarrow> u32 option" where
  "PEEK_CHAR ty buf cptr cbuf_end =
     (if ty = 0 then get_u8 buf cptr
      else do {
        c \<leftarrow> get_u16 buf cptr;
        if is_hi_surrogate c \<and> ty = 2 \<and> cptr + 2 < cbuf_end then do {
          c1 \<leftarrow> get_u16 buf (cptr + 2);
          Some (if is_lo_surrogate c1 then from_surrogates c c1 else c) }
        else Some c })"

definition ptr_sub :: "nat \<Rightarrow> nat \<Rightarrow> nat option" where
  "ptr_sub cptr n = (if n \<le> cptr then Some (cptr - n) else None)"

definition PEEK_PREV_CHAR :: "nat \<Rightarrow> u8 list \<Rightarrow> nat \<Rightarrow> nat \<Rightarrow> u32 option" where
  "PEEK_PREV_CHAR ty buf cptr cbuf_start =
     (if ty = 0 then do { p \<leftarrow> ptr_sub cptr 1; get_u8 buf p }
      else do {
        p \<leftarrow> ptr_sub cptr 2;
        c \<leftarrow> get_u16 buf p;
        if is_lo_surrogate c \<and> ty = 2 \<and> int cptr - 4 \<ge> int cbuf_start then do {
          p \<leftarrow> ptr_sub cptr 4;
          c1 \<leftarrow> get_u16 buf p;
          Some (if is_hi_surrogate c1 then from_surrogates c1 c else c) }
        else Some c })"

definition GET_PREV_CHAR :: "nat \<Rightarrow> u8 list \<Rightarrow> nat \<Rightarrow> nat \<Rightarrow> (u32 \<times> nat) option" where
  "GET_PREV_CHAR ty buf cptr cbuf_start =
     (if ty = 0 then do { cptr \<leftarrow> ptr_sub cptr 1; c \<leftarrow> get_u8 buf cptr; Some (c, cptr) }
      else do {
        cptr \<leftarrow> ptr_sub cptr 2;
        c \<leftarrow> get_u16 buf cptr;
        if is_lo_surrogate c \<and> ty = 2 \<and> cptr > cbuf_start then do {
          p \<leftarrow> ptr_sub cptr 2;
          c1 \<leftarrow> get_u16 buf p;
          Some (if is_hi_surrogate c1 then (from_surrogates c1 c, p) else (c, cptr)) }
        else Some (c, cptr) })"

definition PREV_CHAR :: "nat \<Rightarrow> u8 list \<Rightarrow> nat \<Rightarrow> nat \<Rightarrow> nat option" where
  "PREV_CHAR ty buf cptr cbuf_start =
     (if ty = 0 then ptr_sub cptr 1
      else do {
        cptr \<leftarrow> ptr_sub cptr 2;
        if ty = 2 then do {
          c \<leftarrow> get_u16 buf cptr;
          if is_lo_surrogate c \<and> cptr > cbuf_start then do {
            p \<leftarrow> ptr_sub cptr 2;
            c \<leftarrow> get_u16 buf p;
            Some (if is_hi_surrogate c then p else cptr) }
          else Some cptr }
        else Some cptr })"

section \<open>States\<close>

datatype REExecStateEnum = RE_EXEC_STATE_SPLIT | RE_EXEC_STATE_LOOKAHEAD
  | RE_EXEC_STATE_NEGATIVE_LOOKAHEAD | RE_EXEC_STATE_GREEDY_QUANT

text \<open>A saved state. \<open>rs_capture\<close> and \<open>rs_stack\<close> are the two parts of \<^verbatim>\<open>buf\<close>; the length of
  \<open>rs_stack\<close> is \<^verbatim>\<open>stack_len\<close>.\<close>

record REExecState =
  rs_type :: REExecStateEnum
  rs_count :: nat
  rs_cptr :: nat
  rs_pc :: nat
  rs_capture :: "nat option list"
  rs_stack :: "u64 list"

text \<open>The part of \<^verbatim>\<open>REExecContext\<close> that does not change, with the byte code; and the part that does, with
  the local variables of the interpreter. \<open>stack\<close> is the array of \<open>stack_size_max\<close> elements, the
  saved states are listed with the top first, and \<open>lre_realloc_ok\<close> says whether \<^verbatim>\<open>lre_realloc\<close> grants
  a number of bytes. A null capture pointer is \<open>None\<close>.\<close>

record REExecContext =
  bc_buf :: "u8 list"
  cbuf :: "u8 list"
  cbuf_type :: nat
  capture_count :: nat
  stack_size_max :: nat
  multi_line :: bool
  ignore_case :: bool
  is_utf16 :: bool
  state_size :: nat
  lre_realloc_ok :: "nat \<Rightarrow> bool"

record re_state =
  pc :: nat
  cptr :: nat
  capture :: "nat option list"
  stack :: "u64 list"
  stack_len :: nat
  state_stack :: "REExecState list"
  state_stack_size :: nat

definition cbuf_end :: "REExecContext \<Rightarrow> nat" where
  "cbuf_end s = length (cbuf s)"

text \<open>The outcome of one instruction: go on, \<^verbatim>\<open>goto no_match\<close>, the \<^verbatim>\<open>match\<close> opcode, or an allocation
  failure, where the function returns -1.\<close>

datatype step_result = Next re_state | No_Match re_state | Match re_state | Fail re_state

definition push_state ::
  "REExecContext \<Rightarrow> re_state \<Rightarrow> nat \<Rightarrow> nat \<Rightarrow> REExecStateEnum \<Rightarrow> nat \<Rightarrow> (bool \<times> re_state) option" where
  "push_state s st pc1 cptr1 type count =
     (let grow = length (state_stack st) + 1 > state_stack_size st;
          new_size = (if state_stack_size st * 3 div 2 < 8 then 8 else state_stack_size st * 3 div 2)
      in if grow \<and> \<not> lre_realloc_ok s (new_size * state_size s) then Some (False, st)
         else do {
           cap \<leftarrow> rd_n (capture st) 0 (2 * capture_count s);
           stk \<leftarrow> rd_n (stack st) 0 (stack_len st);
           let rs = \<lparr>rs_type = type, rs_count = count, rs_cptr = cptr1, rs_pc = pc1, rs_capture = cap, rs_stack = stk\<rparr>;
           Some (True, st\<lparr>state_stack := rs # state_stack st,
                          state_stack_size := (if grow then new_size else state_stack_size st)\<rparr>) })"

text \<open>A relative jump.\<close>

definition jump :: "nat \<Rightarrow> u32 \<Rightarrow> nat option" where
  "jump p val = (let q = int p + sint val in if 0 \<le> q then Some (nat q) else None)"

section \<open>Instructions\<close>

text \<open>Each function executes one instruction; \<open>pc\<close> is behind the opcode byte.\<close>

definition canon :: "REExecContext \<Rightarrow> u32 \<Rightarrow> u32 option" where
  "canon s c = (if ignore_case s then lre_canonicalize c (is_utf16 s) else Some c)"

definition test_char :: "REExecContext \<Rightarrow> re_state \<Rightarrow> u32 \<Rightarrow> step_result option" where
  "test_char s st val =
     (if cptr st \<ge> cbuf_end s then Some (No_Match st)
      else do {
        (c, p) \<leftarrow> GET_CHAR (cbuf_type s) (cbuf s) (cptr st) (cbuf_end s);
        c \<leftarrow> canon s c;
        let st = st\<lparr>cptr := p\<rparr>;
        Some (if val \<noteq> c then No_Match st else Next st) })"

definition do_char32 :: "REExecContext \<Rightarrow> re_state \<Rightarrow> step_result option" where
  "do_char32 s st = do {
     val \<leftarrow> get_u32 (bc_buf s) (pc st);
     test_char s (st\<lparr>pc := pc st + 4\<rparr>) val }"

definition do_char :: "REExecContext \<Rightarrow> re_state \<Rightarrow> step_result option" where
  "do_char s st = do {
     val \<leftarrow> get_u16 (bc_buf s) (pc st);
     test_char s (st\<lparr>pc := pc st + 2\<rparr>) val }"

definition do_split :: "REExecContext \<Rightarrow> re_state \<Rightarrow> bool \<Rightarrow> step_result option" where
  "do_split s st next_first = do {
     val \<leftarrow> get_u32 (bc_buf s) (pc st);
     let st = st\<lparr>pc := pc st + 4\<rparr>;
     target \<leftarrow> jump (pc st) val;
     let (pc1, pc') = (if next_first then (target, pc st) else (pc st, target));
     (ok, st) \<leftarrow> push_state s (st\<lparr>pc := pc'\<rparr>) pc1 (cptr st) RE_EXEC_STATE_SPLIT 0;
     Some (if ok then Next st else Fail st) }"

definition do_lookahead :: "REExecContext \<Rightarrow> re_state \<Rightarrow> REExecStateEnum \<Rightarrow> step_result option" where
  "do_lookahead s st type = do {
     val \<leftarrow> get_u32 (bc_buf s) (pc st);
     let st = st\<lparr>pc := pc st + 4\<rparr>;
     target \<leftarrow> jump (pc st) val;
     (ok, st) \<leftarrow> push_state s st target (cptr st) type 0;
     Some (if ok then Next st else Fail st) }"

definition do_goto :: "REExecContext \<Rightarrow> re_state \<Rightarrow> step_result option" where
  "do_goto s st = do {
     val \<leftarrow> get_u32 (bc_buf s) (pc st);
     target \<leftarrow> jump (pc st + 4) val;
     Some (Next (st\<lparr>pc := target\<rparr>)) }"

definition do_line_start :: "REExecContext \<Rightarrow> re_state \<Rightarrow> step_result option" where
  "do_line_start s st =
     (if cptr st = 0 then Some (Next st)
      else if \<not> multi_line s then Some (No_Match st)
      else do {
        c \<leftarrow> PEEK_PREV_CHAR (cbuf_type s) (cbuf s) (cptr st) 0;
        Some (if is_line_terminator c then Next st else No_Match st) })"

definition do_line_end :: "REExecContext \<Rightarrow> re_state \<Rightarrow> step_result option" where
  "do_line_end s st =
     (if cptr st = cbuf_end s then Some (Next st)
      else if \<not> multi_line s then Some (No_Match st)
      else do {
        c \<leftarrow> PEEK_CHAR (cbuf_type s) (cbuf s) (cptr st) (cbuf_end s);
        Some (if is_line_terminator c then Next st else No_Match st) })"

definition do_dot :: "REExecContext \<Rightarrow> re_state \<Rightarrow> step_result option" where
  "do_dot s st =
     (if cptr st = cbuf_end s then Some (No_Match st)
      else do {
        (c, p) \<leftarrow> GET_CHAR (cbuf_type s) (cbuf s) (cptr st) (cbuf_end s);
        let st = st\<lparr>cptr := p\<rparr>;
        Some (if is_line_terminator c then No_Match st else Next st) })"

definition do_any :: "REExecContext \<Rightarrow> re_state \<Rightarrow> step_result option" where
  "do_any s st =
     (if cptr st = cbuf_end s then Some (No_Match st)
      else do {
        (c, p) \<leftarrow> GET_CHAR (cbuf_type s) (cbuf s) (cptr st) (cbuf_end s);
        Some (Next (st\<lparr>cptr := p\<rparr>)) })"

text \<open>\<open>which\<close> is 0 for \<^verbatim>\<open>save_start\<close> and 1 for \<^verbatim>\<open>save_end\<close>.\<close>

definition do_save :: "REExecContext \<Rightarrow> re_state \<Rightarrow> nat \<Rightarrow> step_result option" where
  "do_save s st which = do {
     val \<leftarrow> get_u8 (bc_buf s) (pc st);
     if unat val < capture_count s then do {
       cap \<leftarrow> wr (capture st) (2 * unat val + which) (Some (cptr st));
       Some (Next (st\<lparr>pc := pc st + 1, capture := cap\<rparr>)) }
     else None }"

fun reset_captures :: "nat option list \<Rightarrow> nat \<Rightarrow> nat \<Rightarrow> nat option list option" where
  "reset_captures cap val 0 = Some cap"
| "reset_captures cap val (Suc n) = do {
     cap \<leftarrow> wr cap (2 * val) None;
     cap \<leftarrow> wr cap (2 * val + 1) None;
     reset_captures cap (val + 1) n }"

definition do_save_reset :: "REExecContext \<Rightarrow> re_state \<Rightarrow> step_result option" where
  "do_save_reset s st = do {
     val \<leftarrow> get_u8 (bc_buf s) (pc st);
     val2 \<leftarrow> get_u8 (bc_buf s) (pc st + 1);
     if unat val2 < capture_count s then do {
       cap \<leftarrow> reset_captures (capture st) (unat val) (unat val2 + 1 - unat val);
       Some (Next (st\<lparr>pc := pc st + 2, capture := cap\<rparr>)) }
     else None }"

definition do_push :: "REExecContext \<Rightarrow> re_state \<Rightarrow> u64 \<Rightarrow> step_result option" where
  "do_push s st v = do {
     stk \<leftarrow> wr (stack st) (stack_len st) v;
     Some (Next (st\<lparr>stack := stk, stack_len := stack_len st + 1\<rparr>)) }"

definition do_push_i32 :: "REExecContext \<Rightarrow> re_state \<Rightarrow> step_result option" where
  "do_push_i32 s st = do {
     val \<leftarrow> get_u32 (bc_buf s) (pc st);
     do_push s (st\<lparr>pc := pc st + 4\<rparr>) (ucast val) }"

definition do_drop :: "REExecContext \<Rightarrow> re_state \<Rightarrow> step_result option" where
  "do_drop s st = do { n \<leftarrow> ptr_sub (stack_len st) 1; Some (Next (st\<lparr>stack_len := n\<rparr>)) }"

definition do_loop :: "REExecContext \<Rightarrow> re_state \<Rightarrow> step_result option" where
  "do_loop s st = do {
     val \<leftarrow> get_u32 (bc_buf s) (pc st);
     top \<leftarrow> ptr_sub (stack_len st) 1;
     v \<leftarrow> rd (stack st) top;
     stk \<leftarrow> wr (stack st) top (v - 1);
     let st = st\<lparr>pc := pc st + 4, stack := stk\<rparr>;
     if v - 1 \<noteq> 0 then do { target \<leftarrow> jump (pc st) val; Some (Next (st\<lparr>pc := target\<rparr>)) }
     else Some (Next st) }"

definition do_bne_char_pos :: "REExecContext \<Rightarrow> re_state \<Rightarrow> step_result option" where
  "do_bne_char_pos s st = do {
     val \<leftarrow> get_u32 (bc_buf s) (pc st);
     top \<leftarrow> ptr_sub (stack_len st) 1;
     v \<leftarrow> rd (stack st) top;
     let st = st\<lparr>pc := pc st + 4, stack_len := top\<rparr>;
     if v \<noteq> of_nat (cptr st) then do { target \<leftarrow> jump (pc st) val; Some (Next (st\<lparr>pc := target\<rparr>)) }
     else Some (Next st) }"

definition do_word_boundary :: "REExecContext \<Rightarrow> re_state \<Rightarrow> bool \<Rightarrow> step_result option" where
  "do_word_boundary s st negated = do {
     v1 \<leftarrow> (if cptr st = 0 then Some False
            else do { c \<leftarrow> PEEK_PREV_CHAR (cbuf_type s) (cbuf s) (cptr st) 0; Some (is_word_char c) });
     v2 \<leftarrow> (if cptr st \<ge> cbuf_end s then Some False
            else do { c \<leftarrow> PEEK_CHAR (cbuf_type s) (cbuf s) (cptr st) (cbuf_end s); Some (is_word_char c) });
     Some (if (v1 \<noteq> v2) \<noteq> (\<not> negated) then No_Match st else Next st) }"

text \<open>The loops of the two back references over the captured text, each round consuming at least one
  byte of it.\<close>

lemma GET_CHAR_progress: "GET_CHAR ty buf p e = Some (c, p') \<Longrightarrow> p < p'"
  by (auto simp: GET_CHAR_def Let_def split: if_splits bind_splits)

lemma GET_PREV_CHAR_progress: "GET_PREV_CHAR ty buf p b = Some (c, p') \<Longrightarrow> p' < p"
  by (auto simp: GET_PREV_CHAR_def ptr_sub_def split: if_splits bind_splits)

function back_ref_loop :: "REExecContext \<Rightarrow> re_state \<Rightarrow> nat \<Rightarrow> nat \<Rightarrow> step_result option" where
  "back_ref_loop s st cptr1 cptr1_end =
     (if cptr1 < cptr1_end then
        if cptr st \<ge> cbuf_end s then Some (No_Match st)
        else do {
          (c1, cptr1') \<leftarrow> GET_CHAR (cbuf_type s) (cbuf s) cptr1 cptr1_end;
          (c2, p) \<leftarrow> GET_CHAR (cbuf_type s) (cbuf s) (cptr st) (cbuf_end s);
          c1 \<leftarrow> canon s c1;
          c2 \<leftarrow> canon s c2;
          let st = st\<lparr>cptr := p\<rparr>;
          if c1 \<noteq> c2 then Some (No_Match st) else back_ref_loop s st cptr1' cptr1_end }
      else Some (Next st))"
  by pat_completeness auto
termination
  by (relation "measure (\<lambda>(s, st, p, e). e - p)") (auto dest!: GET_CHAR_progress)

declare back_ref_loop.simps [simp del]

function backward_back_ref_loop :: "REExecContext \<Rightarrow> re_state \<Rightarrow> nat \<Rightarrow> nat \<Rightarrow> step_result option" where
  "backward_back_ref_loop s st cptr1 cptr1_start =
     (if cptr1 > cptr1_start then
        if cptr st = 0 then Some (No_Match st)
        else do {
          (c1, cptr1') \<leftarrow> GET_PREV_CHAR (cbuf_type s) (cbuf s) cptr1 cptr1_start;
          (c2, p) \<leftarrow> GET_PREV_CHAR (cbuf_type s) (cbuf s) (cptr st) 0;
          c1 \<leftarrow> canon s c1;
          c2 \<leftarrow> canon s c2;
          let st = st\<lparr>cptr := p\<rparr>;
          if c1 \<noteq> c2 then Some (No_Match st) else backward_back_ref_loop s st cptr1' cptr1_start }
      else Some (Next st))"
  by pat_completeness auto
termination
  by (relation "measure (\<lambda>(s, st, p, e). p)") (auto dest!: GET_PREV_CHAR_progress)

declare backward_back_ref_loop.simps [simp del]

definition do_back_reference :: "REExecContext \<Rightarrow> re_state \<Rightarrow> bool \<Rightarrow> step_result option" where
  "do_back_reference s st backward = do {
     val \<leftarrow> get_u8 (bc_buf s) (pc st);
     let st = st\<lparr>pc := pc st + 1\<rparr>;
     if unat val \<ge> capture_count s then Some (No_Match st)
     else do {
       cptr1_start \<leftarrow> rd (capture st) (2 * unat val);
       cptr1_end \<leftarrow> rd (capture st) (2 * unat val + 1);
       case (cptr1_start, cptr1_end) of
         (Some b, Some e) \<Rightarrow> if backward then backward_back_ref_loop s st e b else back_ref_loop s st b e
       | _ \<Rightarrow> Some (Next st) } }"

text \<open>Binary search in the intervals of a class; \<open>w\<close> is the width of a bound in bytes.\<close>

definition get_bound :: "nat \<Rightarrow> u8 list \<Rightarrow> nat \<Rightarrow> u32 option" where
  "get_bound w buf p = (if w = 2 then get_u16 buf p else get_u32 buf p)"

function range_search :: "nat \<Rightarrow> u8 list \<Rightarrow> nat \<Rightarrow> u32 \<Rightarrow> int \<Rightarrow> int \<Rightarrow> bool option" where
  "range_search w buf p c idx_min idx_max =
     (if idx_min \<le> idx_max then
        let idx = (idx_min + idx_max) div 2 in do {
          low \<leftarrow> get_bound w buf (p + nat idx * (2 * w));
          high \<leftarrow> get_bound w buf (p + nat idx * (2 * w) + w);
          if c < low then if idx = 0 then None else range_search w buf p c idx_min (idx - 1)
          else if c > high then range_search w buf p c (idx + 1) idx_max
          else Some True }
      else Some False)"
  by pat_completeness auto
termination
  by (relation "measure (\<lambda>(w, buf, p, c, lo, hi). nat (hi + 1 - lo))") auto

declare range_search.simps [simp del]

definition range_test :: "nat \<Rightarrow> u8 list \<Rightarrow> nat \<Rightarrow> nat \<Rightarrow> u32 \<Rightarrow> bool option" where
  "range_test w buf p n c = do {
     low \<leftarrow> get_bound w buf p;
     if c < low then Some False
     else if n = 0 then None
     else do {
       high \<leftarrow> get_bound w buf (p + (n - 1) * (2 * w) + w);
       if w = 2 \<and> c \<ge> 0xffff \<and> high = 0xffff then Some True
       else if c > high then Some False
       else range_search w buf p c 0 (int n - 1) } }"

definition do_range :: "REExecContext \<Rightarrow> re_state \<Rightarrow> nat \<Rightarrow> step_result option" where
  "do_range s st w = do {
     n \<leftarrow> get_u16 (bc_buf s) (pc st);
     let st = st\<lparr>pc := pc st + 2\<rparr>;
     if cptr st \<ge> cbuf_end s then Some (No_Match st)
     else do {
       (c, p) \<leftarrow> GET_CHAR (cbuf_type s) (cbuf s) (cptr st) (cbuf_end s);
       c \<leftarrow> canon s c;
       let st = st\<lparr>cptr := p\<rparr>;
       hit \<leftarrow> range_test w (bc_buf s) (pc st) (unat n) c;
       Some (if hit then Next (st\<lparr>pc := pc st + 2 * w * unat n\<rparr>) else No_Match st) } }"

definition do_prev :: "REExecContext \<Rightarrow> re_state \<Rightarrow> step_result option" where
  "do_prev s st =
     (if cptr st = 0 then Some (No_Match st)
      else do {
        p \<leftarrow> PREV_CHAR (cbuf_type s) (cbuf s) (cptr st) 0;
        Some (Next (st\<lparr>cptr := p\<rparr>)) })"

text \<open>All opcodes but the greedy quantifier, which calls the interpreter again.\<close>

definition reop_step :: "REExecContext \<Rightarrow> REOPCodeEnum \<Rightarrow> re_state \<Rightarrow> step_result option" where
  "reop_step s opcode st =
     (case opcode of
        REOP_match \<Rightarrow> Some (Match st)
      | REOP_char32 \<Rightarrow> do_char32 s st
      | REOP_char \<Rightarrow> do_char s st
      | REOP_split_goto_first \<Rightarrow> do_split s st False
      | REOP_split_next_first \<Rightarrow> do_split s st True
      | REOP_lookahead \<Rightarrow> do_lookahead s st RE_EXEC_STATE_LOOKAHEAD
      | REOP_negative_lookahead \<Rightarrow> do_lookahead s st RE_EXEC_STATE_NEGATIVE_LOOKAHEAD
      | REOP_goto \<Rightarrow> do_goto s st
      | REOP_line_start \<Rightarrow> do_line_start s st
      | REOP_line_end \<Rightarrow> do_line_end s st
      | REOP_dot \<Rightarrow> do_dot s st
      | REOP_any \<Rightarrow> do_any s st
      | REOP_save_start \<Rightarrow> do_save s st 0
      | REOP_save_end \<Rightarrow> do_save s st 1
      | REOP_save_reset \<Rightarrow> do_save_reset s st
      | REOP_push_i32 \<Rightarrow> do_push_i32 s st
      | REOP_drop \<Rightarrow> do_drop s st
      | REOP_loop \<Rightarrow> do_loop s st
      | REOP_push_char_pos \<Rightarrow> do_push s st (of_nat (cptr st))
      | REOP_bne_char_pos \<Rightarrow> do_bne_char_pos s st
      | REOP_word_boundary \<Rightarrow> do_word_boundary s st False
      | REOP_not_word_boundary \<Rightarrow> do_word_boundary s st True
      | REOP_back_reference \<Rightarrow> do_back_reference s st False
      | REOP_backward_back_reference \<Rightarrow> do_back_reference s st True
      | REOP_range \<Rightarrow> do_range s st 2
      | REOP_range32 \<Rightarrow> do_range s st 4
      | REOP_prev \<Rightarrow> do_prev s st
      | _ \<Rightarrow> None)"

section \<open>The interpreter\<close>

text \<open>Going back \<open>n\<close> characters.\<close>

fun prev_chars :: "REExecContext \<Rightarrow> nat \<Rightarrow> nat \<Rightarrow> nat option" where
  "prev_chars s 0 p = Some p"
| "prev_chars s (Suc n) p = do { p \<leftarrow> PREV_CHAR (cbuf_type s) (cbuf s) p 0; prev_chars s n p }"

text \<open>Restoring the stack of a saved state into the array.\<close>

definition restore_stack :: "re_state \<Rightarrow> REExecState \<Rightarrow> re_state option" where
  "restore_stack st rs = do {
     stk \<leftarrow> memcpy (stack st) 0 (rs_stack rs);
     Some (st\<lparr>stack := stk, stack_len := length (rs_stack rs)\<rparr>) }"

definition restore_capture :: "re_state \<Rightarrow> REExecState \<Rightarrow> re_state option" where
  "restore_capture st rs = do {
     cap \<leftarrow> memcpy (capture st) 0 (rs_capture rs);
     Some (st\<lparr>capture := cap\<rparr>) }"

definition pop_state1 :: "re_state \<Rightarrow> REExecState \<Rightarrow> REExecState list \<Rightarrow> re_state option" where
  "pop_state1 st rs rest = do {
     st \<leftarrow> restore_stack (st\<lparr>pc := rs_pc rs, cptr := rs_cptr rs\<rparr>) rs;
     Some (st\<lparr>state_stack := rest\<rparr>) }"

definition pop_state :: "re_state \<Rightarrow> REExecState \<Rightarrow> REExecState list \<Rightarrow> re_state option" where
  "pop_state st rs rest = do { st \<leftarrow> restore_capture st rs; pop_state1 st rs rest }"

text \<open>A saved greedy quantifier gives one more way to go on, one repetition shorter.\<close>

definition greedy_retry :: "REExecContext \<Rightarrow> re_state \<Rightarrow> REExecState \<Rightarrow> REExecState list \<Rightarrow> re_state option" where
  "greedy_retry s st rs rest = do {
     st \<leftarrow> restore_capture st rs;
     st \<leftarrow> restore_stack st rs;
     char_count \<leftarrow> get_u32 (bc_buf s) (rs_pc rs + 12);
     p \<leftarrow> prev_chars s (unat char_count) (rs_cptr rs);
     off \<leftarrow> get_u32 (bc_buf s) (rs_pc rs);
     target \<leftarrow> jump (rs_pc rs + 16) off;
     let rs = rs\<lparr>rs_cptr := p, rs_count := rs_count rs - 1\<rparr>;
     Some (st\<lparr>pc := target, cptr := p, state_stack := (if rs_count rs = 0 then rest else rs # rest)\<rparr>) }"

text \<open>The loop at label \<^verbatim>\<open>recurse\<close>: unwind the saved states until one of them gives a place to go on
  (\<open>Inr\<close>), or return (\<open>Inl\<close>).\<close>

fun unwind :: "REExecContext \<Rightarrow> bool \<Rightarrow> re_state \<Rightarrow> REExecState list \<Rightarrow> ((bool \<times> re_state) + re_state) option" where
  "unwind s ret st [] = Some (Inl (ret, st\<lparr>state_stack := []\<rparr>))"
| "unwind s ret st (rs # rest) =
     (case rs_type rs of
        RE_EXEC_STATE_SPLIT \<Rightarrow>
          if \<not> ret then map_option Inr (pop_state st rs rest) else unwind s ret st rest
      | RE_EXEC_STATE_GREEDY_QUANT \<Rightarrow>
          if \<not> ret then map_option Inr (greedy_retry s st rs rest) else unwind s ret st rest
      | RE_EXEC_STATE_LOOKAHEAD \<Rightarrow>
          if ret then map_option Inr (pop_state1 st rs rest) else unwind s False st rest
      | RE_EXEC_STATE_NEGATIVE_LOOKAHEAD \<Rightarrow>
          if \<not> ret then map_option Inr (pop_state st rs rest) else unwind s False st rest)"

text \<open>What the interpreter returns: 1, 0 or -1, or the position of the match for a call with
  \<^verbatim>\<open>no_recurse\<close>.\<close>

datatype exec_result = Ret int | Ret_Pos nat

text \<open>The run of the interpreter: it may run out of fuel, do something undefined, or return.\<close>

datatype run = Timeout | Undefined | Done exec_result re_state

definition greedy_params :: "REExecContext \<Rightarrow> re_state \<Rightarrow> (nat \<times> nat \<times> u32 \<times> u32) option" where
  "greedy_params s st = do {
     next_pos \<leftarrow> get_u32 (bc_buf s) (pc st);
     quant_min \<leftarrow> get_u32 (bc_buf s) (pc st + 4);
     quant_max \<leftarrow> get_u32 (bc_buf s) (pc st + 8);
     let pc1 = pc st + 16;
     target \<leftarrow> jump pc1 next_pos;
     Some (pc1, target, quant_min, quant_max) }"

text \<open>After \<open>q\<close> repetitions the quantifier fails, or goes on and remembers the shorter choices.\<close>

definition greedy_done ::
  "REExecContext \<Rightarrow> re_state \<Rightarrow> nat \<Rightarrow> nat \<Rightarrow> u32 \<Rightarrow> step_result option" where
  "greedy_done s st pc1 q quant_min =
     (if int q < uint quant_min then Some (No_Match st)
      else if int q > uint quant_min then do {
        p \<leftarrow> ptr_sub pc1 16;
        (ok, st) \<leftarrow> push_state s st p (cptr st) RE_EXEC_STATE_GREEDY_QUANT (q - unat quant_min);
        Some (if ok then Next st else Fail st) }
      else Some (Next st))"

text \<open>What the interpreter does after an instruction: return (\<open>Inl\<close>) or go on (\<open>Inr\<close>).\<close>

definition after_unwind :: "((bool \<times> re_state) + re_state) option \<Rightarrow> run + re_state" where
  "after_unwind u =
     (case u of
        None \<Rightarrow> Inl Undefined
      | Some (Inl (ret, st)) \<Rightarrow> Inl (Done (Ret (of_bool ret)) st)
      | Some (Inr st) \<Rightarrow> Inr st)"

definition after_step :: "REExecContext \<Rightarrow> bool \<Rightarrow> step_result option \<Rightarrow> run + re_state" where
  "after_step s no_recurse r =
     (case r of
        None \<Rightarrow> Inl Undefined
      | Some (Next st) \<Rightarrow> Inr st
      | Some (Fail st) \<Rightarrow> Inl (Done (Ret (-1)) st)
      | Some (Match st) \<Rightarrow>
          if no_recurse then Inl (Done (Ret_Pos (cptr st)) st)
          else after_unwind (unwind s True st (state_stack st))
      | Some (No_Match st) \<Rightarrow>
          if no_recurse then Inl (Done (Ret 0) st)
          else after_unwind (unwind s False st (state_stack st)))"

definition fetch :: "REExecContext \<Rightarrow> re_state \<Rightarrow> REOPCodeEnum option" where
  "fetch s st = do { b \<leftarrow> rd (bc_buf s) (pc st); opcode_of b }"

fun lre_exec_backtrack :: "nat \<Rightarrow> REExecContext \<Rightarrow> bool \<Rightarrow> re_state \<Rightarrow> run"
and greedy_loop :: "nat \<Rightarrow> REExecContext \<Rightarrow> re_state \<Rightarrow> nat \<Rightarrow> nat \<Rightarrow> u32 \<Rightarrow> (nat \<times> re_state) + run"
where
  "lre_exec_backtrack 0 s no_recurse st = Timeout"
| "lre_exec_backtrack (Suc fuel) s no_recurse st =
     (case fetch s st of
        None \<Rightarrow> Undefined
      | Some opcode \<Rightarrow>
          if opcode = REOP_simple_greedy_quant then
            (case greedy_params s (st\<lparr>pc := pc st + 1\<rparr>) of
               None \<Rightarrow> Undefined
             | Some (pc1, target, quant_min, quant_max) \<Rightarrow>
                 (case greedy_loop fuel s st pc1 0 quant_max of
                    Inr r \<Rightarrow> r
                  | Inl (q, st') \<Rightarrow>
                      (case after_step s no_recurse (greedy_done s (st'\<lparr>pc := target\<rparr>) pc1 q quant_min) of
                         Inl r \<Rightarrow> r
                       | Inr st \<Rightarrow> lre_exec_backtrack fuel s no_recurse st)))
          else
            (case after_step s no_recurse (reop_step s opcode (st\<lparr>pc := pc st + 1\<rparr>)) of
               Inl r \<Rightarrow> r
             | Inr st \<Rightarrow> lre_exec_backtrack fuel s no_recurse st))"
| "greedy_loop 0 s st pc1 q quant_max = Inr Timeout"
| "greedy_loop (Suc fuel) s st pc1 q quant_max =
     (case lre_exec_backtrack fuel s True (st\<lparr>pc := pc1\<rparr>) of
        Done (Ret_Pos p) st' \<Rightarrow>
          (let st' = st'\<lparr>cptr := p, stack_len := stack_len st\<rparr> in
           if int q + 1 \<ge> uint quant_max \<and> quant_max \<noteq> 0x7fffffff then Inl (q + 1, st')
           else greedy_loop fuel s st' pc1 (q + 1) quant_max)
      | Done (Ret r) st' \<Rightarrow>
          if r = 0 then Inl (q, st'\<lparr>cptr := cptr st, stack_len := stack_len st\<rparr>)
          else Inr (Done (Ret r) st')
      | r \<Rightarrow> Inr r)"

text \<open>\<open>lre_exec\<close>: the context from the header of the byte code, empty captures, and the call of the
  interpreter behind the header. \<open>sizeof(REExecState)\<close> is 32 bytes and a pointer 8 bytes.\<close>

definition exec_context :: "(nat \<Rightarrow> bool) \<Rightarrow> u8 list \<Rightarrow> u8 list \<Rightarrow> nat \<Rightarrow> REExecContext option" where
  "exec_context alloc bc text ty = do {
     re_flags \<leftarrow> get_u8 bc RE_HEADER_FLAGS;
     caps \<leftarrow> get_u8 bc RE_HEADER_CAPTURE_COUNT;
     stk \<leftarrow> get_u8 bc RE_HEADER_STACK_SIZE;
     let u16 = (re_flags AND LRE_FLAG_UTF16 \<noteq> 0);
     Some \<lparr>bc_buf = bc, cbuf = text, cbuf_type = (if ty = 1 \<and> u16 then 2 else ty),
       capture_count = unat caps, stack_size_max = unat stk,
       multi_line = (re_flags AND LRE_FLAG_MULTILINE \<noteq> 0),
       ignore_case = (re_flags AND LRE_FLAG_IGNORECASE \<noteq> 0), is_utf16 = u16,
       state_size = 32 + unat caps * 8 * 2 + unat stk * 8, lre_realloc_ok = alloc\<rparr> }"

definition init_state :: "REExecContext \<Rightarrow> nat \<Rightarrow> re_state" where
  "init_state s p =
     \<lparr>pc = RE_HEADER_LEN, cptr = p, capture = replicate (2 * capture_count s) None,
      stack = replicate (stack_size_max s) 0, stack_len = 0, state_stack = [], state_stack_size = 0\<rparr>"

definition lre_exec :: "nat \<Rightarrow> (nat \<Rightarrow> bool) \<Rightarrow> u8 list \<Rightarrow> u8 list \<Rightarrow> nat \<Rightarrow> nat \<Rightarrow> run" where
  "lre_exec fuel alloc bc text cindex ty =
     (case exec_context alloc bc text ty of
        None \<Rightarrow> Undefined
      | Some s \<Rightarrow> lre_exec_backtrack fuel s False (init_state s (cindex * 2 ^ ty)))"

end
