(* ===== verification/Regexp_Safe.thy ===== *)
theory Regexp_Safe
  imports Regexp_Exec
begin

text \<open>
  Memory safety of the matcher. A byte code verifier assigns to instruction offsets the depth of the
  matcher's stack; code that it accepts never makes \<open>lre_exec\<close> read outside the code or the subject,
  overflow or underflow the stack, or fail an assertion, whatever the subject, its encoding and the
  allocator. The subject side rests on how forward and backward steps over characters fit together in
  UTF-16 text.
\<close>

section \<open>Positions in the subject\<close>

lemma get_u8_fits: "p < length m \<Longrightarrow> \<exists>c. get_u8 m p = Some c"
  by (simp add: get_u8_def rd_def)

lemma get_u16_fits: "p + 2 \<le> length m \<Longrightarrow> \<exists>c. get_u16 m p = Some c"
  by (simp add: get_u16_def rd_n_def)

lemma get_u32_fits: "p + 4 \<le> length m \<Longrightarrow> \<exists>c. get_u32 m p = Some c"
  by (simp add: get_u32_def rd_n_def)

lemma get_u8_before: "0 < p \<Longrightarrow> p \<le> length m \<Longrightarrow> \<exists>c. get_u8 m (p - 1) = Some c"
  by (rule get_u8_fits) simp

lemma get_u16_before: "2 \<le> p \<Longrightarrow> p \<le> length m \<Longrightarrow> \<exists>c. get_u16 m (p - 2) = Some c"
  by (rule get_u16_fits) simp

definition text_ok :: "REExecContext \<Rightarrow> bool" where
  "text_ok s \<longleftrightarrow> (cbuf_type s = 0 \<or> even (length (cbuf s)))"

definition pos_ok :: "REExecContext \<Rightarrow> nat \<Rightarrow> bool" where
  "pos_ok s p \<longleftrightarrow> p \<le> cbuf_end s \<and> (cbuf_type s = 0 \<or> even p)"

definition getc :: "REExecContext \<Rightarrow> nat \<Rightarrow> (u32 \<times> nat) option" where
  "getc s p = GET_CHAR (cbuf_type s) (cbuf s) p (cbuf_end s)"

definition prevc :: "REExecContext \<Rightarrow> nat \<Rightarrow> nat option" where
  "prevc s p = PREV_CHAR (cbuf_type s) (cbuf s) p 0"

text \<open>Bounds of even positions: a position before an even end leaves room for a unit.\<close>

lemma even_room: "even (p :: nat) \<Longrightarrow> even e \<Longrightarrow> p < e \<Longrightarrow> p + 2 \<le> e"
  by presburger

lemma GET_CHAR_ok:
  assumes "text_ok s" "pos_ok s p" "p < e" "pos_ok s e"
  shows "\<exists>c p'. GET_CHAR (cbuf_type s) (cbuf s) p e = Some (c, p') \<and> pos_ok s p' \<and> p < p' \<and> p' \<le> e"
proof (cases "cbuf_type s = 0")
  case True
  then show ?thesis using assms get_u8_fits [of p "cbuf s"]
    by (auto simp: GET_CHAR_def pos_ok_def cbuf_end_def)
next
  case False
  then have ev: "even p" "even e" "even (length (cbuf s))" "e \<le> length (cbuf s)"
    using assms by (auto simp: pos_ok_def text_ok_def cbuf_end_def)
  have room: "p + 2 \<le> e" using even_room ev assms(3) by blast
  obtain c where c: "get_u16 (cbuf s) p = Some c" using get_u16_fits room ev(4) by (meson le_trans)
  show ?thesis
  proof (cases "is_hi_surrogate c \<and> cbuf_type s = 2 \<and> p + 2 < e")
    case True
    then have "p + 2 + 2 \<le> e" using even_room [of "p + 2" e] ev by simp
    moreover obtain c1 where "get_u16 (cbuf s) (p + 2) = Some c1"
      using get_u16_fits [of "p + 2" "cbuf s"] calculation ev(4) by auto
    ultimately show ?thesis using True False c ev
      by (auto simp: GET_CHAR_def Let_def pos_ok_def cbuf_end_def)
  next
    case no: False
    then show ?thesis using False c ev room
      by (auto simp: GET_CHAR_def Let_def pos_ok_def cbuf_end_def)
  qed
qed

lemma PEEK_CHAR_ok:
  assumes "text_ok s" "pos_ok s p" "p < cbuf_end s"
  shows "\<exists>c. PEEK_CHAR (cbuf_type s) (cbuf s) p (cbuf_end s) = Some c"
proof (cases "cbuf_type s = 0")
  case True
  then show ?thesis using assms get_u8_fits [of p "cbuf s"] by (auto simp: PEEK_CHAR_def cbuf_end_def)
next
  case False
  then have ev: "even p" "even (length (cbuf s))" using assms by (auto simp: pos_ok_def text_ok_def)
  have "p + 2 \<le> length (cbuf s)" using even_room ev assms(3) unfolding cbuf_end_def by blast
  then obtain c where c: "get_u16 (cbuf s) p = Some c" using get_u16_fits by blast
  have "\<exists>c1. get_u16 (cbuf s) (p + 2) = Some c1" if "p + 2 < cbuf_end s"
    using get_u16_fits even_room [of "p + 2" "length (cbuf s)"] ev that unfolding cbuf_end_def by simp
  with c False show ?thesis by (auto simp: PEEK_CHAR_def)
qed

lemma ptr_sub_le: "n \<le> p \<Longrightarrow> ptr_sub p n = Some (p - n)"
  by (simp add: ptr_sub_def)

lemma even_room_back: "even (p :: nat) \<Longrightarrow> even b \<Longrightarrow> b < p \<Longrightarrow> b + 2 \<le> p"
  by presburger

lemma GET_PREV_CHAR_ok:
  assumes "text_ok s" "pos_ok s p" "b < p" "pos_ok s b"
  shows "\<exists>c p'. GET_PREV_CHAR (cbuf_type s) (cbuf s) p b = Some (c, p') \<and> pos_ok s p' \<and> b \<le> p' \<and> p' < p"
proof (cases "cbuf_type s = 0")
  case True
  obtain c where "get_u8 (cbuf s) (p - 1) = Some c"
    using get_u8_before [of p "cbuf s"] assms by (auto simp: pos_ok_def cbuf_end_def)
  with True show ?thesis using assms by (auto simp: GET_PREV_CHAR_def ptr_sub_def pos_ok_def cbuf_end_def)
next
  case False
  then have ev: "even p" "even b" "p \<le> length (cbuf s)"
    using assms by (auto simp: pos_ok_def cbuf_end_def)
  have room: "b + 2 \<le> p" using even_room_back ev assms(3) by blast
  have fits: "p - 2 + 2 \<le> length (cbuf s)" using room ev(3) by simp
  obtain c where c: "get_u16 (cbuf s) (p - 2) = Some c" using get_u16_fits [OF fits] by blast
  have ok: "pos_ok s (p - 2)" using assms(2) ev(1) by (auto simp: pos_ok_def)
  show ?thesis
  proof (cases "is_lo_surrogate c \<and> cbuf_type s = 2 \<and> p - 2 > b")
    case True
    then have r4: "b + 4 \<le> p" using even_room_back [of "p - 2" b] ev room by simp
    have f4: "p - 4 + 2 \<le> length (cbuf s)" using r4 ev(3) by simp
    obtain c1 where c1: "get_u16 (cbuf s) (p - 4) = Some c1" using get_u16_fits [OF f4] by blast
    have "pos_ok s (p - 4)" using assms(2) ev(1) by (auto simp: pos_ok_def)
    moreover have "ptr_sub (p - 2) 2 = Some (p - 4)" using r4 by (simp add: ptr_sub_def)
    ultimately show ?thesis using True False c c1 room r4 ok
      by (auto simp: GET_PREV_CHAR_def ptr_sub_le)
  next
    case no: False
    then show ?thesis using False c room ok by (auto simp: GET_PREV_CHAR_def ptr_sub_le)
  qed
qed

lemma PREV_CHAR_eq_GET_PREV:
  assumes "text_ok s" "pos_ok s p" "0 < p"
  shows "\<exists>c p'. GET_PREV_CHAR (cbuf_type s) (cbuf s) p 0 = Some (c, p') \<and> prevc s p = Some p'"
proof (cases "cbuf_type s = 0")
  case True
  obtain c where "get_u8 (cbuf s) (p - 1) = Some c"
    using get_u8_before [of p "cbuf s"] assms by (auto simp: pos_ok_def cbuf_end_def)
  with True show ?thesis using assms
    by (auto simp: GET_PREV_CHAR_def PREV_CHAR_def prevc_def ptr_sub_def pos_ok_def cbuf_end_def)
next
  case False
  obtain c p' where "GET_PREV_CHAR (cbuf_type s) (cbuf s) p 0 = Some (c, p')"
    using GET_PREV_CHAR_ok [OF assms(1,2,3)] by (auto simp: pos_ok_def)
  then show ?thesis using False
    by (auto simp: GET_PREV_CHAR_def PREV_CHAR_def prevc_def split: if_splits bind_splits)
qed

lemma prevc_ok: "text_ok s \<Longrightarrow> pos_ok s p \<Longrightarrow> 0 < p \<Longrightarrow> \<exists>p'. prevc s p = Some p' \<and> pos_ok s p' \<and> p' < p"
  using PREV_CHAR_eq_GET_PREV [of s p] GET_PREV_CHAR_ok [of s p 0] by (fastforce simp: pos_ok_def)

lemma PEEK_PREV_CHAR_ok:
  assumes "text_ok s" "pos_ok s p" "0 < p"
  shows "\<exists>c. PEEK_PREV_CHAR (cbuf_type s) (cbuf s) p 0 = Some c"
proof (cases "cbuf_type s = 0")
  case True
  obtain c where "get_u8 (cbuf s) (p - 1) = Some c"
    using get_u8_before [of p "cbuf s"] assms by (auto simp: pos_ok_def cbuf_end_def)
  with True show ?thesis using assms by (auto simp: PEEK_PREV_CHAR_def ptr_sub_def)
next
  case False
  then have ev: "even p" "p \<le> length (cbuf s)" using assms by (auto simp: pos_ok_def cbuf_end_def)
  have room: "2 \<le> p" using even_room_back [of p 0] ev assms(3) by simp
  have fits: "p - 2 + 2 \<le> length (cbuf s)" using room ev by simp
  obtain c where c: "get_u16 (cbuf s) (p - 2) = Some c" using get_u16_fits [OF fits] by blast
  have "\<exists>c1. get_u16 (cbuf s) (p - 4) = Some c1" if "4 \<le> p"
    using get_u16_fits [of "p - 4" "cbuf s"] that ev by auto
  with c room False show ?thesis by (auto simp: PEEK_PREV_CHAR_def ptr_sub_le)
qed

section \<open>Going forward and back\<close>

text \<open>A position is in the middle of a surrogate pair when it stands between a high and a low surrogate.
  Reading a character never ends there, and from elsewhere a step forward is undone by a step back.\<close>

definition mid_pair :: "REExecContext \<Rightarrow> nat \<Rightarrow> bool" where
  "mid_pair s p \<longleftrightarrow> cbuf_type s = 2 \<and> 2 \<le> p \<and> p < cbuf_end s \<and>
     (\<exists>h l. get_u16 (cbuf s) (p - 2) = Some h \<and> get_u16 (cbuf s) p = Some l \<and> is_hi_surrogate h \<and> is_lo_surrogate l)"

lemma not_hi_and_lo: "is_hi_surrogate c \<Longrightarrow> \<not> is_lo_surrogate c"
  by (auto simp: is_hi_surrogate_def is_lo_surrogate_def)

lemma getc_not_mid: "getc s p = Some (c, p') \<Longrightarrow> \<not> mid_pair s p'"
  unfolding getc_def GET_CHAR_def mid_pair_def Let_def
  by (auto dest: not_hi_and_lo split: if_splits bind_splits)

lemma getc_prevc:
  assumes "getc s p = Some (c, p')" and "\<not> mid_pair s p" and "text_ok s" "pos_ok s p" "p < cbuf_end s"
  shows "prevc s p' = Some p"
proof (cases "cbuf_type s = 0")
  case True
  with assms(1) show ?thesis by (auto simp: getc_def GET_CHAR_def prevc_def PREV_CHAR_def ptr_sub_def split: bind_splits)
next
  case False
  obtain u where u: "get_u16 (cbuf s) p = Some u" using assms(1) False by (auto simp: getc_def GET_CHAR_def split: bind_splits)
  show ?thesis
  proof (cases "p' = p + 4")
    case True
    then obtain v where "is_hi_surrogate u" "get_u16 (cbuf s) (p + 2) = Some v" "is_lo_surrogate v" "cbuf_type s = 2"
      using assms(1) u False by (auto simp: getc_def GET_CHAR_def Let_def split: if_splits bind_splits)
    with True u show ?thesis by (simp add: prevc_def PREV_CHAR_def ptr_sub_def)
  next
    case False
    then have p': "p' = p + 2"
      using assms(1) u \<open>cbuf_type s \<noteq> 0\<close> by (auto simp: getc_def GET_CHAR_def Let_def split: if_splits bind_splits)
    have even: "even p" using assms(4) \<open>cbuf_type s \<noteq> 0\<close> by (simp add: pos_ok_def)
    have two: "0 < p \<Longrightarrow> 2 \<le> p" using even by presburger
    have "\<exists>h. 0 < p \<longrightarrow> get_u16 (cbuf s) (p - 2) = Some h"
      using get_u16_before [of p "cbuf s"] two assms(5) unfolding cbuf_end_def by auto
    then obtain h where h: "0 < p \<Longrightarrow> get_u16 (cbuf s) (p - 2) = Some h" by blast
    have "\<not> (is_hi_surrogate h \<and> is_lo_surrogate u)" if "0 < p" "cbuf_type s = 2"
      using assms(2,5) h u that two unfolding mid_pair_def by auto
    with p' u h two \<open>cbuf_type s \<noteq> 0\<close> show ?thesis
      by (cases "p = 0") (auto simp: prevc_def PREV_CHAR_def ptr_sub_def)
  qed
qed

lemma getc_prevc_le:
  assumes "getc s p = Some (c, p')" and "text_ok s" "pos_ok s p" "p < cbuf_end s"
  shows "\<exists>q. prevc s p' = Some q \<and> pos_ok s q \<and> q \<le> p"
proof (cases "mid_pair s p")
  case False
  with getc_prevc [OF assms(1) _ assms(2-4)] assms(3) show ?thesis by simp
next
  case True
  then have ty: "cbuf_type s = 2" "2 \<le> p" by (auto simp: mid_pair_def)
  obtain h l where hl: "get_u16 (cbuf s) (p - 2) = Some h" "get_u16 (cbuf s) p = Some l" "is_hi_surrogate h" "is_lo_surrogate l"
    using True by (auto simp: mid_pair_def)
  moreover have "\<not> is_hi_surrogate l" using hl(4) not_hi_and_lo by blast
  ultimately have "p' = p + 2" using assms(1) ty by (simp add: getc_def GET_CHAR_def Let_def)
  then have "prevc s p' = Some (p - 2)" using hl ty by (simp add: prevc_def PREV_CHAR_def ptr_sub_def)
  moreover have "pos_ok s (p - 2)" using assms(3) by (auto simp: pos_ok_def)
  ultimately show ?thesis by simp
qed

lemma prev_chars_prevc: "prev_chars s (Suc n) p = Option.bind (prevc s p) (prev_chars s n)"
  by (simp add: prevc_def)

lemma prev_chars_add: "prev_chars s (m + n) p = Option.bind (prev_chars s m p) (prev_chars s n)"
proof (induction m arbitrary: p)
  case (Suc m)
  then show ?case by (cases "prevc s p") (simp_all add: prevc_def)
qed simp

text \<open>\<open>fwd s n p q\<close>: reading \<open>n\<close> characters leads from \<open>p\<close> to \<open>q\<close>.\<close>

inductive fwd :: "REExecContext \<Rightarrow> nat \<Rightarrow> nat \<Rightarrow> nat \<Rightarrow> bool" for s where
  fwd_0: "fwd s 0 p p"
| fwd_Suc: "fwd s n p q \<Longrightarrow> q < cbuf_end s \<Longrightarrow> getc s q = Some (c, r) \<Longrightarrow> fwd s (Suc n) p r"

lemma fwd_trans: "fwd s m p q \<Longrightarrow> fwd s n q r \<Longrightarrow> fwd s (m + n) p r"
  by (rotate_tac, induction rule: fwd.induct) (auto intro: fwd_Suc)

lemma fwd_pos_ok: "fwd s n p q \<Longrightarrow> text_ok s \<Longrightarrow> pos_ok s p \<Longrightarrow> pos_ok s q"
proof (induction rule: fwd.induct)
  case (fwd_Suc n p q c r)
  then show ?case
    using GET_CHAR_ok [of s q "cbuf_end s"] by (auto simp: getc_def pos_ok_def text_ok_def cbuf_end_def)
qed simp

lemma fwd_not_mid: "fwd s n p q \<Longrightarrow> 0 < n \<Longrightarrow> \<not> mid_pair s q"
  by (induction rule: fwd.induct) (auto dest: getc_not_mid)

text \<open>After \<open>n\<close> characters forward, \<open>n\<close> steps back stay inside the subject.\<close>

lemma fwd_prev_chars:
  assumes "fwd s n p q" and "text_ok s" "pos_ok s p"
  shows "\<exists>r. prev_chars s n q = Some r \<and> pos_ok s r \<and> r \<le> p"
  using assms
proof (induction rule: fwd.induct)
  case (fwd_0 p)
  then show ?case by simp
next
  case (fwd_Suc n p q c r)
  have q: "pos_ok s q" using fwd_pos_ok fwd_Suc by blast
  show ?case
  proof (cases n)
    case 0
    then have "q = p" using fwd_Suc.hyps(1) by (auto elim: fwd.cases)
    with getc_prevc_le [OF fwd_Suc.hyps(3) fwd_Suc.prems(1) q fwd_Suc.hyps(2)] 0
    show ?thesis by (auto simp: prev_chars_prevc simp del: prev_chars.simps(2))
  next
    case (Suc m)
    then have "prevc s r = Some q"
      using getc_prevc [OF fwd_Suc.hyps(3) _ fwd_Suc.prems(1) q fwd_Suc.hyps(2)] fwd_not_mid [OF fwd_Suc.hyps(1)] by simp
    with fwd_Suc.IH [OF fwd_Suc.prems] show ?thesis by (simp add: prev_chars_prevc del: prev_chars.simps(2))
  qed
qed

section \<open>The verifier\<close>

definition op_at :: "REExecContext \<Rightarrow> nat \<Rightarrow> REOPCodeEnum option" where
  "op_at s p = do { b \<leftarrow> rd (bc_buf s) p; opcode_of b }"

text \<open>The length of a class instruction with bounds of width \<open>w\<close>, if it is complete and not empty.\<close>

definition range_len :: "REExecContext \<Rightarrow> nat \<Rightarrow> nat \<Rightarrow> nat option" where
  "range_len s p w = do {
     n \<leftarrow> get_u16 (bc_buf s) (p + 1);
     if n \<noteq> 0 \<and> p + 3 + 2 * w * unat n \<le> length (bc_buf s) then Some (3 + 2 * w * unat n) else None }"

text \<open>The instructions that test the subject without jumping: their length, and whether they consume
  a character.\<close>

definition simple_op :: "REExecContext \<Rightarrow> nat \<Rightarrow> (nat \<times> nat) option" where
  "simple_op s p = do {
     op \<leftarrow> op_at s p;
     case op of
       REOP_range \<Rightarrow> map_option (\<lambda>l. (l, 1)) (range_len s p 2)
     | REOP_range32 \<Rightarrow> map_option (\<lambda>l. (l, 1)) (range_len s p 4)
     | REOP_char \<Rightarrow> if p + 3 \<le> length (bc_buf s) then Some (3, 1) else None
     | REOP_char32 \<Rightarrow> if p + 5 \<le> length (bc_buf s) then Some (5, 1) else None
     | REOP_dot \<Rightarrow> Some (1, 1)
     | REOP_any \<Rightarrow> Some (1, 1)
     | REOP_line_start \<Rightarrow> Some (1, 0)
     | REOP_line_end \<Rightarrow> Some (1, 0)
     | REOP_word_boundary \<Rightarrow> Some (1, 0)
     | REOP_not_word_boundary \<Rightarrow> Some (1, 0)
     | _ \<Rightarrow> None }"

lemma simple_op_pos: "simple_op s p = Some (l, k) \<Longrightarrow> 0 < l \<and> p < length (bc_buf s)"
  by (auto simp: simple_op_def op_at_def range_len_def mem_simps
      split: bind_splits REOPCodeEnum.splits if_splits)

text \<open>The number of characters the body of a greedy quantifier consumes.\<close>

function body_chars :: "REExecContext \<Rightarrow> nat \<Rightarrow> nat option" where
  "body_chars s p =
     (if op_at s p = Some REOP_match then Some 0
      else case simple_op s p of
             None \<Rightarrow> None
           | Some (l, k) \<Rightarrow> map_option ((+) k) (body_chars s (p + l)))"
  by pat_completeness auto
termination
  by (relation "measure (\<lambda>(s, p). length (bc_buf s) - p)") (auto dest!: simple_op_pos)

declare body_chars.simps [simp del]

definition jump_ok :: "REExecContext \<Rightarrow> (nat \<Rightarrow> nat option) \<Rightarrow> nat \<Rightarrow> nat \<Rightarrow> bool" where
  "jump_ok s \<phi> q d =
     (case get_u32 (bc_buf s) q of None \<Rightarrow> False
      | Some val \<Rightarrow> (case jump (q + 4) val of None \<Rightarrow> False | Some t \<Rightarrow> \<phi> t = Some d))"

definition greedy_ok :: "REExecContext \<Rightarrow> (nat \<Rightarrow> nat option) \<Rightarrow> nat \<Rightarrow> nat \<Rightarrow> bool" where
  "greedy_ok s \<phi> p d \<longleftrightarrow> p + 17 \<le> length (bc_buf s) \<and>
     (case get_u32 (bc_buf s) (p + 1) of None \<Rightarrow> False
      | Some off \<Rightarrow> (case jump (p + 17) off of None \<Rightarrow> False | Some t \<Rightarrow> \<phi> t = Some d)) \<and>
     (case get_u32 (bc_buf s) (p + 13) of None \<Rightarrow> False
      | Some n \<Rightarrow> body_chars s (p + 17) = Some (unat n))"

text \<open>The instruction at \<open>p\<close>, entered with stack depth \<open>d\<close>, is complete and leads to offsets that \<open>\<phi>\<close>
  gives the right depths.\<close>

definition instr_ok :: "REExecContext \<Rightarrow> (nat \<Rightarrow> nat option) \<Rightarrow> nat \<Rightarrow> nat \<Rightarrow> bool" where
  "instr_ok s \<phi> p d \<longleftrightarrow> d \<le> stack_size_max s \<and>
     (case simple_op s p of
        Some (l, k) \<Rightarrow> \<phi> (p + l) = Some d
      | None \<Rightarrow>
         (case op_at s p of
            None \<Rightarrow> False
          | Some op \<Rightarrow>
             (case op of
                REOP_match \<Rightarrow> True
              | REOP_goto \<Rightarrow> jump_ok s \<phi> (p + 1) d
              | REOP_split_goto_first \<Rightarrow> jump_ok s \<phi> (p + 1) d \<and> \<phi> (p + 5) = Some d
              | REOP_split_next_first \<Rightarrow> jump_ok s \<phi> (p + 1) d \<and> \<phi> (p + 5) = Some d
              | REOP_lookahead \<Rightarrow> jump_ok s \<phi> (p + 1) d \<and> \<phi> (p + 5) = Some d
              | REOP_negative_lookahead \<Rightarrow> jump_ok s \<phi> (p + 1) d \<and> \<phi> (p + 5) = Some d
              | REOP_save_start \<Rightarrow> (case get_u8 (bc_buf s) (p + 1) of None \<Rightarrow> False
                  | Some v \<Rightarrow> unat v < capture_count s \<and> \<phi> (p + 2) = Some d)
              | REOP_save_end \<Rightarrow> (case get_u8 (bc_buf s) (p + 1) of None \<Rightarrow> False
                  | Some v \<Rightarrow> unat v < capture_count s \<and> \<phi> (p + 2) = Some d)
              | REOP_save_reset \<Rightarrow> p + 3 \<le> length (bc_buf s) \<and> (case get_u8 (bc_buf s) (p + 2) of None \<Rightarrow> False
                  | Some v \<Rightarrow> unat v < capture_count s \<and> \<phi> (p + 3) = Some d)
              | REOP_push_i32 \<Rightarrow> p + 5 \<le> length (bc_buf s) \<and> d < stack_size_max s \<and> \<phi> (p + 5) = Some (d + 1)
              | REOP_drop \<Rightarrow> 0 < d \<and> \<phi> (p + 1) = Some (d - 1)
              | REOP_loop \<Rightarrow> 0 < d \<and> jump_ok s \<phi> (p + 1) d \<and> \<phi> (p + 5) = Some d
              | REOP_push_char_pos \<Rightarrow> d < stack_size_max s \<and> \<phi> (p + 1) = Some (d + 1)
              | REOP_bne_char_pos \<Rightarrow> 0 < d \<and> jump_ok s \<phi> (p + 1) (d - 1) \<and> \<phi> (p + 5) = Some (d - 1)
              | REOP_back_reference \<Rightarrow> p + 2 \<le> length (bc_buf s) \<and> \<phi> (p + 2) = Some d
              | REOP_backward_back_reference \<Rightarrow> p + 2 \<le> length (bc_buf s) \<and> \<phi> (p + 2) = Some d
              | REOP_prev \<Rightarrow> \<phi> (p + 1) = Some d
              | REOP_simple_greedy_quant \<Rightarrow> greedy_ok s \<phi> p d
              | _ \<Rightarrow> False)))"

definition verified :: "REExecContext \<Rightarrow> (nat \<times> nat) list \<Rightarrow> bool" where
  "verified s depths \<longleftrightarrow>
     map_of depths RE_HEADER_LEN = Some 0 \<and> list_all (\<lambda>(p, d). instr_ok s (map_of depths) p d) depths"

lemma verified_instr: "verified s depths \<Longrightarrow> map_of depths p = Some d \<Longrightarrow> instr_ok s (map_of depths) p d"
  by (auto simp: verified_def list_all_iff dest!: map_of_SomeD)

section \<open>The invariant\<close>

definition caps_ok :: "REExecContext \<Rightarrow> nat option list \<Rightarrow> bool" where
  "caps_ok s cap \<longleftrightarrow> length cap = 2 * capture_count s \<and> (\<forall>p. Some p \<in> set cap \<longrightarrow> pos_ok s p)"

definition saved_ok :: "REExecContext \<Rightarrow> (nat \<Rightarrow> nat option) \<Rightarrow> REExecState \<Rightarrow> bool" where
  "saved_ok s \<phi> rs \<longleftrightarrow> caps_ok s (rs_capture rs) \<and> pos_ok s (rs_cptr rs) \<and> length (rs_stack rs) \<le> stack_size_max s \<and>
     (if rs_type rs = RE_EXEC_STATE_GREEDY_QUANT
      then 1 \<le> rs_pc rs \<and> greedy_ok s \<phi> (rs_pc rs - 1) (length (rs_stack rs)) \<and> 1 \<le> rs_count rs \<and>
        (\<forall>n. get_u32 (bc_buf s) (rs_pc rs + 12) = Some n \<longrightarrow>
           (\<exists>r. prev_chars s (rs_count rs * unat n) (rs_cptr rs) = Some r))
      else \<phi> (rs_pc rs) = Some (length (rs_stack rs)))"

definition base_ok :: "REExecContext \<Rightarrow> (nat \<Rightarrow> nat option) \<Rightarrow> re_state \<Rightarrow> bool" where
  "base_ok s \<phi> st \<longleftrightarrow> caps_ok s (capture st) \<and> pos_ok s (cptr st) \<and> length (stack st) = stack_size_max s \<and>
     stack_len st \<le> stack_size_max s \<and> (\<forall>rs \<in> set (state_stack st). saved_ok s \<phi> rs)"

definition state_ok :: "REExecContext \<Rightarrow> (nat \<Rightarrow> nat option) \<Rightarrow> re_state \<Rightarrow> bool" where
  "state_ok s \<phi> st \<longleftrightarrow> base_ok s \<phi> st \<and> \<phi> (pc st) = Some (stack_len st)"

fun result_ok :: "REExecContext \<Rightarrow> (nat \<Rightarrow> nat option) \<Rightarrow> step_result \<Rightarrow> bool" where
  "result_ok s \<phi> (Next st) = state_ok s \<phi> st"
| "result_ok s \<phi> (No_Match st) = base_ok s \<phi> st"
| "result_ok s \<phi> (Match st) = base_ok s \<phi> st"
| "result_ok s \<phi> (Fail st) = base_ok s \<phi> st"

lemma caps_ok_update: "caps_ok s cap \<Longrightarrow> (\<And>p. v = Some p \<Longrightarrow> pos_ok s p) \<Longrightarrow> caps_ok s (cap[i := v])"
  unfolding caps_ok_def by (auto dest: subsetD [OF set_update_subset_insert])

lemma base_ok_simps [simp]:
  "base_ok s \<phi> (st\<lparr>pc := p\<rparr>) = base_ok s \<phi> st"
  "pos_ok s q \<Longrightarrow> base_ok s \<phi> st \<Longrightarrow> base_ok s \<phi> (st\<lparr>cptr := q\<rparr>)"
  by (auto simp: base_ok_def)

lemma base_okD:
  assumes "base_ok s \<phi> st"
  shows "caps_ok s (capture st)" "pos_ok s (cptr st)" "length (stack st) = stack_size_max s"
    "stack_len st \<le> stack_size_max s" "\<forall>rs \<in> set (state_stack st). saved_ok s \<phi> rs"
  using assms by (auto simp: base_ok_def)

section \<open>Single instructions\<close>

lemma push_state_ok:
  assumes "base_ok s \<phi> st" and "pos_ok s cptr1"
    and "\<And>cap. caps_ok s cap \<Longrightarrow>
      saved_ok s \<phi> \<lparr>rs_type = type, rs_count = count, rs_cptr = cptr1, rs_pc = pc1, rs_capture = cap,
        rs_stack = take (stack_len st) (stack st)\<rparr>"
  shows "\<exists>ok st'. push_state s st pc1 cptr1 type count = Some (ok, st') \<and> base_ok s \<phi> st' \<and>
    pc st' = pc st \<and> stack_len st' = stack_len st"
proof -
  note b = base_okD [OF assms(1)]
  have cap: "rd_n (capture st) 0 (2 * capture_count s) = Some (capture st)"
    using b(1) by (simp add: caps_ok_def rd_n_def)
  have stk: "rd_n (stack st) 0 (stack_len st) = Some (take (stack_len st) (stack st))"
    using b(3,4) by (simp add: rd_n_def)
  show ?thesis
    using cap stk assms(1) assms(3) [OF b(1)] by (auto simp: push_state_def Let_def base_ok_def)
qed

lemma canon_ok: "\<exists>c'. canon s c = Some c'"
  using lre_canonicalize_total [of c "is_utf16 s"] by (simp add: canon_def)

lemma get_bound_ok: "w = 2 \<or> w = 4 \<Longrightarrow> p + w \<le> length buf \<Longrightarrow> \<exists>b. get_bound w buf p = Some b"
  using get_u16_fits [of p buf] get_u32_fits [of p buf] by (auto simp: get_bound_def)

lemma bound_fits: "i < n \<Longrightarrow> p + n * (2 * w) \<le> m \<Longrightarrow> p + i * (2 * w) + w + w \<le> (m :: nat)"
proof -
  assume "i < n" "p + n * (2 * w) \<le> m"
  moreover have "Suc i * (2 * w) \<le> n * (2 * w)" using \<open>i < n\<close> by (intro mult_le_mono1) simp
  ultimately show ?thesis by simp
qed

lemma range_search_ok:
  assumes "w = 2 \<or> w = 4" "p + n * (2 * w) \<le> length buf" "0 \<le> lo" "hi < int n"
    and "get_bound w buf p = Some b" "b \<le> c"
  shows "\<exists>r. range_search w buf p c lo hi = Some r"
  using assms
proof (induction w buf p c lo hi rule: range_search.induct)
  case (1 w buf p c lo hi)
  show ?case
  proof (cases "lo \<le> hi")
    case False
    then show ?thesis by (subst range_search.simps) auto
  next
    case True
    define idx where "idx = (lo + hi) div 2"
    have idx: "lo \<le> idx" "idx \<le> hi" "nat idx < n" using True "1.prems" unfolding idx_def by auto
    note fits = bound_fits [OF idx(3) "1.prems"(2)]
    obtain low where low: "get_bound w buf (p + nat idx * (2 * w)) = Some low"
      using get_bound_ok [OF "1.prems"(1)] fits by (metis add_leD1)
    obtain high where high: "get_bound w buf (p + nat idx * (2 * w) + w) = Some high"
      using get_bound_ok [OF "1.prems"(1) fits] by blast
    have nz: "idx \<noteq> 0" if "c < low" using that low "1.prems"(5,6) by auto
    show ?thesis
      using "1.IH"(1) [OF True idx_def low high] "1.IH"(2) [OF True idx_def low high] True low high nz idx "1.prems"
      by (subst range_search.simps) (auto simp: idx_def [symmetric])
  qed
qed

lemma range_test_ok:
  assumes "w = 2 \<or> w = 4" "p + n * (2 * w) \<le> length buf" "0 < n"
  shows "\<exists>r. range_test w buf p n c = Some r"
proof -
  have "p + w \<le> length buf" using bound_fits [of 0 n p w "length buf"] assms(2,3) by simp
  then obtain low where low: "get_bound w buf p = Some low" using get_bound_ok [OF assms(1)] by blast
  have "p + (n - 1) * (2 * w) + w + w \<le> length buf" using bound_fits [of "n - 1" n p w] assms(2,3) by simp
  then obtain high where high: "get_bound w buf (p + (n - 1) * (2 * w) + w) = Some high"
    using get_bound_ok [OF assms(1)] by blast
  show ?thesis
    using range_search_ok [OF assms(1,2) _ _ low, of 0 "int n - 1" c] low high assms(3)
    by (auto simp: range_test_def not_less)
qed

text \<open>An instruction of a quantifier body fails, or goes on to the next one; then it has read the
  number of characters the verifier counts. Nothing but the two pointers changes.\<close>

definition same_rest :: "re_state \<Rightarrow> re_state \<Rightarrow> bool" where
  "same_rest st st' \<longleftrightarrow> capture st' = capture st \<and> stack st' = stack st \<and> stack_len st' = stack_len st \<and>
     state_stack st' = state_stack st \<and> state_stack_size st' = state_stack_size st"

definition simple_result :: "REExecContext \<Rightarrow> re_state \<Rightarrow> nat \<Rightarrow> nat \<Rightarrow> step_result option \<Rightarrow> bool" where
  "simple_result s st l k r =
     (case r of
        Some (No_Match st') \<Rightarrow> same_rest st st' \<and> pos_ok s (cptr st')
      | Some (Next st') \<Rightarrow> same_rest st st' \<and> pc st' = pc st + l \<and> fwd s k (cptr st) (cptr st')
      | _ \<Rightarrow> False)"

lemma fwd_1: "p < cbuf_end s \<Longrightarrow> getc s p = Some (c, q) \<Longrightarrow> fwd s 1 p q"
  using fwd_Suc [OF fwd_0] by simp

lemma getc_ok:
  assumes "text_ok s" "pos_ok s p" "p < cbuf_end s"
  shows "\<exists>c q. getc s p = Some (c, q) \<and> pos_ok s q \<and> fwd s 1 p q"
  using GET_CHAR_ok [OF assms, unfolded getc_def [symmetric]] fwd_1 [OF assms(3)] assms(1)
  by (auto simp: pos_ok_def text_ok_def cbuf_end_def)

lemma test_char_simple:
  assumes "text_ok s" "pos_ok s (cptr st)"
  shows "simple_result s st l 1 (test_char s (st\<lparr>pc := pc st + l\<rparr>) v)"
proof (cases "cptr st < cbuf_end s")
  case False
  with assms(2) show ?thesis by (simp add: test_char_def simple_result_def same_rest_def)
next
  case True
  obtain c q where c: "getc s (cptr st) = Some (c, q)" "pos_ok s q" "fwd s 1 (cptr st) q"
    using getc_ok [OF assms True] by blast
  obtain c' where "canon s c = Some c'" using canon_ok by blast
  with c True show ?thesis
    by (simp add: simple_result_def same_rest_def test_char_def getc_def Let_def)
qed

lemma do_range_simple:
  assumes "text_ok s" "pos_ok s (cptr st)" "range_len s (pc st) w = Some l" "w = 2 \<or> w = 4"
  shows "simple_result s st l 1 (do_range s (st\<lparr>pc := pc st + 1\<rparr>) w)"
proof -
  obtain n where n: "get_u16 (bc_buf s) (pc st + 1) = Some n" "n \<noteq> 0" "pc st + 3 + 2 * w * unat n \<le> length (bc_buf s)"
    "l = 3 + 2 * w * unat n" using assms(3) by (auto simp: range_len_def split: bind_splits if_splits)
  have n0: "0 < unat n" using n(2) by (simp add: unat_gt_0)
  show ?thesis
  proof (cases "cptr st < cbuf_end s")
    case False
    with n(1) assms(2) show ?thesis by (simp add: do_range_def Let_def simple_result_def same_rest_def)
  next
    case True
    obtain c q where c: "getc s (cptr st) = Some (c, q)" "pos_ok s q" "fwd s 1 (cptr st) q"
      using getc_ok [OF assms(1,2) True] by blast
    obtain c' where c': "canon s c = Some c'" using canon_ok by blast
    have "pc st + 3 + unat n * (2 * w) \<le> length (bc_buf s)" using n(3) by (simp add: mult.commute)
    then obtain hit where hit: "range_test w (bc_buf s) (pc st + 3) (unat n) c' = Some hit"
      using range_test_ok [OF assms(4) _ n0] by blast
    then have "range_test w (bc_buf s) (Suc (Suc (Suc (pc st)))) (unat n) c' = Some hit" by (simp add: eval_nat_numeral)
    with c c' True n(1,4) show ?thesis
      by (cases hit) (simp_all add: simple_result_def same_rest_def do_range_def getc_def Let_def)
  qed
qed

lemma simple_op_step:
  assumes "text_ok s" "pos_ok s (cptr st)" "simple_op s (pc st) = Some (l, k)"
  shows "\<exists>op. op_at s (pc st) = Some op \<and> op \<noteq> REOP_simple_greedy_quant \<and>
    simple_result s st l k (reop_step s op (st\<lparr>pc := pc st + 1\<rparr>))"
proof -
  obtain op where op: "op_at s (pc st) = Some op" using assms(3) by (auto simp: simple_op_def split: bind_splits)
  note so = assms(3) [unfolded simple_op_def op bind.bind_lunit]
  have peek: "\<exists>c. PEEK_CHAR (cbuf_type s) (cbuf s) (cptr st) (cbuf_end s) = Some c" if "cptr st < cbuf_end s"
    using PEEK_CHAR_ok [OF assms(1,2) that] .
  have peekp: "\<exists>c. PEEK_PREV_CHAR (cbuf_type s) (cbuf s) (cptr st) 0 = Some c" if "0 < cptr st"
    using PEEK_PREV_CHAR_ok [OF assms(1,2) that] .
  have le: "cptr st \<le> cbuf_end s" using assms(2) by (simp add: pos_ok_def)
  note fwd0 = fwd_0 [of s "cptr st"]
  have line: "simple_result s st 1 0 (do_line_start s (st\<lparr>pc := pc st + 1\<rparr>))"
    "simple_result s st 1 0 (do_line_end s (st\<lparr>pc := pc st + 1\<rparr>))"
    using peek peekp assms(2) le fwd0
    by (auto simp: do_line_start_def do_line_end_def simple_result_def same_rest_def)
  have word: "simple_result s st 1 0 (do_word_boundary s (st\<lparr>pc := pc st + 1\<rparr>) neg)" for neg
    using peek peekp assms(2) le fwd0
    by (cases "cptr st = 0"; cases "cptr st \<ge> cbuf_end s")
      (auto simp: do_word_boundary_def simple_result_def same_rest_def)
  have "\<exists>c q. getc s (cptr st) = Some (c, q) \<and> pos_ok s q \<and> fwd s 1 (cptr st) q" if "cptr st \<noteq> cbuf_end s"
    using getc_ok [OF assms(1,2)] le that by simp
  then have any: "simple_result s st 1 1 (do_dot s (st\<lparr>pc := pc st + 1\<rparr>))" "simple_result s st 1 1 (do_any s (st\<lparr>pc := pc st + 1\<rparr>))"
    using assms(2)
    by (cases "cptr st = cbuf_end s"; auto simp: simple_result_def same_rest_def do_dot_def do_any_def getc_def Let_def)+
  have chr: "simple_result s st 3 1 (do_char s (st\<lparr>pc := pc st + 1\<rparr>))" if "pc st + 3 \<le> length (bc_buf s)"
    using get_u16_fits [of "pc st + 1" "bc_buf s"] test_char_simple [OF assms(1,2), of 3] that
    by (auto simp: do_char_def eval_nat_numeral)
  have chr32: "simple_result s st 5 1 (do_char32 s (st\<lparr>pc := pc st + 1\<rparr>))" if "pc st + 5 \<le> length (bc_buf s)"
    using get_u32_fits [of "pc st + 1" "bc_buf s"] test_char_simple [OF assms(1,2), of 5] that
    by (auto simp: do_char32_def eval_nat_numeral)
  show ?thesis
    using so op line word any chr chr32 do_range_simple [OF assms(1,2)]
    by (cases op) (auto simp: reop_step_def split: if_splits)
qed

lemma simple_result_ok:
  assumes "simple_result s st l k r" "text_ok s" "base_ok s \<phi> st" "\<phi> (pc st + l) = Some (stack_len st)"
  shows "\<exists>r'. r = Some r' \<and> result_ok s \<phi> r'"
  using assms fwd_pos_ok [of s k "cptr st"]
  by (auto simp: simple_result_def same_rest_def state_ok_def base_ok_def split: option.splits step_result.splits)

text \<open>The instructions that jump, save or use the stack, one by one. \<open>st\<close> is the state with \<open>pc\<close> behind
  the opcode.\<close>

lemma jump_okD:
  "jump_ok s \<phi> q d \<Longrightarrow> \<exists>val t. get_u32 (bc_buf s) q = Some val \<and> jump (q + 4) val = Some t \<and> \<phi> t = Some d"
  by (auto simp: jump_ok_def split: option.splits)

lemma do_goto_ok:
  "base_ok s \<phi> st \<Longrightarrow> jump_ok s \<phi> (pc st) (stack_len st) \<Longrightarrow> \<exists>r. do_goto s st = Some r \<and> result_ok s \<phi> r"
  by (auto simp: do_goto_def state_ok_def dest!: jump_okD)

lemma push_plain_ok:
  assumes "base_ok s \<phi> st" "\<phi> pc1 = Some (stack_len st)" "\<phi> (pc st) = Some (stack_len st)" "type \<noteq> RE_EXEC_STATE_GREEDY_QUANT"
  shows "\<exists>ok st'. push_state s st pc1 (cptr st) type 0 = Some (ok, st') \<and> result_ok s \<phi> (if ok then Next st' else Fail st')"
proof -
  have "length (take (stack_len st) (stack st)) = stack_len st" using base_okD [OF assms(1)] by simp
  then obtain ok st' where "push_state s st pc1 (cptr st) type 0 = Some (ok, st')" "base_ok s \<phi> st'"
      "pc st' = pc st" "stack_len st' = stack_len st"
    using push_state_ok [OF assms(1), of "cptr st" type 0 pc1] base_okD [OF assms(1)] assms(2,4)
    by (auto simp: saved_ok_def)
  then show ?thesis using assms(3) by (auto simp: state_ok_def)
qed

lemma do_split_ok:
  assumes "base_ok s \<phi> st" "jump_ok s \<phi> (pc st) (stack_len st)" "\<phi> (pc st + 4) = Some (stack_len st)"
  shows "\<exists>r. do_split s st nf = Some r \<and> result_ok s \<phi> r"
proof -
  obtain val t where t: "get_u32 (bc_buf s) (pc st) = Some val" "jump (pc st + 4) val = Some t" "\<phi> t = Some (stack_len st)"
    using jump_okD [OF assms(2)] by blast
  show ?thesis
    using t push_plain_ok [of s \<phi> "st\<lparr>pc := t\<rparr>" "pc st + 4" RE_EXEC_STATE_SPLIT]
      push_plain_ok [of s \<phi> "st\<lparr>pc := pc st + 4\<rparr>" t RE_EXEC_STATE_SPLIT] assms(1,3)
    by (cases nf) (auto simp: do_split_def)
qed

lemma do_lookahead_ok:
  assumes "base_ok s \<phi> st" "jump_ok s \<phi> (pc st) (stack_len st)" "\<phi> (pc st + 4) = Some (stack_len st)"
    and "type \<noteq> RE_EXEC_STATE_GREEDY_QUANT"
  shows "\<exists>r. do_lookahead s st type = Some r \<and> result_ok s \<phi> r"
proof -
  obtain val t where t: "get_u32 (bc_buf s) (pc st) = Some val" "jump (pc st + 4) val = Some t" "\<phi> t = Some (stack_len st)"
    using jump_okD [OF assms(2)] by blast
  show ?thesis
    using t push_plain_ok [of s \<phi> "st\<lparr>pc := pc st + 4\<rparr>" t type] assms(1,3,4)
    by (auto simp: do_lookahead_def)
qed

lemma base_ok_capture: "base_ok s \<phi> st \<Longrightarrow> caps_ok s cap \<Longrightarrow> base_ok s \<phi> (st\<lparr>capture := cap\<rparr>)"
  by (simp add: base_ok_def)

lemma wr_capture_ok:
  assumes "caps_ok s cap" "i < 2 * capture_count s" "\<And>p. v = Some p \<Longrightarrow> pos_ok s p"
  shows "\<exists>cap'. wr cap i v = Some cap' \<and> caps_ok s cap'"
  using caps_ok_update [of s cap v i] assms by (auto simp: wr_def caps_ok_def)

lemma do_save_ok:
  assumes "base_ok s \<phi> st" "get_u8 (bc_buf s) (pc st) = Some v" "unat v < capture_count s" "which < 2"
    "\<phi> (pc st + 1) = Some (stack_len st)"
  shows "\<exists>r. do_save s st which = Some r \<and> result_ok s \<phi> r"
proof -
  obtain cap where "wr (capture st) (2 * unat v + which) (Some (cptr st)) = Some cap" "caps_ok s cap"
    using wr_capture_ok [of s "capture st" "2 * unat v + which" "Some (cptr st)"] base_okD [OF assms(1)] assms(3,4) by auto
  then show ?thesis using assms base_ok_capture [OF assms(1)] by (auto simp: do_save_def state_ok_def base_ok_def)
qed

lemma reset_captures_ok:
  "caps_ok s cap \<Longrightarrow> v + n \<le> capture_count s \<Longrightarrow> \<exists>cap'. reset_captures cap v n = Some cap' \<and> caps_ok s cap'"
proof (induction n arbitrary: cap v)
  case (Suc n)
  obtain c1 where c1: "wr cap (2 * v) None = Some c1" "caps_ok s c1"
    using wr_capture_ok [OF Suc.prems(1), of "2 * v" None] Suc.prems(2) by auto
  obtain c2 where "wr c1 (2 * v + 1) None = Some c2" "caps_ok s c2"
    using wr_capture_ok [OF c1(2), of "2 * v + 1" None] Suc.prems(2) by auto
  then show ?case using c1 Suc.IH [of c2 "v + 1"] Suc.prems(2) by simp
qed simp

lemma do_save_reset_ok:
  assumes "base_ok s \<phi> st" "get_u8 (bc_buf s) (pc st) = Some v" "get_u8 (bc_buf s) (pc st + 1) = Some v2"
    "unat v2 < capture_count s" "\<phi> (pc st + 2) = Some (stack_len st)"
  shows "\<exists>r. do_save_reset s st = Some r \<and> result_ok s \<phi> r"
proof (cases "unat v \<le> unat v2")
  case True
  then show ?thesis
    using assms reset_captures_ok [of s "capture st" "unat v" "unat v2 + 1 - unat v"] base_okD(1) [OF assms(1)]
    by (auto simp: do_save_reset_def state_ok_def base_ok_def)
next
  case False
  then have "unat v2 + 1 - unat v = 0" by simp
  then show ?thesis using assms by (simp add: do_save_reset_def state_ok_def base_ok_def)
qed

lemma do_push_ok:
  assumes "base_ok s \<phi> st" "stack_len st < stack_size_max s" "\<phi> (pc st) = Some (stack_len st + 1)"
  shows "\<exists>r. do_push s st v = Some r \<and> result_ok s \<phi> r"
  using assms by (auto simp: do_push_def wr_def state_ok_def base_ok_def)

lemma do_drop_ok:
  assumes "base_ok s \<phi> st" "0 < stack_len st" "\<phi> (pc st) = Some (stack_len st - 1)"
  shows "\<exists>r. do_drop s st = Some r \<and> result_ok s \<phi> r"
  using assms by (auto simp: do_drop_def ptr_sub_def state_ok_def base_ok_def)

lemma do_loop_ok:
  assumes "base_ok s \<phi> st" "0 < stack_len st" "jump_ok s \<phi> (pc st) (stack_len st)" "\<phi> (pc st + 4) = Some (stack_len st)"
  shows "\<exists>r. do_loop s st = Some r \<and> result_ok s \<phi> r"
proof -
  have "stack_len st - Suc 0 < length (stack st)" using base_okD [OF assms(1)] assms(2) by simp
  then show ?thesis using jump_okD [OF assms(3)] assms
    by (auto simp: do_loop_def Let_def ptr_sub_def rd_def wr_def state_ok_def base_ok_def)
qed

lemma do_bne_char_pos_ok:
  assumes "base_ok s \<phi> st" "0 < stack_len st" "jump_ok s \<phi> (pc st) (stack_len st - 1)" "\<phi> (pc st + 4) = Some (stack_len st - 1)"
  shows "\<exists>r. do_bne_char_pos s st = Some r \<and> result_ok s \<phi> r"
proof -
  have "stack_len st - Suc 0 < length (stack st)" using base_okD [OF assms(1)] assms(2) by simp
  then show ?thesis using jump_okD [OF assms(3)] assms
    by (auto simp: do_bne_char_pos_def Let_def ptr_sub_def rd_def state_ok_def base_ok_def)
qed

lemma back_ref_loop_ok:
  assumes "text_ok s" "base_ok s \<phi> st" "\<phi> (pc st) = Some (stack_len st)" "pos_ok s b" "pos_ok s e"
  shows "\<exists>r. back_ref_loop s st b e = Some r \<and> result_ok s \<phi> r"
  using assms
proof (induction s st b e rule: back_ref_loop.induct)
  case (1 s st b e)
  have pe: "pos_ok s (cbuf_end s)" using "1.prems"(1) by (auto simp: pos_ok_def text_ok_def cbuf_end_def)
  show ?case
  proof (cases "b < e \<and> cptr st < cbuf_end s")
    case False
    then show ?thesis using "1.prems" by (subst back_ref_loop.simps) (auto simp: state_ok_def)
  next
    case True
    obtain c1 b' where c1: "GET_CHAR (cbuf_type s) (cbuf s) b e = Some (c1, b')" "pos_ok s b'"
      using GET_CHAR_ok [of s b e] "1.prems" True by blast
    obtain c2 p where c2: "GET_CHAR (cbuf_type s) (cbuf s) (cptr st) (cbuf_end s) = Some (c2, p)" "pos_ok s p"
      using GET_CHAR_ok [of s "cptr st" "cbuf_end s"] base_okD(2) [OF "1.prems"(2)] "1.prems"(1) pe True by blast
    obtain k1 k2 where k: "canon s c1 = Some k1" "canon s c2 = Some k2" using canon_ok by metis
    have "base_ok s \<phi> (st\<lparr>cptr := p\<rparr>)" using c2(2) "1.prems"(2) by simp
    then show ?thesis using "1.IH" [of "(c1, b')" c1 b' "(c2, p)" c2 p k1 k2 "st\<lparr>cptr := p\<rparr>"] c1 c2 k True "1.prems"
      by (subst back_ref_loop.simps) (auto simp: Let_def)
  qed
qed

lemma backward_back_ref_loop_ok:
  assumes "text_ok s" "base_ok s \<phi> st" "\<phi> (pc st) = Some (stack_len st)" "pos_ok s e" "pos_ok s b"
  shows "\<exists>r. backward_back_ref_loop s st e b = Some r \<and> result_ok s \<phi> r"
  using assms
proof (induction s st e b rule: backward_back_ref_loop.induct)
  case (1 s st e b)
  have p0: "pos_ok s 0" by (simp add: pos_ok_def)
  show ?case
  proof (cases "b < e \<and> 0 < cptr st")
    case False
    then show ?thesis using "1.prems" by (subst backward_back_ref_loop.simps) (auto simp: state_ok_def)
  next
    case True
    obtain c1 e' where c1: "GET_PREV_CHAR (cbuf_type s) (cbuf s) e b = Some (c1, e')" "pos_ok s e'"
      using GET_PREV_CHAR_ok [of s e b] "1.prems" True by blast
    obtain c2 p where c2: "GET_PREV_CHAR (cbuf_type s) (cbuf s) (cptr st) 0 = Some (c2, p)" "pos_ok s p"
      using GET_PREV_CHAR_ok [OF "1.prems"(1) base_okD(2) [OF "1.prems"(2)] _ p0] True by auto
    obtain k1 k2 where k: "canon s c1 = Some k1" "canon s c2 = Some k2" using canon_ok by metis
    have "base_ok s \<phi> (st\<lparr>cptr := p\<rparr>)" using c2(2) "1.prems"(2) by simp
    then show ?thesis using "1.IH" [of "(c1, e')" c1 e' "(c2, p)" c2 p k1 k2 "st\<lparr>cptr := p\<rparr>"] c1 c2 k True "1.prems"
      by (subst backward_back_ref_loop.simps) (auto simp: Let_def)
  qed
qed

lemma do_back_reference_ok:
  assumes "text_ok s" "base_ok s \<phi> st" "pc st < length (bc_buf s)" "\<phi> (pc st + 1) = Some (stack_len st)"
  shows "\<exists>r. do_back_reference s st bw = Some r \<and> result_ok s \<phi> r"
proof -
  obtain v where v: "get_u8 (bc_buf s) (pc st) = Some v" using get_u8_fits assms(3) by blast
  have caps: "length (capture st) = 2 * capture_count s" "\<And>p. Some p \<in> set (capture st) \<Longrightarrow> pos_ok s p"
    using base_okD(1) [OF assms(2)] by (auto simp: caps_ok_def)
  show ?thesis
  proof (cases "unat v < capture_count s")
    case False
    then show ?thesis using v assms(2) by (simp add: do_back_reference_def)
  next
    case True
    then have i: "2 * unat v < length (capture st)" "2 * unat v + 1 < length (capture st)" using caps by auto
    have pos: "pos_ok s b" if "capture st ! (2 * unat v) = Some b" for b
      using caps(2) nth_mem [OF i(1)] that by simp
    have pos': "pos_ok s e" if "capture st ! (2 * unat v + 1) = Some e" for e
      using caps(2) nth_mem [OF i(2)] that by simp
    let ?st = "st\<lparr>pc := pc st + 1\<rparr>"
    have "base_ok s \<phi> ?st" "\<phi> (pc ?st) = Some (stack_len ?st)" using assms by auto
    then show ?thesis
      using v True i pos pos' back_ref_loop_ok [OF assms(1)] backward_back_ref_loop_ok [OF assms(1)]
      by (auto simp: do_back_reference_def Let_def rd_def state_ok_def split: option.splits)
  qed
qed

lemma do_prev_ok:
  assumes "text_ok s" "base_ok s \<phi> st" "\<phi> (pc st) = Some (stack_len st)"
  shows "\<exists>r. do_prev s st = Some r \<and> result_ok s \<phi> r"
  using prevc_ok [OF assms(1) base_okD(2) [OF assms(2)]] assms(2,3)
  by (auto simp: do_prev_def prevc_def state_ok_def)

theorem reop_step_ok:
  assumes "text_ok s" "base_ok s \<phi> st" "instr_ok s \<phi> (pc st) (stack_len st)"
    "op_at s (pc st) = Some op" "op \<noteq> REOP_simple_greedy_quant"
  shows "\<exists>r. reop_step s op (st\<lparr>pc := pc st + 1\<rparr>) = Some r \<and> result_ok s \<phi> r"
proof (cases "simple_op s (pc st)")
  case (Some lk)
  then obtain l k where lk: "simple_op s (pc st) = Some (l, k)" by (cases lk) auto
  then show ?thesis
    using simple_op_step [OF assms(1) base_okD(2) [OF assms(2)] lk] assms
      simple_result_ok [of s st l k "reop_step s op (st\<lparr>pc := pc st + 1\<rparr>)" \<phi>]
    by (auto simp: instr_ok_def)
next
  case None
  note i = assms(3) [unfolded instr_ok_def None assms(4), simplified]
  let ?st = "st\<lparr>pc := pc st + 1\<rparr>"
  have b: "base_ok s \<phi> ?st" using assms(2) by simp
  have u8: "\<exists>v. get_u8 (bc_buf s) (pc st + 1) = Some v" if "pc st + 3 \<le> length (bc_buf s)"
    using that get_u8_fits [of "pc st + 1" "bc_buf s"] by simp
  have u32: "\<exists>v. get_u32 (bc_buf s) (pc st + 1) = Some v" if "pc st + 5 \<le> length (bc_buf s)"
    using that get_u32_fits [of "pc st + 1" "bc_buf s"] by simp
  note steps = do_goto_ok [OF b] do_split_ok [OF b] do_lookahead_ok [OF b] do_save_ok [OF b]
    do_save_reset_ok [OF b] do_drop_ok [OF b] do_loop_ok [OF b] do_bne_char_pos_ok [OF b]
    do_back_reference_ok [OF assms(1) b] do_prev_ok [OF assms(1) b] do_push_ok [OF b]
  show ?thesis
  proof (cases "op = REOP_push_i32")
    case True
    then show ?thesis
      using i u32 do_push_ok [of s \<phi> "?st\<lparr>pc := pc st + 1 + 4\<rparr>"] assms(2)
      by (auto simp: reop_step_def do_push_i32_def eval_nat_numeral)
  next
    case False
    then show ?thesis
      using i steps u8 assms(2,5) None assms(4)
      by (cases op) (auto simp: reop_step_def eval_nat_numeral simple_op_def range_len_def split: option.splits if_splits)
  qed
qed

section \<open>Greedy quantifiers\<close>

lemma same_rest_refl [simp]: "same_rest st (st\<lparr>pc := p, cptr := q\<rparr>)" "same_rest st (st\<lparr>pc := p\<rparr>)"
  by (simp_all add: same_rest_def)

lemma same_rest_trans: "same_rest a b \<Longrightarrow> same_rest b c \<Longrightarrow> same_rest a c"
  by (simp add: same_rest_def)

lemma same_rest_base_ok: "same_rest st st' \<Longrightarrow> base_ok s \<phi> st \<Longrightarrow> pos_ok s (cptr st') \<Longrightarrow> base_ok s \<phi> st'"
  by (simp add: same_rest_def base_ok_def)

lemma fetch_op_at: "fetch s st = op_at s (pc st)"
  by (simp add: fetch_def op_at_def)

definition body_run :: "REExecContext \<Rightarrow> re_state \<Rightarrow> nat \<Rightarrow> run \<Rightarrow> bool" where
  "body_run s st n r =
     (case r of
        Timeout \<Rightarrow> True
      | Done (Ret v) st' \<Rightarrow> v = 0 \<and> same_rest st st' \<and> pos_ok s (cptr st')
      | Done (Ret_Pos q) st' \<Rightarrow> same_rest st st' \<and> fwd s n (cptr st) q
      | _ \<Rightarrow> False)"

lemma body_run_step:
  assumes "body_run s st' n r" "same_rest st st'" "fwd s k (cptr st) (cptr st')"
  shows "body_run s st (k + n) r"
  using assms fwd_trans [of s k "cptr st" "cptr st'" n]
  by (auto simp: body_run_def dest: same_rest_trans split: run.splits exec_result.splits)

lemma body_exec:
  assumes "text_ok s" "pos_ok s (cptr st)" "body_chars s (pc st) = Some n"
  shows "body_run s st n (lre_exec_backtrack fuel s True st)"
  using assms(2,3)
proof (induction fuel arbitrary: st n)
  case 0
  then show ?case by (simp add: body_run_def)
next
  case (Suc fuel)
  show ?case
  proof (cases "op_at s (pc st) = Some REOP_match")
    case True
    then have "n = 0" using Suc.prems(2) by (simp add: body_chars.simps)
    with True show ?thesis
      by (simp add: fetch_op_at reop_step_def after_step_def body_run_def fwd_0)
  next
    case False
    then obtain l k m where lk: "simple_op s (pc st) = Some (l, k)" "body_chars s (pc st + l) = Some m" "n = k + m"
      using Suc.prems(2) by (subst (asm) body_chars.simps) (auto split: option.splits)
    obtain op where op: "op_at s (pc st) = Some op" "op \<noteq> REOP_simple_greedy_quant"
      "simple_result s st l k (reop_step s op (st\<lparr>pc := pc st + 1\<rparr>))"
      using simple_op_step [OF assms(1) Suc.prems(1) lk(1)] by blast
    have nxt: "body_run s st n (lre_exec_backtrack fuel s True st')"
      if "same_rest st st'" "pc st' = pc st + l" "fwd s k (cptr st) (cptr st')" for st'
      unfolding lk(3) using Suc.IH [of st' m] fwd_pos_ok [OF that(3) assms(1) Suc.prems(1)] lk(2) that
      by (simp add: body_run_step)
    show ?thesis using op nxt
      by (auto simp: fetch_op_at after_step_def simple_result_def body_run_def split: option.splits step_result.splits)
  qed
qed

lemma greedy_loop_ok:
  assumes "text_ok s" "body_chars s pc1 = Some n" "pos_ok s (cptr st)"
  shows "greedy_loop fuel s st pc1 q quant_max = Inr Timeout \<or>
    (\<exists>k st'. greedy_loop fuel s st pc1 q quant_max = Inl (q + k, st') \<and> same_rest st st' \<and>
       fwd s (k * n) (cptr st) (cptr st'))"
  using assms(3)
proof (induction fuel arbitrary: st q)
  case (Suc fuel)
  let ?r = "lre_exec_backtrack fuel s True (st\<lparr>pc := pc1\<rparr>)"
  have run: "body_run s (st\<lparr>pc := pc1\<rparr>) n ?r" using body_exec [OF assms(1)] Suc.prems assms(2) by simp
  consider "?r = Timeout" | st' where "?r = Done (Ret 0) st'" "same_rest st st'"
    | p st' where "?r = Done (Ret_Pos p) st'" "same_rest st st'" "fwd s n (cptr st) p"
    using run by (auto simp: body_run_def same_rest_def split: run.splits exec_result.splits)
  then show ?case
  proof cases
    case 2
    then have "same_rest st (st'\<lparr>cptr := cptr st, stack_len := stack_len st\<rparr>)" by (simp add: same_rest_def)
    with 2 show ?thesis using fwd_0 [of s "cptr st"] by (auto intro!: exI [of _ 0])
  next
    case 3
    let ?st = "st'\<lparr>cptr := p, stack_len := stack_len st\<rparr>"
    have rest: "same_rest st ?st" using 3(2) by (simp add: same_rest_def)
    have pos: "pos_ok s (cptr ?st)" using fwd_pos_ok [OF 3(3) assms(1) Suc.prems] by simp
    have more: "same_rest st st2 \<and> fwd s (Suc k * n) (cptr st) (cptr st2)"
      if "same_rest ?st st2" "fwd s (k * n) (cptr ?st) (cptr st2)" for k st2
      using same_rest_trans [OF rest that(1)] fwd_trans [OF 3(3)] that(2) by simp
    show ?thesis
    proof (cases "int q + 1 \<ge> uint quant_max \<and> quant_max \<noteq> 0x7fffffff")
      case True
      then show ?thesis using 3 rest by (auto intro!: exI [of _ "Suc 0"])
    next
      case False
      then have "greedy_loop (Suc fuel) s st pc1 q quant_max = greedy_loop fuel s ?st pc1 (q + 1) quant_max"
        using 3(1) by (auto simp: Let_def)
      with Suc.IH [OF pos, of "q + 1"] more show ?thesis by (metis add_Suc_right add_Suc_shift Suc_eq_plus1)
    qed
  qed simp
qed simp

lemma prev_chars_pos:
  "text_ok s \<Longrightarrow> pos_ok s p \<Longrightarrow> prev_chars s n p = Some r \<Longrightarrow> pos_ok s r"
proof (induction n arbitrary: p)
  case (Suc n)
  then obtain p' where p': "prevc s p = Some p'" "prev_chars s n p' = Some r"
    by (auto simp: prevc_def split: bind_splits)
  then have "0 < p" by (cases "p = 0") (auto simp: prevc_def PREV_CHAR_def ptr_sub_def split: if_splits)
  then have "pos_ok s p'" using prevc_ok [OF Suc.prems(1,2)] p'(1) by auto
  then show ?case using Suc.IH Suc.prems(1) p'(2) by blast
qed simp

lemma prev_chars_prefix:
  assumes "prev_chars s m p = Some r" "k \<le> m"
  shows "\<exists>r'. prev_chars s k p = Some r'"
  using prev_chars_add [of s k "m - k" p] assms by (auto split: bind_splits)

lemma greedy_okD:
  assumes "greedy_ok s \<phi> p d"
  obtains off t qmin qmax n where "get_u32 (bc_buf s) (p + 1) = Some off" "jump (p + 17) off = Some t" "\<phi> t = Some d"
    "get_u32 (bc_buf s) (p + 5) = Some qmin" "get_u32 (bc_buf s) (p + 9) = Some qmax"
    "get_u32 (bc_buf s) (p + 13) = Some n" "body_chars s (p + 17) = Some (unat n)"
proof -
  have "\<exists>q. get_u32 (bc_buf s) (p + 5) = Some q" "\<exists>q. get_u32 (bc_buf s) (p + 9) = Some q"
    using assms get_u32_fits [of "p + 5" "bc_buf s"] get_u32_fits [of "p + 9" "bc_buf s"] by (auto simp: greedy_ok_def)
  with assms that show ?thesis by (auto simp: greedy_ok_def split: option.splits)
qed

text \<open>After the loop of a quantifier the state goes on behind it or fails; the saved state allows to
  go back over all but the least number of repetitions.\<close>

lemma greedy_done_ok:
  assumes "text_ok s" "base_ok s \<phi> st" "\<phi> (pc st) = Some (stack_len st)" "greedy_ok s \<phi> p (stack_len st)"
    and "get_u32 (bc_buf s) (p + 13) = Some n" "fwd s (q * unat n) c0 (cptr st)" "pos_ok s c0"
  shows "\<exists>r. greedy_done s st (p + 17) q quant_min = Some r \<and> result_ok s \<phi> r"
proof (cases "int q > uint quant_min")
  case True
  let ?k = "q - unat quant_min"
  have "unat quant_min < q" using True by (metis of_nat_less_iff uint_nat)
  then have k: "1 \<le> ?k" "?k * unat n \<le> q * unat n" by (auto intro: mult_le_mono1)
  obtain r where "prev_chars s (q * unat n) (cptr st) = Some r"
    using fwd_prev_chars [OF assms(6,1,7)] by blast
  then have "\<exists>r. prev_chars s (?k * unat n) (cptr st) = Some r" using prev_chars_prefix k(2) by blast
  then have "saved_ok s \<phi> \<lparr>rs_type = RE_EXEC_STATE_GREEDY_QUANT, rs_count = ?k, rs_cptr = cptr st, rs_pc = p + 1,
        rs_capture = cap, rs_stack = take (stack_len st) (stack st)\<rparr>" if "caps_ok s cap" for cap
    using that base_okD [OF assms(2)] assms(4,5) k(1) by (auto simp: saved_ok_def min_def eval_nat_numeral)
  from push_state_ok [OF assms(2) base_okD(2) [OF assms(2)] this]
  obtain ok st' where "push_state s st (p + 1) (cptr st) RE_EXEC_STATE_GREEDY_QUANT ?k = Some (ok, st')"
     "base_ok s \<phi> st'" "pc st' = pc st" "stack_len st' = stack_len st"
    by blast
  moreover have "ptr_sub (p + 17) 16 = Some (p + 1)" by (simp add: ptr_sub_def)
  ultimately show ?thesis using True assms(3)
    by (auto simp: greedy_done_def state_ok_def)
next
  case False
  then show ?thesis using assms by (auto simp: greedy_done_def state_ok_def)
qed

section \<open>Unwinding\<close>

text \<open>What restoring needs of a state: the arrays have their sizes.\<close>

lemma restore_stack_ok:
  assumes "length (stack st) = stack_size_max s" "length (rs_stack rs) \<le> stack_size_max s"
  shows "\<exists>stk. restore_stack st rs = Some (st\<lparr>stack := stk, stack_len := length (rs_stack rs)\<rparr>) \<and> length stk = stack_size_max s"
  using memcpy_fits [of 0 "rs_stack rs" "stack st"] assms by (auto simp: restore_stack_def memcpy_def)

lemma restore_capture_ok:
  assumes "length (capture st) = 2 * capture_count s" "caps_ok s (rs_capture rs)"
  shows "restore_capture st rs = Some (st\<lparr>capture := rs_capture rs\<rparr>)"
  using assms by (simp add: restore_capture_def memcpy_def caps_ok_def)

lemma pop_state1_ok:
  assumes "base_ok s \<phi> st" "saved_ok s \<phi> rs" "rs_type rs \<noteq> RE_EXEC_STATE_GREEDY_QUANT" "\<forall>r \<in> set rest. saved_ok s \<phi> r"
  shows "\<exists>st'. pop_state1 st rs rest = Some st' \<and> state_ok s \<phi> st'"
proof -
  have rs: "pos_ok s (rs_cptr rs)" "length (rs_stack rs) \<le> stack_size_max s" "\<phi> (rs_pc rs) = Some (length (rs_stack rs))"
    using assms(2,3) by (auto simp: saved_ok_def)
  obtain stk where "restore_stack (st\<lparr>pc := rs_pc rs, cptr := rs_cptr rs\<rparr>) rs =
      Some (st\<lparr>pc := rs_pc rs, cptr := rs_cptr rs, stack := stk, stack_len := length (rs_stack rs)\<rparr>)"
      "length stk = stack_size_max s"
    using restore_stack_ok [of "st\<lparr>pc := rs_pc rs, cptr := rs_cptr rs\<rparr>" s rs] base_okD(3) [OF assms(1)] rs(2) by auto
  then show ?thesis using assms(1,4) rs by (simp add: pop_state1_def base_ok_def state_ok_def)
qed

lemma pop_state_ok:
  assumes "base_ok s \<phi> st" "saved_ok s \<phi> rs" "rs_type rs \<noteq> RE_EXEC_STATE_GREEDY_QUANT" "\<forall>r \<in> set rest. saved_ok s \<phi> r"
  shows "\<exists>st'. pop_state st rs rest = Some st' \<and> state_ok s \<phi> st'"
proof -
  have "caps_ok s (rs_capture rs)" using assms(2) by (simp add: saved_ok_def)
  moreover have "restore_capture st rs = Some (st\<lparr>capture := rs_capture rs\<rparr>)"
    using restore_capture_ok base_okD(1) [OF assms(1)] calculation by (simp add: caps_ok_def)
  ultimately show ?thesis
    using pop_state1_ok [OF base_ok_capture [OF assms(1)] assms(2-4)] by (simp add: pop_state_def)
qed

lemma saved_shorter:
  assumes "text_ok s" "saved_ok s \<phi> rs" "rs_type rs = RE_EXEC_STATE_GREEDY_QUANT"
    "get_u32 (bc_buf s) (rs_pc rs + 12) = Some n"
  obtains p where "prev_chars s (unat n) (rs_cptr rs) = Some p" "pos_ok s p"
    "rs_count rs - 1 \<noteq> 0 \<Longrightarrow> saved_ok s \<phi> (rs\<lparr>rs_cptr := p, rs_count := rs_count rs - 1\<rparr>)"
proof -
  obtain r where r: "prev_chars s (rs_count rs * unat n) (rs_cptr rs) = Some r" and c1: "1 \<le> rs_count rs"
    using assms(2-4) by (auto simp: saved_ok_def)
  have "rs_count rs * unat n = unat n + (rs_count rs - 1) * unat n" using c1 by (cases "rs_count rs") auto
  then obtain p where p: "prev_chars s (unat n) (rs_cptr rs) = Some p" "prev_chars s ((rs_count rs - 1) * unat n) p = Some r"
    using r prev_chars_add [of s "unat n"] by (auto split: bind_splits)
  have "pos_ok s p" using prev_chars_pos [OF assms(1) _ p(1)] assms(2) by (simp add: saved_ok_def)
  with that p assms(2-4) show ?thesis by (auto simp: saved_ok_def)
qed

lemma greedy_retry_ok:
  assumes "text_ok s" "base_ok s \<phi> st" "saved_ok s \<phi> rs" "rs_type rs = RE_EXEC_STATE_GREEDY_QUANT"
    "\<forall>r \<in> set rest. saved_ok s \<phi> r"
  shows "\<exists>st'. greedy_retry s st rs rest = Some st' \<and> state_ok s \<phi> st'"
proof -
  have g: "greedy_ok s \<phi> (rs_pc rs - 1) (length (rs_stack rs))" and pc1: "1 \<le> rs_pc rs"
    and caps: "caps_ok s (rs_capture rs)" "length (rs_stack rs) \<le> stack_size_max s"
    using assms(3,4) by (auto simp: saved_ok_def)
  have pcs: "rs_pc rs - 1 + 1 = rs_pc rs" "rs_pc rs - 1 + 13 = rs_pc rs + 12" "rs_pc rs - 1 + 17 = rs_pc rs + 16"
    using pc1 by auto
  obtain off t n where w: "get_u32 (bc_buf s) (rs_pc rs) = Some off" "jump (rs_pc rs + 16) off = Some t"
    "\<phi> t = Some (length (rs_stack rs))" "get_u32 (bc_buf s) (rs_pc rs + 12) = Some n"
    using greedy_okD [OF g, unfolded pcs] by blast
  obtain p where p: "prev_chars s (unat n) (rs_cptr rs) = Some p" "pos_ok s p"
    "rs_count rs - 1 \<noteq> 0 \<Longrightarrow> saved_ok s \<phi> (rs\<lparr>rs_cptr := p, rs_count := rs_count rs - 1\<rparr>)"
    using saved_shorter [OF assms(1,3,4) w(4)] by blast
  note b = base_okD [OF assms(2)]
  have cap: "restore_capture st rs = Some (st\<lparr>capture := rs_capture rs\<rparr>)"
    using restore_capture_ok b(1) caps(1) by (simp add: caps_ok_def)
  obtain stk where "restore_stack (st\<lparr>capture := rs_capture rs\<rparr>) rs =
      Some (st\<lparr>capture := rs_capture rs, stack := stk, stack_len := length (rs_stack rs)\<rparr>)" "length stk = stack_size_max s"
    using restore_stack_ok [of "st\<lparr>capture := rs_capture rs\<rparr>" s rs] b(3) caps(2) by auto
  with cap w p b caps assms(5) show ?thesis
    by (auto simp: greedy_retry_def Let_def state_ok_def base_ok_def)
qed

definition unwind_ok :: "REExecContext \<Rightarrow> (nat \<Rightarrow> nat option) \<Rightarrow> ((bool \<times> re_state) + re_state) option \<Rightarrow> bool" where
  "unwind_ok s \<phi> u = (case u of None \<Rightarrow> False | Some (Inl (ret, st)) \<Rightarrow> base_ok s \<phi> st | Some (Inr st) \<Rightarrow> state_ok s \<phi> st)"

lemma unwind_ok_Inr: "\<exists>st'. f = Some st' \<and> state_ok s \<phi> st' \<Longrightarrow> unwind_ok s \<phi> (map_option Inr f)"
  by (auto simp: unwind_ok_def)

lemma unwind_keeps:
  assumes "text_ok s" "base_ok s \<phi> st" "\<forall>rs \<in> set l. saved_ok s \<phi> rs"
  shows "unwind_ok s \<phi> (unwind s ret st l)"
  using assms(3)
proof (induction l arbitrary: ret)
  case Nil
  then show ?case using assms(2) by (simp add: unwind_ok_def base_ok_def)
next
  case (Cons rs rest)
  then have rs: "saved_ok s \<phi> rs" "\<forall>r \<in> set rest. saved_ok s \<phi> r" by auto
  show ?case
    using Cons.IH [OF rs(2)] unwind_ok_Inr [OF pop_state_ok [OF assms(2) rs(1) _ rs(2)]]
      unwind_ok_Inr [OF pop_state1_ok [OF assms(2) rs(1) _ rs(2)]]
      unwind_ok_Inr [OF greedy_retry_ok [OF assms(1,2) rs(1) _ rs(2)]]
    by (cases "rs_type rs") auto
qed

section \<open>Verified code is safe\<close>

definition run_ok :: "REExecContext \<Rightarrow> run \<Rightarrow> bool" where
  "run_ok s r =
     (case r of
        Timeout \<Rightarrow> True
      | Done (Ret v) st \<Rightarrow> v \<in> {-1, 0, 1} \<and> caps_ok s (capture st)
      | _ \<Rightarrow> False)"

lemma after_unwind_ok:
  "unwind_ok s \<phi> u \<Longrightarrow> case after_unwind u of Inl r \<Rightarrow> run_ok s r | Inr st \<Rightarrow> state_ok s \<phi> st"
  by (auto simp: unwind_ok_def after_unwind_def run_ok_def base_ok_def split: option.splits sum.splits)

lemma after_step_ok:
  assumes "text_ok s" "result_ok s \<phi> r"
  shows "case after_step s False (Some r) of Inl r \<Rightarrow> run_ok s r | Inr st \<Rightarrow> state_ok s \<phi> st"
proof (cases r)
  case (Fail st)
  then show ?thesis using assms by (simp add: after_step_def run_ok_def base_ok_def)
qed (use assms in \<open>auto simp: after_step_def dest: base_okD(5) intro!: after_unwind_ok unwind_keeps\<close>)

lemma exec_safe:
  assumes "text_ok s" "\<And>p d. \<phi> p = Some d \<Longrightarrow> instr_ok s \<phi> p d" "state_ok s \<phi> st"
  shows "run_ok s (lre_exec_backtrack fuel s False st)"
  using assms(3)
proof (induction fuel arbitrary: st)
  case 0
  then show ?case by (simp add: run_ok_def)
next
  case (Suc fuel)
  have b: "base_ok s \<phi> st" and ok: "instr_ok s \<phi> (pc st) (stack_len st)"
    using Suc.prems assms(2) by (auto simp: state_ok_def)
  then obtain op where op: "op_at s (pc st) = Some op"
    by (auto simp: instr_ok_def simple_op_def split: option.splits bind_splits)
  have go: "run_ok s (case after_step s False (Some r) of Inl r \<Rightarrow> r | Inr st \<Rightarrow> lre_exec_backtrack fuel s False st)"
    if "result_ok s \<phi> r" for r
    using after_step_ok [OF assms(1) that] Suc.IH by (auto split: sum.splits)
  show ?case
  proof (cases "op = REOP_simple_greedy_quant")
    case False
    then obtain r where "reop_step s op (st\<lparr>pc := pc st + 1\<rparr>) = Some r" "result_ok s \<phi> r"
      using reop_step_ok [OF assms(1) b ok op] by blast
    with False op go show ?thesis by (simp add: fetch_op_at)
  next
    case True
    then have g: "greedy_ok s \<phi> (pc st) (stack_len st)" using ok op by (simp add: instr_ok_def simple_op_def)
    then obtain off t qmin qmax n where w: "get_u32 (bc_buf s) (pc st + 1) = Some off" "jump (pc st + 17) off = Some t"
        "\<phi> t = Some (stack_len st)" "get_u32 (bc_buf s) (pc st + 5) = Some qmin" "get_u32 (bc_buf s) (pc st + 9) = Some qmax"
        "get_u32 (bc_buf s) (pc st + 13) = Some n" "body_chars s (pc st + 17) = Some (unat n)"
      by (rule greedy_okD)
    have par: "greedy_params s (st\<lparr>pc := pc st + 1\<rparr>) = Some (pc st + 17, t, qmin, qmax)"
      using w by (simp add: greedy_params_def Let_def eval_nat_numeral)
    consider "greedy_loop fuel s st (pc st + 17) 0 qmax = Inr Timeout"
      | q st' where "greedy_loop fuel s st (pc st + 17) 0 qmax = Inl (q, st')" "same_rest st st'"
          "fwd s (q * unat n) (cptr st) (cptr st')"
      using greedy_loop_ok [OF assms(1) w(7) base_okD(2) [OF b], of fuel 0 qmax] by auto
    then show ?thesis
    proof cases
      case 1
      with True op par show ?thesis by (simp add: fetch_op_at run_ok_def)
    next
      case 2
      have st': "base_ok s \<phi> (st'\<lparr>pc := t\<rparr>)" "stack_len st' = stack_len st"
        using same_rest_base_ok [OF 2(2) b] fwd_pos_ok [OF 2(3) assms(1) base_okD(2) [OF b]] 2(2) by (auto simp: same_rest_def)
      obtain r where "greedy_done s (st'\<lparr>pc := t\<rparr>) (pc st + 17) q qmin = Some r" "result_ok s \<phi> r"
        using greedy_done_ok [OF assms(1) st'(1) _ _ w(6), of q "cptr st" qmin] w(3) g 2(3) st'(2) base_okD(2) [OF b] by auto
      with True op par 2(1) go show ?thesis by (simp add: fetch_op_at)
    qed
  qed
qed

text \<open>Reading a character and stepping back over it, written out for the property below.\<close>

lemma getc_prevc_char:
  assumes "getc s p = Some (c, q)" and "\<not> mid_pair s p" and "text_ok s" "pos_ok s p" "p < cbuf_end s"
  shows "GET_PREV_CHAR (cbuf_type s) (cbuf s) q 0 = Some (c, p)"
proof -
  have q: "pos_ok s q" using getc_ok [OF assms(3-5)] assms(1) by simp
  have q0: "0 < q" using GET_CHAR_progress [OF assms(1) [unfolded getc_def]] by simp
  obtain c' where c': "GET_PREV_CHAR (cbuf_type s) (cbuf s) q 0 = Some (c', p)"
    using PREV_CHAR_eq_GET_PREV [OF assms(3) q q0] getc_prevc [OF assms] by auto
  show ?thesis
  proof (cases "cbuf_type s = 0")
    case True
    then show ?thesis using assms(1) c' by (auto simp: getc_def GET_CHAR_def GET_PREV_CHAR_def ptr_sub_def split: bind_splits if_splits)
  next
    case False
    then have "q = p + 2 \<or> q = p + 4"
      using assms(1) by (auto simp: getc_def GET_CHAR_def Let_def split: bind_splits if_splits)
    then show ?thesis using False assms(1) c'
      by (elim disjE) (auto simp: getc_def GET_CHAR_def GET_PREV_CHAR_def ptr_sub_def Let_def split: bind_splits if_splits)
  qed
qed

text \<open>A class of \<open>n\<close> intervals stored from offset \<open>p\<close>, with bounds of \<open>w\<close> bytes.\<close>

definition class_at :: "nat \<Rightarrow> u8 list \<Rightarrow> nat \<Rightarrow> (u32 \<times> u32) list \<Rightarrow> bool" where
  "class_at w buf p xs \<longleftrightarrow>
     list_all (\<lambda>i. get_bound w buf (p + i * (2 * w)) = Some (fst (xs ! i)) \<and>
                  get_bound w buf (p + i * (2 * w) + w) = Some (snd (xs ! i))) [0..<length xs]"

text \<open>Ordered intervals: none is empty and each ends before the next one begins.\<close>

definition ordered_class :: "(u32 \<times> u32) list \<Rightarrow> bool" where
  "ordered_class xs \<longleftrightarrow> sorted_wrt (\<lambda>a b. snd a < fst b) xs \<and> list_all (\<lambda>(lo, hi). lo \<le> hi) xs"

definition in_class :: "(u32 \<times> u32) list \<Rightarrow> u32 \<Rightarrow> bool" where
  "in_class xs c \<longleftrightarrow> list_ex (\<lambda>(lo, hi). lo \<le> c \<and> c \<le> hi) xs"

lemma class_at_nth:
  "class_at w buf p xs \<Longrightarrow> i < length xs \<Longrightarrow> get_bound w buf (p + i * (2 * w)) = Some (fst (xs ! i))"
  "class_at w buf p xs \<Longrightarrow> i < length xs \<Longrightarrow> get_bound w buf (p + i * (2 * w) + w) = Some (snd (xs ! i))"
  by (simp_all add: class_at_def list_all_iff)

lemma ordered_class_nth:
  assumes "ordered_class xs" "j < length xs"
  shows "fst (xs ! j) \<le> snd (xs ! j)" "i < j \<Longrightarrow> snd (xs ! i) < fst (xs ! j)"
    "i < j \<Longrightarrow> fst (xs ! i) < fst (xs ! j)" "i < j \<Longrightarrow> snd (xs ! i) < snd (xs ! j)"
proof -
  have le: "fst (xs ! k) \<le> snd (xs ! k)" if "k < length xs" for k
    using assms(1) that nth_mem [OF that] unfolding ordered_class_def list_all_iff by (metis case_prod_beta)
  have lt: "i < j \<Longrightarrow> snd (xs ! i) < fst (xs ! j)" for i
    using assms by (auto simp: ordered_class_def sorted_wrt_iff_nth_less)
  show "fst (xs ! j) \<le> snd (xs ! j)" using le assms(2) .
  show "i < j \<Longrightarrow> snd (xs ! i) < fst (xs ! j)" by (rule lt)
  show "i < j \<Longrightarrow> fst (xs ! i) < fst (xs ! j)" using le_less_trans [OF le lt] assms(2) by simp
  show "i < j \<Longrightarrow> snd (xs ! i) < snd (xs ! j)" using less_le_trans [OF lt le [OF assms(2)]] .
qed

lemma in_class_nth: "in_class xs c \<longleftrightarrow> (\<exists>i < length xs. fst (xs ! i) \<le> c \<and> c \<le> snd (xs ! i))"
  by (simp add: in_class_def list_ex_length case_prod_beta)

lemma range_search_correct:
  assumes "class_at w buf p xs" "ordered_class xs" "0 < length xs" "fst (xs ! 0) \<le> c"
    "0 \<le> lo" "hi < int (length xs)"
    "\<And>i. i < length xs \<Longrightarrow> int i < lo \<Longrightarrow> snd (xs ! i) < c"
    "\<And>i. i < length xs \<Longrightarrow> hi < int i \<Longrightarrow> c < fst (xs ! i)"
  shows "range_search w buf p c lo hi = Some (in_class xs c)"
  using assms
proof (induction w buf p c lo hi rule: range_search.induct)
  case (1 w buf p c lo hi)
  note pr = "1.prems"
  show ?case
  proof (cases "lo \<le> hi")
    case False
    have "\<not> in_class xs c"
    proof
      assume "in_class xs c"
      then obtain i where i: "i < length xs" "fst (xs ! i) \<le> c" "c \<le> snd (xs ! i)" unfolding in_class_nth by blast
      then have "\<not> int i < lo" "\<not> hi < int i" using pr(7,8) [OF i(1)] by (meson leD)+
      with False show False by simp
    qed
    with False show ?thesis by (subst range_search.simps) simp
  next
    case True
    define idx where "idx = (lo + hi) div 2"
    have idx: "lo \<le> idx" "idx \<le> hi" "nat idx < length xs" using True pr unfolding idx_def by auto
    note b = class_at_nth [OF pr(1) idx(3)]
    have ord: "fst (xs ! i) < fst (xs ! nat idx)" if "i < nat idx" for i using ordered_class_nth [OF pr(2) idx(3)] that by blast
    have up: "snd (xs ! nat idx) < fst (xs ! i)" if "nat idx < i" "i < length xs" for i
      using ordered_class_nth [OF pr(2) that(2)] that(1) by blast
    have down: "snd (xs ! i) < snd (xs ! nat idx)" if "i < nat idx" for i using ordered_class_nth [OF pr(2) idx(3)] that by blast
    show ?thesis
    proof (cases "c < fst (xs ! nat idx)")
      case lt: True
      have nz: "idx \<noteq> 0" using lt pr(4) by auto
      have "c < fst (xs ! i)" if "i < length xs" "idx - 1 < int i" for i
      proof (cases "int i = idx")
        case False
        with that idx(1) pr(5) have "nat idx < i" by linarith
        then have "fst (xs ! nat idx) < fst (xs ! i)" using ordered_class_nth(3) [OF pr(2) that(1)] by blast
        with lt show ?thesis by (rule less_trans)
      qed (use lt in auto)
      then have "range_search w buf p c lo (idx - 1) = Some (in_class xs c)"
        using "1.IH"(1) [OF True idx_def b lt nz pr(1-5)] pr(6,7) idx by simp
      with True b lt nz show ?thesis by (subst range_search.simps) (simp add: idx_def [symmetric])
    next
      case ge: False
      show ?thesis
      proof (cases "c > snd (xs ! nat idx)")
        case gt: True
        have "snd (xs ! i) < c" if "i < length xs" "int i < idx + 1" for i
        proof (cases "int i = idx")
          case False
          with that idx(1) pr(5) have "i < nat idx" by linarith
          with down gt show ?thesis by (blast intro: less_trans)
        qed (use gt in auto)
        then have "range_search w buf p c (idx + 1) hi = Some (in_class xs c)"
          using "1.IH"(2) [OF True idx_def b ge gt pr(1-4)] pr(5,6,8) idx by simp
        with True b ge gt show ?thesis by (subst range_search.simps) (simp add: idx_def [symmetric])
      next
        case False
        then have "in_class xs c" using ge idx(3) by (auto simp: in_class_nth not_less)
        with True b ge False show ?thesis by (subst range_search.simps) (simp add: idx_def [symmetric])
      qed
    qed
  qed
qed

lemma in_class_bounds:
  assumes "ordered_class xs" "xs \<noteq> []" "in_class xs c"
  shows "fst (xs ! 0) \<le> c" "c \<le> snd (xs ! (length xs - 1))"
proof -
  obtain i where i: "i < length xs" "fst (xs ! i) \<le> c" "c \<le> snd (xs ! i)" using assms(3) unfolding in_class_nth by blast
  have "fst (xs ! 0) \<le> fst (xs ! i)" using ordered_class_nth(3) [OF assms(1) i(1), of 0] by (cases "i = 0") auto
  then show "fst (xs ! 0) \<le> c" using i(2) by (rule order_trans)
  have last: "length xs - 1 < length xs" using assms(2) by simp
  have "snd (xs ! i) \<le> snd (xs ! (length xs - 1))"
  proof (cases "i = length xs - 1")
    case False
    then have "i < length xs - 1" using i(1) by simp
    then show ?thesis using ordered_class_nth(4) [OF assms(1) last] by (blast intro: less_imp_le)
  qed simp
  with i(3) show "c \<le> snd (xs ! (length xs - 1))" by (rule order_trans)
qed

lemma range_test_correct:
  assumes "class_at w buf p xs" "ordered_class xs" "xs \<noteq> []"
  shows "range_test w buf p (length xs) c =
    Some (in_class xs c \<or> (w = 2 \<and> 0xffff \<le> c \<and> snd (xs ! (length xs - 1)) = 0xffff))"
proof -
  have n: "0 < length xs" "length xs - 1 < length xs" using assms(3) by auto
  note b = class_at_nth(1) [OF assms(1) n(1)] class_at_nth(2) [OF assms(1) n(2)]
  have first: "fst (xs ! 0) \<le> snd (xs ! (length xs - 1))"
  proof (cases "length xs = 1")
    case True
    then show ?thesis using ordered_class_nth(1) [OF assms(2) n(1)] by simp
  next
    case False
    then have "0 < length xs - 1" using n(1) by linarith
    from less_le_trans [OF ordered_class_nth(3) [OF assms(2) n(2) this] ordered_class_nth(1) [OF assms(2) n(2)]]
    show ?thesis by simp
  qed
  show ?thesis
  proof (cases "c < fst (xs ! 0)")
    case True
    then have "\<not> in_class xs c" using in_class_bounds(1) [OF assms(2,3)] by (meson leD)
    moreover have "\<not> (0xffff \<le> c \<and> snd (xs ! (length xs - 1)) = 0xffff)" using True first by auto
    ultimately show ?thesis using True b by (simp add: range_test_def)
  next
    case False
    then have ge: "fst (xs ! 0) \<le> c" by simp
    have search: "range_search w buf p c 0 (int (length xs) - 1) = Some (in_class xs c)"
      using range_search_correct [OF assms(1,2) n(1) ge, of 0 "int (length xs) - 1"] by simp
    have "\<not> in_class xs c" if "snd (xs ! (length xs - 1)) < c"
      using in_class_bounds(2) [OF assms(2,3)] that by (meson leD)
    then show ?thesis using False b n search by (auto simp: range_test_def)
  qed
qed

section \<open>Properties\<close>

text \<open>C2: Code accepted by the verifier is executed safely by \<open>lre_exec\<close>: for every subject in any of
  the three encodings, every start index inside it and every allocator, no run reads outside the
  code or the subject, leaves the arrays of captures and of the stack, meets an unknown opcode or
  fails an assertion. A run that ends returns -1, 0 or 1 and every capture it leaves is unset or
  a position inside the subject. This holds for any amount of fuel.\<close>

theorem lre_exec_safe:
  assumes "exec_context alloc bc txt ty = Some s" and "verified s depths"
    and "ty = 0 \<or> even (length txt)" and "cindex * 2 ^ ty \<le> length txt"
  shows "case lre_exec fuel alloc bc txt cindex ty of
      Undefined \<Rightarrow> False
    | Timeout \<Rightarrow> True
    | Done r st \<Rightarrow> r \<in> {Ret (-1), Ret 0, Ret 1} \<and> length (capture st) = 2 * capture_count s \<and>
        (\<forall>p. Some p \<in> set (capture st) \<longrightarrow> p \<le> length txt)"
proof -
  have s: "cbuf s = txt" "cbuf_type s = 0 \<longleftrightarrow> ty = 0"
    using assms(1) by (auto simp: exec_context_def Let_def split: bind_splits if_splits)
  have t: "text_ok s" using assms(3) s by (auto simp: text_ok_def)
  have "pos_ok s (cindex * 2 ^ ty)" using assms(4) s by (cases ty) (auto simp: pos_ok_def cbuf_end_def)
  then have "state_ok s (map_of depths) (init_state s (cindex * 2 ^ ty))"
    using assms(2) by (auto simp: state_ok_def base_ok_def init_state_def caps_ok_def verified_def)
  then have "run_ok s (lre_exec_backtrack fuel s False (init_state s (cindex * 2 ^ ty)))"
    using exec_safe [OF t, of "map_of depths"] verified_instr [OF assms(2)] by blast
  then show ?thesis using assms(1) s(1)
    by (auto simp: lre_exec_def run_ok_def caps_ok_def pos_ok_def cbuf_end_def split: run.splits exec_result.splits)
qed

text \<open>The code of the sticky expression \<^verbatim>\<open>a*[b-z]\<close>: a greedy quantifier and a class.\<close>

definition sample_code :: "u8 list" where
  "sample_code = [32, 1, 0, 33, 0, 0, 0] @
     [reop_byte REOP_save_start, 0,
      reop_byte REOP_simple_greedy_quant, 4, 0, 0, 0, 0, 0, 0, 0, 0xff, 0xff, 0xff, 0x7f, 1, 0, 0, 0,
      reop_byte REOP_char, 0x61, 0, reop_byte REOP_match,
      reop_byte REOP_range, 1, 0, 0x62, 0, 0x7a, 0,
      reop_byte REOP_save_end, 0, reop_byte REOP_match]"

definition sample_context :: "REExecContext" where
  "sample_context = the (exec_context (\<lambda>_. True) sample_code [0x61, 0x61, 0x63] 0)"

theorem lre_exec_safe_witness:
  "exec_context (\<lambda>_. True) sample_code [0x61, 0x61, 0x63] 0 = Some sample_context \<and>
   verified sample_context [(7, 0), (9, 0), (30, 0), (37, 0), (39, 0)] \<and>
   (case lre_exec 100 (\<lambda>_. True) sample_code [0x61, 0x61, 0x63] 0 0 of
      Undefined \<Rightarrow> False
    | Timeout \<Rightarrow> True
    | Done r st \<Rightarrow> r \<in> {Ret (-1), Ret 0, Ret 1} \<and> length (capture st) = 2 * capture_count sample_context \<and>
        (\<forall>p. Some p \<in> set (capture st) \<longrightarrow> p \<le> length [0x61, 0x61, 0x63 :: u8]))"
proof -
  have c: "exec_context (\<lambda>_. True) sample_code [0x61, 0x61, 0x63] 0 = Some sample_context"
    by (simp add: sample_context_def sample_code_def exec_context_def re_header_defs get_u8_def rd_def Let_def)
  have v: "verified sample_context [(7, 0), (9, 0), (30, 0), (37, 0), (39, 0)]" by code_simp
  show ?thesis using c v lre_exec_safe [OF c v, of 0 100] by simp
qed

text \<open>C29: In well-formed positions of the subject, reading a character forward and reading backward
  from where it ended give the same character and return to the start, in each of the three
  encodings; in UTF-16 this holds unless the start is between the two halves of a surrogate pair.\<close>

theorem subject_char_roundtrip:
  assumes "cbuf_type s = 0 \<or> even (length (cbuf s))" "cbuf_type s = 0 \<or> even p" "p < length (cbuf s)"
    and "\<not> mid_pair s p"
  shows "\<exists>c q. GET_CHAR (cbuf_type s) (cbuf s) p (length (cbuf s)) = Some (c, q) \<and> q \<le> length (cbuf s) \<and>
    GET_PREV_CHAR (cbuf_type s) (cbuf s) q 0 = Some (c, p) \<and> PREV_CHAR (cbuf_type s) (cbuf s) q 0 = Some p"
proof -
  have ok: "text_ok s" "pos_ok s p" "p < cbuf_end s"
    using assms by (auto simp: text_ok_def pos_ok_def cbuf_end_def)
  obtain c q where c: "getc s p = Some (c, q)" "pos_ok s q" using getc_ok [OF ok] by blast
  show ?thesis
    using c getc_prevc_char [OF c(1) assms(4) ok] getc_prevc [OF c(1) assms(4) ok]
    by (auto simp: getc_def prevc_def pos_ok_def cbuf_end_def)
qed

definition sample_utf16 :: "REExecContext" where
  "sample_utf16 = sample_context\<lparr>cbuf := [0x3d, 0xd8, 0x00, 0xde, 0x61, 0x00], cbuf_type := 2\<rparr>"

theorem subject_char_roundtrip_witness:
  "\<exists>c q. GET_CHAR (cbuf_type sample_utf16) (cbuf sample_utf16) 0 (length (cbuf sample_utf16)) = Some (c, q) \<and>
    q \<le> length (cbuf sample_utf16) \<and>
    GET_PREV_CHAR (cbuf_type sample_utf16) (cbuf sample_utf16) q 0 = Some (c, 0) \<and>
    PREV_CHAR (cbuf_type sample_utf16) (cbuf sample_utf16) q 0 = Some 0"
  by (rule subject_char_roundtrip) (simp_all add: sample_utf16_def mid_pair_def)

text \<open>The binary search of the range instructions decides membership: for a class stored as
  ordered intervals it answers whether the character lies in one of them. With 16-bit bounds a
  last interval that ends at 0xffff reaches to infinity.\<close>

theorem range_test_membership:
  assumes "class_at w buf p xs" "ordered_class xs" "xs \<noteq> []"
  shows "range_test w buf p (length xs) c =
    Some (list_ex (\<lambda>(lo, hi). lo \<le> c \<and> c \<le> hi) xs \<or> (w = 2 \<and> 0xffff \<le> c \<and> snd (last xs) = 0xffff))"
  using range_test_correct [OF assms] assms(3) by (simp add: in_class_def last_conv_nth)

theorem range_test_membership_witness:
  "class_at 2 [0x30, 0, 0x39, 0, 0x41, 0, 0xff, 0xff] 0 [(0x30, 0x39), (0x41, 0xffff)] \<and>
   ordered_class [(0x30, 0x39), (0x41, 0xffff)] \<and>
   range_test 2 [0x30, 0, 0x39, 0, 0x41, 0, 0xff, 0xff] 0 (length [(0x30 :: u32, 0x39 :: u32), (0x41, 0xffff)]) 0x3a = Some False"
proof -
  have c: "class_at 2 [0x30, 0, 0x39, 0, 0x41, 0, 0xff, 0xff] 0 [(0x30, 0x39), (0x41, 0xffff)]"
    "ordered_class [(0x30, 0x39), (0x41, 0xffff)]" by code_simp+
  show ?thesis using c range_test_membership [OF c, of "0x3a"] by simp
qed

end
