(* ===== verification/Regexp_Parse.thy ===== *)
theory Regexp_Parse
  imports Regexp_Code Unicode_Case Unicode_Lookup Unicode_Prop Utf8
begin

text \<open>
  The lexical part of the regular expression compiler of \<^verbatim>\<open>src/qjs/libregexp.c\<close>: the state of the parser,
  emission of byte code, escapes, atoms and character classes.

  The pattern is a block of memory with its terminating zero, and a pointer into it is an offset. A parser
  function returns \<open>None\<close> for undefined behaviour; otherwise its outcome is a result, a failure (the return value
  -1, with the state that holds the message), a loop that never ends, or \<open>Exhausted\<close> when the bound on the nesting of groups
  or on the number of rounds of a loop was too small for the pattern. What was allocated is a matter of the
  predicate \<open>ps_realloc\<close>; \<open>ps_stack_overflow\<close> says at which nesting depth \<open>lre_check_stack_overflow\<close> reports that the C
  stack is used up.
\<close>

section \<open>State and outcomes\<close>

definition TMP_BUF_SIZE :: nat where "TMP_BUF_SIZE = 128"

record REParseState =
  byte_code :: DynBuf
  ps_buf :: "u8 list"
  buf_ptr :: nat
  buf_end :: nat
  ps_is_utf16 :: bool
  ps_ignore_case :: bool
  dotall :: bool
  ps_capture_count :: nat
  total_capture_count :: int
  has_named_captures :: int
  group_names :: DynBuf
  u_buf :: "u8 list"
  ps_realloc :: "nat \<Rightarrow> bool"
  ps_stack_overflow :: "nat \<Rightarrow> bool"

datatype 'a outcome = Done 'a | Failed REParseState | Never | Exhausted

text \<open>Continue with the result of a call, and pass every other outcome on.\<close>

definition andthen :: "'a outcome option \<Rightarrow> ('a \<Rightarrow> 'b outcome option) \<Rightarrow> 'b outcome option" where
  "andthen r f =
     (case r of None \<Rightarrow> None | Some (Done x) \<Rightarrow> f x | Some (Failed s) \<Rightarrow> Some (Failed s) | Some Never \<Rightarrow> Some Never
      | Some Exhausted \<Rightarrow> Some Exhausted)"

definition asc :: "char \<Rightarrow> u8" where
  "asc c = of_nat (of_char c)"

definition at :: "REParseState \<Rightarrow> nat \<Rightarrow> u8 option" where
  "at s p = rd (ps_buf s) p"

definition is_digit :: "u8 \<Rightarrow> bool" where
  "is_digit c \<longleftrightarrow> c \<ge> asc CHR ''0'' \<and> c \<le> asc CHR ''9''"

section \<open>Emission\<close>

text \<open>The results of the calls that append to the byte code are ignored; the buffer remembers an error.\<close>

definition emit :: "REParseState \<Rightarrow> (int \<times> DynBuf) option \<Rightarrow> REParseState option" where
  "emit s r = do { (_, d) \<leftarrow> r; Some (s\<lparr>byte_code := d\<rparr>) }"

definition re_emit_op :: "REParseState \<Rightarrow> REOPCodeEnum \<Rightarrow> REParseState option" where
  "re_emit_op s op = emit s (dbuf_putc (byte_code s) (reop_byte op))"

definition re_emit_op_u32 :: "REParseState \<Rightarrow> REOPCodeEnum \<Rightarrow> u32 \<Rightarrow> (nat \<times> REParseState) option" where
  "re_emit_op_u32 s op val = do {
     s \<leftarrow> emit s (dbuf_putc (byte_code s) (reop_byte op));
     let pos = db_size (byte_code s);
     s \<leftarrow> emit s (dbuf_put_u32 (byte_code s) val);
     Some (pos, s) }"

definition re_emit_goto :: "REParseState \<Rightarrow> REOPCodeEnum \<Rightarrow> nat \<Rightarrow> (nat \<times> REParseState) option" where
  "re_emit_goto s op val = do {
     s \<leftarrow> emit s (dbuf_putc (byte_code s) (reop_byte op));
     let pos = db_size (byte_code s);
     s \<leftarrow> emit s (dbuf_put_u32 (byte_code s) (of_nat val - of_nat (pos + 4)));
     Some (pos, s) }"

definition re_emit_op_u8 :: "REParseState \<Rightarrow> REOPCodeEnum \<Rightarrow> u8 \<Rightarrow> REParseState option" where
  "re_emit_op_u8 s op val = do {
     s \<leftarrow> emit s (dbuf_putc (byte_code s) (reop_byte op));
     emit s (dbuf_putc (byte_code s) val) }"

definition re_emit_op_u16 :: "REParseState \<Rightarrow> REOPCodeEnum \<Rightarrow> u16 \<Rightarrow> REParseState option" where
  "re_emit_op_u16 s op val = do {
     s \<leftarrow> emit s (dbuf_putc (byte_code s) (reop_byte op));
     emit s (dbuf_put_u16 (byte_code s) val) }"

section \<open>Errors\<close>

text \<open>\<^verbatim>\<open>vsnprintf\<close> cuts the message to the buffer and terminates it.\<close>

definition re_parse_error :: "REParseState \<Rightarrow> string \<Rightarrow> 'a outcome option" where
  "re_parse_error s msg = do {
     b \<leftarrow> memcpy (u_buf s) 0 (take (TMP_BUF_SIZE - 1) (map asc msg) @ [0]);
     Some (Failed (s\<lparr>u_buf := b\<rparr>)) }"

definition re_parse_out_of_memory :: "REParseState \<Rightarrow> 'a outcome option" where
  "re_parse_out_of_memory s = re_parse_error s ''out of memory''"

definition re_parse_expect :: "REParseState \<Rightarrow> nat \<Rightarrow> char \<Rightarrow> nat outcome option" where
  "re_parse_expect s p c = do {
     b \<leftarrow> at s p;
     if b \<noteq> asc c then re_parse_error s (''expecting '' @ [CHR 0x27, c, CHR 0x27]) else Some (Done (p + 1)) }"

section \<open>Numbers and escapes\<close>

definition INT32_MAX :: int where "INT32_MAX = 2147483647"

text \<open>The accumulator never exceeds \<open>10 * INT32_MAX + 9\<close>, far below the range of its 64-bit type.\<close>

function digits_loop :: "u8 list \<Rightarrow> nat \<Rightarrow> int \<Rightarrow> bool \<Rightarrow> (int \<times> nat) option option" where
  "digits_loop m p v allow_overflow =
     (case rd m p of
        None \<Rightarrow> None
      | Some c \<Rightarrow>
          if \<not> is_digit c then Some (Some (v, p))
          else let v = v * 10 + uint c - uint (asc CHR ''0'') in
            if v \<ge> INT32_MAX then
              if allow_overflow then digits_loop m (p + 1) INT32_MAX allow_overflow else Some None
            else digits_loop m (p + 1) v allow_overflow)"
  by pat_completeness auto
termination
  by (relation "measure (\<lambda>(m, p, v, a). length m - p)") (auto simp: rd_def split: if_splits)

declare digits_loop.simps [simp del]

definition parse_digits :: "u8 list \<Rightarrow> nat \<Rightarrow> bool \<Rightarrow> (int \<times> nat) option" where
  "parse_digits m p allow_overflow = do {
     r \<leftarrow> digits_loop m p 0 allow_overflow;
     Some (case r of None \<Rightarrow> (-1, p) | Some (v, p') \<Rightarrow> (v, p')) }"

text \<open>Hexadecimal digits: \<open>n\<close> of them, and as many as there are up to a closing brace. \<open>None\<close> inside is the
  return value -1.\<close>

fun hex_digits :: "u8 list \<Rightarrow> nat \<Rightarrow> nat \<Rightarrow> u32 \<Rightarrow> (u32 \<times> nat) option option" where
  "hex_digits m p 0 c = Some (Some (c, p))"
| "hex_digits m p (Suc n) c = do {
     b \<leftarrow> rd m p;
     let h = from_hex (uint b);
     if h < 0 then Some None else hex_digits m (p + 1) n (push_bit 4 c OR word_of_int h) }"

function hex_braces :: "u8 list \<Rightarrow> nat \<Rightarrow> u32 \<Rightarrow> (u32 \<times> nat) option option" where
  "hex_braces m p c =
     (case rd m p of
        None \<Rightarrow> None
      | Some b \<Rightarrow>
          let h = from_hex (uint b) in
          if h < 0 then Some None
          else let c = push_bit 4 c OR word_of_int h in
            if c > 0x10FFFF then Some None
            else do {
              b' \<leftarrow> rd m (p + 1);
              if b' = asc CHR 0x7D then Some (Some (c, p + 2)) else hex_braces m (p + 1) c })"
  by pat_completeness auto
termination
  by (relation "measure (\<lambda>(m, p, c). length m - p)") (auto simp: rd_def split: if_splits)

declare hex_braces.simps [simp del]

text \<open>The second half of an escaped surrogate pair behind \<open>p\<close>; the first is \<open>c\<close>.\<close>

definition escaped_pair :: "u8 list \<Rightarrow> nat \<Rightarrow> u32 \<Rightarrow> (u32 \<times> nat) option" where
  "escaped_pair m p c = do {
     b0 \<leftarrow> rd m p;
     if b0 \<noteq> asc CHR 0x5C then Some (c, p)
     else do {
       b1 \<leftarrow> rd m (p + 1);
       if b1 \<noteq> asc CHR ''u'' then Some (c, p)
       else do {
         r \<leftarrow> hex_digits m (p + 2) 4 0;
         Some (case r of
             Some (c1, _) \<Rightarrow>
               if c1 \<ge> 0xdc00 \<and> c1 < 0xe000
               then ((push_bit 10 (c AND 0x3ff) OR (c1 AND 0x3ff)) + 0x10000, p + 6) else (c, p)
           | None \<Rightarrow> (c, p)) } } }"

definition hex_escape :: "u8 list \<Rightarrow> nat \<Rightarrow> nat \<Rightarrow> nat \<Rightarrow> (int \<times> nat) option" where
  "hex_escape m p n allow_utf16 = do {
     b \<leftarrow> rd m p;
     if b = asc CHR 0x7B \<and> allow_utf16 \<noteq> 0 then do {
       r \<leftarrow> hex_braces m (p + 1) 0;
       Some (case r of None \<Rightarrow> (-1, p) | Some (c, p') \<Rightarrow> (uint c, p')) }
     else do {
       r \<leftarrow> hex_digits m p n 0;
       case r of
         None \<Rightarrow> Some (-1, p)
       | Some (c, p') \<Rightarrow>
           if c \<ge> 0xd800 \<and> c < 0xdc00 \<and> allow_utf16 = 2 then do {
             (c, p') \<leftarrow> escaped_pair m p' c;
             Some (uint c, p') }
           else Some (uint c, p') } }"

definition octal_escape :: "u8 list \<Rightarrow> nat \<Rightarrow> u32 \<Rightarrow> nat \<Rightarrow> (int \<times> nat) option" where
  "octal_escape m p c allow_utf16 =
     (if allow_utf16 = 2 \<and> c \<noteq> 0 then Some (-1, p)
      else do {
        b \<leftarrow> rd m p;
        if allow_utf16 = 2 then Some (if is_digit b then (-1, p) else (uint c, p))
        else
          let v = (ucast b - 0x30 :: u32) in
          if v > 7 then Some (uint c, p)
          else let c = push_bit 3 c OR v in
            if c \<ge> 32 then Some (uint c, p + 1)
            else do {
              b \<leftarrow> rd m (p + 1);
              let v = (ucast b - 0x30 :: u32);
              Some (if v > 7 then (uint c, p + 1) else (uint (push_bit 3 c OR v), p + 2)) } })"

text \<open>The result is the return value and the new position, which counts only when the value is not negative.\<close>

definition lre_parse_escape :: "u8 list \<Rightarrow> nat \<Rightarrow> nat \<Rightarrow> (int \<times> nat) option" where
  "lre_parse_escape m p allow_utf16 = do {
     c \<leftarrow> rd m p;
     if c = asc CHR ''b'' then Some (8, p + 1)
     else if c = asc CHR ''f'' then Some (12, p + 1)
     else if c = asc CHR ''n'' then Some (10, p + 1)
     else if c = asc CHR ''r'' then Some (13, p + 1)
     else if c = asc CHR ''t'' then Some (9, p + 1)
     else if c = asc CHR ''v'' then Some (11, p + 1)
     else if c = asc CHR ''x'' then hex_escape m (p + 1) 2 allow_utf16
     else if c = asc CHR ''u'' then hex_escape m (p + 1) 4 allow_utf16
     else if c \<ge> asc CHR ''0'' \<and> c \<le> asc CHR ''7'' then octal_escape m (p + 1) (ucast c - 0x30) allow_utf16
     else Some (-2, p) }"

section \<open>Predefined classes\<close>

definition char_range_d :: "u32 list" where
  "char_range_d = [1, 0x30, 0x39 + 1]"

definition char_range_s :: "u32 list" where
  "char_range_s =
    [10, 0x09, 0x0D + 1, 0x20, 0x20 + 1, 0xA0, 0xA0 + 1, 0x1680, 0x1680 + 1, 0x2000, 0x200A + 1, 0x2028, 0x2029 + 1,
     0x202F, 0x202F + 1, 0x205F, 0x205F + 1, 0x3000, 0x3000 + 1, 0xFEFF, 0xFEFF + 1]"

definition char_range_w :: "u32 list" where
  "char_range_w = [4, 0x30, 0x39 + 1, 0x41, 0x5A + 1, 0x5F, 0x5F + 1, 0x61, 0x7A + 1]"

fun space_loop :: "int \<Rightarrow> nat \<Rightarrow> nat \<Rightarrow> bool option" where
  "space_loop c i 0 = Some False"
| "space_loop c i (Suc n) = do {
     low \<leftarrow> rd char_range_s (2 * i + 1);
     if c < uint low then Some False
     else do {
       high \<leftarrow> rd char_range_s (2 * i + 2);
       if c < uint high then Some True else space_loop c (i + 1) n } }"

definition lre_is_space :: "int \<Rightarrow> bool option" where
  "lre_is_space c = space_loop c 0 ((length char_range_s - 1) div 2)"

definition CLASS_RANGE_BASE :: u32 where "CLASS_RANGE_BASE = 0x40000000"

datatype CharRangeEnum = CHAR_RANGE_d | CHAR_RANGE_D | CHAR_RANGE_s | CHAR_RANGE_S | CHAR_RANGE_w | CHAR_RANGE_W

definition char_range_table :: "u32 list list" where
  "char_range_table = [char_range_d, char_range_s, char_range_w]"

fun range_num :: "CharRangeEnum \<Rightarrow> nat" where
  "range_num CHAR_RANGE_d = 0"
| "range_num CHAR_RANGE_D = 1"
| "range_num CHAR_RANGE_s = 2"
| "range_num CHAR_RANGE_S = 3"
| "range_num CHAR_RANGE_w = 4"
| "range_num CHAR_RANGE_W = 5"

fun add_points :: "CharRange \<Rightarrow> u32 list \<Rightarrow> (int \<times> CharRange) option" where
  "add_points cr [] = Some (0, cr)"
| "add_points cr (p # ps) = do {
     (r, cr) \<leftarrow> cr_add_point cr p;
     if r \<noteq> 0 then Some (-1, cr) else add_points cr ps }"

text \<open>After a failure the range is freed; its contents no longer count.\<close>

definition cr_init_char_range :: "REParseState \<Rightarrow> CharRangeEnum \<Rightarrow> (int \<times> CharRange) option" where
  "cr_init_char_range s e = do {
     let c = range_num e;
     c_pt \<leftarrow> rd char_range_table (c div 2);
     len \<leftarrow> rd c_pt 0;
     pts \<leftarrow> rd_n c_pt 1 (2 * unat len);
     (r, cr) \<leftarrow> add_points (cr_init (ps_realloc s)) pts;
     if r \<noteq> 0 then Some (-1, cr)
     else if odd c then do { (r, cr) \<leftarrow> cr_invert cr; Some (if r \<noteq> 0 then -1 else 0, cr) }
     else Some (0, cr) }"

definition cr_canonicalize :: "CharRange \<Rightarrow> (int \<times> CharRange) option" where
  "cr_canonicalize cr = do {
     (r, a) \<leftarrow> cr_op (cr_init (cr_realloc_func cr)) (cr_pts cr) [0x61, 0x7a + 1] CR_OP_INTER;
     if r \<noteq> 0 then Some (r, cr)
     else cr_union1 cr (map (\<lambda>p. p + (0x41 - 0x61)) (cr_pts a)) }"

section \<open>Unicode properties\<close>

definition is_unicode_char :: "u8 \<Rightarrow> bool" where
  "is_unicode_char c \<longleftrightarrow>
     c \<ge> asc CHR ''0'' \<and> c \<le> asc CHR ''9'' \<or> c \<ge> asc CHR ''A'' \<and> c \<le> asc CHR ''Z'' \<or>
     c \<ge> asc CHR ''a'' \<and> c \<le> asc CHR ''z'' \<or> c = asc CHR ''_''"

text \<open>The loops that copy a name to an array of 64 bytes; \<open>None\<close> inside when it does not fit.\<close>

function property_word :: "u8 list \<Rightarrow> nat \<Rightarrow> u8 list \<Rightarrow> (u8 list \<times> nat) option option" where
  "property_word m p q =
     (case rd m p of
        None \<Rightarrow> None
      | Some c \<Rightarrow>
          if \<not> is_unicode_char c then Some (Some (q, p))
          else if length q \<ge> 64 - 1 then Some None
          else property_word m (p + 1) (q @ [c]))"
  by pat_completeness auto
termination
  by (relation "measure (\<lambda>(m, p, q). length m - p)") (auto simp: rd_def split: if_splits)

declare property_word.simps [simp del]

text \<open>What the three lookups leave: the range, or the branch that reports why there is none.\<close>

definition property_script :: "REParseState \<Rightarrow> u8 list \<Rightarrow> bool \<Rightarrow> CharRange outcome option" where
  "property_script s val script_ext = do {
     r \<leftarrow> unicode_script (cr_init (ps_realloc s)) (val @ [0]) script_ext;
     case r of
       Loops_Forever \<Rightarrow> Some Never
     | Returned ret cr \<Rightarrow>
         if ret = 0 then Some (Done cr)
         else if ret = -2 then re_parse_error s ''unknown unicode script''
         else re_parse_out_of_memory s }"

definition property_category :: "REParseState \<Rightarrow> u8 list \<Rightarrow> CharRange outcome option" where
  "property_category s val = do {
     (ret, cr) \<leftarrow> unicode_general_category (cr_init (ps_realloc s)) (val @ [0]);
     if ret = 0 then Some (Done cr)
     else if ret = -2 then re_parse_error s ''unknown unicode general category''
     else re_parse_out_of_memory s }"

definition property_lone :: "REParseState \<Rightarrow> u8 list \<Rightarrow> CharRange outcome option" where
  "property_lone s nam = do {
     (ret, cr) \<leftarrow> unicode_general_category (cr_init (ps_realloc s)) (nam @ [0]);
     if ret = -1 then re_parse_out_of_memory s
     else if ret < 0 then do {
       (ret, cr) \<leftarrow> unicode_prop cr (nam @ [0]);
       if ret = 0 then Some (Done cr)
       else if ret = -2 then re_parse_error s ''unknown unicode property name''
       else re_parse_out_of_memory s }
     else Some (Done cr) }"

definition property_range :: "REParseState \<Rightarrow> u8 list \<Rightarrow> u8 list \<Rightarrow> CharRange outcome option" where
  "property_range s nam val =
     (if nam = map asc ''Script'' \<or> nam = map asc ''sc'' then property_script s val False
      else if nam = map asc ''Script_Extensions'' \<or> nam = map asc ''scx'' then property_script s val True
      else if nam = map asc ''General_Category'' \<or> nam = map asc ''gc'' then property_category s val
      else if val = [] then property_lone s nam
      else re_parse_error s ''unknown unicode property name'')"

definition property_value :: "REParseState \<Rightarrow> nat \<Rightarrow> (u8 list \<times> nat) outcome option" where
  "property_value s p = do {
     b \<leftarrow> at s p;
     if b \<noteq> asc CHR ''='' then Some (Done ([], p))
     else do {
       r \<leftarrow> property_word (ps_buf s) (p + 1) [];
       case r of None \<Rightarrow> re_parse_error s ''unknown unicode property value'' | Some r \<Rightarrow> Some (Done r) } }"

definition parse_unicode_property :: "REParseState \<Rightarrow> nat \<Rightarrow> bool \<Rightarrow> (CharRange \<times> nat) outcome option" where
  "parse_unicode_property s p is_inv = do {
     b \<leftarrow> at s p;
     if b \<noteq> asc CHR 0x7B then re_parse_error s (''expecting '' @ [CHR 0x27, CHR 0x7B, CHR 0x27] @ '' after '' @ [CHR 0x5C] @ ''p'')
     else do {
       r \<leftarrow> property_word (ps_buf s) (p + 1) [];
       case r of
         None \<Rightarrow> re_parse_error s ''unknown unicode property name''
       | Some (nam, p) \<Rightarrow>
           andthen (property_value s p) (\<lambda>(val, p). do {
             b \<leftarrow> at s p;
             if b \<noteq> asc CHR 0x7D then re_parse_error s (''expecting '' @ [CHR 0x27, CHR 0x7D, CHR 0x27])
             else andthen (property_range s nam val) (\<lambda>cr.
               if is_inv then do {
                 (r, cr) \<leftarrow> cr_invert cr;
                 Some (if r \<noteq> 0 then Failed s else Done (cr, p + 1)) }
               else Some (Done (cr, p + 1))) }) } }"

section \<open>Atoms\<close>

text \<open>The result of an atom: the character, or \<open>CLASS_RANGE_BASE\<close> with the range, and the position behind it. A
  character that is negative as an \<^verbatim>\<open>int\<close> is the return value -1 without a message.\<close>

type_synonym atom = "u32 \<times> CharRange option \<times> nat"

definition UTF8_CHAR_LEN_MAX :: int where "UTF8_CHAR_LEN_MAX = 6"

definition normal_char :: "REParseState \<Rightarrow> nat \<Rightarrow> u8 \<Rightarrow> atom outcome option" where
  "normal_char s p c =
     (if c \<ge> 128 then do {
        (r, p) \<leftarrow> unicode_from_utf8 (ps_buf s) p UTF8_CHAR_LEN_MAX;
        let c = (word_of_int r :: u32);
        if c > 0xffff \<and> \<not> ps_is_utf16 s then re_parse_error s ''malformed unicode char''
        else Some (Done (c, None, p)) }
      else Some (Done (ucast c, None, p + 1)))"

definition class_range_atom :: "REParseState \<Rightarrow> nat \<Rightarrow> CharRangeEnum \<Rightarrow> atom outcome option" where
  "class_range_atom s p e = do {
     (r, cr) \<leftarrow> cr_init_char_range s e;
     Some (if r \<noteq> 0 then Failed s else Done (CLASS_RANGE_BASE, Some cr, p)) }"

definition invalid_escape :: "REParseState \<Rightarrow> 'a outcome option" where
  "invalid_escape s = re_parse_error s ''invalid escape sequence in regular expression''"

definition control_escape :: "REParseState \<Rightarrow> nat \<Rightarrow> bool \<Rightarrow> atom outcome option" where
  "control_escape s p inclass = do {
     c \<leftarrow> at s p;
     if c \<ge> asc CHR ''a'' \<and> c \<le> asc CHR ''z'' \<or> c \<ge> asc CHR ''A'' \<and> c \<le> asc CHR ''Z'' \<or>
        (c \<ge> asc CHR ''0'' \<and> c \<le> asc CHR ''9'' \<or> c = asc CHR ''_'') \<and> inclass \<and> \<not> ps_is_utf16 s
     then Some (Done (ucast c AND 0x1f, None, p + 1))
     else if ps_is_utf16 s then invalid_escape s
     else Some (Done (ucast (asc CHR 0x5C), None, p - 1)) }"

definition syntax_chars :: "u8 list" where
  "syntax_chars = map asc (''^$'' @ [CHR 0x5C] @ ''.*+?()[]'' @ [CHR 0x7B, CHR 0x7D] @ ''|/'')"

text \<open>Any other escape; \<open>p\<close> is the position of the character behind the backslash.\<close>

definition other_escape :: "REParseState \<Rightarrow> nat \<Rightarrow> u8 \<Rightarrow> atom outcome option" where
  "other_escape s p c = do {
     (ret, p') \<leftarrow> lre_parse_escape (ps_buf s) p (if ps_is_utf16 s then 2 else 0);
     if ret \<ge> 0 then Some (Done (word_of_int ret, None, p'))
     else do {
       b \<leftarrow> at s p;
       if ret = -2 \<and> b \<noteq> 0 \<and> b \<in> set syntax_chars then normal_char s p c
       else if ps_is_utf16 s then invalid_escape s
       else normal_char s p c } }"

definition get_class_atom :: "REParseState \<Rightarrow> nat \<Rightarrow> bool \<Rightarrow> atom outcome option" where
  "get_class_atom s p inclass = do {
     c \<leftarrow> at s p;
     if c = asc CHR 0x5C then
       if p + 1 \<ge> buf_end s then re_parse_error s ''unexpected end''
       else do {
         c \<leftarrow> at s (p + 1);
         if c = asc CHR ''d'' then class_range_atom s (p + 2) CHAR_RANGE_d
         else if c = asc CHR ''D'' then class_range_atom s (p + 2) CHAR_RANGE_D
         else if c = asc CHR ''s'' then class_range_atom s (p + 2) CHAR_RANGE_s
         else if c = asc CHR ''S'' then class_range_atom s (p + 2) CHAR_RANGE_S
         else if c = asc CHR ''w'' then class_range_atom s (p + 2) CHAR_RANGE_w
         else if c = asc CHR ''W'' then class_range_atom s (p + 2) CHAR_RANGE_W
         else if c = asc CHR ''c'' then control_escape s (p + 2) inclass
         else if (c = asc CHR ''p'' \<or> c = asc CHR ''P'') \<and> ps_is_utf16 s then
           andthen (parse_unicode_property s (p + 2) (c = asc CHR ''P'')) (\<lambda>(cr, p).
             Some (Done (CLASS_RANGE_BASE, Some cr, p)))
         else other_escape s (p + 1) c }
     else if c = 0 \<and> p \<ge> buf_end s then re_parse_error s ''unexpected end''
     else normal_char s p c }"

section \<open>Character classes\<close>

text \<open>The two loops that append the intervals of a class to the byte code.\<close>

fun emit_ranges16 :: "REParseState \<Rightarrow> u32 list \<Rightarrow> REParseState option" where
  "emit_ranges16 s (lo # hi # pts) = do {
     s \<leftarrow> emit s (dbuf_put_u16 (byte_code s) (ucast lo));
     let high = hi - 1;
     s \<leftarrow> emit s (dbuf_put_u16 (byte_code s) (ucast (if high = UINT32_MAX - 1 then 0xffff else high)));
     emit_ranges16 s pts }"
| "emit_ranges16 s [] = Some s"
| "emit_ranges16 s [_] = None"

fun emit_ranges32 :: "REParseState \<Rightarrow> u32 list \<Rightarrow> REParseState option" where
  "emit_ranges32 s (lo # hi # pts) = do {
     s \<leftarrow> emit s (dbuf_put_u32 (byte_code s) lo);
     s \<leftarrow> emit s (dbuf_put_u32 (byte_code s) (hi - 1));
     emit_ranges32 s pts }"
| "emit_ranges32 s [] = Some s"
| "emit_ranges32 s [_] = None"

definition re_emit_range :: "REParseState \<Rightarrow> CharRange \<Rightarrow> REParseState outcome option" where
  "re_emit_range s cr =
     (let len = cr_len cr div 2 in
      if len \<ge> 65535 then re_parse_error s ''too many ranges''
      else if len = 0 then do { (_, s) \<leftarrow> re_emit_op_u32 s REOP_char32 (-1); Some (Done s) }
      else do {
        last \<leftarrow> rd (cr_points cr) (cr_len cr - 1);
        high \<leftarrow> (if last = UINT32_MAX then rd (cr_points cr) (cr_len cr - 2) else Some last);
        pts \<leftarrow> rd_n (cr_points cr) 0 (cr_len cr);
        if high \<le> 0xffff then do {
          s \<leftarrow> re_emit_op_u16 s REOP_range (of_nat len);
          s \<leftarrow> emit_ranges16 s pts;
          Some (Done s) }
        else do {
          s \<leftarrow> re_emit_op_u16 s REOP_range32 (of_nat len);
          s \<leftarrow> emit_ranges32 s pts;
          Some (Done s) } })"

text \<open>One atom of a class or an interval of two. A failed allocation is reported as out of memory.\<close>

definition class_union :: "REParseState \<Rightarrow> (int \<times> CharRange) option \<Rightarrow> CharRange outcome option" where
  "class_union s r = do { (r, cr) \<leftarrow> r; if r \<noteq> 0 then re_parse_out_of_memory s else Some (Done cr) }"

definition class_atom :: "REParseState \<Rightarrow> CharRange \<Rightarrow> u32 \<Rightarrow> CharRange option \<Rightarrow> CharRange outcome option" where
  "class_atom s cr c1 cr1 =
     (if c1 \<ge> CLASS_RANGE_BASE then do { cr1 \<leftarrow> cr1; class_union s (cr_union1 cr (cr_pts cr1)) }
      else class_union s (cr_union_interval cr c1 c1))"

definition class_item :: "REParseState \<Rightarrow> CharRange \<Rightarrow> nat \<Rightarrow> (CharRange \<times> nat) outcome option" where
  "class_item s cr p =
     andthen (get_class_atom s p True) (\<lambda>(c1, cr1, p).
       if sint c1 < 0 then Some (Failed s)
       else do {
         b \<leftarrow> at s p;
         dash \<leftarrow> (if b = asc CHR ''-'' then do { b1 \<leftarrow> at s (p + 1); Some (b1 \<noteq> asc CHR '']'') } else Some False);
         let single = andthen (class_atom s cr c1 cr1) (\<lambda>cr. Some (Done (cr, p)));
         if \<not> dash then single
         else if c1 \<ge> CLASS_RANGE_BASE then
           if ps_is_utf16 s then re_parse_error s ''invalid class range'' else single
         else andthen (get_class_atom s (p + 1) True) (\<lambda>(c2, cr2, p0).
           if sint c2 < 0 then Some (Failed s)
           else if c2 \<ge> CLASS_RANGE_BASE then
             if ps_is_utf16 s then re_parse_error s ''invalid class range'' else single
           else if c2 < c1 then re_parse_error s ''invalid class range''
           else andthen (class_union s (cr_union_interval cr c1 c2)) (\<lambda>cr. Some (Done (cr, p0)))) })"

text \<open>The loop over the class; \<open>fuel\<close> bounds the number of items.\<close>

fun class_loop :: "nat \<Rightarrow> REParseState \<Rightarrow> CharRange \<Rightarrow> nat \<Rightarrow> (CharRange \<times> nat) outcome option" where
  "class_loop 0 s cr p = Some Exhausted"
| "class_loop (Suc fuel) s cr p = do {
     b \<leftarrow> at s p;
     if b = asc CHR '']'' then Some (Done (cr, p))
     else andthen (class_item s cr p) (\<lambda>(cr, p). class_loop fuel s cr p) }"

definition re_parse_char_class :: "REParseState \<Rightarrow> nat \<Rightarrow> (REParseState \<times> nat) outcome option" where
  "re_parse_char_class s p = do {
     b \<leftarrow> at s (p + 1);
     let invert = (b = asc CHR ''^'');
     andthen (class_loop (length (ps_buf s)) s (cr_init (ps_realloc s)) (if invert then p + 2 else p + 1)) (\<lambda>(cr, p).
       andthen (if ps_ignore_case s then class_union s (cr_canonicalize cr) else Some (Done cr)) (\<lambda>cr.
         andthen (if invert then class_union s (cr_invert cr) else Some (Done cr)) (\<lambda>cr.
           andthen (re_emit_range s cr) (\<lambda>s. Some (Done (s, p + 1)))))) }"

end
