(* ===== verification/Regexp_Compile.thy ===== *)
theory Regexp_Compile
  imports Regexp_Parse
begin

text \<open>
  The syntactic part of the regular expression compiler of \<^verbatim>\<open>src/qjs/libregexp.c\<close>: analysis of emitted code, named
  groups, terms with their quantifiers, alternatives and disjunctions, and \<open>lre_compile\<close>. The mutual recursion of the
  parser carries fuel and the nesting depth.
\<close>

section \<open>Analysis of emitted code\<close>

text \<open>The length of the instruction at \<open>pos\<close> with its table of ranges.\<close>

definition instr_len :: "u8 list \<Rightarrow> nat \<Rightarrow> REOPCodeEnum \<Rightarrow> nat option" where
  "instr_len bc_buf pos opcode =
     (case opcode of
        REOP_range \<Rightarrow> do { val \<leftarrow> get_u16 bc_buf (pos + 1); Some (reop_size opcode + unat val * 4) }
      | REOP_range32 \<Rightarrow> do { val \<leftarrow> get_u16 bc_buf (pos + 1); Some (reop_size opcode + unat val * 8) }
      | _ \<Rightarrow> Some (reop_size opcode))"

lemma instr_len_pos: "instr_len bc_buf pos opcode = Some len \<Longrightarrow> 0 < len"
  by (cases opcode) (auto simp: instr_len_def split: bind_splits)

definition opcode_at :: "u8 list \<Rightarrow> nat \<Rightarrow> REOPCodeEnum option" where
  "opcode_at bc_buf pos = do { b \<leftarrow> rd bc_buf pos; opcode_of b }"

definition mark_capture :: "u8 list \<Rightarrow> nat \<Rightarrow> u8 \<Rightarrow> u8 list option" where
  "mark_capture bitmap val bits = do { b \<leftarrow> rd bitmap val; wr bitmap val (b OR bits) }"

fun mark_captures :: "u8 list \<Rightarrow> nat \<Rightarrow> nat \<Rightarrow> u8 list option" where
  "mark_captures bitmap val 0 = Some bitmap"
| "mark_captures bitmap val (Suc n) = do { bitmap \<leftarrow> mark_capture bitmap val 1; mark_captures bitmap (val + 1) n }"

text \<open>The effect of one instruction: the answer so far, whether there is a back reference, the captures.\<close>

definition advance_step :: "u8 list \<Rightarrow> nat \<Rightarrow> REOPCodeEnum \<Rightarrow> int \<times> bool \<times> u8 list \<Rightarrow> (int \<times> bool \<times> u8 list) option" where
  "advance_step bc_buf pos opcode st =
     (case st of (ret, back, bitmap) \<Rightarrow>
      if opcode \<in> {REOP_range, REOP_range32, REOP_char, REOP_char32, REOP_dot, REOP_any}
      then Some (if ret = -2 then 1 else ret, back, bitmap)
      else if opcode \<in> {REOP_line_start, REOP_line_end, REOP_push_i32, REOP_push_char_pos, REOP_drop, REOP_word_boundary,
                        REOP_not_word_boundary, REOP_prev}
      then Some st
      else if opcode \<in> {REOP_save_start, REOP_save_end} then do {
        val \<leftarrow> rd bc_buf (pos + 1);
        bitmap \<leftarrow> mark_capture bitmap (unat val) 1;
        Some (ret, back, bitmap) }
      else if opcode = REOP_save_reset then do {
        val \<leftarrow> rd bc_buf (pos + 1);
        last \<leftarrow> rd bc_buf (pos + 2);
        bitmap \<leftarrow> mark_captures bitmap (unat val) (unat last - unat val);
        Some (ret, back, bitmap) }
      else if opcode \<in> {REOP_back_reference, REOP_backward_back_reference} then do {
        val \<leftarrow> rd bc_buf (pos + 1);
        bitmap \<leftarrow> mark_capture bitmap (unat val) 2;
        Some (ret, True, bitmap) }
      else Some (if ret = -2 then 0 else ret, back, bitmap))"

function advance_loop :: "u8 list \<Rightarrow> nat \<Rightarrow> nat \<Rightarrow> int \<times> bool \<times> u8 list \<Rightarrow> (int \<times> bool \<times> u8 list) option" where
  "advance_loop bc_buf bc_buf_len pos st =
     (if pos < bc_buf_len then
        case opcode_at bc_buf pos of
          None \<Rightarrow> None
        | Some opcode \<Rightarrow>
            (case instr_len bc_buf pos opcode of
               None \<Rightarrow> None
             | Some len \<Rightarrow> do {
                 st \<leftarrow> advance_step bc_buf pos opcode st;
                 advance_loop bc_buf bc_buf_len (pos + len) st })
      else Some st)"
  by pat_completeness auto
termination
  by (relation "measure (\<lambda>(bc_buf, bc_buf_len, pos, st). bc_buf_len - pos)") (auto dest: instr_len_pos)

declare advance_loop.simps [simp del]

definition re_check_advance :: "u8 list \<Rightarrow> nat \<Rightarrow> int option" where
  "re_check_advance bc_buf bc_buf_len = do {
     (ret, back, bitmap) \<leftarrow> advance_loop bc_buf bc_buf_len 0 (-2, False, replicate CAPTURE_COUNT_MAX 0);
     Some (if back \<and> 3 \<in> set bitmap then -1 else if ret = -2 then 0 else ret) }"

function simple_loop :: "u8 list \<Rightarrow> nat \<Rightarrow> nat \<Rightarrow> int \<Rightarrow> int option" where
  "simple_loop bc_buf bc_buf_len pos count =
     (if pos < bc_buf_len then
        case opcode_at bc_buf pos of
          None \<Rightarrow> None
        | Some opcode \<Rightarrow>
            (case instr_len bc_buf pos opcode of
               None \<Rightarrow> None
             | Some len \<Rightarrow>
                 if opcode \<in> {REOP_range, REOP_range32, REOP_char, REOP_char32, REOP_dot, REOP_any}
                 then simple_loop bc_buf bc_buf_len (pos + len) (count + 1)
                 else if opcode \<in> {REOP_line_start, REOP_line_end, REOP_word_boundary, REOP_not_word_boundary}
                 then simple_loop bc_buf bc_buf_len (pos + len) count
                 else Some (-1))
      else Some count)"
  by pat_completeness auto
termination
  by (relation "measure (\<lambda>(bc_buf, bc_buf_len, pos, count). bc_buf_len - pos)") (auto dest: instr_len_pos)

declare simple_loop.simps [simp del]

definition re_is_simple_quantifier :: "u8 list \<Rightarrow> nat \<Rightarrow> int option" where
  "re_is_simple_quantifier bc_buf bc_buf_len = simple_loop bc_buf bc_buf_len 0 0"

text \<open>The stack depth while the code is read from start to end. An opcode without a name or an instruction that does
  not fit fails an assertion; so does popping from an empty stack. \<open>Some (-1)\<close> is the return value for a stack that is
  too deep.\<close>

function stack_loop :: "u8 list \<Rightarrow> nat \<Rightarrow> nat \<Rightarrow> nat \<Rightarrow> nat \<Rightarrow> int option" where
  "stack_loop bc_buf bc_buf_len pos stack_size stack_size_max =
     (if pos < bc_buf_len then
        case opcode_at bc_buf pos of
          None \<Rightarrow> None
        | Some opcode \<Rightarrow>
            if pos + reop_size opcode > bc_buf_len then None
            else
            (case instr_len bc_buf pos opcode of
               None \<Rightarrow> None
             | Some len \<Rightarrow>
                 if opcode \<in> {REOP_push_i32, REOP_push_char_pos} then
                   if stack_size + 1 > stack_size_max \<and> stack_size + 1 > STACK_SIZE_MAX then Some (-1)
                   else stack_loop bc_buf bc_buf_len (pos + len) (stack_size + 1) (max stack_size_max (stack_size + 1))
                 else if opcode \<in> {REOP_drop, REOP_bne_char_pos} then
                   if stack_size > 0 then stack_loop bc_buf bc_buf_len (pos + len) (stack_size - 1) stack_size_max
                   else None
                 else stack_loop bc_buf bc_buf_len (pos + len) stack_size stack_size_max)
      else Some (int stack_size_max))"
  by pat_completeness auto
termination
  by (relation "measure (\<lambda>(bc_buf, bc_buf_len, pos, a, b). bc_buf_len - pos)") (auto dest: instr_len_pos)

declare stack_loop.simps [simp del]

definition compute_stack_size :: "u8 list \<Rightarrow> nat \<Rightarrow> int option" where
  "compute_stack_size bc_buf bc_buf_len = stack_loop (drop RE_HEADER_LEN bc_buf) (bc_buf_len - RE_HEADER_LEN) 0 0 0"

section \<open>Named groups\<close>

text \<open>The name is written to \<open>buf\<close> byte by byte, also when the function fails later. The first component of the
  result is the return value; the position counts only when it is zero.\<close>

definition group_char :: "u8 list \<Rightarrow> nat \<Rightarrow> bool \<Rightarrow> u8 \<Rightarrow> (u32 \<times> nat) option option" where
  "group_char m p is_utf16 c =
     (if c = asc CHR 0x5C then do {
        b \<leftarrow> rd m (p + 1);
        if b \<noteq> asc CHR ''u'' then Some None
        else do {
          (ret, p') \<leftarrow> lre_parse_escape m (p + 1) (if is_utf16 then 2 else 0);
          Some (Some (word_of_int ret, if ret \<ge> 0 then p' else p + 1)) } }
      else if c \<ge> 128 then do {
        (ret, p') \<leftarrow> unicode_from_utf8 m p UTF8_CHAR_LEN_MAX;
        Some (Some (word_of_int ret, p')) }
      else Some (Some (ucast c, p + 1)))"

lemma unicode_to_utf8_length: "\<not> c > 0x10FFFF \<Longrightarrow> 0 < length (unicode_to_utf8 c)"
  by (auto simp: unicode_to_utf8_def not_less dest: le_less_trans [of _ "0x10FFFF" "0x00200000"])

lemma name_room_shrinks:
  "\<not> c > 0x10FFFF \<Longrightarrow> \<not> n < 7 + q \<Longrightarrow> n - (q + length (unicode_to_utf8 c)) < n - q"
  using unicode_to_utf8_length [of c] by linarith

function group_name_loop ::
  "u8 list \<Rightarrow> nat \<Rightarrow> u8 list \<Rightarrow> nat \<Rightarrow> nat \<Rightarrow> bool \<Rightarrow> (int \<times> u8 list \<times> nat) option" where
  "group_name_loop buf q m p buf_size is_utf16 = do {
     c \<leftarrow> rd m p;
     if c = asc CHR ''>'' then
       if q = 0 then Some (-1, buf, p)
       else do { buf \<leftarrow> wr buf q 0; Some (0, buf, p + 1) }
     else do {
       r \<leftarrow> group_char m p is_utf16 c;
       case r of
         None \<Rightarrow> Some (-1, buf, p)
       | Some (c, p) \<Rightarrow>
           if c > 0x10FFFF then Some (-1, buf, p)
           else do {
             ident \<leftarrow> (if q = 0 then lre_js_is_ident_first c else lre_js_is_ident_next c);
             if \<not> ident then Some (-1, buf, p)
             else if q + 6 + 1 > buf_size then Some (-1, buf, p)
             else do {
               let bs = (if c < 128 then [ucast c] else unicode_to_utf8 c);
               buf \<leftarrow> memcpy buf q bs;
               group_name_loop buf (q + length bs) m p buf_size is_utf16 } } } }"
  by pat_completeness auto
termination
  by (relation "measure (\<lambda>(buf, q, m, p, buf_size, is_utf16). buf_size - q)")
    (auto intro: name_room_shrinks)

declare group_name_loop.simps [simp del]

definition re_parse_group_name :: "u8 list \<Rightarrow> nat \<Rightarrow> u8 list \<Rightarrow> nat \<Rightarrow> bool \<Rightarrow> (int \<times> u8 list \<times> nat) option" where
  "re_parse_group_name buf buf_size m p is_utf16 = group_name_loop buf 0 m p buf_size is_utf16"

text \<open>The index behind a class, where the count of captures goes on: the bracket is not \<open>]\<close>, so the class starts at the
  next character.\<close>

function skip_class :: "REParseState \<Rightarrow> nat \<Rightarrow> nat option" where
  "skip_class s p =
     (if p < buf_end s then do {
        c \<leftarrow> at s p;
        if c = asc CHR '']'' then Some p
        else skip_class s (if c = asc CHR 0x5C then p + 2 else p + 1) }
      else Some p)"
  by pat_completeness auto
termination
  by (relation "measure (\<lambda>(s, p). buf_end s - p)") auto

declare skip_class.simps [simp del]

lemma skip_class_ge: "skip_class s p = Some p' \<Longrightarrow> p \<le> p'"
proof (induction s p arbitrary: p' rule: skip_class.induct)
  case (1 s p)
  show ?case
    using "1.prems" "1.IH" [of _ p']
    by (subst (asm) skip_class.simps) (fastforce split: if_splits bind_splits)
qed

text \<open>Whether a group with a name starts at \<open>p\<close>, and whether a group without one does.\<close>

definition group_kind :: "REParseState \<Rightarrow> nat \<Rightarrow> (bool \<times> bool) option" where
  "group_kind s p = do {
     b1 \<leftarrow> at s (p + 1);
     if b1 = asc CHR ''?'' then do {
       b2 \<leftarrow> at s (p + 2);
       if b2 = asc CHR ''<'' then do {
         b3 \<leftarrow> at s (p + 3);
         Some (b3 \<noteq> asc CHR ''='' \<and> b3 \<noteq> asc CHR ''!'', False) }
       else Some (False, False) }
     else Some (False, True) }"

text \<open>The result of the scan: the return value and \<open>*phas_named_captures\<close>.\<close>

function captures_loop :: "REParseState \<Rightarrow> u8 list option \<Rightarrow> nat \<Rightarrow> nat \<Rightarrow> bool \<Rightarrow> (int \<times> bool) option" where
  "captures_loop s capture_name p capture_index has_named =
     (let finish = \<lambda>capture_index has_named. Some (if capture_name \<noteq> None then -1 else int capture_index, has_named);
          count = \<lambda>p has_named.
            if capture_index + 1 \<ge> CAPTURE_COUNT_MAX then finish (capture_index + 1) has_named
            else captures_loop s capture_name (p + 1) (capture_index + 1) has_named
      in
      if p < buf_end s then do {
        c \<leftarrow> at s p;
        if c = asc CHR ''('' then do {
          (named, plain) \<leftarrow> group_kind s p;
          if named then
            (case capture_name of
               None \<Rightarrow> count p True
             | Some nam \<Rightarrow> do {
                 (r, buf, p') \<leftarrow> re_parse_group_name (replicate TMP_BUF_SIZE 0) TMP_BUF_SIZE (ps_buf s) (p + 3) (ps_is_utf16 s);
                 if r = 0 \<and> cstr buf = nam then Some (int capture_index, True)
                 else count (if r = 0 then p' else p + 3) True })
          else if plain then count p has_named
          else captures_loop s capture_name (p + 1) capture_index has_named }
        else if c = asc CHR 0x5C then captures_loop s capture_name (p + 2) capture_index has_named
        else if c = asc CHR ''['' then do {
          p \<leftarrow> skip_class s (p + 1);
          captures_loop s capture_name (p + 1) capture_index has_named }
        else captures_loop s capture_name (p + 1) capture_index has_named }
      else finish capture_index has_named)"
  by pat_completeness auto
termination
  by (relation "measures [\<lambda>(s, capture_name, p, capture_index, has_named). CAPTURE_COUNT_MAX - capture_index,
        \<lambda>(s, capture_name, p, capture_index, has_named). buf_end s - p]")
    (auto dest: skip_class_ge)

declare captures_loop.simps [simp del]

definition re_parse_captures :: "REParseState \<Rightarrow> u8 list option \<Rightarrow> (int \<times> bool) option" where
  "re_parse_captures s capture_name = captures_loop s capture_name 0 1 False"

definition re_count_captures :: "REParseState \<Rightarrow> (int \<times> REParseState) option" where
  "re_count_captures s =
     (if total_capture_count s < 0 then do {
        (n, named) \<leftarrow> re_parse_captures s None;
        Some (n, s\<lparr>total_capture_count := n, has_named_captures := of_bool named\<rparr>) }
      else Some (total_capture_count s, s))"

definition re_has_named_captures :: "REParseState \<Rightarrow> (bool \<times> REParseState) option" where
  "re_has_named_captures s = do {
     (_, s) \<leftarrow> (if has_named_captures s < 0 then re_count_captures s else Some (0, s));
     Some (has_named_captures s \<noteq> 0, s) }"

text \<open>The names found so far, one per capture, each with its terminator.\<close>

function find_group_loop :: "u8 list \<Rightarrow> nat \<Rightarrow> nat \<Rightarrow> u8 list \<Rightarrow> int \<Rightarrow> int option" where
  "find_group_loop buf p buf_end1 nam capture_index =
     (if p < buf_end1 then
        case strlen (drop p buf) of
          None \<Rightarrow> None
        | Some len \<Rightarrow>
            if len = length nam \<and> take len (drop p buf) = nam then Some capture_index
            else find_group_loop buf (p + len + 1) buf_end1 nam (capture_index + 1)
      else Some (-1))"
  by pat_completeness auto
termination
  by (relation "measure (\<lambda>(buf, p, e, nam, i). e - p)") auto

declare find_group_loop.simps [simp del]

definition find_group_name :: "REParseState \<Rightarrow> u8 list \<Rightarrow> int option" where
  "find_group_name s nam = find_group_loop (db_buf (group_names s)) 0 (db_size (group_names s)) nam 1"

section \<open>Atoms of a term\<close>

text \<open>The result of the first half of \<open>re_parse_term\<close>: the state, the position, the start of the atom when there is one
  that a quantifier can repeat, and the number of captures before it.\<close>

type_synonym atom_code = "REParseState \<times> nat \<times> nat option \<times> nat"

definition code_size :: "REParseState \<Rightarrow> nat" where
  "code_size s = db_size (byte_code s)"

definition emit_prev :: "REParseState \<Rightarrow> bool \<Rightarrow> REParseState option" where
  "emit_prev s is_backward_dir = (if is_backward_dir then re_emit_op s REOP_prev else Some s)"

definition emit_char :: "REParseState \<Rightarrow> u32 \<Rightarrow> REParseState option" where
  "emit_char s c = do {
     c \<leftarrow> (if ps_ignore_case s then lre_canonicalize c (ps_is_utf16 s) else Some c);
     if sint c \<le> 0xffff then re_emit_op_u16 s REOP_char (ucast c)
     else map_option snd (re_emit_op_u32 s REOP_char32 c) }"

definition term_char :: "REParseState \<Rightarrow> nat \<Rightarrow> u32 \<Rightarrow> bool \<Rightarrow> atom_code outcome option" where
  "term_char s p c is_backward_dir = do {
     let start = code_size s;
     s \<leftarrow> emit_prev s is_backward_dir;
     s \<leftarrow> emit_char s c;
     s \<leftarrow> emit_prev s is_backward_dir;
     Some (Done (s, p, Some start, ps_capture_count s)) }"

definition term_range :: "REParseState \<Rightarrow> nat \<Rightarrow> CharRange \<Rightarrow> bool \<Rightarrow> atom_code outcome option" where
  "term_range s p cr is_backward_dir = do {
     let start = code_size s;
     s \<leftarrow> emit_prev s is_backward_dir;
     andthen (re_emit_range s cr) (\<lambda>s. do {
       s \<leftarrow> emit_prev s is_backward_dir;
       Some (Done (s, p, Some start, ps_capture_count s)) }) }"

definition term_class_atom :: "REParseState \<Rightarrow> nat \<Rightarrow> bool \<Rightarrow> atom_code outcome option" where
  "term_class_atom s p is_backward_dir =
     andthen (get_class_atom s p False) (\<lambda>(c, cr, p).
       if sint c < 0 then Some (Failed s)
       else if c \<ge> CLASS_RANGE_BASE then do { cr \<leftarrow> cr; term_range s p cr is_backward_dir }
       else term_char s p c is_backward_dir)"

definition term_dot :: "REParseState \<Rightarrow> nat \<Rightarrow> bool \<Rightarrow> atom_code outcome option" where
  "term_dot s p is_backward_dir = do {
     let start = code_size s;
     s \<leftarrow> emit_prev s is_backward_dir;
     s \<leftarrow> re_emit_op s (if dotall s then REOP_any else REOP_dot);
     s \<leftarrow> emit_prev s is_backward_dir;
     Some (Done (s, p, Some start, ps_capture_count s)) }"

definition term_class :: "REParseState \<Rightarrow> nat \<Rightarrow> bool \<Rightarrow> atom_code outcome option" where
  "term_class s p is_backward_dir = do {
     let start = code_size s;
     s \<leftarrow> emit_prev s is_backward_dir;
     andthen (re_parse_char_class s p) (\<lambda>(s, p). do {
       s \<leftarrow> emit_prev s is_backward_dir;
       Some (Done (s, p, Some start, ps_capture_count s)) }) }"

definition term_back_reference :: "REParseState \<Rightarrow> nat \<Rightarrow> int \<Rightarrow> bool \<Rightarrow> atom_code outcome option" where
  "term_back_reference s p c is_backward_dir = do {
     let start = code_size s;
     s \<leftarrow> re_emit_op_u8 s (if is_backward_dir then REOP_backward_back_reference else REOP_back_reference) (word_of_int c);
     Some (Done (s, p, Some start, ps_capture_count s)) }"

text \<open>A brace: an error when it looks like a repetition count, otherwise an ordinary character.\<close>

definition nothing_to_repeat :: "REParseState \<Rightarrow> 'a outcome option" where
  "nothing_to_repeat s = re_parse_error s ''nothing to repeat''"

definition term_brace :: "REParseState \<Rightarrow> nat \<Rightarrow> bool \<Rightarrow> atom_code outcome option" where
  "term_brace s p is_backward_dir =
     (if ps_is_utf16 s then re_parse_error s ''syntax error''
      else do {
        b \<leftarrow> at s (p + 1);
        if \<not> is_digit b then term_class_atom s p is_backward_dir
        else do {
          (_, p1) \<leftarrow> parse_digits (ps_buf s) (p + 1) True;
          b \<leftarrow> at s p1;
          p1 \<leftarrow> (if b = asc CHR '','' then do {
                    b \<leftarrow> at s (p1 + 1);
                    if is_digit b then do { (_, p1) \<leftarrow> parse_digits (ps_buf s) (p1 + 1) True; Some p1 }
                    else Some (p1 + 1) }
                  else Some p1);
          b \<leftarrow> at s p1;
          if b \<noteq> asc CHR 0x7D then term_class_atom s p is_backward_dir else nothing_to_repeat s } })"

section \<open>Groups and escapes\<close>

text \<open>\<open>parse\<close> is \<open>re_parse_disjunction\<close>; it starts at \<open>buf_ptr\<close> and leaves the position there.\<close>

type_synonym parser = "REParseState \<Rightarrow> bool \<Rightarrow> REParseState outcome option"

definition sub_expression :: "parser \<Rightarrow> REParseState \<Rightarrow> nat \<Rightarrow> bool \<Rightarrow> REParseState outcome option" where
  "sub_expression parse s p is_backward_dir = parse (s\<lparr>buf_ptr := p\<rparr>) is_backward_dir"

definition patch_u8 :: "REParseState \<Rightarrow> nat \<Rightarrow> u8 \<Rightarrow> REParseState option" where
  "patch_u8 s pos val = do {
     b \<leftarrow> wr (db_buf (byte_code s)) pos val;
     Some (s\<lparr>byte_code := (byte_code s)\<lparr>db_buf := b\<rparr>\<rparr>) }"

definition patch_u32 :: "REParseState \<Rightarrow> nat \<Rightarrow> u32 \<Rightarrow> REParseState option" where
  "patch_u32 s pos val = do {
     b \<leftarrow> put_u32 (db_buf (byte_code s)) pos val;
     Some (s\<lparr>byte_code := (byte_code s)\<lparr>db_buf := b\<rparr>\<rparr>) }"

definition term_plain_group :: "parser \<Rightarrow> REParseState \<Rightarrow> nat \<Rightarrow> bool \<Rightarrow> atom_code outcome option" where
  "term_plain_group parse s p is_backward_dir =
     andthen (sub_expression parse s p is_backward_dir) (\<lambda>s'.
       andthen (re_parse_expect s' (buf_ptr s') CHR '')'') (\<lambda>p.
         Some (Done (s', p, Some (code_size s), ps_capture_count s))))"

definition term_lookahead :: "parser \<Rightarrow> REParseState \<Rightarrow> nat \<Rightarrow> bool \<Rightarrow> bool \<Rightarrow> atom_code outcome option" where
  "term_lookahead parse s p is_neg is_backward_lookahead = do {
     let start = (if \<not> ps_is_utf16 s \<and> \<not> is_backward_lookahead then Some (code_size s) else None);
     let last_capture_count = (if start = None then 0 else ps_capture_count s);
     (pos, s) \<leftarrow> re_emit_op_u32 s (if is_neg then REOP_negative_lookahead else REOP_lookahead) 0;
     andthen (sub_expression parse s p is_backward_lookahead) (\<lambda>s.
       andthen (re_parse_expect s (buf_ptr s) CHR '')'') (\<lambda>p. do {
         s \<leftarrow> re_emit_op s REOP_match;
         if dbuf_error (byte_code s) then Some (Failed s)
         else do {
           s \<leftarrow> patch_u32 s pos (of_nat (code_size s) - of_nat (pos + 4));
           Some (Done (s, p, start, last_capture_count)) } })) }"

definition term_capture :: "parser \<Rightarrow> REParseState \<Rightarrow> nat \<Rightarrow> bool \<Rightarrow> atom_code outcome option" where
  "term_capture parse s p is_backward_dir =
     (if ps_capture_count s \<ge> CAPTURE_COUNT_MAX then re_parse_error s ''too many captures''
      else do {
        let start = code_size s;
        let capture_index = ps_capture_count s;
        let s = s\<lparr>ps_capture_count := capture_index + 1\<rparr>;
        s \<leftarrow> re_emit_op_u8 s (if is_backward_dir then REOP_save_end else REOP_save_start) (of_nat capture_index);
        andthen (sub_expression parse s p is_backward_dir) (\<lambda>s. do {
          s \<leftarrow> re_emit_op_u8 s (if is_backward_dir then REOP_save_start else REOP_save_end) (of_nat capture_index);
          andthen (re_parse_expect s (buf_ptr s) CHR '')'') (\<lambda>p.
            Some (Done (s, p, Some start, capture_index))) }) })"

definition put_group_name :: "REParseState \<Rightarrow> u8 list \<Rightarrow> REParseState option" where
  "put_group_name s bs = do { (_, d) \<leftarrow> dbuf_put (group_names s) bs; Some (s\<lparr>group_names := d\<rparr>) }"

definition term_named_group :: "parser \<Rightarrow> REParseState \<Rightarrow> nat \<Rightarrow> bool \<Rightarrow> atom_code outcome option" where
  "term_named_group parse s p is_backward_dir = do {
     (r, tmp_buf, p) \<leftarrow> re_parse_group_name (u_buf s) TMP_BUF_SIZE (ps_buf s) p (ps_is_utf16 s);
     let s = s\<lparr>u_buf := tmp_buf\<rparr>;
     if r \<noteq> 0 then re_parse_error s ''invalid group name''
     else do {
       i \<leftarrow> find_group_name s (cstr tmp_buf);
       if i > 0 then re_parse_error s ''duplicate group name''
       else do {
         s \<leftarrow> put_group_name s (cstr tmp_buf @ [0]);
         term_capture parse (s\<lparr>has_named_captures := 1\<rparr>) p is_backward_dir } } }"

definition term_group :: "parser \<Rightarrow> REParseState \<Rightarrow> nat \<Rightarrow> bool \<Rightarrow> atom_code outcome option" where
  "term_group parse s p is_backward_dir = do {
     b1 \<leftarrow> at s (p + 1);
     if b1 = asc CHR ''?'' then do {
       b2 \<leftarrow> at s (p + 2);
       if b2 = asc CHR '':'' then term_plain_group parse s (p + 3) is_backward_dir
       else if b2 = asc CHR ''='' \<or> b2 = asc CHR ''!'' then term_lookahead parse s (p + 3) (b2 = asc CHR ''!'') False
       else if b2 = asc CHR ''<'' then do {
         b3 \<leftarrow> at s (p + 3);
         if b3 = asc CHR ''='' \<or> b3 = asc CHR ''!'' then term_lookahead parse s (p + 4) (b3 = asc CHR ''!'') True
         else term_named_group parse s (p + 3) is_backward_dir }
       else re_parse_error s ''invalid group'' }
     else do {
       s \<leftarrow> put_group_name s [0];
       term_capture parse s (p + 1) is_backward_dir } }"

text \<open>An octal digit at \<open>p\<close> is appended to \<open>c\<close>.\<close>

definition is_octal :: "u8 \<Rightarrow> bool" where
  "is_octal b \<longleftrightarrow> b \<ge> asc CHR ''0'' \<and> b \<le> asc CHR ''7''"

definition octal_val :: "u8 \<Rightarrow> u32" where
  "octal_val b = ucast b - 0x30"

definition term_zero :: "REParseState \<Rightarrow> nat \<Rightarrow> bool \<Rightarrow> atom_code outcome option" where
  "term_zero s p is_backward_dir = do {
     b \<leftarrow> at s p;
     if ps_is_utf16 s then
       if is_digit b then re_parse_error s ''invalid decimal escape in regular expression''
       else term_char s p 0 is_backward_dir
     else if is_octal b then do {
       b2 \<leftarrow> at s (p + 1);
       if is_octal b2 then term_char s (p + 2) (push_bit 3 (octal_val b) + octal_val b2) is_backward_dir
       else term_char s (p + 1) (octal_val b) is_backward_dir }
     else term_char s p 0 is_backward_dir }"

text \<open>A decimal escape that is no back reference, read as legacy octal or as the digit itself.\<close>

definition term_legacy_octal :: "REParseState \<Rightarrow> nat \<Rightarrow> bool \<Rightarrow> atom_code outcome option" where
  "term_legacy_octal s q is_backward_dir = do {
     b \<leftarrow> at s q;
     if b > asc CHR ''7'' then term_char s (q + 1) (ucast b) is_backward_dir
     else do {
       let (c, p) = (if b \<le> asc CHR ''3'' then (octal_val b, q + 1) else (0, q));
       b \<leftarrow> at s p;
       if \<not> is_octal b then term_char s p c is_backward_dir
       else do {
         let c = push_bit 3 c + octal_val b;
         b \<leftarrow> at s (p + 1);
         if \<not> is_octal b then term_char s (p + 1) c is_backward_dir
         else term_char s (p + 2) (push_bit 3 c + octal_val b) is_backward_dir } } }"

definition term_decimal :: "REParseState \<Rightarrow> nat \<Rightarrow> bool \<Rightarrow> atom_code outcome option" where
  "term_decimal s q is_backward_dir = do {
     (c, p) \<leftarrow> parse_digits (ps_buf s) q False;
     (bad, s) \<leftarrow>
       (if c < 0 then Some (True, s)
        else if c \<ge> int (ps_capture_count s) then do { (n, s) \<leftarrow> re_count_captures s; Some (c \<ge> n, s) }
        else Some (False, s));
     if \<not> bad then term_back_reference s p c is_backward_dir
     else if \<not> ps_is_utf16 s then term_legacy_octal s q is_backward_dir
     else re_parse_error s ''back reference out of range in regular expression'' }"

text \<open>An error in unicode mode or when there is a named group, otherwise the atom is read literally.\<close>

definition unless_named :: "REParseState \<Rightarrow> string \<Rightarrow> nat \<Rightarrow> bool \<Rightarrow> atom_code outcome option" where
  "unless_named s msg p is_backward_dir =
     (if ps_is_utf16 s then re_parse_error s msg
      else do {
        (h, s) \<leftarrow> re_has_named_captures s;
        if h then re_parse_error s msg else term_class_atom s p is_backward_dir })"

definition term_named_reference :: "REParseState \<Rightarrow> nat \<Rightarrow> bool \<Rightarrow> atom_code outcome option" where
  "term_named_reference s p is_backward_dir = do {
     b \<leftarrow> at s (p + 2);
     if b \<noteq> asc CHR ''<'' then unless_named s ''expecting group name'' p is_backward_dir
     else do {
       (r, tmp_buf, p1) \<leftarrow> re_parse_group_name (u_buf s) TMP_BUF_SIZE (ps_buf s) (p + 3) (ps_is_utf16 s);
       let s = s\<lparr>u_buf := tmp_buf\<rparr>;
       if r \<noteq> 0 then unless_named s ''invalid group name'' p is_backward_dir
       else do {
         c \<leftarrow> find_group_name s (cstr tmp_buf);
         c \<leftarrow> (if c < 0 then map_option fst (re_parse_captures s (Some (cstr tmp_buf))) else Some c);
         if c < 0 then unless_named s ''group name not defined'' p is_backward_dir
         else term_back_reference s p1 c is_backward_dir } } }"

definition term_escape :: "REParseState \<Rightarrow> nat \<Rightarrow> bool \<Rightarrow> atom_code outcome option" where
  "term_escape s p is_backward_dir = do {
     b \<leftarrow> at s (p + 1);
     if b = asc CHR ''b'' \<or> b = asc CHR ''B'' then do {
       s \<leftarrow> re_emit_op s (if b \<noteq> asc CHR ''b'' then REOP_not_word_boundary else REOP_word_boundary);
       Some (Done (s, p + 2, None, 0)) }
     else if b = asc CHR ''k'' then term_named_reference s p is_backward_dir
     else if b = asc CHR ''0'' then term_zero s (p + 2) is_backward_dir
     else if b \<ge> asc CHR ''1'' \<and> b \<le> asc CHR ''9'' then term_decimal s (p + 1) is_backward_dir
     else term_class_atom s p is_backward_dir }"

definition term_atom :: "parser \<Rightarrow> REParseState \<Rightarrow> bool \<Rightarrow> atom_code outcome option" where
  "term_atom parse s is_backward_dir = do {
     let p = buf_ptr s;
     c \<leftarrow> at s p;
     if c = asc CHR ''^'' then do { s \<leftarrow> re_emit_op s REOP_line_start; Some (Done (s, p + 1, None, 0)) }
     else if c = asc CHR ''$'' then do { s \<leftarrow> re_emit_op s REOP_line_end; Some (Done (s, p + 1, None, 0)) }
     else if c = asc CHR ''.'' then term_dot s (p + 1) is_backward_dir
     else if c = asc CHR 0x7B then term_brace s p is_backward_dir
     else if c = asc CHR ''*'' \<or> c = asc CHR ''+'' \<or> c = asc CHR ''?'' then nothing_to_repeat s
     else if c = asc CHR ''('' then term_group parse s p is_backward_dir
     else if c = asc CHR 0x5C then term_escape s p is_backward_dir
     else if c = asc CHR ''['' then term_class s p is_backward_dir
     else if (c = asc CHR '']'' \<or> c = asc CHR 0x7D) \<and> ps_is_utf16 s then re_parse_error s ''syntax error''
     else term_class_atom s p is_backward_dir }"

section \<open>Quantifiers\<close>

text \<open>The bounds of the quantifier at \<open>p\<close> with the position behind it, or \<open>None\<close> when there is none.\<close>

definition quant_brace :: "REParseState \<Rightarrow> nat \<Rightarrow> (int \<times> int \<times> nat) option outcome option" where
  "quant_brace s p = do {
     b \<leftarrow> at s (p + 1);
     if \<not> is_digit b then
       if ps_is_utf16 s then re_parse_error s ''invalid repetition count'' else Some (Done None)
     else do {
       (quant_min, p1) \<leftarrow> parse_digits (ps_buf s) (p + 1) True;
       b \<leftarrow> at s p1;
       (quant_max, p2) \<leftarrow>
         (if b = asc CHR '','' then do {
            b \<leftarrow> at s (p1 + 1);
            if is_digit b then parse_digits (ps_buf s) (p1 + 1) True else Some (INT32_MAX, p1 + 1) }
          else Some (quant_min, p1));
       if quant_max < quant_min then re_parse_error s ''invalid repetition count''
       else do {
         b \<leftarrow> at s p2;
         if b \<noteq> asc CHR 0x7D \<and> \<not> ps_is_utf16 s then Some (Done None)
         else andthen (re_parse_expect s p2 CHR 0x7D) (\<lambda>p. Some (Done (Some (quant_min, quant_max, p)))) } } }"

definition quant_bounds :: "REParseState \<Rightarrow> nat \<Rightarrow> (int \<times> int \<times> nat) option outcome option" where
  "quant_bounds s p = do {
     c \<leftarrow> at s p;
     if c = asc CHR ''*'' then Some (Done (Some (0, INT32_MAX, p + 1)))
     else if c = asc CHR ''+'' then Some (Done (Some (1, INT32_MAX, p + 1)))
     else if c = asc CHR ''?'' then Some (Done (Some (0, 1, p + 1)))
     else if c = asc CHR 0x7B then quant_brace s p
     else Some (Done None) }"

definition insert_code :: "REParseState \<Rightarrow> nat \<Rightarrow> nat \<Rightarrow> REParseState outcome option" where
  "insert_code s pos len = do {
     (r, d) \<leftarrow> dbuf_insert (byte_code s) pos len;
     let s = s\<lparr>byte_code := d\<rparr>;
     if r \<noteq> 0 then re_parse_out_of_memory s else Some (Done s) }"

definition copy_code :: "REParseState \<Rightarrow> nat \<Rightarrow> nat \<Rightarrow> REParseState option" where
  "copy_code s start len = emit s (dbuf_put_self (byte_code s) start len)"

definition quant_simple :: "REParseState \<Rightarrow> nat \<Rightarrow> int \<Rightarrow> int \<Rightarrow> int \<Rightarrow> REParseState outcome option" where
  "quant_simple s start quant_min quant_max len = do {
     s \<leftarrow> re_emit_op s REOP_match;
     andthen (insert_code s start 17) (\<lambda>s. do {
       s \<leftarrow> patch_u8 s start (reop_byte REOP_simple_greedy_quant);
       s \<leftarrow> patch_u32 s (start + 1) (of_nat (code_size s) - of_nat start - 17);
       s \<leftarrow> patch_u32 s (start + 5) (word_of_int quant_min);
       s \<leftarrow> patch_u32 s (start + 9) (word_of_int quant_max);
       s \<leftarrow> patch_u32 s (start + 13) (word_of_int len);
       Some (Done s) }) }"

text \<open>\<^verbatim>\<open>REOP_split_goto_first + greedy\<close>\<close>

definition split_op :: "bool \<Rightarrow> REOPCodeEnum" where
  "split_op greedy = (if greedy then REOP_split_next_first else REOP_split_goto_first)"

text \<open>At least zero times: the captures of the atom are reset first.\<close>

definition quant_reset :: "REParseState \<Rightarrow> nat \<Rightarrow> nat \<Rightarrow> (REParseState \<times> nat) outcome option" where
  "quant_reset s start last_capture_count =
     (if last_capture_count \<noteq> ps_capture_count s then
        andthen (insert_code s start 3) (\<lambda>s. do {
          s \<leftarrow> patch_u8 s start (reop_byte REOP_save_reset);
          s \<leftarrow> patch_u8 s (start + 1) (of_nat last_capture_count);
          s \<leftarrow> patch_u8 s (start + 2) (of_nat (ps_capture_count s - 1));
          Some (Done (s, start + 3)) })
      else Some (Done (s, start)))"

definition quant_star :: "REParseState \<Rightarrow> nat \<Rightarrow> nat \<Rightarrow> int \<Rightarrow> bool \<Rightarrow> bool \<Rightarrow> REParseState outcome option" where
  "quant_star s start len quant_max greedy zero_check =
     (if quant_max = 0 then Some (Done (s\<lparr>byte_code := (byte_code s)\<lparr>db_size := start\<rparr>\<rparr>))
      else if quant_max = 1 then
        andthen (insert_code s start 5) (\<lambda>s. do {
          s \<leftarrow> patch_u8 s start (reop_byte (split_op greedy));
          s \<leftarrow> patch_u32 s (start + 1) (of_nat len);
          Some (Done s) })
      else if quant_max = INT32_MAX then
        andthen (insert_code s start (5 + of_bool zero_check)) (\<lambda>s. do {
          s \<leftarrow> patch_u8 s start (reop_byte (split_op greedy));
          s \<leftarrow> patch_u32 s (start + 1) (of_nat (len + 5 + of_bool zero_check));
          if zero_check then do {
            s \<leftarrow> patch_u8 s (start + 5) (reop_byte REOP_push_char_pos);
            (_, s) \<leftarrow> re_emit_goto s REOP_bne_char_pos start;
            Some (Done s) }
          else do { (_, s) \<leftarrow> re_emit_goto s REOP_goto start; Some (Done s) } })
      else
        andthen (insert_code s start 10) (\<lambda>s. do {
          s \<leftarrow> patch_u8 s start (reop_byte REOP_push_i32);
          s \<leftarrow> patch_u32 s (start + 1) (word_of_int quant_max);
          s \<leftarrow> patch_u8 s (start + 5) (reop_byte (split_op greedy));
          s \<leftarrow> patch_u32 s (start + 6) (of_nat (len + 5));
          (_, s) \<leftarrow> re_emit_goto s REOP_loop (start + 5);
          s \<leftarrow> re_emit_op s REOP_drop;
          Some (Done s) }))"

text \<open>At least once: a counted loop for the minimum, and a copy of the atom for what may follow.\<close>

definition quant_least :: "REParseState \<Rightarrow> nat \<Rightarrow> int \<Rightarrow> (REParseState \<times> nat) outcome option" where
  "quant_least s start quant_min =
     (if quant_min = 1 then Some (Done (s, start))
      else
        andthen (insert_code s start 5) (\<lambda>s. do {
          s \<leftarrow> patch_u8 s start (reop_byte REOP_push_i32);
          s \<leftarrow> patch_u32 s (start + 1) (word_of_int quant_min);
          (_, s) \<leftarrow> re_emit_goto s REOP_loop (start + 5);
          s \<leftarrow> re_emit_op s REOP_drop;
          Some (Done (s, start + 5)) }))"

definition quant_more ::
  "REParseState \<Rightarrow> nat \<Rightarrow> nat \<Rightarrow> int \<Rightarrow> int \<Rightarrow> bool \<Rightarrow> bool \<Rightarrow> REParseState option" where
  "quant_more s start len quant_min quant_max greedy zero_check =
     (if quant_max = INT32_MAX then do {
        let pos = code_size s;
        (_, s) \<leftarrow> re_emit_op_u32 s (split_op greedy) (of_nat (len + 5 + of_bool zero_check));
        s \<leftarrow> (if zero_check then re_emit_op s REOP_push_char_pos else Some s);
        s \<leftarrow> copy_code s start len;
        (_, s) \<leftarrow> re_emit_goto s (if zero_check then REOP_bne_char_pos else REOP_goto) pos;
        Some s }
      else if quant_max > quant_min then do {
        (_, s) \<leftarrow> re_emit_op_u32 s REOP_push_i32 (word_of_int (quant_max - quant_min));
        let pos = code_size s;
        (_, s) \<leftarrow> re_emit_op_u32 s (split_op greedy) (of_nat (len + 5));
        s \<leftarrow> copy_code s start len;
        (_, s) \<leftarrow> re_emit_goto s REOP_loop pos;
        re_emit_op s REOP_drop }
      else Some s)"

definition quant_general ::
  "REParseState \<Rightarrow> nat \<Rightarrow> nat \<Rightarrow> int \<Rightarrow> int \<Rightarrow> bool \<Rightarrow> bool \<Rightarrow> REParseState outcome option" where
  "quant_general s start last_capture_count quant_min quant_max greedy zero_check =
     (let len = code_size s - start in
      if quant_min = 0 then
        andthen (quant_reset s start last_capture_count) (\<lambda>(s, start). quant_star s start len quant_max greedy zero_check)
      else if quant_min = 1 \<and> quant_max = INT32_MAX \<and> \<not> zero_check then do {
        (_, s) \<leftarrow> re_emit_goto s (if greedy then REOP_split_goto_first else REOP_split_next_first) start;
        Some (Done s) }
      else
        andthen (quant_least s start quant_min) (\<lambda>(s, start). do {
          s \<leftarrow> quant_more s start len quant_min quant_max greedy zero_check;
          Some (Done s) }))"

definition re_quantifier ::
  "REParseState \<Rightarrow> nat \<Rightarrow> nat \<Rightarrow> int \<Rightarrow> int \<Rightarrow> bool \<Rightarrow> REParseState outcome option" where
  "re_quantifier s start last_capture_count quant_min quant_max greedy =
     (let code = drop start (db_buf (byte_code s)); n = code_size s - start in
      if \<not> greedy then quant_general s start last_capture_count quant_min quant_max greedy False
      else if dbuf_error (byte_code s) then re_parse_out_of_memory s
      else do {
        len \<leftarrow> (if quant_max > 0 then re_is_simple_quantifier code n else Some (-1));
        if len > 0 then quant_simple s start quant_min quant_max len
        else do {
          adv \<leftarrow> re_check_advance code n;
          quant_general s start last_capture_count quant_min quant_max greedy (adv = 0) } })"

section \<open>Terms, alternatives and disjunctions\<close>

definition re_parse_term :: "parser \<Rightarrow> parser" where
  "re_parse_term parse s is_backward_dir =
     andthen (term_atom parse s is_backward_dir) (\<lambda>(s, p, last_atom_start, last_capture_count).
       case last_atom_start of
         None \<Rightarrow> Some (Done (s\<lparr>buf_ptr := p\<rparr>))
       | Some start \<Rightarrow>
           andthen (quant_bounds s p) (\<lambda>q.
             case q of
               None \<Rightarrow> Some (Done (s\<lparr>buf_ptr := p\<rparr>))
             | Some (quant_min, quant_max, p) \<Rightarrow> do {
                 b \<leftarrow> at s p;
                 let greedy = (b \<noteq> asc CHR ''?'');
                 andthen (re_quantifier s start last_capture_count quant_min quant_max greedy) (\<lambda>s.
                   Some (Done (s\<lparr>buf_ptr := if greedy then p else p + 1\<rparr>))) }))"

text \<open>In a lookbehind the code of a term is moved in front of the terms before it.\<close>

definition reverse_term :: "REParseState \<Rightarrow> nat \<Rightarrow> nat \<Rightarrow> REParseState outcome option" where
  "reverse_term s start term_start = do {
     let end = code_size s;
     let term_size = end - term_start;
     (r, d) \<leftarrow> dbuf_realloc (byte_code s) (size_add end term_size);
     if r \<noteq> 0 then Some (Failed (s\<lparr>byte_code := d\<rparr>))
     else do {
       moved \<leftarrow> rd_n (db_buf d) start (end - start);
       b \<leftarrow> memcpy (db_buf d) (start + term_size) moved;
       term \<leftarrow> rd_n b end term_size;
       b \<leftarrow> memcpy b start term;
       Some (Done (s\<lparr>byte_code := d\<lparr>db_buf := b\<rparr>\<rparr>)) } }"

fun alternative_loop :: "nat \<Rightarrow> parser \<Rightarrow> REParseState \<Rightarrow> nat \<Rightarrow> bool \<Rightarrow> REParseState outcome option" where
  "alternative_loop 0 parse s start is_backward_dir = Some Exhausted"
| "alternative_loop (Suc n) parse s start is_backward_dir =
     (if buf_ptr s \<ge> buf_end s then Some (Done s)
      else do {
        b \<leftarrow> at s (buf_ptr s);
        if b = asc CHR ''|'' \<or> b = asc CHR '')'' then Some (Done s)
        else
          let term_start = code_size s in
          andthen (re_parse_term parse s is_backward_dir) (\<lambda>s.
            andthen (if is_backward_dir then reverse_term s start term_start else Some (Done s)) (\<lambda>s.
              alternative_loop n parse s start is_backward_dir)) })"

definition re_parse_alternative :: "parser \<Rightarrow> parser" where
  "re_parse_alternative parse s is_backward_dir =
     alternative_loop (length (ps_buf s) + 1) parse s (code_size s) is_backward_dir"

fun disjunction_loop :: "nat \<Rightarrow> parser \<Rightarrow> REParseState \<Rightarrow> nat \<Rightarrow> bool \<Rightarrow> REParseState outcome option" where
  "disjunction_loop 0 parse s start is_backward_dir = Some Exhausted"
| "disjunction_loop (Suc n) parse s start is_backward_dir = do {
     b \<leftarrow> at s (buf_ptr s);
     if b \<noteq> asc CHR ''|'' then Some (Done s)
     else
       let s = s\<lparr>buf_ptr := buf_ptr s + 1\<rparr>; len = code_size s - start in
       andthen (insert_code s start 5) (\<lambda>s. do {
         s \<leftarrow> patch_u8 s start (reop_byte REOP_split_next_first);
         s \<leftarrow> patch_u32 s (start + 1) (of_nat (len + 5));
         (pos, s) \<leftarrow> re_emit_op_u32 s REOP_goto 0;
         andthen (re_parse_alternative parse s is_backward_dir) (\<lambda>s. do {
           s \<leftarrow> patch_u32 s pos (of_nat (code_size s) - of_nat (pos + 4));
           disjunction_loop n parse s start is_backward_dir }) }) }"

text \<open>\<open>fuel\<close> bounds the nesting of groups, \<open>depth\<close> counts it.\<close>

primrec re_parse_disjunction :: "nat \<Rightarrow> nat \<Rightarrow> parser" where
  "re_parse_disjunction 0 = (\<lambda>depth s is_backward_dir. Some Exhausted)"
| "re_parse_disjunction (Suc fuel) = (\<lambda>depth s is_backward_dir.
     let parse = re_parse_disjunction fuel (depth + 1) in
     if ps_stack_overflow s depth then re_parse_error s ''stack overflow''
     else andthen (re_parse_alternative parse s is_backward_dir) (\<lambda>s'.
       disjunction_loop (length (ps_buf s) + 1) parse s' (code_size s) is_backward_dir))"

section \<open>Compilation\<close>

definition init_parse_state :: "u8 list \<Rightarrow> u32 \<Rightarrow> (nat \<Rightarrow> bool) \<Rightarrow> (nat \<Rightarrow> bool) \<Rightarrow> REParseState" where
  "init_parse_state buf re_flags alloc overflow =
     \<lparr>byte_code = dbuf_init2 alloc, ps_buf = buf @ [0], buf_ptr = 0, buf_end = length buf,
      ps_is_utf16 = (re_flags AND LRE_FLAG_UTF16 \<noteq> 0), ps_ignore_case = (re_flags AND LRE_FLAG_IGNORECASE \<noteq> 0),
      dotall = (re_flags AND LRE_FLAG_DOTALL \<noteq> 0), ps_capture_count = 1, total_capture_count = -1,
      has_named_captures = -1, group_names = dbuf_init2 alloc, u_buf = replicate TMP_BUF_SIZE 0,
      ps_realloc = alloc, ps_stack_overflow = overflow\<rparr>"

text \<open>The header and the code in front of the expression: without the sticky flag the match is tried at every position.\<close>

definition compile_prologue :: "REParseState \<Rightarrow> u32 \<Rightarrow> REParseState option" where
  "compile_prologue s re_flags = do {
     s \<leftarrow> emit s (dbuf_putc (byte_code s) (ucast re_flags));
     s \<leftarrow> emit s (dbuf_putc (byte_code s) 0);
     s \<leftarrow> emit s (dbuf_putc (byte_code s) 0);
     s \<leftarrow> emit s (dbuf_put_u32 (byte_code s) 0);
     s \<leftarrow> (if re_flags AND LRE_FLAG_STICKY = 0 then do {
            (_, s) \<leftarrow> re_emit_op_u32 s REOP_split_goto_first (1 + 5);
            s \<leftarrow> re_emit_op s REOP_any;
            (_, s) \<leftarrow> re_emit_op_u32 s REOP_goto (- (5 + 1 + 5));
            Some s }
          else Some s);
     re_emit_op_u8 s REOP_save_start 0 }"

text \<open>The header is completed and the group names are appended when there is one.\<close>

definition compile_epilogue :: "REParseState \<Rightarrow> REParseState outcome option" where
  "compile_epilogue s = do {
     s \<leftarrow> re_emit_op_u8 s REOP_save_end 0;
     s \<leftarrow> re_emit_op s REOP_match;
     b \<leftarrow> at s (buf_ptr s);
     if b \<noteq> 0 then re_parse_error s ''extraneous characters at the end''
     else if dbuf_error (byte_code s) then re_parse_out_of_memory s
     else do {
       stack_size \<leftarrow> compute_stack_size (db_buf (byte_code s)) (code_size s);
       if stack_size < 0 then re_parse_error s ''too many imbricated quantifiers''
       else do {
         s \<leftarrow> patch_u8 s RE_HEADER_CAPTURE_COUNT (of_nat (ps_capture_count s));
         s \<leftarrow> patch_u8 s RE_HEADER_STACK_SIZE (word_of_int stack_size);
         s \<leftarrow> patch_u32 s 3 (of_nat (code_size s) - of_nat RE_HEADER_LEN);
         if db_size (group_names s) > ps_capture_count s - 1 then do {
           names \<leftarrow> rd_n (db_buf (group_names s)) 0 (db_size (group_names s));
           s \<leftarrow> emit s (dbuf_put (byte_code s) names);
           flags \<leftarrow> rd (db_buf (byte_code s)) RE_HEADER_FLAGS;
           s \<leftarrow> patch_u8 s RE_HEADER_FLAGS (flags OR ucast LRE_FLAG_NAMED_GROUPS);
           Some (Done s) }
         else Some (Done s) } } }"

text \<open>What \<open>lre_compile\<close> returns: the byte code, or the error message as it is in the caller's buffer. A bound on the nesting
  of groups that is too small is an outcome of its own, so \<open>None\<close> is undefined behaviour and nothing else.\<close>

datatype compile_result = Byte_Code "u8 list" | Error_Msg "u8 list" | Compiles_Forever | Fuel_Exhausted

definition lre_compile ::
  "nat \<Rightarrow> u8 list \<Rightarrow> u8 list \<Rightarrow> u32 \<Rightarrow> (nat \<Rightarrow> bool) \<Rightarrow> (nat \<Rightarrow> bool) \<Rightarrow> compile_result option" where
  "lre_compile fuel error_msg buf re_flags alloc overflow = do {
     s \<leftarrow> compile_prologue (init_parse_state buf re_flags alloc overflow) re_flags;
     r \<leftarrow> andthen (re_parse_disjunction fuel 0 s False) compile_epilogue;
     case r of
       Done s \<Rightarrow> do {
         _ \<leftarrow> wr error_msg 0 0;
         Some (Byte_Code (take (code_size s) (db_buf (byte_code s)))) }
     | Failed s \<Rightarrow> do {
         msg \<leftarrow> pstrcpy error_msg (int (length error_msg)) (u_buf s);
         Some (Error_Msg msg) }
     | Never \<Rightarrow> Some Compiles_Forever
     | Exhausted \<Rightarrow> Some Fuel_Exhausted }"

end
