(* ===== verification/Regexp_Class.thy ===== *)
theory Regexp_Class
  imports Regexp_Compile Regexp_Safe
begin

text \<open>
  Character classes from the parser to the matcher: the instruction that \<open>re_emit_range\<close> appends for a range of code
  points matches exactly the members of the range.
\<close>

section \<open>The emitted bytes\<close>

lemma emit_put: "emit s (dbuf_put (byte_code s) bs) = map_option (\<lambda>d. s\<lparr>byte_code := d\<rparr>) (put_all dbuf_put (byte_code s) [bs])"
  by (auto simp: emit_def split: bind_splits)

text \<open>A sequence of appended pieces.\<close>

definition emit_all :: "REParseState \<Rightarrow> u8 list list \<Rightarrow> REParseState option" where
  "emit_all s bss = map_option (\<lambda>d. s\<lparr>byte_code := d\<rparr>) (put_all dbuf_put (byte_code s) bss)"

lemma emit_all_Nil [simp]: "emit_all s [] = Some s"
  by (simp add: emit_all_def)

lemma emit_all_Cons: "emit_all s (bs # bss) = Option.bind (emit s (dbuf_put (byte_code s) bs)) (\<lambda>s. emit_all s bss)"
  by (cases "dbuf_put (byte_code s) bs") (auto simp: emit_all_def emit_def split: option.splits)

lemmas emit_pieces = dbuf_putc_def dbuf_put_u16_def dbuf_put_u32_def

fun intervals :: "u32 list \<Rightarrow> (u32 \<times> u32) list" where
  "intervals (lo # hi # pts) = (lo, hi) # intervals pts"
| "intervals _ = []"

lemma length_intervals [simp]: "length (intervals pts) = length pts div 2"
  by (induction pts rule: intervals.induct) simp_all

definition high16 :: "u32 \<Rightarrow> u32" where
  "high16 hi = (if hi - 1 = UINT32_MAX - 1 then 0xffff else hi - 1)"

lemma emit_ranges16_all:
  "even (length pts) \<Longrightarrow> emit_ranges16 s pts =
     emit_all s (concat (map (\<lambda>(lo, hi). [le_bytes 2 (ucast lo :: u16), le_bytes 2 (ucast (high16 hi) :: u16)]) (intervals pts)))"
  by (induction s pts rule: emit_ranges16.induct) (auto simp: emit_all_Cons emit_pieces high16_def Let_def split: bind_splits)

lemma emit_ranges32_all:
  "even (length pts) \<Longrightarrow> emit_ranges32 s pts =
     emit_all s (concat (map (\<lambda>(lo, hi). [le_bytes 4 lo, le_bytes 4 (hi - 1)]) (intervals pts)))"
  by (induction s pts rule: emit_ranges32.induct) (auto simp: emit_all_Cons emit_pieces split: bind_splits)

text \<open>The intervals of the instruction with bounds of \<open>w\<close> bytes, and its bytes.\<close>

definition class_intervals :: "nat \<Rightarrow> u32 list \<Rightarrow> (u32 \<times> u32) list" where
  "class_intervals w pts = map (\<lambda>(lo, hi). (lo, if w = 2 then high16 hi else hi - 1)) (intervals pts)"

definition bound_bytes :: "nat \<Rightarrow> u32 \<Rightarrow> u8 list" where
  "bound_bytes w b = (if w = 2 then le_bytes 2 (ucast b :: u16) else le_bytes 4 b)"

definition class_bytes :: "nat \<Rightarrow> u32 list \<Rightarrow> u8 list list" where
  "class_bytes w pts =
     [[reop_byte (if w = 2 then REOP_range else REOP_range32)], le_bytes 2 (of_nat (length pts div 2) :: u16)] @
     concat (map (\<lambda>(lo, hi). [bound_bytes w lo, bound_bytes w hi]) (class_intervals w pts))"

definition class_width :: "u32 list \<Rightarrow> nat" where
  "class_width pts =
     (if (if last pts = UINT32_MAX then pts ! (length pts - 2) else last pts) \<le> 0xffff then 2 else 4)"

lemma re_emit_op_u16_all: "re_emit_op_u16 s op v = emit_all s [[reop_byte op], le_bytes 2 v]"
  by (simp add: re_emit_op_u16_def emit_all_Cons emit_pieces)

lemma emit_all_append: "emit_all s (xs @ ys) = Option.bind (emit_all s xs) (\<lambda>s. emit_all s ys)"
  by (induction xs arbitrary: s) (simp_all add: emit_all_Cons)

lemma map_option_bind: "map_option f (Option.bind x g) = Option.bind x (\<lambda>y. map_option f (g y))"
  by (cases x) simp_all

lemma re_emit_range_all:
  assumes "cr_inv cr" "even (cr_len cr)" "0 < cr_len cr" "cr_len cr div 2 < 65535"
  shows "re_emit_range s cr = map_option outcome.Done (emit_all s (class_bytes (class_width (cr_pts cr)) (cr_pts cr)))"
proof -
  let ?pts = "cr_pts cr"
  have len: "length ?pts = cr_len cr" "2 \<le> cr_len cr" using assms by auto
  have pt: "rd (cr_points cr) i = Some (?pts ! i)" if "i < cr_len cr" for i
    using that assms(1) by (simp add: rd_def cr_inv_def cr_pts_def)
  have all: "rd_n (cr_points cr) 0 (cr_len cr) = Some ?pts" using assms(1) by (simp add: rd_n_def cr_inv_def cr_pts_def)
  have last: "last ?pts = ?pts ! (cr_len cr - 1)" using len by (subst last_conv_nth) auto
  have lt: "cr_len cr - 1 < cr_len cr" "cr_len cr - 2 < cr_len cr" "\<not> 65535 \<le> cr_len cr div 2" "cr_len cr div 2 \<noteq> 0"
    using assms len by auto
  have high: "(if last ?pts = UINT32_MAX then rd (cr_points cr) (cr_len cr - 2) else Some (last ?pts)) =
     Some (if last ?pts = UINT32_MAX then ?pts ! (length ?pts - 2) else last ?pts)"
    by (simp add: pt [OF lt(2)] len(1))
  show ?thesis
  proof (cases "class_width ?pts = 2")
    case True
    then have le: "(if last ?pts = UINT32_MAX then ?pts ! (length ?pts - 2) else last ?pts) \<le> 0xffff"
      by (simp add: class_width_def split: if_splits)
    have "re_emit_range s cr =
      Option.bind (re_emit_op_u16 s REOP_range (of_nat (cr_len cr div 2))) (\<lambda>s. map_option outcome.Done (emit_ranges16 s ?pts))"
      unfolding re_emit_range_def Let_def pt [OF lt(1)] last [symmetric] bind.bind_lunit high all map_conv_bind_option
      by (simp only: lt le if_True if_False comp_def)
    then show ?thesis using True assms(2) len(1)
      by (simp add: re_emit_op_u16_all class_bytes_def class_intervals_def bound_bytes_def emit_ranges16_all emit_all_Cons
        map_option_bind comp_def split_def)
  next
    case False
    then have le: "\<not> (if last ?pts = UINT32_MAX then ?pts ! (length ?pts - 2) else last ?pts) \<le> 0xffff"
      by (simp add: class_width_def split: if_splits)
    have "re_emit_range s cr =
      Option.bind (re_emit_op_u16 s REOP_range32 (of_nat (cr_len cr div 2))) (\<lambda>s. map_option outcome.Done (emit_ranges32 s ?pts))"
      unfolding re_emit_range_def Let_def pt [OF lt(1)] last [symmetric] bind.bind_lunit high all map_conv_bind_option
      by (simp only: lt le if_True if_False comp_def)
    then show ?thesis using False assms(2) len(1)
      by (simp add: re_emit_op_u16_all class_bytes_def class_intervals_def bound_bytes_def emit_ranges32_all emit_all_Cons
        map_option_bind comp_def split_def)
  qed
qed

section \<open>Reading the table back\<close>

lemma rd_n_middle: "n = length bs \<Longrightarrow> p = length pre \<Longrightarrow> rd_n (pre @ bs @ post) p n = Some bs"
  by (simp add: rd_n_def)

lemma get_bound_middle:
  assumes "w = 2 \<and> b \<le> 0xffff \<or> w = 4" "p = length pre"
  shows "get_bound w (pre @ bound_bytes w b @ post) p = Some b"
  using assms(1)
proof (elim disjE conjE)
  assume w: "w = 2" and b: "b \<le> 0xffff"
  have "ucast (ucast b :: u16) = b"
    using b by (simp add: word_unat_eq_iff unsigned_ucast_eq word_le_nat_alt) (simp add: take_bit_eq_mod unat_mod)
  then show ?thesis using w assms(2)
    by (simp add: get_bound_def get_u16_def bound_bytes_def rd_n_middle of_le_le_bytes)
next
  assume "w = 4"
  then show ?thesis using assms(2) by (simp add: get_bound_def get_u32_def bound_bytes_def rd_n_middle of_le_le_bytes)
qed

definition table_bytes :: "nat \<Rightarrow> (u32 \<times> u32) list \<Rightarrow> u8 list" where
  "table_bytes w xs = concat (map (\<lambda>(lo, hi). bound_bytes w lo @ bound_bytes w hi) xs)"

lemma length_bound_bytes: "w = 2 \<or> w = 4 \<Longrightarrow> length (bound_bytes w b) = w"
  by (auto simp: bound_bytes_def)

lemma length_table_bytes: "w = 2 \<or> w = 4 \<Longrightarrow> length (table_bytes w xs) = length xs * (2 * w)"
  by (induction xs) (auto simp: table_bytes_def length_bound_bytes)

lemma class_at_table:
  assumes "w = 2 \<and> list_all (\<lambda>(lo, hi). lo \<le> 0xffff \<and> hi \<le> 0xffff) xs \<or> w = 4"
  shows "class_at w (pre @ table_bytes w xs @ post) (length pre) xs"
  unfolding class_at_def list_all_iff
proof (intro ballI)
  fix i assume "i \<in> set [0..<length xs]"
  then have i: "i < length xs" by simp
  obtain lo hi where x: "xs ! i = (lo, hi)" by fastforce
  have b: "w = 2 \<and> lo \<le> 0xffff \<or> w = 4" "w = 2 \<and> hi \<le> 0xffff \<or> w = 4"
    using assms nth_mem [OF i] x by (auto simp: list_all_iff)
  have w: "w = 2 \<or> w = 4" using assms by auto
  have "table_bytes w xs = table_bytes w (take i xs) @ bound_bytes w lo @ bound_bytes w hi @ table_bytes w (drop (Suc i) xs)"
    using x by (subst id_take_nth_drop [OF i]) (simp add: table_bytes_def)
  then have t: "pre @ table_bytes w xs @ post =
      (pre @ table_bytes w (take i xs)) @ bound_bytes w lo @ (bound_bytes w hi @ table_bytes w (drop (Suc i) xs) @ post)"
    "pre @ table_bytes w xs @ post =
      (pre @ table_bytes w (take i xs) @ bound_bytes w lo) @ bound_bytes w hi @ (table_bytes w (drop (Suc i) xs) @ post)"
    by simp_all
  have l: "length (table_bytes w (take i xs)) = i * (2 * w)" using w i by (simp add: length_table_bytes)
  have "get_bound w (pre @ table_bytes w xs @ post) (length pre + i * (2 * w)) = Some lo"
    unfolding t(1) by (rule get_bound_middle) (simp_all add: b l)
  moreover have "get_bound w (pre @ table_bytes w xs @ post) (length pre + i * (2 * w) + w) = Some hi"
    unfolding t(2) by (rule get_bound_middle) (simp_all add: b l w length_bound_bytes)
  ultimately show "get_bound w (pre @ table_bytes w xs @ post) (length pre + i * (2 * w)) = Some (fst (xs ! i)) \<and>
      get_bound w (pre @ table_bytes w xs @ post) (length pre + i * (2 * w) + w) = Some (snd (xs ! i))"
    by (simp add: x)
qed

section \<open>Members\<close>

lemma cr_mem_intervals: "cr_mem pts c = list_ex (\<lambda>(lo, hi). lo \<le> c \<and> c < hi) (intervals pts)"
  by (induction pts rule: intervals.induct) simp_all

lemma set_intervals: "(lo, hi) \<in> set (intervals pts) \<Longrightarrow> lo \<in> set pts \<and> hi \<in> set pts"
  by (induction pts rule: intervals.induct) auto

lemma intervals_sorted:
  "sorted_wrt (<) pts \<Longrightarrow> sorted_wrt (\<lambda>a b. snd a < fst b) (intervals pts) \<and> list_all (\<lambda>(lo, hi). lo < hi) (intervals pts)"
  by (induction pts rule: intervals.induct) (auto dest: set_intervals)

lemma intervals_Nil_iff: "even (length pts) \<Longrightarrow> intervals pts = [] \<longleftrightarrow> pts = []"
  by (induction pts rule: intervals.induct) auto

lemma last_intervals:
  "even (length pts) \<Longrightarrow> pts \<noteq> [] \<Longrightarrow> last (intervals pts) = (pts ! (length pts - 2), last pts)"
proof (induction pts rule: intervals.induct)
  case (1 lo hi pts)
  show ?case
  proof (cases "pts = []")
    case False
    then have "length pts \<noteq> 0" "length pts \<noteq> 1" using "1.prems"(1) by auto
    then obtain k where "length pts = Suc (Suc k)" by (metis One_nat_def not0_implies_Suc)
    then show ?thesis using False 1 by (simp add: intervals_Nil_iff)
  qed simp
qed auto

lemma pred_bound: "hi \<noteq> 0 \<Longrightarrow> c \<le> hi - 1 \<longleftrightarrow> c < (hi :: u32)"
  by (simp add: word_le_nat_alt word_less_nat_alt unat_minus_one) (metis One_nat_def Suc_diff_1 less_Suc_eq_le unat_gt_0)

lemma pred_bound_less: "a < hi \<Longrightarrow> c \<le> hi - 1 \<longleftrightarrow> c < (hi :: u32)"
  by (rule pred_bound) auto

lemma less_UINT32_MAX: "c < UINT32_MAX \<longleftrightarrow> c \<noteq> UINT32_MAX"
proof -
  have "UINT32_MAX = -1" by (simp add: UINT32_MAX_def)
  then show ?thesis by (metis order_less_le word_order.extremum)
qed

lemma high16_max [simp]: "high16 UINT32_MAX = 0xffff"
  by (simp add: high16_def)

lemma high16_other: "hi \<noteq> UINT32_MAX \<Longrightarrow> high16 hi = hi - 1"
  by (simp add: high16_def)

text \<open>Where the bounds have two bytes, every bound fits but the one of an interval that is open at the end.\<close>

lemma class_width_2:
  assumes "cr_canonical pts" "pts \<noteq> []" "class_width pts = 2"
  obtains ys lo hi where "intervals pts = ys @ [(lo, hi)]" "lo \<le> 0xffff" "hi \<le> 0xffff \<or> hi = UINT32_MAX"
    "list_all (\<lambda>(a, b). a < b \<and> b < lo) ys" "lo < hi"
proof -
  have ev: "even (length pts)" "sorted_wrt (<) pts" using assms(1) by (simp_all add: cr_canonical_def)
  have ne: "intervals pts \<noteq> []" using assms(2) ev(1) by (cases pts rule: intervals.cases) auto
  define ys lo hi where d: "ys = butlast (intervals pts)" "lo = pts ! (length pts - 2)" "hi = last pts"
  have split: "intervals pts = ys @ [(lo, hi)]"
    using append_butlast_last_id [OF ne] last_intervals [OF ev(1) assms(2)] by (simp add: d)
  have s: "list_all (\<lambda>(a, b). a < b \<and> b < lo) ys" "lo < hi"
    using intervals_sorted [OF ev(2)] by (auto simp: split sorted_wrt_append list_all_iff)
  have "(if hi = UINT32_MAX then lo else hi) \<le> 0xffff"
    using assms(3) by (simp add: class_width_def d split: if_splits)
  then have "lo \<le> 0xffff" "hi \<le> 0xffff \<or> hi = UINT32_MAX" using s(2) by (auto split: if_splits)
  then show thesis using that split s by blast
qed

lemma in_class_append: "in_class (xs @ ys) c \<longleftrightarrow> in_class xs c \<or> in_class ys c"
  by (simp add: in_class_def)

lemma members_pred:
  assumes "list_all (\<lambda>(a, b). a < b) ys"
  shows "in_class (map (\<lambda>(a, b). (a, b - 1)) ys) c = list_ex (\<lambda>(a, b). a \<le> c \<and> c < b) ys"
  using assms by (induction ys) (auto simp: in_class_def pred_bound_less)

lemma class_intervals_2:
  assumes "list_all (\<lambda>(a, b). a < b \<and> b < lo) ys" "lo \<le> 0xffff"
  shows "map (\<lambda>(a, b). (a, high16 b)) ys = map (\<lambda>(a, b). (a, b - 1)) ys"
proof (intro map_cong refl)
  fix x assume "x \<in> set ys"
  then have "snd x < lo" using assms(1) by (auto simp: list_all_iff)
  then have "snd x < 0xffff" using assms(2) by (rule less_le_trans)
  then have "snd x \<noteq> UINT32_MAX" by (auto simp: UINT32_MAX_def)
  then show "(case x of (a, b) \<Rightarrow> (a, high16 b)) = (case x of (a, b) \<Rightarrow> (a, b - 1))"
    by (cases x) (simp add: high16_other)
qed

lemma class_members:
  assumes "cr_canonical pts" "pts \<noteq> []" "w = class_width pts" "c \<noteq> UINT32_MAX"
  defines "xs \<equiv> class_intervals w pts"
  shows "in_class xs c \<or> (w = 2 \<and> 0xffff \<le> c \<and> snd (xs ! (length xs - 1)) = 0xffff) \<longleftrightarrow> cr_mem pts c"
proof (cases "w = 2")
  case True
  then have "class_width pts = 2" using assms(3) by simp
  from class_width_2 [OF assms(1,2) this] obtain ys lo hi where
    p: "intervals pts = ys @ [(lo, hi)]" "lo \<le> 0xffff" "hi \<le> 0xffff \<or> hi = UINT32_MAX"
    "list_all (\<lambda>(a, b). a < b \<and> b < lo) ys" "lo < hi" .
  have xs: "xs = map (\<lambda>(a, b). (a, b - 1)) ys @ [(lo, high16 hi)]"
    using True p(1) class_intervals_2 [OF p(4,2)] by (simp add: xs_def class_intervals_def)
  have lt: "list_all (\<lambda>(a, b). a < b) ys" using p(4) by (auto simp: list_all_iff)
  have "in_class [(lo, high16 hi)] c \<or> (0xffff \<le> c \<and> high16 hi = 0xffff) \<longleftrightarrow> lo \<le> c \<and> c < hi"
  proof (cases "hi = UINT32_MAX")
    case True
    then show ?thesis using assms(4) p(2) by (auto simp: in_class_def less_UINT32_MAX)
  next
    case False
    then have "hi - 1 < 0xffff" using p(3) pred_bound_less [OF p(5), of "hi - 1"] by (auto intro: less_le_trans)
    then show ?thesis using False p(5) by (auto simp: in_class_def high16_other pred_bound_less)
  qed
  then show ?thesis using True by (auto simp: xs in_class_append nth_append members_pred [OF lt] cr_mem_intervals p(1))
next
  case False
  have "list_all (\<lambda>(a, b). a < b) (intervals pts)" using intervals_sorted assms(1) by (simp add: cr_canonical_def)
  then show ?thesis using False members_pred by (simp add: xs_def class_intervals_def cr_mem_intervals)
qed

lemma pred_less: "a < hi \<Longrightarrow> hi < x \<Longrightarrow> hi - 1 < (x :: u32)"
  using pred_bound_less [of a hi "hi - 1"] by auto

lemma pred_ordered:
  assumes "sorted_wrt (\<lambda>a b. snd a < fst b) ys" "list_all (\<lambda>(lo, hi). lo < hi) ys"
  shows "ordered_class (map (\<lambda>(a, b :: u32). (a, b - 1)) ys)"
  unfolding ordered_class_def sorted_wrt_map
proof
  show "sorted_wrt (\<lambda>x y. snd (case x of (a, b) \<Rightarrow> (a, b - 1)) < fst (case y of (a, b) \<Rightarrow> (a, b - 1))) ys"
    using assms(2) by (intro sorted_wrt_mono_rel [OF _ assms(1)]) (force simp: list_all_iff intro: pred_less)
  show "list_all (\<lambda>(lo, hi). lo \<le> hi) (map (\<lambda>(a, b). (a, b - 1)) ys)"
    using assms(2) by (auto simp: list_all_iff pred_bound_less)
qed

lemma class_intervals_ordered:
  assumes "cr_canonical pts" "pts \<noteq> []" "w = class_width pts"
  shows "ordered_class (class_intervals w pts)"
    and "w = 2 \<and> list_all (\<lambda>(lo, hi). lo \<le> 0xffff \<and> hi \<le> 0xffff) (class_intervals w pts) \<or> w = 4"
proof -
  have s: "sorted_wrt (\<lambda>a b. snd a < fst b) (intervals pts)" "list_all (\<lambda>(lo, hi). lo < hi) (intervals pts)"
    using intervals_sorted assms(1) by (simp_all add: cr_canonical_def)
  have wd: "w = 2 \<or> w = 4" using assms(3) by (simp add: class_width_def)
  have two: "ordered_class (class_intervals w pts) \<and>
    list_all (\<lambda>(lo, hi). lo \<le> 0xffff \<and> hi \<le> 0xffff) (class_intervals w pts)" if w: "w = 2"
  proof -
    have "class_width pts = 2" using assms(3) w by simp
    from class_width_2 [OF assms(1,2) this] obtain ys lo hi where
      p: "intervals pts = ys @ [(lo, hi)]" "lo \<le> 0xffff" "hi \<le> 0xffff \<or> hi = UINT32_MAX"
      "list_all (\<lambda>(a, b). a < b \<and> b < lo) ys" "lo < hi" .
    have xs: "class_intervals w pts = map (\<lambda>(a, b). (a, b - 1)) ys @ [(lo, high16 hi)]"
      using w p(1) class_intervals_2 [OF p(4,2)] by (simp add: class_intervals_def)
    have hi: "lo \<le> high16 hi" "high16 hi \<le> 0xffff"
      using p(2,3,5) pred_bound_less [OF p(5), of "hi - 1"] by (cases "hi = UINT32_MAX"; auto simp: high16_other pred_bound_less intro: less_imp_le)+
    have small: "b - 1 < lo \<and> b - 1 \<le> 0xffff \<and> a \<le> 0xffff" if "(a, b) \<in> set ys" for a b
    proof -
      have ab: "a < b" "b < lo" using p(4) that by (auto simp: list_all_iff)
      then have "b - 1 < lo" "a < lo" by (auto intro: pred_less less_trans)
      then show ?thesis using p(2) by (auto intro: less_imp_le less_le_trans)
    qed
    have "ordered_class (map (\<lambda>(a, b). (a, b - 1)) ys)" using s p(1) by (intro pred_ordered) (auto simp: sorted_wrt_append)
    then show ?thesis using p(2) hi small
      by (auto simp: xs ordered_class_def sorted_wrt_append list_all_iff)
  qed
  show "ordered_class (class_intervals w pts)"
    using wd two pred_ordered [OF s] by (auto simp: class_intervals_def)
  show "w = 2 \<and> list_all (\<lambda>(lo, hi). lo \<le> 0xffff \<and> hi \<le> 0xffff) (class_intervals w pts) \<or> w = 4"
    using wd two by blast
qed

lemma concat_class_bytes:
  "concat (class_bytes w pts) =
     (reop_byte (if w = 2 then REOP_range else REOP_range32) # le_bytes 2 (of_nat (length pts div 2) :: u16)) @
     table_bytes w (class_intervals w pts)"
proof -
  have "concat (concat (map (\<lambda>(lo, hi). [bound_bytes w lo, bound_bytes w hi]) xs)) = table_bytes w xs" for xs
    by (induction xs) (auto simp: table_bytes_def)
  then show ?thesis by (simp add: class_bytes_def)
qed

lemma length_class_intervals [simp]: "length (class_intervals w pts) = length pts div 2"
  by (simp add: class_intervals_def)

lemma class_table_test:
  assumes "cr_canonical pts" "pts \<noteq> []" "c \<noteq> UINT32_MAX"
  shows "range_test (class_width pts) (pre @ table_bytes (class_width pts) (class_intervals (class_width pts) pts)) (length pre)
    (length pts div 2) c = Some (cr_mem pts c)"
proof -
  let ?w = "class_width pts" let ?xs = "class_intervals ?w pts"
  note o = class_intervals_ordered [OF assms(1,2) refl]
  have ne: "?xs \<noteq> []" using assms(1,2) intervals_Nil_iff by (simp add: class_intervals_def cr_canonical_def)
  have "class_at ?w (pre @ table_bytes ?w ?xs) (length pre) ?xs" using class_at_table [OF o(2), of pre "[]"] by simp
  from range_test_correct [OF this o(1) ne, of c] show ?thesis
    using class_members [OF assms(1,2) refl assms(3)] by simp
qed

text \<open>C25: Parser and matcher agree on character classes. For a range in canonical form with between one and 65534 intervals,
  \<open>re_emit_range\<close> ends normally and, unless the buffer has recorded a failed allocation, has appended one instruction:
  its opcode, the number of intervals and the table of bounds. The matcher's search in that table (lines 2307-2389
  of \<^verbatim>\<open>libregexp.c\<close>) answers for every code point whether it is in the range, whether the bounds have
  two bytes (where an upper bound of 0xffff stands for all the code points above) or four.\<close>

theorem emitted_class_matches:
  assumes "cr_inv cr" "cr_canonical (cr_pts cr)" "0 < cr_len cr" "cr_len cr div 2 < 65535"
    and "dbuf_inv (byte_code s)" "db_size (byte_code s) + 4 * cr_len cr + 3 < 2 ^ 64"
  shows "\<exists>s' w tab. re_emit_range s cr = Some (outcome.Done s') \<and> dbuf_inv (byte_code s') \<and>
    (w = 2 \<or> w = 4) \<and> length tab = cr_len cr div 2 * (2 * w) \<and>
    (\<not> dbuf_error (byte_code s') \<longrightarrow>
       dbuf_data (byte_code s') = dbuf_data (byte_code s) @
         [reop_byte (if w = 2 then REOP_range else REOP_range32)] @ le_bytes 2 (of_nat (cr_len cr div 2) :: u16) @ tab \<and>
       (\<forall>c. c \<noteq> UINT32_MAX \<longrightarrow>
          range_test w (dbuf_data (byte_code s')) (db_size (byte_code s) + 3) (cr_len cr div 2) c = Some (cr_mem (cr_pts cr) c)))"
proof -
  let ?pts = "cr_pts cr" let ?w = "class_width ?pts"
  have ev: "even (cr_len cr)" and len: "length ?pts = cr_len cr" and ne: "?pts \<noteq> []"
    using assms(1-3) by (auto simp: cr_canonical_def cr_inv_def cr_pts_def)
  have w: "?w = 2 \<or> ?w = 4" by (simp add: class_width_def)
  let ?tab = "table_bytes ?w (class_intervals ?w ?pts)"
  have lt: "length ?tab = cr_len cr div 2 * (2 * ?w)" using w len by (simp add: length_table_bytes)
  have lc: "length (concat (class_bytes ?w ?pts)) \<le> 4 * cr_len cr + 3" using lt w by (auto simp: concat_class_bytes)
  from assms(5,6) lc have sz: "db_size (byte_code s) + length (concat (class_bytes ?w ?pts)) < 2 ^ 64" by linarith
  obtain d where d: "put_all dbuf_put (byte_code s) (class_bytes ?w ?pts) = Some d" "dbuf_inv d"
    "\<not> dbuf_error d \<longrightarrow> dbuf_data d = dbuf_data (byte_code s) @ concat (class_bytes ?w ?pts)"
    using db.put_all_spec [of "byte_code s" "class_bytes ?w ?pts"] assms(5) sz by (auto simp: dbuf_error_def)
  have dl: "length (dbuf_data (byte_code s)) = db_size (byte_code s)" using assms(5) by (simp add: dbuf_inv_def dbuf_data_def)
  have e: "re_emit_range s cr = Some (outcome.Done (s\<lparr>byte_code := d\<rparr>))"
    using re_emit_range_all [OF assms(1) ev assms(3,4)] d(1) by (simp add: emit_all_def)
  let ?pre = "dbuf_data (byte_code s) @ [reop_byte (if ?w = 2 then REOP_range else REOP_range32)] @
    le_bytes 2 (of_nat (cr_len cr div 2) :: u16)"
  have data: "dbuf_data d = ?pre @ ?tab" if "\<not> dbuf_error d"
    using that d(3) len by (simp add: concat_class_bytes)
  have "range_test ?w (?pre @ ?tab) (db_size (byte_code s) + 3) (cr_len cr div 2) c = Some (cr_mem ?pts c)"
    if "c \<noteq> UINT32_MAX" for c
    using class_table_test [OF assms(2) ne that, of ?pre] by (simp add: dl len)
  then show ?thesis using e d(2) w lt data
    by (intro exI [of _ "s\<lparr>byte_code := d\<rparr>"] exI [of _ ?w] exI [of _ ?tab]) simp
qed

theorem emitted_class_matches_witness:
  "\<exists>s' w. re_emit_range (init_parse_state [0] 0 (\<lambda>_. True) (\<lambda>_. False)) (\<lparr>cr_len = 2, cr_size = 2, cr_points = [0x30, 0x3a], cr_realloc_func = \<lambda>_. True\<rparr>)
     = Some (outcome.Done s') \<and>
    (\<not> dbuf_error (byte_code s') \<longrightarrow> range_test w (dbuf_data (byte_code s')) 3 1 0x39 = Some True)"
proof -
  let ?cr = "\<lparr>cr_len = 2, cr_size = 2, cr_points = [0x30, 0x3a], cr_realloc_func = \<lambda>_. True\<rparr>"
  let ?s = "init_parse_state [0] 0 (\<lambda>_. True) (\<lambda>_. False)"
  have h: "cr_inv ?cr" "cr_canonical (cr_pts ?cr)" "0 < cr_len ?cr" "cr_len ?cr div 2 < 65535"
    by (simp_all add: cr_inv_def cr_pts_def cr_canonical_def)
  have b: "dbuf_inv (byte_code ?s)" "db_size (byte_code ?s) + 4 * cr_len ?cr + 3 < 2 ^ 64" "db_size (byte_code ?s) = 0"
    by (simp_all add: init_parse_state_def dbuf_init2_def dbuf_inv_def)
  have m: "(0x39 :: u32) \<noteq> UINT32_MAX" "cr_mem (cr_pts ?cr) 0x39" by (simp_all add: UINT32_MAX_def cr_pts_def)
  obtain s' w tab where e: "re_emit_range ?s ?cr = Some (outcome.Done s')"
    "\<not> dbuf_error (byte_code s') \<longrightarrow> (\<forall>c. c \<noteq> UINT32_MAX \<longrightarrow>
      range_test w (dbuf_data (byte_code s')) (db_size (byte_code ?s) + 3) (cr_len ?cr div 2) c = Some (cr_mem (cr_pts ?cr) c))"
    using emitted_class_matches [OF h b(1,2)] by blast
  have "\<not> dbuf_error (byte_code s') \<longrightarrow> range_test w (dbuf_data (byte_code s')) 3 1 0x39 = Some True"
    using e(2) m by (simp add: b(3))
  with e(1) show ?thesis by (intro exI conjI)
qed

end
