(* ===== verification/Regexp_Literal.thy ===== *)
theory Regexp_Literal
  imports Regexp_Class "HOL-Library.Sublist"
begin

text \<open>
  From the pattern to the match, for the patterns without operators: the byte code that \<open>lre_compile\<close> makes of a
  literal, byte by byte, and what \<open>lre_exec\<close> does with it, which is to find the first occurrence of the literal in
  the subject.
\<close>

section \<open>The parser on literal characters\<close>

definition operators :: "u8 list" where
  "operators = map asc (''^$.*+?()[]|'' @ [CHR 0x5C, CHR 0x7B, CHR 0x7D])"

definition literal_char :: "u8 \<Rightarrow> bool" where
  "literal_char c \<longleftrightarrow> c < 128 \<and> c \<notin> set operators"

lemma literal_char_neq:
  "literal_char c \<Longrightarrow> c \<noteq> asc CHR ''^'' \<and> c \<noteq> asc CHR ''$'' \<and> c \<noteq> asc CHR ''.'' \<and> c \<noteq> asc CHR ''*'' \<and>
     c \<noteq> asc CHR ''+'' \<and> c \<noteq> asc CHR ''?'' \<and> c \<noteq> asc CHR ''('' \<and> c \<noteq> asc CHR '')'' \<and> c \<noteq> asc CHR ''['' \<and>
     c \<noteq> asc CHR '']'' \<and> c \<noteq> asc CHR ''|'' \<and> c \<noteq> asc CHR 0x5C \<and> c \<noteq> asc CHR 0x7B \<and> c \<noteq> asc CHR 0x7D"
  by (auto simp: literal_char_def operators_def)

lemma literal_char_0: "literal_char 0"
  by (simp add: literal_char_def operators_def asc_def)

definition char_pieces :: "u8 \<Rightarrow> u8 list list" where
  "char_pieces c = [[reop_byte REOP_char], le_bytes 2 (ucast c :: u16)]"

lemma small_char:
  assumes "c < (128 :: u8)"
  shows "0 \<le> sint (ucast c :: u32)" "sint (ucast c :: u32) \<le> 0xffff" "\<not> CLASS_RANGE_BASE \<le> ucast c"
proof -
  have c: "uint c < 128" using assms by (simp add: word_less_def)
  have u: "uint (ucast c :: u32) = uint c" by (simp add: unsigned_ucast_eq take_bit_int_eq_self)
  then have "(ucast c :: u32) < 0x80000000" using c by (simp add: word_less_def)
  then have "sint (ucast c :: u32) = uint c" using u by (simp add: sint_eq_uint_small)
  then show "0 \<le> sint (ucast c :: u32)" "sint (ucast c :: u32) \<le> 0xffff" using c by auto
  show "\<not> CLASS_RANGE_BASE \<le> ucast c" using c u by (simp add: CLASS_RANGE_BASE_def word_le_def)
qed

lemma narrow_char: "(ucast (ucast (c :: u8) :: u32) :: u16) = ucast c"
  by (rule bit_word_eqI) (auto simp: bit_simps)

lemma emit_all_put: "emit_all s bss = Some s' \<longleftrightarrow> (\<exists>d. put_all dbuf_put (byte_code s) bss = Some d \<and> s' = s\<lparr>byte_code := d\<rparr>)"
  by (auto simp: emit_all_def)

lemma emit_all_keeps:
  assumes "emit_all s bss = Some s'"
  shows "ps_buf s' = ps_buf s" "buf_end s' = buf_end s" "buf_ptr s' = buf_ptr s" "ps_is_utf16 s' = ps_is_utf16 s"
    "ps_ignore_case s' = ps_ignore_case s" "ps_capture_count s' = ps_capture_count s" "group_names s' = group_names s"
    "u_buf s' = u_buf s" "ps_stack_overflow s' = ps_stack_overflow s"
  using assms by (auto simp: emit_all_put)

lemma emit_all_buf_ptr: "emit_all (s\<lparr>buf_ptr := p\<rparr>) bss = map_option (\<lambda>s. s\<lparr>buf_ptr := p\<rparr>) (emit_all s bss)"
  by (cases "put_all dbuf_put (byte_code s) bss") (simp_all add: emit_all_def)

lemma term_atom_literal:
  assumes "at s (buf_ptr s) = Some c" "literal_char c" "buf_ptr s < buf_end s" "\<not> ps_ignore_case s"
  shows "term_atom parse s False =
    map_option (\<lambda>s'. outcome.Done (s', buf_ptr s + 1, Some (code_size s), ps_capture_count s)) (emit_all s (char_pieces c))"
proof -
  have c: "c < 128" "\<not> 128 \<le> c" using assms(2) by (auto simp: literal_char_def)
  have "get_class_atom s (buf_ptr s) False = Some (outcome.Done (ucast c, None, buf_ptr s + 1))"
    using assms literal_char_neq [OF assms(2)] c(2) by (simp add: get_class_atom_def normal_char_def)
  then have "term_class_atom s (buf_ptr s) False = term_char s (buf_ptr s + 1) (ucast c) False"
    using small_char [OF c(1)] by (simp add: term_class_atom_def andthen_def)
  moreover have "emit_char s (ucast c) = emit_all s (char_pieces c)"
    using small_char [OF c(1)] assms(4) by (simp add: emit_char_def re_emit_op_u16_all char_pieces_def narrow_char)
  then have "term_char s (buf_ptr s + 1) (ucast c) False =
     map_option (\<lambda>s'. outcome.Done (s', buf_ptr s + 1, Some (code_size s), ps_capture_count s)) (emit_all s (char_pieces c))"
    by (cases "emit_all s (char_pieces c)") (simp_all add: term_char_def emit_prev_def emit_all_keeps)
  ultimately show ?thesis
    using assms(1) literal_char_neq [OF assms(2)] by (simp add: term_atom_def)
qed

lemma re_parse_term_literal:
  assumes "at s (buf_ptr s) = Some c" "literal_char c" "buf_ptr s < buf_end s" "\<not> ps_ignore_case s"
    and "at s (buf_ptr s + 1) = Some c'" "literal_char c'"
  shows "re_parse_term parse s False =
    map_option (\<lambda>s'. outcome.Done (s'\<lparr>buf_ptr := buf_ptr s + 1\<rparr>)) (emit_all s (char_pieces c))"
proof (cases "emit_all s (char_pieces c)")
  case None
  then show ?thesis using term_atom_literal [OF assms(1-4)] by (simp add: re_parse_term_def andthen_def)
next
  case (Some s')
  have "at s' (buf_ptr s + 1) = Some c'" using assms(5) emit_all_keeps(1) [OF Some] by (simp add: at_def)
  then have "quant_bounds s' (buf_ptr s + 1) = Some (outcome.Done None)"
    using literal_char_neq [OF assms(6)] by (simp add: quant_bounds_def)
  then show ?thesis using term_atom_literal [OF assms(1-4)] Some by (simp add: re_parse_term_def andthen_def)
qed

lemma alternative_loop_literal:
  assumes "ps_buf s = pre @ lits @ [0]" "buf_ptr s = length pre" "buf_end s = length pre + length lits"
    and "list_all literal_char lits" "\<not> ps_ignore_case s" "length lits < n"
  shows "alternative_loop n parse s start False =
    map_option (\<lambda>s'. outcome.Done (s'\<lparr>buf_ptr := buf_end s\<rparr>)) (emit_all s (concat (map char_pieces lits)))"
  using assms
proof (induction lits arbitrary: pre s n)
  case Nil
  then show ?case by (cases n) auto
next
  case (Cons c lits)
  then obtain m where n: "n = Suc m" by (cases n) auto
  define c' where "c' = (lits @ [0]) ! 0"
  have c': "literal_char c'" using Cons.prems(4) literal_char_0 by (cases lits) (auto simp: c'_def)
  have at: "at s (buf_ptr s) = Some c" "at s (buf_ptr s + 1) = Some c'"
    using Cons.prems(1,2) by (auto simp: at_def rd_def nth_append c'_def)
  have c: "literal_char c" "buf_ptr s < buf_end s" using Cons.prems by auto
  note t = re_parse_term_literal [OF at(1) c(1,2) Cons.prems(5) at(2) c', of parse]
  show ?case
  proof (cases "emit_all s (char_pieces c)")
    case None
    then show ?thesis using t at(1) c(2) literal_char_neq [OF c(1)] by (simp add: n emit_all_append andthen_def)
  next
    case (Some s')
    let ?s = "s'\<lparr>buf_ptr := buf_ptr s + 1\<rparr>"
    note k = emit_all_keeps [OF Some]
    have "alternative_loop m parse ?s start False =
      map_option (\<lambda>s'. outcome.Done (s'\<lparr>buf_ptr := buf_end ?s\<rparr>)) (emit_all ?s (concat (map char_pieces lits)))"
      using Cons.prems k n by (intro Cons.IH [of _ "pre @ [c]"]) auto
    then show ?thesis using t at(1) c(2) literal_char_neq [OF c(1)] Some k
      by (simp add: n emit_all_append andthen_def emit_all_buf_ptr option.map_comp comp_def)
  qed
qed

section \<open>Assembled code\<close>

type_synonym instr = "REOPCodeEnum \<times> u8 list"

definition assemble :: "instr list \<Rightarrow> u8 list" where
  "assemble is = concat (map (\<lambda>(op, args). reop_byte op # args) is)"

lemma assemble_simps [simp]:
  "assemble [] = []" "assemble ((op, args) # is) = reop_byte op # args @ assemble is"
  "assemble (is @ js) = assemble is @ assemble js"
  by (simp_all add: assemble_def)

definition search_instrs :: "instr list" where
  "search_instrs = [(REOP_split_goto_first, le_bytes 4 (6 :: u32)), (REOP_any, []), (REOP_goto, le_bytes 4 (- 11 :: u32))]"

definition char_instr :: "u8 \<Rightarrow> instr" where
  "char_instr c = (REOP_char, le_bytes 2 (ucast c :: u16))"

definition literal_instrs :: "bool \<Rightarrow> u8 list \<Rightarrow> instr list" where
  "literal_instrs sticky lits =
     (if sticky then [] else search_instrs) @ [(REOP_save_start, [0])] @ map char_instr lits @ [(REOP_save_end, [0]), (REOP_match, [])]"

definition literal_code :: "u32 \<Rightarrow> u8 list \<Rightarrow> u8 list" where
  "literal_code re_flags lits =
     (let body = assemble (literal_instrs (re_flags AND LRE_FLAG_STICKY \<noteq> 0) lits)
      in [ucast re_flags, 1, 0] @ le_bytes 4 (of_nat (length body) :: u32) @ body)"

text \<open>Instructions without an effect on the stack leave its depth alone.\<close>

definition flat_instr :: "instr \<Rightarrow> bool" where
  "flat_instr i \<longleftrightarrow> length (snd i) + 1 = reop_size (fst i) \<and>
     fst i \<notin> {REOP_range, REOP_range32, REOP_push_i32, REOP_push_char_pos, REOP_drop, REOP_bne_char_pos}"

lemma instr_len_flat: "op \<notin> {REOP_range, REOP_range32} \<Longrightarrow> instr_len bc pos op = Some (reop_size op)"
  by (cases op) (simp_all add: instr_len_def)

lemma stack_loop_flat:
  assumes "list_all flat_instr is" "bc = pre @ assemble is @ post" "n = length pre + length (assemble is)" "p = length pre"
  shows "stack_loop bc n p a b = Some (int b)"
  using assms
proof (induction "is" arbitrary: pre p)
  case Nil
  then show ?case by (simp add: stack_loop.simps)
next
  case (Cons i js)
  obtain op args where i: "i = (op, args)" by fastforce
  have f: "length args + 1 = reop_size op" "op \<notin> {REOP_range, REOP_range32}"
    "op \<notin> {REOP_push_i32, REOP_push_char_pos}" "op \<notin> {REOP_drop, REOP_bne_char_pos}"
    using Cons.prems(1) by (auto simp: flat_instr_def i)
  have op: "opcode_at bc p = Some op" using Cons.prems(2,4) by (simp add: opcode_at_def rd_def i)
  have lt: "p < n" "\<not> n < p + reop_size op" using Cons.prems(3,4) f(1) by (auto simp: i)
  have "stack_loop bc n p a b = stack_loop bc n (p + reop_size op) a b"
    by (subst stack_loop.simps) (simp only: op lt instr_len_flat [OF f(2)] f(3,4) if_True if_False option.case)
  also have "\<dots> = Some (int b)"
    using Cons.prems f(1) by (intro Cons.IH [of "pre @ reop_byte op # args"]) (auto simp: i)
  finally show ?case .
qed

section \<open>The compiled literal\<close>

definition header_pieces :: "u32 \<Rightarrow> u8 list list" where
  "header_pieces re_flags = [[ucast re_flags], [0], [0], le_bytes 4 (0 :: u32)]"

definition search_pieces :: "u8 list list" where
  "search_pieces = [[reop_byte REOP_split_goto_first], le_bytes 4 (6 :: u32), [reop_byte REOP_any], [reop_byte REOP_goto], le_bytes 4 (- 11 :: u32)]"

definition prologue_pieces :: "u32 \<Rightarrow> u8 list list" where
  "prologue_pieces re_flags =
     header_pieces re_flags @ (if re_flags AND LRE_FLAG_STICKY \<noteq> 0 then [] else search_pieces) @ [[reop_byte REOP_save_start], [0]]"

definition literal_pieces :: "u32 \<Rightarrow> u8 list \<Rightarrow> u8 list list" where
  "literal_pieces re_flags lits =
     prologue_pieces re_flags @ concat (map char_pieces lits) @ [[reop_byte REOP_save_end], [0], [reop_byte REOP_match]]"

lemmas emit_op_all = re_emit_op_def re_emit_op_u8_def re_emit_op_u32_def emit_pieces emit_all_Cons

lemma compile_prologue_all: "compile_prologue s re_flags = emit_all s (prologue_pieces re_flags)"
  by (simp add: compile_prologue_def prologue_pieces_def header_pieces_def search_pieces_def emit_op_all)

lemma concat_char_pieces: "concat (concat (map char_pieces lits)) = assemble (map char_instr lits)"
  by (induction lits) (simp_all add: char_pieces_def char_instr_def)

lemma concat_literal_pieces:
  "concat (literal_pieces re_flags lits) =
     [ucast re_flags, 0, 0] @ le_bytes 4 (0 :: u32) @ assemble (literal_instrs (re_flags AND LRE_FLAG_STICKY \<noteq> 0) lits)"
  by (simp add: literal_pieces_def prologue_pieces_def header_pieces_def search_pieces_def literal_instrs_def
      search_instrs_def concat_char_pieces)

lemma flat_literal_instrs: "list_all flat_instr (literal_instrs sticky lits)"
  by (auto simp: literal_instrs_def search_instrs_def flat_instr_def char_instr_def list_all_iff)

lemma lre_parse_literal:
  assumes "list_all literal_char lits" "re_flags AND LRE_FLAG_IGNORECASE = 0" "\<not> overflow 0"
    and s: "emit_all (init_parse_state lits re_flags alloc overflow) (prologue_pieces re_flags) = Some s"
  shows "re_parse_disjunction (Suc fuel) 0 s False =
    map_option (\<lambda>s'. outcome.Done (s'\<lparr>buf_ptr := length lits\<rparr>)) (emit_all s (concat (map char_pieces lits)))"
proof -
  note k = emit_all_keeps [OF s, simplified init_parse_state_def, simplified]
  let ?parse = "re_parse_disjunction fuel 1"
  have a: "re_parse_alternative ?parse s False =
    map_option (\<lambda>s'. outcome.Done (s'\<lparr>buf_ptr := buf_end s\<rparr>)) (emit_all s (concat (map char_pieces lits)))"
    unfolding re_parse_alternative_def
    by (rule alternative_loop_literal [where pre = "[]"]) (use k assms in auto)
  show ?thesis
  proof (cases "emit_all s (concat (map char_pieces lits))")
    case None
    then show ?thesis using a k assms(3) by (simp add: andthen_def)
  next
    case (Some s')
    have "at (s'\<lparr>buf_ptr := length lits\<rparr>) (length lits) = Some 0"
      using emit_all_keeps(1) [OF Some] k(1) by (simp add: at_def rd_def)
    then have "disjunction_loop (length (ps_buf s) + 1) ?parse (s'\<lparr>buf_ptr := length lits\<rparr>) (code_size s) False =
        Some (outcome.Done (s'\<lparr>buf_ptr := length lits\<rparr>))"
      by (simp add: asc_def)
    then show ?thesis using a k assms(3) Some by (simp add: andthen_def)
  qed
qed

lemma code_block:
  assumes "dbuf_inv d" "dbuf_data d = bs"
  obtains slack where "db_buf d = bs @ slack" "db_size d = length bs"
  using assms length_dbuf_data [OF assms(1)] by (metis append_take_drop_id dbuf_data_def)

lemma compute_stack_size_flat:
  assumes "list_all flat_instr is" "length hdr = RE_HEADER_LEN"
  shows "compute_stack_size (hdr @ assemble is @ slack) (length (hdr @ assemble is)) = Some 0"
  unfolding compute_stack_size_def using assms
  by (subst stack_loop_flat [OF assms(1), of _ "[]" slack]) auto

text \<open>The end of the compilation for code without groups and without an effect on the stack: the header is
  completed, or the failed allocation is reported.\<close>

lemma compile_epilogue_flat:
  assumes "emit_all s [[reop_byte REOP_save_end], [0], [reop_byte REOP_match]] = Some s'" "dbuf_inv (byte_code s')"
    and "dbuf_data (byte_code s') = [f, 0, 0] @ le_bytes 4 (0 :: u32) @ assemble is" "list_all flat_instr is"
    and "at s (buf_ptr s) = Some 0" "ps_capture_count s = 1" "db_size (group_names s) = 0" "\<not> dbuf_error (byte_code s')"
  shows "\<exists>s2. compile_epilogue s = Some (outcome.Done s2) \<and>
    take (code_size s2) (db_buf (byte_code s2)) = [f, 1, 0] @ le_bytes 4 (of_nat (length (assemble is)) :: u32) @ assemble is"
proof -
  have e: "Option.bind (re_emit_op_u8 s REOP_save_end 0) (\<lambda>s. re_emit_op s REOP_match) = Some s'"
    using assms(1) by (simp add: emit_op_all)
  note k = emit_all_keeps [OF assms(1)]
  obtain slack where b: "db_buf (byte_code s') = ([f, 0, 0] @ le_bytes 4 (0 :: u32) @ assemble is) @ slack"
    "db_size (byte_code s') = length ([f, 0, 0] @ le_bytes 4 (0 :: u32) @ assemble is)"
    using code_block [OF assms(2,3)] .
  have st: "compute_stack_size (db_buf (byte_code s')) (code_size s') = Some 0"
    using compute_stack_size_flat [OF assms(4), of "[f, 0, 0] @ le_bytes 4 (0 :: u32)" slack] b
    by (simp add: code_size_def RE_HEADER_LEN_def)
  have len: "of_nat (code_size s') - of_nat RE_HEADER_LEN = (of_nat (length (assemble is)) :: u32)"
    using b(2) by (simp add: code_size_def RE_HEADER_LEN_def)
  define b1 where "b1 = [f, 1, 0] @ le_bytes 4 (0 :: u32) @ assemble is @ slack"
  define b2 where "b2 = [f, 1, 0] @ le_bytes 4 (of_nat (length (assemble is)) :: u32) @ assemble is @ slack"
  define sa where "sa = s'\<lparr>byte_code := (byte_code s')\<lparr>db_buf := b1\<rparr>\<rparr>"
  define sb where "sb = s'\<lparr>byte_code := (byte_code s')\<lparr>db_buf := b2\<rparr>\<rparr>"
  have p1: "Option.bind (patch_u8 s' RE_HEADER_CAPTURE_COUNT 1) (\<lambda>s. patch_u8 s RE_HEADER_STACK_SIZE 0) = Some sa"
    using b(1) by (simp add: patch_u8_def wr_def re_header_defs b1_def sa_def)
  have p2: "patch_u32 sa 3 (of_nat (length (assemble is))) = Some sb"
    by (simp add: patch_u32_def put_u32_def memcpy_def sa_def sb_def b1_def b2_def)
  have sz: "code_size sa = code_size s'" "code_size sb = code_size s'" "ps_capture_count sb = 1" "db_size (group_names sb) = 0"
    using assms(6,7) k by (simp_all add: sa_def sb_def code_size_def)
  have at: "at s' (buf_ptr s') = Some 0" using assms(5) k by (simp add: at_def)
  obtain sx where sx: "re_emit_op_u8 s REOP_save_end 0 = Some sx" "re_emit_op sx REOP_match = Some s'"
    using e by (auto split: bind_splits)
  obtain sy where sy: "patch_u8 s' RE_HEADER_CAPTURE_COUNT 1 = Some sy" "patch_u8 sy RE_HEADER_STACK_SIZE 0 = Some sa"
    using p1 by (auto split: bind_splits)
  have "ps_capture_count s' = 1" using assms(6) k by simp
  then have "compile_epilogue s = Some (outcome.Done sb)"
    using assms(8) sz(3,4) p2 by (simp add: compile_epilogue_def sx at st sy sz(1) len)
  moreover have "take (code_size sb) (db_buf (byte_code sb)) = [f, 1, 0] @ le_bytes 4 (of_nat (length (assemble is)) :: u32) @ assemble is"
    using b(2) sz(2) by (simp add: code_size_def sb_def b2_def take_Cons')
  ultimately show ?thesis by blast
qed

lemma epilogue_out_of_memory:
  assumes "emit_all s [[reop_byte REOP_save_end], [0], [reop_byte REOP_match]] = Some s'"
    and "at s (buf_ptr s) = Some 0" "dbuf_error (byte_code s')"
  shows "compile_epilogue s = re_parse_out_of_memory s'"
proof -
  obtain sx where sx: "re_emit_op_u8 s REOP_save_end 0 = Some sx" "re_emit_op sx REOP_match = Some s'"
    using assms(1) by (auto simp: emit_op_all split: bind_splits)
  have at: "at s' (buf_ptr s') = Some 0" using assms(2) emit_all_keeps [OF assms(1)] by (simp add: at_def)
  then show ?thesis using assms(3) by (simp add: compile_epilogue_def sx at)
qed

lemma out_of_memory_message:
  assumes "length (u_buf s) = TMP_BUF_SIZE" "error_msg \<noteq> []"
  shows "\<exists>s2 msg. re_parse_out_of_memory s = Some (Failed s2) \<and>
    pstrcpy error_msg (int (length error_msg)) (u_buf s2) = Some msg \<and>
    cstr msg = take (length error_msg - 1) (map asc ''out of memory'')"
proof -
  let ?m = "map asc ''out of memory''"
  have z: "0 \<notin> set ?m" by (auto simp: asc_def)
  let ?b = "?m @ 0 # drop (length ?m + 1) (u_buf s)"
  have "re_parse_out_of_memory s = Some (Failed (s\<lparr>u_buf := ?b\<rparr>))"
    using assms(1) by (simp add: re_parse_out_of_memory_def re_parse_error_def memcpy_def TMP_BUF_SIZE_def)
  moreover have "pstrcpy error_msg (int (length error_msg)) ?b =
      Some (take (length error_msg - 1) ?m @ 0 # drop (length (take (length error_msg - 1) ?m) + 1) error_msg)"
    using assms(2) by (subst pstrcpy_eq [OF z]) auto
  moreover have "0 \<notin> set (take (length error_msg - 1) ?m)" using z by (blast dest: in_set_takeD)
  then have "cstr (take (length error_msg - 1) ?m @ 0 # drop (length (take (length error_msg - 1) ?m) + 1) error_msg) =
      take (length error_msg - 1) ?m" by (rule cstr_append_zero)
  moreover have "u_buf (s\<lparr>u_buf := b\<rparr>) = b" for b by simp
  ultimately show ?thesis by metis
qed

lemma length_assemble_literal: "length (assemble (literal_instrs sticky lits)) \<le> 3 * length lits + 16"
proof -
  have "length (assemble (map char_instr lits)) = 3 * length lits" by (induction lits) (simp_all add: char_instr_def)
  then show ?thesis by (simp add: literal_instrs_def search_instrs_def)
qed

text \<open>The result of the compiler on a literal, for every behaviour of the allocator.\<close>

lemma lre_compile_literal:
  assumes "list_all literal_char lits" "re_flags AND LRE_FLAG_IGNORECASE = 0" "length lits < 2 ^ 30"
    and "0 < fuel" "\<not> overflow 0" "error_msg \<noteq> []"
  shows "lre_compile fuel error_msg lits re_flags alloc overflow = Some (Byte_Code (literal_code re_flags lits)) \<or>
    (\<exists>n. \<not> alloc n) \<and> (\<exists>msg. lre_compile fuel error_msg lits re_flags alloc overflow = Some (Error_Msg msg) \<and>
      cstr msg = take (length error_msg - 1) (map asc ''out of memory''))"
proof -
  let ?s = "init_parse_state lits re_flags alloc overflow"
  let ?is = "literal_instrs (re_flags AND LRE_FLAG_STICKY \<noteq> 0) lits"
  let ?fin = "[[reop_byte REOP_save_end], [0], [reop_byte REOP_match]]"
  obtain m where fuel: "fuel = Suc m" using assms(4) by (cases fuel) auto
  have inv: "dbuf_inv (byte_code ?s)" "db_size (byte_code ?s) = 0" "dbuf_data (byte_code ?s) = []" "\<not> db_error (byte_code ?s)"
    "realloc_func (byte_code ?s) = Some alloc"
    by (simp_all add: init_parse_state_def dbuf_init2_def dbuf_inv_def dbuf_data_def)
  have "length (concat (literal_pieces re_flags lits)) < 2 ^ 64"
    using length_assemble_literal [of "re_flags AND LRE_FLAG_STICKY \<noteq> 0" lits] assms(3) by (simp add: concat_literal_pieces)
  then obtain d where d: "put_all dbuf_put (byte_code ?s) (literal_pieces re_flags lits) = Some d" "dbuf_inv d"
    "\<not> dbuf_error d \<longrightarrow> dbuf_data d = concat (literal_pieces re_flags lits)"
    using db.put_all_spec [of "byte_code ?s" "literal_pieces re_flags lits"] inv by (auto simp: dbuf_error_def)
  have "emit_all ?s (literal_pieces re_flags lits) = Some (?s\<lparr>byte_code := d\<rparr>)" using d(1) by (simp add: emit_all_def)
  then obtain s1 s2 where s: "emit_all ?s (prologue_pieces re_flags) = Some s1"
    "emit_all s1 (concat (map char_pieces lits)) = Some s2" "emit_all s2 ?fin = Some (?s\<lparr>byte_code := d\<rparr>)"
    by (auto simp: literal_pieces_def emit_all_append split: bind_splits)
  let ?s2 = "s2\<lparr>buf_ptr := length lits\<rparr>" let ?s3 = "?s\<lparr>byte_code := d, buf_ptr := length lits\<rparr>"
  have parse: "re_parse_disjunction fuel 0 s1 False = Some (outcome.Done ?s2)"
    using lre_parse_literal [OF assms(1,2,5) s(1)] s(2) by (simp add: fuel)
  have e: "emit_all ?s2 ?fin = Some ?s3" using s(3) by (simp add: emit_all_buf_ptr)
  note k = emit_all_keeps [OF e, simplified init_parse_state_def, simplified]
  have caps: "ps_capture_count ?s2 = 1" "db_size (group_names ?s2) = 0"
    using emit_all_keeps(6,7) [OF e, symmetric] by (simp_all add: init_parse_state_def dbuf_init2_def)
  have at: "at ?s2 (buf_ptr ?s2) = Some 0" using k(1) [symmetric] by (simp add: at_def rd_def)
  have comp: "lre_compile fuel error_msg lits re_flags alloc overflow = Option.bind (compile_epilogue ?s2) (\<lambda>r. case r of
       outcome.Done s \<Rightarrow> Option.bind (wr error_msg 0 0) (\<lambda>_. Some (Byte_Code (take (code_size s) (db_buf (byte_code s)))))
     | Failed s \<Rightarrow> Option.bind (pstrcpy error_msg (int (length error_msg)) (u_buf s)) (\<lambda>msg. Some (Error_Msg msg))
     | Never \<Rightarrow> Some Compiles_Forever
     | Exhausted \<Rightarrow> Some Fuel_Exhausted)"
    using s(1) parse by (simp add: lre_compile_def compile_prologue_all andthen_def)
  show ?thesis
  proof (cases "dbuf_error d")
    case False
    then have data: "dbuf_data (byte_code ?s3) = [ucast re_flags, 0, 0] @ le_bytes 4 (0 :: u32) @ assemble ?is"
      using d(3) by (simp add: concat_literal_pieces)
    obtain s4 where "compile_epilogue ?s2 = Some (outcome.Done s4)"
      "take (code_size s4) (db_buf (byte_code s4)) = literal_code re_flags lits"
      using compile_epilogue_flat [OF e _ data flat_literal_instrs at caps] d(2) False
      by (auto simp: literal_code_def Let_def)
    then show ?thesis using comp assms(6) by (simp add: wr_def)
  next
    case True
    then have "alloc \<noteq> (\<lambda>_. True)" using put_all_granted [OF _ d(1)] inv(4,5) by (auto simp: granted_def dbuf_error_def)
    then have refused: "\<exists>n. \<not> alloc n" by auto
    obtain s4 msg where m: "re_parse_out_of_memory ?s3 = (Some (Failed s4) :: REParseState outcome option)"
      "pstrcpy error_msg (int (length error_msg)) (u_buf s4) = Some msg"
      "cstr msg = take (length error_msg - 1) (map asc ''out of memory'')"
      using out_of_memory_message [of ?s3 error_msg] assms(6) by (auto simp only: init_parse_state_def REParseState.simps length_replicate)
    have "compile_epilogue ?s2 = re_parse_out_of_memory ?s3" using epilogue_out_of_memory [OF e at] True by simp
    then have "lre_compile fuel error_msg lits re_flags alloc overflow = Some (Error_Msg msg)" using comp m(1,2) by simp
    then show ?thesis using refused m(3) by blast
  qed
qed

section \<open>Running the compiled literal\<close>

text \<open>\<open>runs s k st st'\<close>: \<open>k\<close> instructions lead from \<open>st\<close> to \<open>st'\<close>, whatever fuel is left.\<close>

definition runs :: "REExecContext \<Rightarrow> nat \<Rightarrow> re_state \<Rightarrow> re_state \<Rightarrow> bool" where
  "runs s k st st' \<longleftrightarrow> (\<forall>f. lre_exec_backtrack (k + f) s False st = lre_exec_backtrack f s False st')"

lemma runs_trans: "runs s j st st1 \<Longrightarrow> runs s k st1 st2 \<Longrightarrow> runs s (j + k) st st2"
  by (simp add: runs_def add.assoc)

lemma runs_0: "runs s 0 st st"
  by (simp add: runs_def)

lemma runs_fuel: "runs s k st st' \<Longrightarrow> k \<le> fuel \<Longrightarrow> lre_exec_backtrack fuel s False st = lre_exec_backtrack (fuel - k) s False st'"
  unfolding runs_def by (metis le_add_diff_inverse)

definition instr_at :: "REExecContext \<Rightarrow> nat \<Rightarrow> REOPCodeEnum \<Rightarrow> u8 list \<Rightarrow> bool" where
  "instr_at s p op args \<longleftrightarrow> (\<exists>pre post. bc_buf s = pre @ reop_byte op # args @ post \<and> p = length pre)"

lemma instr_at_fetch: "instr_at s (pc st) op args \<Longrightarrow> fetch s st = Some op"
  by (auto simp: instr_at_def fetch_def rd_def)

lemma instr_at_args:
  assumes "instr_at s p op args"
  shows "args = [b] \<Longrightarrow> get_u8 (bc_buf s) (p + 1) = Some (ucast b)"
    and "args = le_bytes 2 (v :: u16) \<Longrightarrow> get_u16 (bc_buf s) (p + 1) = Some (ucast v)"
    and "args = le_bytes 4 (w :: u32) \<Longrightarrow> get_u32 (bc_buf s) (p + 1) = Some w"
proof -
  obtain pre post where b: "bc_buf s = (pre @ [reop_byte op]) @ args @ post" "p + 1 = length (pre @ [reop_byte op])"
    using assms by (auto simp: instr_at_def)
  show "args = [b] \<Longrightarrow> get_u8 (bc_buf s) (p + 1) = Some (ucast b)"
    unfolding b by (simp add: get_u8_def rd_def nth_append)
  show "args = le_bytes 2 (v :: u16) \<Longrightarrow> get_u16 (bc_buf s) (p + 1) = Some (ucast v)"
    unfolding b get_u16_def by (subst rd_n_middle) (simp_all add: of_le_le_bytes)
  show "args = le_bytes 4 (w :: u32) \<Longrightarrow> get_u32 (bc_buf s) (p + 1) = Some w"
    unfolding b get_u32_def by (subst rd_n_middle) (simp_all add: of_le_le_bytes)
qed

lemma runs_step:
  assumes "instr_at s (pc st) op args" "op \<noteq> REOP_simple_greedy_quant"
    and "after_step s False (reop_step s op (st\<lparr>pc := pc st + 1\<rparr>)) = Inr st'"
  shows "runs s 1 st st'"
  using assms(2,3) instr_at_fetch [OF assms(1)] by (simp add: runs_def)

lemma ends_step:
  assumes "instr_at s (pc st) op args" "op \<noteq> REOP_simple_greedy_quant"
    and "after_step s False (reop_step s op (st\<lparr>pc := pc st + 1\<rparr>)) = Inl r" "0 < fuel"
  shows "lre_exec_backtrack fuel s False st = r"
  using assms(2-4) instr_at_fetch [OF assms(1)] by (cases fuel) simp_all

lemma instr_at_assemble:
  assumes "bc_buf s = hdr @ assemble (is @ (op, args) # js)" "p = length hdr + length (assemble is)"
  shows "instr_at s p op args"
  unfolding instr_at_def using assms by (intro exI [of _ "hdr @ assemble is"] exI [of _ "assemble js"]) simp

lemma ucast_char_eq: "(ucast (ucast (c :: u8) :: u16) :: u32) = ucast b \<longleftrightarrow> c = b"
proof -
  have "(ucast (ucast c :: u16) :: u32) = ucast c" by (rule bit_word_eqI) (auto simp: bit_simps dest: bit_imp_le_length)
  moreover have "(ucast (ucast x :: u32) :: u8) = x" for x by (rule bit_word_eqI) (auto simp: bit_simps)
  ultimately show ?thesis by metis
qed

lemma char_step:
  assumes "instr_at s (pc st) REOP_char (le_bytes 2 (ucast c :: u16))" "cbuf_type s = 0" "\<not> ignore_case s"
  shows "cptr st < length (cbuf s) \<Longrightarrow> cbuf s ! cptr st = c \<Longrightarrow>
      reop_step s REOP_char (st\<lparr>pc := pc st + 1\<rparr>) = Some (Next (st\<lparr>pc := pc st + 3, cptr := cptr st + 1\<rparr>))"
    and "\<not> (cptr st < length (cbuf s) \<and> cbuf s ! cptr st = c) \<Longrightarrow>
      \<exists>q. reop_step s REOP_char (st\<lparr>pc := pc st + 1\<rparr>) = Some (No_Match (st\<lparr>pc := pc st + 3, cptr := q\<rparr>))"
proof -
  have v: "get_u16 (bc_buf s) (pc st + 1) = Some (ucast (ucast c :: u16))" using instr_at_args(2) [OF assms(1)] by simp
  have r: "reop_step s REOP_char (st\<lparr>pc := pc st + 1\<rparr>) = test_char s (st\<lparr>pc := pc st + 3\<rparr>) (ucast (ucast c :: u16))"
    using v by (simp add: reop_step_def do_char_def numeral_3_eq_3)
  note d = test_char_def GET_CHAR_def get_u8_def rd_def cbuf_end_def canon_def assms(2,3) ucast_char_eq
  show "cptr st < length (cbuf s) \<Longrightarrow> cbuf s ! cptr st = c \<Longrightarrow>
      reop_step s REOP_char (st\<lparr>pc := pc st + 1\<rparr>) = Some (Next (st\<lparr>pc := pc st + 3, cptr := cptr st + 1\<rparr>))"
    unfolding r by (auto simp: d)
  show "\<exists>q. reop_step s REOP_char (st\<lparr>pc := pc st + 1\<rparr>) = Some (No_Match (st\<lparr>pc := pc st + 3, cptr := q\<rparr>))"
    if no: "\<not> (cptr st < length (cbuf s) \<and> cbuf s ! cptr st = c)"
  proof (cases "cptr st < length (cbuf s)")
    case True
    then show ?thesis unfolding r using no by (intro exI [of _ "cptr st + 1"]) (simp add: d)
  next
    case False
    then show ?thesis unfolding r by (intro exI [of _ "cptr st"]) (simp add: d)
  qed
qed

lemma prefix_drop_Cons: "prefix (c # xs) (drop q ys) \<longleftrightarrow> q < length ys \<and> ys ! q = c \<and> prefix xs (drop (q + 1) ys)"
proof (cases "q < length ys")
  case True
  then have "drop q ys = ys ! q # drop (q + 1) ys" by (simp add: Cons_nth_drop_Suc)
  then show ?thesis using True by auto
qed simp

text \<open>The character instructions: all of them are executed, or one of them fails.\<close>

lemma chars_match:
  assumes "bc_buf s = hdr @ assemble (is @ map char_instr lits @ js)" "pc st = length hdr + length (assemble is)"
    and "cbuf_type s = 0" "\<not> ignore_case s" "prefix lits (drop (cptr st) (cbuf s))"
  shows "runs s (length lits) st (st\<lparr>pc := pc st + 3 * length lits, cptr := cptr st + length lits\<rparr>)"
  using assms
proof (induction lits arbitrary: "is" st)
  case Nil
  then show ?case using runs_0 [of s st] by (cases st) simp
next
  case (Cons c lits)
  let ?st = "st\<lparr>pc := pc st + 3, cptr := cptr st + 1\<rparr>"
  have i: "instr_at s (pc st) REOP_char (le_bytes 2 (ucast c :: u16))"
    using Cons.prems(1,2) by (intro instr_at_assemble [where hdr = hdr and js = "map char_instr lits @ js"]) (auto simp: char_instr_def [of c])
  have q: "cptr st < length (cbuf s)" "cbuf s ! cptr st = c" "prefix lits (drop (cptr st + 1) (cbuf s))"
    using Cons.prems(5) unfolding prefix_drop_Cons by blast+
  have "runs s 1 st ?st"
    by (rule runs_step [OF i]) (use char_step(1) [OF i Cons.prems(3,4) q(1,2)] in \<open>simp_all add: after_step_def\<close>)
  moreover have "runs s (length lits) ?st (?st\<lparr>pc := pc ?st + 3 * length lits, cptr := cptr ?st + length lits\<rparr>)"
    using Cons.prems q(3) by (intro Cons.IH [of "is @ [char_instr c]"]) (auto simp: char_instr_def)
  ultimately have "runs s (1 + length lits) st (?st\<lparr>pc := pc ?st + 3 * length lits, cptr := cptr ?st + length lits\<rparr>)"
    by (rule runs_trans)
  then show ?case by (simp add: add.assoc)
qed

lemma chars_fail:
  assumes "bc_buf s = hdr @ assemble (is @ map char_instr lits @ js)" "pc st = length hdr + length (assemble is)"
    and "cbuf_type s = 0" "\<not> ignore_case s" "\<not> prefix lits (drop (cptr st) (cbuf s))"
  shows "\<exists>k args pc1 q1 pc2 q2. k < length lits \<and> runs s k st (st\<lparr>pc := pc1, cptr := q1\<rparr>) \<and> instr_at s pc1 REOP_char args \<and>
    reop_step s REOP_char (st\<lparr>pc := pc1 + 1, cptr := q1\<rparr>) = Some (No_Match (st\<lparr>pc := pc2, cptr := q2\<rparr>))"
  using assms
proof (induction lits arbitrary: "is" st)
  case Nil
  then show ?case by simp
next
  case (Cons c lits)
  let ?st = "st\<lparr>pc := pc st + 3, cptr := cptr st + 1\<rparr>"
  have i: "instr_at s (pc st) REOP_char (le_bytes 2 (ucast c :: u16))"
    using Cons.prems(1,2) by (intro instr_at_assemble [where hdr = hdr and js = "map char_instr lits @ js"]) (auto simp: char_instr_def [of c])
  show ?case
  proof (cases "cptr st < length (cbuf s) \<and> cbuf s ! cptr st = c")
    case False
    obtain q where "reop_step s REOP_char (st\<lparr>pc := pc st + 1\<rparr>) = Some (No_Match (st\<lparr>pc := pc st + 3, cptr := q\<rparr>))"
      using char_step(2) [OF i Cons.prems(3,4) False] by blast
    moreover have "st\<lparr>pc := x\<rparr> = st\<lparr>pc := x, cptr := cptr st\<rparr>" "st = st\<lparr>pc := pc st, cptr := cptr st\<rparr>" for x by simp_all
    ultimately show ?thesis using i runs_0 [of s st] by (metis length_Cons zero_less_Suc)
  next
    case True
    have np: "\<not> prefix lits (drop (cptr ?st) (cbuf s))"
      using Cons.prems(5) True unfolding prefix_drop_Cons by simp
    have r: "runs s 1 st ?st"
      by (rule runs_step [OF i]) (use char_step(1) [OF i Cons.prems(3,4)] True in \<open>simp_all add: after_step_def\<close>)
    obtain k args pc1 q1 pc2 q2 where k: "k < length lits" "runs s k ?st (?st\<lparr>pc := pc1, cptr := q1\<rparr>)" "instr_at s pc1 REOP_char args"
      "reop_step s REOP_char (?st\<lparr>pc := pc1 + 1, cptr := q1\<rparr>) = Some (No_Match (?st\<lparr>pc := pc2, cptr := q2\<rparr>))"
      using Cons.IH [of "is @ [char_instr c]" ?st] Cons.prems np by (auto simp: char_instr_def)
    from runs_trans [OF r k(2)] k(1,3,4) show ?thesis
      by (intro exI [of _ "1 + k"] exI [of _ args] exI [of _ pc1] exI [of _ q1] exI [of _ pc2] exI [of _ q2]) simp
  qed
qed

section \<open>The search\<close>

text \<open>A context for the compiled literal over a subject of 8-bit characters, and the state in which a position is tried.\<close>

definition literal_context :: "u32 \<Rightarrow> u8 list \<Rightarrow> u8 list \<Rightarrow> REExecContext \<Rightarrow> bool" where
  "literal_context f lits text s \<longleftrightarrow>
     bc_buf s = literal_code f lits \<and> cbuf s = text \<and> cbuf_type s = 0 \<and> \<not> ignore_case s \<and> capture_count s = 1 \<and> (\<forall>n. lre_realloc_ok s n)"

definition try_state :: "nat \<Rightarrow> nat \<Rightarrow> nat option list \<Rightarrow> REExecState list \<Rightarrow> nat \<Rightarrow> re_state" where
  "try_state p q cap saved z =
     \<lparr>pc = p, cptr = q, capture = cap, stack = [], stack_len = 0, state_stack = saved, state_stack_size = z\<rparr>"

definition saved_at :: "nat \<Rightarrow> REExecState" where
  "saved_at p = \<lparr>rs_type = RE_EXEC_STATE_SPLIT, rs_count = 0, rs_cptr = p, rs_pc = 12, rs_capture = [None, None], rs_stack = []\<rparr>"

lemma try_state_simps [simp]:
  "pc (try_state p q cap sv z) = p" "cptr (try_state p q cap sv z) = q" "capture (try_state p q cap sv z) = cap"
  "stack (try_state p q cap sv z) = []" "stack_len (try_state p q cap sv z) = 0" "state_stack (try_state p q cap sv z) = sv"
  "(try_state p q cap sv z)\<lparr>pc := p'\<rparr> = try_state p' q cap sv z" "(try_state p q cap sv z)\<lparr>cptr := q'\<rparr> = try_state p q' cap sv z"
  "(try_state p q cap sv z)\<lparr>capture := cap'\<rparr> = try_state p q cap' sv z"
  "(try_state p q cap sv z)\<lparr>state_stack := sv'\<rparr> = try_state p q cap sv' z"
  "(try_state p q cap sv z)\<lparr>stack := []\<rparr> = try_state p q cap sv z"
  "(try_state p q cap sv z)\<lparr>stack_len := 0\<rparr> = try_state p q cap sv z"
  "(try_state p q cap sv z)\<lparr>state_stack_size := z'\<rparr> = try_state p q cap sv z'" "state_stack_size (try_state p q cap sv z) = z"
  by (simp_all add: try_state_def)

lemma literal_code_search:
  assumes "literal_context f lits text s" "f AND LRE_FLAG_STICKY = 0"
  obtains hdr where "length hdr = 7"
    "bc_buf s = hdr @ assemble (search_instrs @ (REOP_save_start, [0]) # map char_instr lits @ [(REOP_save_end, [0]), (REOP_match, [])])"
  using assms that [of "[ucast f, 1, 0] @ le_bytes 4 (of_nat (length (assemble (literal_instrs False lits))) :: u32)"]
  by (simp add: literal_context_def literal_code_def literal_instrs_def)

lemma length_assemble_chars: "length (assemble (map char_instr lits)) = 3 * length lits"
  by (induction lits) (simp_all add: char_instr_def)

lemma search_instr_at:
  assumes "literal_context f lits text s" "f AND LRE_FLAG_STICKY = 0"
  shows "instr_at s 7 REOP_split_goto_first (le_bytes 4 (6 :: u32))" "instr_at s 12 REOP_any []"
    "instr_at s 13 REOP_goto (le_bytes 4 (- 11 :: u32))" "instr_at s 18 REOP_save_start [0]"
    "instr_at s (20 + 3 * length lits) REOP_save_end [0]" "instr_at s (22 + 3 * length lits) REOP_match []"
proof -
  obtain hdr where h: "length hdr = 7"
    "bc_buf s = hdr @ assemble (search_instrs @ (REOP_save_start, [0]) # map char_instr lits @ [(REOP_save_end, [0]), (REOP_match, [])])"
    using literal_code_search [OF assms] .
  let ?a = "(REOP_split_goto_first, le_bytes 4 (6 :: u32))" let ?b = "(REOP_any, [])" let ?c = "(REOP_goto, le_bytes 4 (- 11 :: u32))"
  let ?d = "(REOP_save_start, [0])" let ?e = "(REOP_save_end, [0])" let ?f = "(REOP_match, [])"
  let ?cs = "map char_instr lits"
  have bc: "bc_buf s = hdr @ assemble ([?a, ?b, ?c, ?d] @ ?cs @ [?e, ?f])" using h(2) by (simp add: search_instrs_def)
  show "instr_at s 7 REOP_split_goto_first (le_bytes 4 (6 :: u32))"
    by (rule instr_at_assemble [of s hdr "[]" _ _ "[?b, ?c, ?d] @ ?cs @ [?e, ?f]"]) (use bc h(1) in simp_all)
  show "instr_at s 12 REOP_any []"
    by (rule instr_at_assemble [of s hdr "[?a]" _ _ "[?c, ?d] @ ?cs @ [?e, ?f]"]) (use bc h(1) in simp_all)
  show "instr_at s 13 REOP_goto (le_bytes 4 (- 11 :: u32))"
    by (rule instr_at_assemble [of s hdr "[?a, ?b]" _ _ "[?d] @ ?cs @ [?e, ?f]"]) (use bc h(1) in simp_all)
  show "instr_at s 18 REOP_save_start [0]"
    by (rule instr_at_assemble [of s hdr "[?a, ?b, ?c]" _ _ "?cs @ [?e, ?f]"]) (use bc h(1) in simp_all)
  show "instr_at s (20 + 3 * length lits) REOP_save_end [0]"
    by (rule instr_at_assemble [of s hdr "[?a, ?b, ?c, ?d] @ ?cs" _ _ "[?f]"])
      (use bc h(1) in \<open>simp_all add: length_assemble_chars\<close>)
  show "instr_at s (22 + 3 * length lits) REOP_match []"
    by (rule instr_at_assemble [of s hdr "[?a, ?b, ?c, ?d] @ ?cs @ [?e]" _ _ "[]"])
      (use bc h(1) in \<open>simp_all add: length_assemble_chars\<close>)
qed

lemma jump_search: "jump 12 6 = Some 18" "jump 18 (- 11) = Some 7"
  by code_simp+

lemma step_split:
  assumes "literal_context f lits text s" "f AND LRE_FLAG_STICKY = 0"
  shows "\<exists>z'. runs s 1 (try_state 7 p [None, None] [] z) (try_state 18 p [None, None] [saved_at p] z')"
proof -
  note i = search_instr_at(1) [OF assms]
  have g: "get_u32 (bc_buf s) 8 = Some 6" using instr_at_args(3) [OF i] by simp
  define z' where "z' = (if 1 > z then if z * 3 div 2 < 8 then 8 else z * 3 div 2 else z)"
  have "reop_step s REOP_split_goto_first (try_state 8 p [None, None] [] z) =
     Some (Next (try_state 18 p [None, None] [saved_at p] z'))"
    using assms(1) g jump_search
    by (simp add: reop_step_def do_split_def push_state_def Let_def literal_context_def saved_at_def rd_n_def z'_def)
  then show ?thesis using i by (intro exI [of _ z'] runs_step [OF _ _ _]) (auto simp: after_step_def)
qed

lemma step_save_start:
  assumes "literal_context f lits text s" "f AND LRE_FLAG_STICKY = 0"
  shows "runs s 1 (try_state 18 p [None, None] sv z) (try_state 20 p [Some p, None] sv z)"
proof -
  note i = search_instr_at(4) [OF assms]
  have "get_u8 (bc_buf s) 19 = Some 0" using instr_at_args(1) [OF i] by simp
  then show ?thesis using assms(1) i
    by (intro runs_step [where op = REOP_save_start]) (auto simp: after_step_def reop_step_def do_save_def wr_def literal_context_def)
qed

lemma step_save_end:
  assumes "literal_context f lits text s" "f AND LRE_FLAG_STICKY = 0"
  shows "runs s 1 (try_state (20 + 3 * length lits) q [Some p, None] sv z) (try_state (22 + 3 * length lits) q [Some p, Some q] sv z)"
proof -
  note i = search_instr_at(5) [OF assms]
  have "get_u8 (bc_buf s) (Suc (20 + 3 * length lits)) = Some 0" using instr_at_args(1) [OF i] by simp
  then show ?thesis using assms(1) i
    by (intro runs_step [where op = REOP_save_end]) (auto simp: after_step_def reop_step_def do_save_def wr_def literal_context_def)
qed

lemma step_match:
  assumes "literal_context f lits text s" "f AND LRE_FLAG_STICKY = 0" "0 < fuel"
  shows "lre_exec_backtrack fuel s False (try_state (22 + 3 * length lits) q cap [saved_at p] z) =
    run.Done (Ret 1) (try_state (22 + 3 * length lits + 1) q cap [] z)"
  by (rule ends_step [OF _ _ _ assms(3), where op = REOP_match])
    (use search_instr_at(6) [OF assms(1,2)] in \<open>simp_all add: after_step_def reop_step_def after_unwind_def saved_at_def\<close>)

lemma unwind_saved: "unwind s False (try_state a q [b, c] [saved_at p] z) [saved_at p] = Some (Inr (try_state 12 p [None, None] [] z))"
  by (simp add: saved_at_def pop_state_def restore_capture_def pop_state1_def restore_stack_def memcpy_def)

lemma step_any_goto:
  assumes "literal_context f lits text s" "f AND LRE_FLAG_STICKY = 0" "p < length text"
  shows "runs s 2 (try_state 12 p cap [] z) (try_state 7 (p + 1) cap [] z)"
proof -
  have "runs s 1 (try_state 12 p cap [] z) (try_state 13 (p + 1) cap [] z)"
    using assms search_instr_at(2) [OF assms(1,2)]
    by (intro runs_step [where op = REOP_any])
      (auto simp: after_step_def reop_step_def do_any_def cbuf_end_def GET_CHAR_def get_u8_def rd_def literal_context_def)
  moreover have "runs s 1 (try_state 13 (p + 1) cap [] z) (try_state 7 (p + 1) cap [] z)"
  proof -
    note i = search_instr_at(3) [OF assms(1,2)]
    have "get_u32 (bc_buf s) 14 = Some (- 11)" using instr_at_args(3) [OF i] by simp
    then show ?thesis using i jump_search(2)
      by (intro runs_step [where op = REOP_goto]) (auto simp: after_step_def reop_step_def do_goto_def)
  qed
  ultimately have "runs s (1 + 1) (try_state 12 p cap [] z) (try_state 7 (p + 1) cap [] z)" by (rule runs_trans)
  then show ?thesis by (simp only: one_add_one)
qed

lemma end_any:
  assumes "literal_context f lits text s" "f AND LRE_FLAG_STICKY = 0" "0 < fuel"
  shows "lre_exec_backtrack fuel s False (try_state 12 (length text) cap [] z) = run.Done (Ret 0) (try_state 13 (length text) cap [] z)"
  by (rule ends_step [OF _ _ _ assms(3), where op = REOP_any])
    (use assms(1) search_instr_at(2) [OF assms(1,2)] in
      \<open>simp_all add: after_step_def reop_step_def do_any_def cbuf_end_def after_unwind_def literal_context_def\<close>)

text \<open>One position: the match, or back behind the first instruction.\<close>

lemma chars_code:
  assumes "literal_context f lits text s" "f AND LRE_FLAG_STICKY = 0"
  obtains hdr "is" js where "bc_buf s = hdr @ assemble (is @ map char_instr lits @ js)" "20 = length hdr + length (assemble is)"
proof -
  obtain hdr where h: "length hdr = 7"
    "bc_buf s = hdr @ assemble (search_instrs @ (REOP_save_start, [0]) # map char_instr lits @ [(REOP_save_end, [0]), (REOP_match, [])])"
    using literal_code_search [OF assms] .
  then show thesis
    using that [of hdr "search_instrs @ [(REOP_save_start, [0])]" "[(REOP_save_end, [0]), (REOP_match, [])]"]
    by (simp add: search_instrs_def)
qed

lemma position_match:
  assumes "literal_context f lits text s" "f AND LRE_FLAG_STICKY = 0" "prefix lits (drop p text)" "length lits + 4 \<le> fuel"
  shows "\<exists>st. lre_exec_backtrack fuel s False (try_state 7 p [None, None] [] z) = run.Done (Ret 1) st \<and>
    capture st = [Some p, Some (p + length lits)]"
proof -
  obtain z' where r1: "runs s 1 (try_state 7 p [None, None] [] z) (try_state 18 p [None, None] [saved_at p] z')"
    using step_split [OF assms(1,2)] by blast
  let ?n = "length lits"
  obtain hdr "is" js where bc: "bc_buf s = hdr @ assemble (is @ map char_instr lits @ js)" "20 = length hdr + length (assemble is)"
    using chars_code [OF assms(1,2)] .
  have c: "cbuf_type s = 0" "\<not> ignore_case s" "cbuf s = text" using assms(1) by (simp_all add: literal_context_def)
  have r3: "runs s ?n (try_state 20 p [Some p, None] [saved_at p] z')
      (try_state (20 + 3 * ?n) (p + ?n) [Some p, None] [saved_at p] z')"
    using chars_match [OF bc(1) _ c(1,2), of "try_state 20 p [Some p, None] [saved_at p] z'"] bc(2) assms(3) c(3) by simp
  let ?fin = "try_state (22 + 3 * ?n) (p + ?n) [Some p, Some (p + ?n)] [saved_at p] z'"
  have r: "runs s (1 + (1 + (?n + 1))) (try_state 7 p [None, None] [] z) ?fin"
    by (rule runs_trans [OF r1 runs_trans [OF step_save_start [OF assms(1,2)] runs_trans [OF r3 step_save_end [OF assms(1,2)]]]])
  have "lre_exec_backtrack fuel s False (try_state 7 p [None, None] [] z) =
      lre_exec_backtrack (fuel - (1 + (1 + (?n + 1)))) s False ?fin"
    by (rule runs_fuel [OF r]) (use assms(4) in linarith)
  then show ?thesis using step_match [OF assms(1,2), of "fuel - (1 + (1 + (?n + 1)))"] assms(4) by simp
qed

lemma position_fail:
  assumes "literal_context f lits text s" "f AND LRE_FLAG_STICKY = 0" "\<not> prefix lits (drop p text)"
  shows "\<exists>k z'. k \<le> length lits + 2 \<and> runs s k (try_state 7 p [None, None] [] z) (try_state 12 p [None, None] [] z')"
proof -
  obtain z' where r1: "runs s 1 (try_state 7 p [None, None] [] z) (try_state 18 p [None, None] [saved_at p] z')"
    using step_split [OF assms(1,2)] by blast
  obtain hdr "is" js where bc: "bc_buf s = hdr @ assemble (is @ map char_instr lits @ js)" "20 = length hdr + length (assemble is)"
    using chars_code [OF assms(1,2)] .
  have c: "cbuf_type s = 0" "\<not> ignore_case s" "cbuf s = text" using assms(1) by (simp_all add: literal_context_def)
  let ?st = "try_state 20 p [Some p, None] [saved_at p] z'"
  obtain k args pc1 q1 pc2 q2 where k: "k < length lits" "runs s k ?st (try_state pc1 q1 [Some p, None] [saved_at p] z')"
    "instr_at s pc1 REOP_char args"
    "reop_step s REOP_char (try_state (pc1 + 1) q1 [Some p, None] [saved_at p] z') = Some (No_Match (try_state pc2 q2 [Some p, None] [saved_at p] z'))"
    using chars_fail [OF bc(1) _ c(1,2), of ?st] bc(2) assms(3) c(3) by auto
  have r4: "runs s 1 (try_state pc1 q1 [Some p, None] [saved_at p] z') (try_state 12 p [None, None] [] z')"
    using k(3,4) by (intro runs_step [where op = REOP_char]) (auto simp: after_step_def unwind_saved after_unwind_def simp del: unwind.simps)
  have "runs s (1 + (1 + (k + 1))) (try_state 7 p [None, None] [] z) (try_state 12 p [None, None] [] z')"
    by (rule runs_trans [OF r1 runs_trans [OF step_save_start [OF assms(1,2)] runs_trans [OF k(2) r4]]])
  then show ?thesis using k(1) by (intro exI conjI) auto
qed

lemma search_all:
  assumes "literal_context f lits text s" "f AND LRE_FLAG_STICKY = 0" "p \<le> length text" "(length text - p + 1) * (length lits + 4) \<le> fuel"
  shows "(\<exists>st i. lre_exec_backtrack fuel s False (try_state 7 p [None, None] [] z) = run.Done (Ret 1) st \<and>
        capture st = [Some i, Some (i + length lits)] \<and> p \<le> i \<and> prefix lits (drop i text) \<and>
        (\<forall>j. p \<le> j \<and> j < i \<longrightarrow> \<not> prefix lits (drop j text))) \<or>
    (\<exists>st. lre_exec_backtrack fuel s False (try_state 7 p [None, None] [] z) = run.Done (Ret 0) st \<and>
        (\<forall>j. p \<le> j \<and> j \<le> length text \<longrightarrow> \<not> prefix lits (drop j text)))"
  using assms(3,4)
proof (induction "length text - p" arbitrary: p z fuel)
  case 0
  then have p: "p = length text" by simp
  show ?case
  proof (cases "prefix lits (drop p text)")
    case True
    obtain st where "lre_exec_backtrack fuel s False (try_state 7 p [None, None] [] z) = run.Done (Ret 1) st"
      "capture st = [Some p, Some (p + length lits)]"
      using position_match [OF assms(1,2) True, of fuel z] 0 by auto
    then show ?thesis using True by (intro disjI1 exI [of _ st] exI [of _ p]) auto
  next
    case False
    then obtain k z' where k: "k \<le> length lits + 2" "runs s k (try_state 7 p [None, None] [] z) (try_state 12 p [None, None] [] z')"
      using position_fail [OF assms(1,2) False] by blast
    have fu: "k < fuel" using k(1) 0 p by simp
    have "lre_exec_backtrack fuel s False (try_state 7 p [None, None] [] z) =
        lre_exec_backtrack (fuel - k) s False (try_state 12 p [None, None] [] z')"
      by (rule runs_fuel [OF k(2)]) (use fu in simp)
    also have "\<dots> = run.Done (Ret 0) (try_state 13 p [None, None] [] z')"
      unfolding p by (rule end_any [OF assms(1,2)]) (use fu in simp)
    finally have "lre_exec_backtrack fuel s False (try_state 7 p [None, None] [] z) = run.Done (Ret 0) (try_state 13 p [None, None] [] z')" .
    then show ?thesis using False p by auto
  qed
next
  case (Suc d)
  then have p: "p < length text" by simp
  show ?case
  proof (cases "prefix lits (drop p text)")
    case True
    have "length lits + 4 \<le> fuel" using Suc.prems(2) by simp
    then obtain st where "lre_exec_backtrack fuel s False (try_state 7 p [None, None] [] z) = run.Done (Ret 1) st"
      "capture st = [Some p, Some (p + length lits)]"
      using position_match [OF assms(1,2) True, of fuel z] by auto
    then show ?thesis using True by (intro disjI1 exI [of _ st] exI [of _ p]) auto
  next
    case False
    then obtain k z' where k: "k \<le> length lits + 2" "runs s k (try_state 7 p [None, None] [] z) (try_state 12 p [None, None] [] z')"
      using position_fail [OF assms(1,2) False] by blast
    have r: "runs s (k + 2) (try_state 7 p [None, None] [] z) (try_state 7 (p + 1) [None, None] [] z')"
      by (rule runs_trans [OF k(2) step_any_goto [OF assms(1,2) p]])
    have d: "d = length text - (p + 1)" "p + 1 \<le> length text" using Suc.hyps(2) p by auto
    define g where "g = fuel - (k + 2)"
    have fu: "(length text - (p + 1) + 1) * (length lits + 4) + (length lits + 4) \<le> fuel"
    proof -
      have "length text - p + 1 = (length text - (p + 1) + 1) + 1" using p by simp
      then show ?thesis using Suc.prems(2) by (simp only: add_mult_distrib mult_1)
    qed
    then have g: "(length text - (p + 1) + 1) * (length lits + 4) \<le> g" "k + 2 \<le> fuel" using k(1) by (simp_all add: g_def)
    have e: "lre_exec_backtrack fuel s False (try_state 7 p [None, None] [] z) =
        lre_exec_backtrack g s False (try_state 7 (p + 1) [None, None] [] z')"
      unfolding g_def by (rule runs_fuel [OF r g(2)])
    have first: "(\<forall>j. p \<le> j \<and> P j \<longrightarrow> \<not> prefix lits (drop j text)) \<longleftrightarrow> (\<forall>j. p + 1 \<le> j \<and> P j \<longrightarrow> \<not> prefix lits (drop j text))" for P
      using False by (metis Suc_eq_plus1 Suc_leD not_less_eq_eq le_antisym)
    show ?thesis using Suc.hyps(1) [OF d g(1), of z'] unfolding e first
      by (metis Suc_eq_plus1 Suc_leD)
  qed
qed

lemma flag_through_byte: "(ucast (ucast (f :: u32) :: u8) :: u32) AND LRE_FLAG_IGNORECASE = f AND LRE_FLAG_IGNORECASE"
proof -
  have "(2 :: u32) = push_bit 1 1" by simp
  then have "(ucast (ucast f :: u8) :: u32) AND 2 = f AND 2" by (intro bit_word_eqI) (auto simp: bit_simps)
  then show ?thesis by (simp add: LRE_FLAG_IGNORECASE_def)
qed

text \<open>\<open>lre_exec\<close> on the compiled literal starts the search in such a context.\<close>

lemma exec_literal:
  assumes "f AND LRE_FLAG_IGNORECASE = 0" "\<forall>n. alloc n"
  shows "\<exists>s. literal_context f lits text s \<and>
    lre_exec fuel alloc (literal_code f lits) text p 0 = lre_exec_backtrack fuel s False (try_state 7 p [None, None] [] 0)"
proof -
  let ?c = "literal_code f lits"
  have g: "get_u8 ?c 0 = Some (ucast (ucast f :: u8))" "get_u8 ?c 1 = Some 1" "get_u8 ?c 2 = Some 0"
    by (simp_all add: literal_code_def Let_def get_u8_def rd_def)
  obtain s where s: "exec_context alloc ?c text 0 = Some s" "literal_context f lits text s" "stack_size_max s = 0"
    using assms g flag_through_byte [of f] by (simp add: exec_context_def re_header_defs literal_context_def Let_def)
  have "init_state s p = try_state 7 p [None, None] [] 0"
    using s(2,3) by (simp add: init_state_def try_state_def literal_context_def RE_HEADER_LEN_def numeral_2_eq_2)
  then show ?thesis using s by (intro exI [of _ s]) (simp add: lre_exec_def)
qed

text \<open>C1: Compiling and running a pattern without operators finds its first occurrence. For ASCII characters that are no
  operators, neither the flag for case-insensitive matching nor the sticky flag, and an allocator that grants every
  request, \<open>lre_compile\<close> returns byte code with which \<open>lre_exec\<close>, on any subject of 8-bit characters and from any
  position in it, returns: it answers 1 with capture 0 around the first occurrence of the pattern at or behind the
  position, or 0 when there is no occurrence. The number of executed instructions is at most the number of positions
  times the length of the pattern plus four, so that the search always ends.\<close>

theorem literal_search_correct:
  assumes "list_all literal_char lits" "length lits < 2 ^ 30" "re_flags AND LRE_FLAG_IGNORECASE = 0" "re_flags AND LRE_FLAG_STICKY = 0"
    and "\<forall>n. alloc n" "\<not> overflow 0" "0 < fuel" "error_msg \<noteq> []"
    and "cindex \<le> length text" "(length text - cindex + 1) * (length lits + 4) \<le> steps"
  shows "\<exists>bc. lre_compile fuel error_msg lits re_flags alloc overflow = Some (Byte_Code bc) \<and>
    ((\<exists>st i. lre_exec steps alloc bc text cindex 0 = run.Done (Ret 1) st \<and>
        capture st = [Some i, Some (i + length lits)] \<and> cindex \<le> i \<and> prefix lits (drop i text) \<and>
        (\<forall>j. cindex \<le> j \<and> j < i \<longrightarrow> \<not> prefix lits (drop j text))) \<or>
     (\<exists>st. lre_exec steps alloc bc text cindex 0 = run.Done (Ret 0) st \<and>
        (\<forall>j. cindex \<le> j \<and> j \<le> length text \<longrightarrow> \<not> prefix lits (drop j text))))"
proof -
  have c: "lre_compile fuel error_msg lits re_flags alloc overflow = Some (Byte_Code (literal_code re_flags lits))"
    using lre_compile_literal [OF assms(1,3,2,7) _ assms(8), where overflow = overflow and alloc = alloc] assms(5,6) by blast
  obtain s where s: "literal_context re_flags lits text s"
    "lre_exec steps alloc (literal_code re_flags lits) text cindex 0 = lre_exec_backtrack steps s False (try_state 7 cindex [None, None] [] 0)"
    using exec_literal [OF assms(3,5)] by blast
  show ?thesis using c search_all [OF s(1) assms(4,9,10), of 0] by (intro exI [of _ "literal_code re_flags lits"]) (simp only: s(2) simp_thms)
qed

theorem literal_search_correct_witness:
  "\<exists>bc st. lre_compile 1 [0] [97, 98] 0 (\<lambda>_. True) (\<lambda>_. False) = Some (Byte_Code bc) \<and>
    lre_exec 24 (\<lambda>_. True) bc [120, 97, 98] 0 0 = run.Done (Ret 1) st \<and> capture st = [Some 1, Some 3]"
proof -
  have lits: "list_all literal_char [97, 98]" by (simp add: literal_char_def operators_def asc_def)
  let ?text = "[120, 97, 98] :: u8 list"
  have occ: "prefix [97, 98] (drop 1 ?text)" "\<not> prefix [97, 98] (drop 0 ?text)" by simp_all
  obtain bc where c: "lre_compile 1 [0] [97, 98] 0 (\<lambda>_. True) (\<lambda>_. False) = Some (Byte_Code bc)"
    and e: "(\<exists>st i. lre_exec 24 (\<lambda>_. True) bc ?text 0 0 = run.Done (Ret 1) st \<and>
        capture st = [Some i, Some (i + length [97 :: u8, 98])] \<and> 0 \<le> i \<and> prefix [97, 98] (drop i ?text) \<and>
        (\<forall>j. 0 \<le> j \<and> j < i \<longrightarrow> \<not> prefix [97, 98] (drop j ?text))) \<or>
     (\<exists>st. lre_exec 24 (\<lambda>_. True) bc ?text 0 0 = run.Done (Ret 0) st \<and>
        (\<forall>j. 0 \<le> j \<and> j \<le> length ?text \<longrightarrow> \<not> prefix [97, 98] (drop j ?text)))"
    using literal_search_correct [OF lits, of 0 "\<lambda>_. True" "\<lambda>_. False" 1 "[0]" 0 ?text 24] by (auto simp: LRE_FLAG_IGNORECASE_def)
  from e occ(1) obtain st i where i: "lre_exec 24 (\<lambda>_. True) bc ?text 0 0 = run.Done (Ret 1) st"
    "capture st = [Some i, Some (i + 2)]" "prefix [97, 98] (drop i ?text)" "\<forall>j<i. \<not> prefix [97, 98] (drop j ?text)"
    by (fastforce simp: numeral_2_eq_2)
  have "i = 1" using i(3,4) occ by (metis less_one linorder_neqE_nat)
  with c i(1,2) show ?thesis by (metis add.commute one_plus_numeral semiring_norm(3))
qed

text \<open>C26: Literal patterns under any allocator. For a pattern of ASCII characters that are no operators, without the
  flag for case-insensitive matching, \<open>lre_compile\<close> returns the byte code \<open>literal_code\<close>: the header with the flags, one
  capture, an empty stack and the length of the code; unless the sticky flag is set, the loop that tries every position;
  the start of capture 0, one instruction for each character, the end of the capture and \<open>match\<close>. Only when an allocation
  is refused does it report \<^verbatim>\<open>out of memory\<close> instead, cut to the caller's buffer; whichever requests are refused, it never
  touches memory outside a block and never returns incomplete code.\<close>

theorem literal_compiles_or_reports:
  assumes "list_all literal_char lits" "re_flags AND LRE_FLAG_IGNORECASE = 0" "length lits < 2 ^ 30"
    and "0 < fuel" "\<not> overflow 0" "error_msg \<noteq> []"
  shows "lre_compile fuel error_msg lits re_flags alloc overflow = Some (Byte_Code (literal_code re_flags lits)) \<or>
    (\<exists>n. \<not> alloc n) \<and> (\<exists>msg. lre_compile fuel error_msg lits re_flags alloc overflow = Some (Error_Msg msg) \<and>
      cstr msg = take (length error_msg - 1) (map asc ''out of memory''))"
  using assms by (rule lre_compile_literal)

theorem literal_compiles_or_reports_witness:
  "lre_compile 1 [0] [97] 0 (\<lambda>_. True) (\<lambda>_. False) = Some (Byte_Code (literal_code 0 [97]))"
proof -
  have "list_all literal_char [97]" by (simp add: literal_char_def operators_def asc_def)
  then show ?thesis using literal_compiles_or_reports [of "[97]" 0 1 "\<lambda>_. False" "[0]" "\<lambda>_. True"] by (auto simp: LRE_FLAG_IGNORECASE_def)
qed

end
