(* ===== verification/Regexp_Buffer.thy ===== *)
theory Regexp_Buffer
  imports Regexp_Compile
begin

text \<open>
  What every function of the regular expression compiler keeps of its byte code buffer. Once an allocation has been
  refused the buffer is frozen: the error flag stays set and the block is never enlarged again. The facts are
  rules for the equations that a run of the compiler leaves, one per function, collected in \<open>buffer_rules\<close>; a
  function that calls others is proved from their rules.
\<close>

section \<open>A frozen buffer\<close>

definition frozen :: "DynBuf \<Rightarrow> DynBuf \<Rightarrow> bool" where
  "frozen d d' \<longleftrightarrow>
     (length (db_buf d) = allocated_size d \<longrightarrow> length (db_buf d') = allocated_size d') \<and>
     (db_error d \<longrightarrow> db_error d' \<and> allocated_size d' = allocated_size d)"

definition keeps :: "REParseState \<Rightarrow> REParseState \<Rightarrow> bool" where
  "keeps s s' \<longleftrightarrow> frozen (byte_code s) (byte_code s')"

named_theorems buffer_rules \<open>a call keeps what holds of the buffer before it\<close>

lemma frozen_refl [simp]: "frozen d d"
  by (simp add: frozen_def)

lemma frozen_trans: "frozen d d' \<Longrightarrow> frozen d' d'' \<Longrightarrow> frozen d d''"
  by (auto simp: frozen_def)

lemma frozen_same [simp]:
  "frozen d (d'\<lparr>db_size := n\<rparr>) = frozen d d'"
  "length b = length (db_buf d') \<Longrightarrow> frozen d (d'\<lparr>db_buf := b\<rparr>) = frozen d d'"
  "length b = length (db_buf d') \<Longrightarrow> frozen d (d'\<lparr>db_buf := b, db_size := n\<rparr>) = frozen d d'"
  by (auto simp: frozen_def)

lemma keeps_refl [simp]: "keeps s s"
  by (simp add: keeps_def)

lemma keeps_trans: "keeps s s' \<Longrightarrow> keeps s' s'' \<Longrightarrow> keeps s s''"
  unfolding keeps_def by (rule frozen_trans)

lemma keeps_update [simp]:
  "keeps s (s'\<lparr>buf_ptr := a\<rparr>) = keeps s s'" "keeps s (s'\<lparr>u_buf := b\<rparr>) = keeps s s'"
  "keeps s (s'\<lparr>ps_capture_count := c\<rparr>) = keeps s s'" "keeps s (s'\<lparr>total_capture_count := e\<rparr>) = keeps s s'"
  "keeps s (s'\<lparr>has_named_captures := f\<rparr>) = keeps s s'" "keeps s (s'\<lparr>group_names := g\<rparr>) = keeps s s'"
  by (simp_all add: keeps_def)

text \<open>The two ways in which calls are composed, and the calls that only report.\<close>

lemma andthen_Done [simp]: "andthen r f = Some (Done y) \<longleftrightarrow> (\<exists>x. r = Some (Done x) \<and> f x = Some (Done y))"
  by (auto simp: andthen_def split: option.splits outcome.splits)

lemma report_not_Done [simp]:
  "re_parse_error s msg \<noteq> Some (Done x)" "re_parse_out_of_memory s \<noteq> Some (Done x)" "nothing_to_repeat s \<noteq> Some (Done x)"
  by (auto simp: re_parse_out_of_memory_def nothing_to_repeat_def re_parse_error_def bind_eq_Some_conv)

lemmas run_simps = Let_def bind_eq_Some_conv mem_simps

section \<open>Buffers\<close>

lemma dbuf_realloc_frozen: "dbuf_realloc d n = Some (r, d') \<Longrightarrow> frozen d d'"
  by (auto simp: dbuf_realloc_def frozen_def Let_def split: if_splits option.splits)

lemma dbuf_grow_frozen: "dbuf_grow d n = Some (r, d') \<Longrightarrow> frozen d d'"
  by (auto simp: dbuf_grow_def dest: dbuf_realloc_frozen split: if_splits)

lemma dbuf_put_frozen: "dbuf_put d xs = Some (r, d') \<Longrightarrow> frozen d d'"
  by (auto simp: dbuf_put_def run_simps dest: dbuf_grow_frozen split: if_splits)

lemma dbuf_put_self_frozen: "dbuf_put_self d p n = Some (r, d') \<Longrightarrow> frozen d d'"
  by (auto simp: dbuf_put_self_def run_simps dest: dbuf_grow_frozen split: if_splits)

lemma dbuf_insert_frozen: "dbuf_insert d p n = Some (r, d') \<Longrightarrow> frozen d d'"
  by (auto simp: dbuf_insert_def run_simps dest: dbuf_realloc_frozen split: if_splits)

lemma byte_code_keeps: "frozen (byte_code s) d \<Longrightarrow> keeps s0 s \<Longrightarrow> keeps s0 (s\<lparr>byte_code := d\<rparr>)"
  by (auto simp: keeps_def intro: frozen_trans)

section \<open>Emission and patches\<close>

lemma emit_keeps:
  "emit s (dbuf_put (byte_code s) xs) = Some s' \<Longrightarrow> keeps s0 s \<Longrightarrow> keeps s0 s'"
  "emit s (dbuf_put_self (byte_code s) p n) = Some s' \<Longrightarrow> keeps s0 s \<Longrightarrow> keeps s0 s'"
  by (auto simp: emit_def run_simps intro!: byte_code_keeps dest: dbuf_put_frozen dbuf_put_self_frozen)

lemmas emit_defs = dbuf_putc_def dbuf_put_u16_def dbuf_put_u32_def

lemma emit_op_keeps [buffer_rules]:
  "re_emit_op s op = Some s' \<Longrightarrow> keeps s0 s \<Longrightarrow> keeps s0 s'"
  "re_emit_op_u8 s op v = Some s' \<Longrightarrow> keeps s0 s \<Longrightarrow> keeps s0 s'"
  "re_emit_op_u16 s op w = Some s' \<Longrightarrow> keeps s0 s \<Longrightarrow> keeps s0 s'"
  "re_emit_op_u32 s op x = Some (pos, s') \<Longrightarrow> keeps s0 s \<Longrightarrow> keeps s0 s'"
  "re_emit_goto s op n = Some (pos, s') \<Longrightarrow> keeps s0 s \<Longrightarrow> keeps s0 s'"
  by (auto simp: re_emit_op_def re_emit_op_u8_def re_emit_op_u16_def re_emit_op_u32_def re_emit_goto_def emit_defs run_simps
      intro: emit_keeps)

lemma patch_keeps [buffer_rules]:
  "patch_u8 s p v = Some s' \<Longrightarrow> keeps s0 s \<Longrightarrow> keeps s0 s'"
  "patch_u32 s p w = Some s' \<Longrightarrow> keeps s0 s \<Longrightarrow> keeps s0 s'"
  "copy_code s start n = Some s' \<Longrightarrow> keeps s0 s \<Longrightarrow> keeps s0 s'"
  by (auto simp: patch_u8_def patch_u32_def put_u32_def copy_code_def run_simps intro!: byte_code_keeps intro: emit_keeps)

lemma insert_code_keeps [buffer_rules]: "insert_code s p n = Some (Done s') \<Longrightarrow> keeps s0 s \<Longrightarrow> keeps s0 s'"
  by (auto simp: insert_code_def run_simps intro!: byte_code_keeps dest: dbuf_insert_frozen split: if_splits)

lemma emit_ranges_keeps [buffer_rules]:
  "emit_ranges16 s pts = Some s' \<Longrightarrow> keeps s0 s \<Longrightarrow> keeps s0 s'"
  "emit_ranges32 s pts = Some s' \<Longrightarrow> keeps s0 s \<Longrightarrow> keeps s0 s'"
  by (induction s pts rule: emit_ranges16.induct; force simp: emit_defs run_simps intro: emit_keeps)
    (induction s pts rule: emit_ranges32.induct; force simp: emit_defs run_simps intro: emit_keeps)

section \<open>Atoms\<close>

lemma emit_range_keeps [buffer_rules]: "re_emit_range s cr = Some (Done s') \<Longrightarrow> keeps s0 s \<Longrightarrow> keeps s0 s'"
  by (auto simp: re_emit_range_def run_simps elim!: buffer_rules split: if_splits)

lemma emit_atom_keeps [buffer_rules]:
  "emit_prev s b = Some s' \<Longrightarrow> keeps s0 s \<Longrightarrow> keeps s0 s'"
  "emit_char s c = Some s' \<Longrightarrow> keeps s0 s \<Longrightarrow> keeps s0 s'"
  by (auto simp: emit_prev_def emit_char_def run_simps elim!: buffer_rules split: if_splits)

lemma term_char_keeps [buffer_rules]: "term_char s p c b = Some (Done (s', r)) \<Longrightarrow> keeps s0 s \<Longrightarrow> keeps s0 s'"
  by (auto simp: term_char_def run_simps elim!: buffer_rules)

lemma term_range_keeps [buffer_rules]: "term_range s p cr b = Some (Done (s', r)) \<Longrightarrow> keeps s0 s \<Longrightarrow> keeps s0 s'"
  by (auto simp: term_range_def run_simps elim!: buffer_rules)

lemma term_class_atom_keeps [buffer_rules]: "term_class_atom s p b = Some (Done (s', r)) \<Longrightarrow> keeps s0 s \<Longrightarrow> keeps s0 s'"
  by (auto simp: term_class_atom_def run_simps elim!: buffer_rules split: if_splits)

lemma term_dot_keeps [buffer_rules]: "term_dot s p b = Some (Done (s', r)) \<Longrightarrow> keeps s0 s \<Longrightarrow> keeps s0 s'"
  by (auto simp: term_dot_def run_simps elim!: buffer_rules)

lemma re_parse_char_class_keeps [buffer_rules]:
  "re_parse_char_class s p = Some (Done (s', r)) \<Longrightarrow> keeps s0 s \<Longrightarrow> keeps s0 s'"
  by (auto simp: re_parse_char_class_def run_simps elim!: buffer_rules)

lemma term_class_keeps [buffer_rules]: "term_class s p b = Some (Done (s', r)) \<Longrightarrow> keeps s0 s \<Longrightarrow> keeps s0 s'"
  by (auto simp: term_class_def run_simps elim!: buffer_rules)

lemma term_back_reference_keeps [buffer_rules]:
  "term_back_reference s p c b = Some (Done (s', r)) \<Longrightarrow> keeps s0 s \<Longrightarrow> keeps s0 s'"
  by (auto simp: term_back_reference_def run_simps elim!: buffer_rules)

lemma term_brace_keeps [buffer_rules]: "term_brace s p b = Some (Done (s', r)) \<Longrightarrow> keeps s0 s \<Longrightarrow> keeps s0 s'"
  by (auto simp: term_brace_def run_simps elim!: buffer_rules split: if_splits)

lemma count_captures_keeps [buffer_rules]:
  "re_count_captures s = Some (n, s') \<Longrightarrow> keeps s0 s \<Longrightarrow> keeps s0 s'"
  "re_has_named_captures s = Some (h, s') \<Longrightarrow> keeps s0 s \<Longrightarrow> keeps s0 s'"
  by (auto simp: re_count_captures_def re_has_named_captures_def run_simps split: if_splits)

lemma term_octal_keeps [buffer_rules]:
  "term_zero s p b = Some (Done (s', r)) \<Longrightarrow> keeps s0 s \<Longrightarrow> keeps s0 s'"
  "term_legacy_octal s p b = Some (Done (s', r)) \<Longrightarrow> keeps s0 s \<Longrightarrow> keeps s0 s'"
  by (auto simp: term_zero_def term_legacy_octal_def run_simps elim!: buffer_rules split: if_splits prod.splits)

lemma term_decimal_keeps [buffer_rules]: "term_decimal s p b = Some (Done (s', r)) \<Longrightarrow> keeps s0 s \<Longrightarrow> keeps s0 s'"
  by (auto simp: term_decimal_def run_simps elim!: buffer_rules split: if_splits)

lemma unless_named_keeps [buffer_rules]: "unless_named s msg p b = Some (Done (s', r)) \<Longrightarrow> keeps s0 s \<Longrightarrow> keeps s0 s'"
  by (auto simp: unless_named_def run_simps elim!: buffer_rules split: if_splits)

lemma term_named_reference_keeps [buffer_rules]:
  "term_named_reference s p b = Some (Done (s', r)) \<Longrightarrow> keeps s0 s \<Longrightarrow> keeps s0 s'"
  by (auto simp: term_named_reference_def run_simps elim!: buffer_rules split: if_splits)

lemma term_escape_keeps [buffer_rules]: "term_escape s p b = Some (Done (s', r)) \<Longrightarrow> keeps s0 s \<Longrightarrow> keeps s0 s'"
  by (auto simp: term_escape_def run_simps elim!: buffer_rules split: if_splits)

section \<open>Groups\<close>

text \<open>The parser for the contents of a group is a parameter of the functions for terms.\<close>

definition keeping :: "parser \<Rightarrow> bool" where
  "keeping parse \<longleftrightarrow> (\<forall>s b s'. parse s b = Some (Done s') \<longrightarrow> keeps s s')"

lemma sub_expression_keeps [buffer_rules]:
  "sub_expression parse s p b = Some (Done s') \<Longrightarrow> keeping parse \<Longrightarrow> keeps s0 s \<Longrightarrow> keeps s0 s'"
  using keeps_trans [of s0 "s\<lparr>buf_ptr := p\<rparr>" s'] by (auto simp: sub_expression_def keeping_def)

lemma term_plain_group_keeps [buffer_rules]:
  "term_plain_group parse s p b = Some (Done (s', r)) \<Longrightarrow> keeping parse \<Longrightarrow> keeps s0 s \<Longrightarrow> keeps s0 s'"
  by (auto simp: term_plain_group_def elim!: buffer_rules)

lemma term_lookahead_keeps [buffer_rules]:
  "term_lookahead parse s p n b = Some (Done (s', r)) \<Longrightarrow> keeping parse \<Longrightarrow> keeps s0 s \<Longrightarrow> keeps s0 s'"
  by (auto simp: term_lookahead_def run_simps elim!: buffer_rules split: if_splits)

lemma term_capture_keeps [buffer_rules]:
  "term_capture parse s p b = Some (Done (s', r)) \<Longrightarrow> keeping parse \<Longrightarrow> keeps s0 s \<Longrightarrow> keeps s0 s'"
  by (auto simp: term_capture_def run_simps elim!: buffer_rules split: if_splits)

lemma put_group_name_keeps [buffer_rules]: "put_group_name s bs = Some s' \<Longrightarrow> keeps s0 s \<Longrightarrow> keeps s0 s'"
  by (auto simp: put_group_name_def run_simps)

lemma term_named_group_keeps [buffer_rules]:
  "term_named_group parse s p b = Some (Done (s', r)) \<Longrightarrow> keeping parse \<Longrightarrow> keeps s0 s \<Longrightarrow> keeps s0 s'"
  by (auto simp: term_named_group_def run_simps elim!: buffer_rules split: if_splits)

lemma term_group_keeps [buffer_rules]:
  "term_group parse s p b = Some (Done (s', r)) \<Longrightarrow> keeping parse \<Longrightarrow> keeps s0 s \<Longrightarrow> keeps s0 s'"
  by (auto simp: term_group_def run_simps elim!: buffer_rules split: if_splits)

lemma term_atom_keeps [buffer_rules]:
  "term_atom parse s b = Some (Done (s', r)) \<Longrightarrow> keeping parse \<Longrightarrow> keeps s0 s \<Longrightarrow> keeps s0 s'"
  by (auto simp: term_atom_def run_simps elim!: buffer_rules split: if_splits)

section \<open>Quantifiers\<close>

lemma quant_simple_keeps [buffer_rules]:
  "quant_simple s start m n len = Some (Done s') \<Longrightarrow> keeps s0 s \<Longrightarrow> keeps s0 s'"
  by (auto simp: quant_simple_def run_simps elim!: buffer_rules)

lemma quant_reset_keeps [buffer_rules]:
  "quant_reset s start c = Some (Done (s', r)) \<Longrightarrow> keeps s0 s \<Longrightarrow> keeps s0 s'"
  by (auto simp: quant_reset_def run_simps elim!: buffer_rules split: if_splits)

lemma quant_star_keeps [buffer_rules]:
  "quant_star s start len m g z = Some (Done s') \<Longrightarrow> keeps s0 s \<Longrightarrow> keeps s0 s'"
  by (auto simp: quant_star_def run_simps elim!: buffer_rules intro: byte_code_keeps split: if_splits)

lemma quant_least_keeps [buffer_rules]:
  "quant_least s start m = Some (Done (s', r)) \<Longrightarrow> keeps s0 s \<Longrightarrow> keeps s0 s'"
  by (auto simp: quant_least_def run_simps elim!: buffer_rules split: if_splits)

lemma quant_more_keeps [buffer_rules]:
  "quant_more s start len m n g z = Some s' \<Longrightarrow> keeps s0 s \<Longrightarrow> keeps s0 s'"
  by (auto simp: quant_more_def run_simps elim!: buffer_rules split: if_splits)

lemma quant_general_keeps [buffer_rules]:
  "quant_general s start c m n g z = Some (Done s') \<Longrightarrow> keeps s0 s \<Longrightarrow> keeps s0 s'"
  by (auto simp: quant_general_def run_simps elim!: buffer_rules split: if_splits)

lemma re_quantifier_keeps [buffer_rules]:
  "re_quantifier s start c m n g = Some (Done s') \<Longrightarrow> keeps s0 s \<Longrightarrow> keeps s0 s'"
  by (auto simp: re_quantifier_def run_simps elim!: buffer_rules split: if_splits)

section \<open>Terms, alternatives and disjunctions\<close>

lemma re_parse_term_keeps [buffer_rules]:
  "re_parse_term parse s b = Some (Done s') \<Longrightarrow> keeping parse \<Longrightarrow> keeps s0 s \<Longrightarrow> keeps s0 s'"
  by (auto simp: re_parse_term_def run_simps elim!: buffer_rules split: option.splits if_splits)

lemma reverse_term_keeps [buffer_rules]:
  assumes "reverse_term s start t = Some (Done s')" "keeps s0 s"
  shows "keeps s0 s'"
proof -
  obtain d b b' xs ys where "dbuf_realloc (byte_code s) (size_add (code_size s) (code_size s - t)) = Some (0, d)"
    "memcpy (db_buf d) (start + (code_size s - t)) xs = Some b" "memcpy b start ys = Some b'"
    "s' = s\<lparr>byte_code := d\<lparr>db_buf := b'\<rparr>\<rparr>"
    using assms(1) by (auto simp: reverse_term_def Let_def bind_eq_Some_conv split: if_splits)
  moreover from this have "length b' = length (db_buf d)" by (metis memcpy_length)
  ultimately show ?thesis
    using assms(2) dbuf_realloc_frozen byte_code_keeps [of s "d\<lparr>db_buf := b'\<rparr>" s0] by (simp only: frozen_same(2))
qed

lemma alternative_loop_keeps:
  "alternative_loop n parse s start b = Some (Done s') \<Longrightarrow> keeping parse \<Longrightarrow> keeps s0 s \<Longrightarrow> keeps s0 s'"
proof (induction n arbitrary: s b)
  case (Suc n)
  show ?case using Suc.prems by (auto simp: run_simps elim!: buffer_rules Suc.IH split: if_splits)
qed simp

lemma re_parse_alternative_keeps [buffer_rules]:
  "re_parse_alternative parse s b = Some (Done s') \<Longrightarrow> keeping parse \<Longrightarrow> keeps s0 s \<Longrightarrow> keeps s0 s'"
  unfolding re_parse_alternative_def by (rule alternative_loop_keeps)

lemma disjunction_loop_keeps [buffer_rules]:
  "disjunction_loop n parse s start b = Some (Done s') \<Longrightarrow> keeping parse \<Longrightarrow> keeps s0 s \<Longrightarrow> keeps s0 s'"
proof (induction n arbitrary: s b)
  case (Suc n)
  show ?case using Suc.prems by (auto simp: run_simps elim!: buffer_rules Suc.IH split: if_splits)
qed simp

lemma re_parse_disjunction_keeping: "keeping (re_parse_disjunction fuel depth)"
proof (induction fuel arbitrary: depth)
  case (Suc fuel)
  have "keeps s s'" if "re_parse_disjunction (Suc fuel) depth s b = Some (Done s')" for s b s'
    using that Suc [of "depth + 1"]
    by (auto simp: Let_def simp del: disjunction_loop.simps elim!: buffer_rules split: if_splits)
  then show ?case by (simp only: keeping_def) blast
qed (simp add: keeping_def)

end
