(* ===== verification/Regexp_Errors.thy ===== *)
theory Regexp_Errors
  imports Regexp_Literal Regexp_Buffer
begin

text \<open>
  Two limits of the regular expression engine: a failed allocation that the compiler overlooks, for every pattern with
  alternatives, and a pattern whose byte code the matcher never finishes.
\<close>

section \<open>A refused allocation\<close>

text \<open>\<open>re_parse_disjunction\<close> reserves the operand of a \<open>goto\<close> with \<open>re_emit_op_u32\<close> and fills it in after the next
  alternative; unlike the code for lookaheads, it does not ask whether the operand was appended.\<close>

lemma dbuf_put_refused:
  assumes "dbuf_put d xs = Some (r, d')" "db_error d'" "\<not> db_error d"
  shows "allocated_size d' < db_size d + length xs \<and> db_size d' = db_size d"
proof -
  have "size_add (db_size d) (length xs) \<le> db_size d + length xs" by (simp add: size_add_def)
  then show ?thesis
    using assms by (auto simp: dbuf_put_def dbuf_grow_def dbuf_realloc_def Let_def bind_eq_Some_conv split: if_splits option.splits)
qed

text \<open>A refusal while the operand is reserved: its four bytes do not fit into the block.\<close>

lemma emit_u32_refused:
  assumes "re_emit_op_u32 s op v = Some (pos, s')" "dbuf_error (byte_code s')" "\<not> dbuf_error (byte_code s)"
  shows "allocated_size (byte_code s') < pos + 4"
proof -
  obtain r1 d1 r2 d2 where d: "dbuf_put (byte_code s) [reop_byte op] = Some (r1, d1)" "pos = db_size d1"
    "dbuf_put d1 (le_bytes 4 v) = Some (r2, d2)" "byte_code s' = d2"
    using assms(1) by (auto simp: re_emit_op_u32_def emit_def emit_defs Let_def bind_eq_Some_conv)
  show ?thesis
  proof (cases "db_error d1")
    case True
    then have "allocated_size d1 < pos + 1" using dbuf_put_refused [OF d(1)] assms(3) d(2) by (auto simp: dbuf_error_def)
    moreover have "allocated_size d2 = allocated_size d1" using dbuf_put_frozen [OF d(3)] True by (simp add: frozen_def)
    ultimately show ?thesis using d(4) by simp
  next
    case False
    then show ?thesis using dbuf_put_refused [OF d(3)] assms(2) d by (simp add: dbuf_error_def)
  qed
qed

lemma patch_outside: "length (db_buf (byte_code s)) < pos + 4 \<Longrightarrow> patch_u32 s pos v = None"
  by (simp add: patch_u32_def put_u32_def memcpy_def)

lemma disjunction_refused:
  assumes "keeping parse" "length (db_buf (byte_code s)) = allocated_size (byte_code s)"
    and "at s (buf_ptr s) = Some (asc CHR ''|'')"
    and "insert_code (s\<lparr>buf_ptr := buf_ptr s + 1\<rparr>) start 5 = Some (outcome.Done s1)"
    and "patch_u8 s1 start (reop_byte REOP_split_next_first) = Some s2"
    and "patch_u32 s2 (start + 1) (of_nat (code_size s - start + 5)) = Some s3"
    and "re_emit_op_u32 s3 REOP_goto 0 = Some (pos, s4)" "dbuf_error (byte_code s4)" "\<not> dbuf_error (byte_code s3)"
    and "re_parse_alternative parse s4 is_backward_dir = Some (outcome.Done s5)"
  shows "disjunction_loop (Suc n) parse s start is_backward_dir = None"
proof -
  have k3: "keeps s s3" using assms(4-6) by (auto elim!: buffer_rules)
  have k4: "keeps s s4" using emit_op_keeps(4) [OF assms(7) k3] .
  have k5: "keeps s4 s5" using re_parse_alternative_keeps [OF assms(10,1) keeps_refl] .
  have "length (db_buf (byte_code s5)) = allocated_size (byte_code s4)"
    using k4 k5 assms(2,8) by (auto simp: keeps_def frozen_def dbuf_error_def)
  then have "patch_u32 s5 pos v = None" for v
    using emit_u32_refused [OF assms(7-9)] by (intro patch_outside) simp
  then show ?thesis
    using assms(3-7,10) by (simp add: Let_def andthen_def code_size_def)
qed

definition small_allocator :: "nat \<Rightarrow> bool" where
  "small_allocator n \<longleftrightarrow> n \<le> 15"

lemmas buffer_eval =
  emit_def emit_pieces dbuf_put_def dbuf_grow_def dbuf_realloc_def size_add_def size_mul_def resize_def memcpy_def
  re_emit_op_u8_def re_emit_op_u32_def re_emit_op_def le_bytes_4 reop_byte_def small_allocator_def

definition bar_state :: REParseState where
  "bar_state = \<lparr>byte_code = \<lparr>db_buf = [32, 0, 0, 0, 0, 0, 0, 11, 0, 0], db_size = 9, allocated_size = 10, db_error = False,
       realloc_func = Some small_allocator\<rparr>,
     ps_buf = [124, 0], buf_ptr = 0, buf_end = 1, ps_is_utf16 = False, ps_ignore_case = False, dotall = False,
     ps_capture_count = 1, total_capture_count = -1, has_named_captures = -1,
     group_names = dbuf_init2 small_allocator, u_buf = replicate TMP_BUF_SIZE 0, ps_realloc = small_allocator,
     ps_stack_overflow = \<lambda>_. False\<rparr>"

lemma bar_prologue:
  "compile_prologue (init_parse_state [asc CHR ''|''] LRE_FLAG_STICKY small_allocator (\<lambda>_. False)) LRE_FLAG_STICKY = Some bar_state"
  by (simp add: compile_prologue_def init_parse_state_def bar_state_def buffer_eval dbuf_init2_def LRE_FLAG_STICKY_def
      LRE_FLAG_UTF16_def LRE_FLAG_IGNORECASE_def LRE_FLAG_DOTALL_def asc_def)

lemma bar_alternative: "re_parse_alternative parse bar_state False = Some (outcome.Done bar_state)"
  by (simp add: re_parse_alternative_def bar_state_def at_def rd_def asc_def)

text \<open>The code is opened for the split; the opcode of the goto is the last byte of the block and its operand is refused.\<close>

definition bar_code :: "u8 list \<Rightarrow> nat \<Rightarrow> bool \<Rightarrow> REParseState" where
  "bar_code tail n failed = bar_state\<lparr>buf_ptr := 1, byte_code := \<lparr>db_buf = [32, 0, 0, 0, 0, 0, 0, 11, 0] @ tail,
     db_size = n, allocated_size = 15, db_error = failed, realloc_func = Some small_allocator\<rparr>\<rparr>"

lemma bar_insert: "insert_code (bar_state\<lparr>buf_ptr := 1\<rparr>) 9 5 = Some (outcome.Done (bar_code [0, 0, 0, 0, 0, 0] 14 False))"
  by (simp add: insert_code_def dbuf_insert_def bar_code_def bar_state_def buffer_eval rd_n_def) (simp add: numeral_eq_Suc)

lemma bar_patch:
  "Option.bind (patch_u8 (bar_code [0, 0, 0, 0, 0, 0] 14 False) 9 (reop_byte REOP_split_next_first)) (\<lambda>s. patch_u32 s 10 5) =
     Some (bar_code [9, 5, 0, 0, 0, 0] 14 False)"
  by (simp add: patch_u8_def patch_u32_def put_u32_def wr_def bar_code_def bar_state_def buffer_eval)

lemma bar_goto: "re_emit_op_u32 (bar_code [9, 5, 0, 0, 0, 0] 14 False) REOP_goto 0 = Some (15, bar_code [9, 5, 0, 0, 0, 7] 15 True)"
  by (simp add: bar_code_def bar_state_def buffer_eval)

text \<open>C27: A refused allocation makes the compiler write outside its buffer. Take any disjunction, at any nesting depth and
  after any number of alternatives, whose buffer is intact when the parser arrives at a \<^verbatim>\<open>|\<close>. If the gap for the split
  is still granted and the request for the jump over the next alternative is refused, then, whatever that alternative
  is and provided only that it is parsed without an error of its own, the loop of \<open>re_parse_disjunction\<close> has no
  defined result: it stores the operand of the jump with \<open>put_u32\<close> behind the end of the block. The error flag of the
  buffer is tested only at the end of the compilation.\<close>

theorem disjunction_overlooks_refusal:
  assumes "length (db_buf (byte_code s)) = allocated_size (byte_code s)"
    and "at s (buf_ptr s) = Some (asc CHR ''|'')"
    and "insert_code (s\<lparr>buf_ptr := buf_ptr s + 1\<rparr>) start 5 = Some (outcome.Done s1)"
    and "patch_u8 s1 start (reop_byte REOP_split_next_first) = Some s2"
    and "patch_u32 s2 (start + 1) (of_nat (code_size s - start + 5)) = Some s3"
    and "re_emit_op_u32 s3 REOP_goto 0 = Some (pos, s4)" "dbuf_error (byte_code s4)" "\<not> dbuf_error (byte_code s3)"
    and "re_parse_alternative (re_parse_disjunction fuel depth) s4 is_backward_dir = Some (outcome.Done s5)"
  shows "disjunction_loop (Suc n) (re_parse_disjunction fuel depth) s start is_backward_dir = None"
  by (rule disjunction_refused [OF re_parse_disjunction_keeping assms])

theorem disjunction_overlooks_refusal_witness:
  "lre_compile 1 [0] [asc CHR ''|''] LRE_FLAG_STICKY small_allocator (\<lambda>_. False) = None"
proof -
  let ?s4 = "bar_code [9, 5, 0, 0, 0, 7] 15 True"
  obtain s2 where s2: "patch_u8 (bar_code [0, 0, 0, 0, 0, 0] 14 False) 9 (reop_byte REOP_split_next_first) = Some s2"
    "patch_u32 s2 10 5 = Some (bar_code [9, 5, 0, 0, 0, 0] 14 False)"
    using bar_patch by (auto split: bind_splits)
  have a: "re_parse_alternative parse ?s4 False = Some (outcome.Done ?s4)" for parse
    by (simp add: re_parse_alternative_def bar_code_def bar_state_def)
  have b: "length (db_buf (byte_code bar_state)) = allocated_size (byte_code bar_state)"
    "at bar_state (buf_ptr bar_state) = Some (asc CHR ''|'')" "buf_ptr bar_state = 0" "code_size bar_state = 9"
    "ps_stack_overflow bar_state 0 = False" "dbuf_error (byte_code ?s4)"
    "\<not> dbuf_error (byte_code (bar_code [9, 5, 0, 0, 0, 0] 14 False))"
    by (simp_all add: bar_state_def bar_code_def at_def rd_def asc_def code_size_def dbuf_error_def)
  have "disjunction_loop (Suc n) (re_parse_disjunction 0 1) bar_state 9 False = None" for n
    by (rule disjunction_overlooks_refusal [OF b(1,2) _ s2(1) _ bar_goto b(6,7) a]) (use bar_insert s2(2) b(3,4) in simp_all)
  then have "re_parse_disjunction 1 0 bar_state False = None"
    using b(4,5) by (simp add: Let_def bar_alternative andthen_def del: disjunction_loop.simps)
  then show ?thesis by (simp only: lre_compile_def bar_prologue bind.bind_lunit andthen_def option.case bind.bind_lzero)
qed

section \<open>An endless match\<close>

text \<open>A set of states that the interpreter never leaves.\<close>

lemma runs_forever:
  assumes "\<And>st. st \<in> S \<Longrightarrow> \<exists>st'\<in>S. runs s 1 st st'" "st \<in> S"
  shows "lre_exec_backtrack fuel s False st = Timeout"
  using assms(2)
proof (induction fuel arbitrary: st)
  case (Suc fuel)
  then obtain st' where "st' \<in> S" "runs s 1 st st'" using assms(1) by blast
  then show ?case using Suc.IH [of st'] by (simp add: runs_def)
qed simp

text \<open>The code of the pattern \<^verbatim>\<open>(?:)*?x\<close>: a split in front of the empty group, which is tried after the rest, a jump back to
  the split, and the character.\<close>

definition lazy_instrs :: "instr list" where
  "lazy_instrs = [(REOP_save_start, [0]), (REOP_split_goto_first, le_bytes 4 (5 :: u32)), (REOP_goto, le_bytes 4 (- 10 :: u32)),
     (REOP_char, le_bytes 2 (0x78 :: u16)), (REOP_save_end, [0]), (REOP_match, [])]"

definition lazy_code :: "u8 list" where
  "lazy_code = [32, 1, 0, 18, 0, 0, 0] @ assemble lazy_instrs"

definition lazy_pattern :: "u8 list" where
  "lazy_pattern = map asc ''(?:)*?x''"

definition always :: "nat \<Rightarrow> bool" where
  "always n \<longleftrightarrow> True"

definition lazy_state :: "nat \<Rightarrow> u8 list \<Rightarrow> nat \<Rightarrow> nat \<Rightarrow> REParseState" where
  "lazy_state p code n m = \<lparr>byte_code = \<lparr>db_buf = code, db_size = n, allocated_size = m, db_error = False,
       realloc_func = Some always\<rparr>,
     ps_buf = [0x28, 0x3f, 0x3a, 0x29, 0x2a, 0x3f, 0x78, 0], buf_ptr = p, buf_end = 7, ps_is_utf16 = False, ps_ignore_case = False, dotall = False,
     ps_capture_count = 1, total_capture_count = -1, has_named_captures = -1,
     group_names = dbuf_init2 always, u_buf = replicate TMP_BUF_SIZE 0, ps_realloc = always,
     ps_stack_overflow = \<lambda>_. False\<rparr>"

lemma lazy_prologue:
  "compile_prologue (init_parse_state lazy_pattern LRE_FLAG_STICKY always (\<lambda>_. False)) LRE_FLAG_STICKY =
     Some (lazy_state 0 [32, 0, 0, 0, 0, 0, 0, 11, 0, 0] 9 10)"
  by (simp add: compile_prologue_def init_parse_state_def lazy_state_def buffer_eval dbuf_init2_def LRE_FLAG_STICKY_def
      LRE_FLAG_UTF16_def LRE_FLAG_IGNORECASE_def LRE_FLAG_DOTALL_def asc_def lazy_pattern_def always_def)

definition lazy_head :: "u8 list" where
  "lazy_head = [32, 0, 0, 0, 0, 0, 0, 11, 0, 8, 5, 0, 0, 0, 7, 246, 255, 255, 255]"

lemmas parser_eval =
  re_parse_term_def term_atom_def at_def rd_def lazy_state_def asc_def term_group_def term_plain_group_def sub_expression_def
  re_parse_alternative_def andthen_def re_parse_expect_def Let_def code_size_def quant_bounds_def INT32_MAX_def
  insert_code_def dbuf_insert_def always_def rd_n_def patch_u8_def wr_def patch_u32_def put_u32_def

lemma lazy_group:
  "re_parse_term (re_parse_disjunction (Suc 0) (Suc 0)) (lazy_state 0 [32, 0, 0, 0, 0, 0, 0, 11, 0, 0] 9 10) False =
     Some (outcome.Done (lazy_state 6 (lazy_head @ [0, 0, 0]) 19 22))"
  by (simp add: parser_eval buffer_eval re_quantifier_def quant_general_def quant_reset_def quant_star_def split_op_def
      re_emit_goto_def lazy_head_def) (simp add: numeral_eq_Suc)

lemma char_pieces_x: "char_pieces 0x78 = [[reop_byte REOP_char], [0x78, 0]]"
  by code_simp

lemma lazy_state_simps:
  "buf_ptr (lazy_state p c n m) = p" "buf_end (lazy_state p c n m) = 7"
  "ps_stack_overflow (lazy_state p c n m) d = False"
  "at (lazy_state p c n m) 0 = Some (asc CHR ''('')" "at (lazy_state p c n m) 6 = Some (asc CHR ''x'')" "at (lazy_state p c n m) 7 = Some 0"
  by (simp_all add: at_def rd_def lazy_state_def asc_def)

lemma lazy_char:
  "re_parse_term parse (lazy_state 6 (lazy_head @ [0, 0, 0]) 19 22) False =
     Some (outcome.Done (lazy_state 7 (lazy_head @ [1, 0x78, 0]) 22 22))"
proof -
  have "literal_char 0x78" by (simp add: literal_char_def operators_def asc_def)
  let ?s = "lazy_state 6 (lazy_head @ [0, 0, 0]) 19 22"
  have "emit_all ?s [[reop_byte REOP_char], [0x78, 0]] = Some (lazy_state 6 (lazy_head @ [1, 0x78, 0]) 22 22)"
    by (simp add: emit_all_def lazy_state_def lazy_head_def buffer_eval)
  then have "emit_all ?s (char_pieces 0x78) = Some (lazy_state 6 (lazy_head @ [1, 0x78, 0]) 22 22)" by (simp only: char_pieces_x)
  moreover have "at ?s (buf_ptr ?s) = Some 0x78" "buf_ptr ?s < buf_end ?s" "\<not> ps_ignore_case ?s" "at ?s (buf_ptr ?s + 1) = Some 0"
    "buf_ptr ?s + 1 = 7" by (simp_all add: at_def rd_def lazy_state_def)
  ultimately show ?thesis
    using re_parse_term_literal [OF _ \<open>literal_char 0x78\<close> _ _ _ literal_char_0, of ?s parse] by (simp add: lazy_state_def)
qed

lemma lazy_parse:
  "re_parse_disjunction (Suc (Suc 0)) 0 (lazy_state 0 [32, 0, 0, 0, 0, 0, 0, 11, 0, 0] 9 10) False =
     Some (outcome.Done (lazy_state 7 (lazy_head @ [1, 0x78, 0]) 22 22))"
proof -
  define parse where "parse = re_parse_disjunction (Suc 0) (Suc 0)"
  have ne: "asc CHR ''('' \<noteq> asc CHR ''|'' \<and> asc CHR ''('' \<noteq> asc CHR '')''" "asc CHR ''x'' \<noteq> asc CHR ''|'' \<and> asc CHR ''x'' \<noteq> asc CHR '')''"
    "asc CHR ''|'' \<noteq> 0" by (simp_all add: asc_def)
  obtain k where k: "length (ps_buf (lazy_state 0 [32, 0, 0, 0, 0, 0, 0, 11, 0, 0] 9 10)) = Suc (Suc k)"
    by (rule that [of 6]) (simp add: lazy_state_def)
  have a: "re_parse_alternative parse (lazy_state 0 [32, 0, 0, 0, 0, 0, 0, 11, 0, 0] 9 10) False =
     Some (outcome.Done (lazy_state 7 (lazy_head @ [1, 0x78, 0]) 22 22))"
    using lazy_group ne unfolding parse_def [symmetric]
    by (simp add: re_parse_alternative_def andthen_def lazy_state_simps k lazy_char Let_def)
  have "disjunction_loop (length (ps_buf (lazy_state 0 [32, 0, 0, 0, 0, 0, 0, 11, 0, 0] 9 10)) + 1) parse
      (lazy_state 7 (lazy_head @ [1, 0x78, 0]) 22 22) st False = Some (outcome.Done (lazy_state 7 (lazy_head @ [1, 0x78, 0]) 22 22))" for st
    using ne(3) by (simp add: lazy_state_simps)
  with a show ?thesis
    by (subst re_parse_disjunction.simps(2)) (simp only: Let_def add_0 One_nat_def plus_nat.add_Suc parse_def [symmetric] lazy_state_simps if_False andthen_def option.case outcome.case)
qed

lemma lazy_bytes:
  "le_bytes 4 (5 :: u32) = [5, 0, 0, 0]" "le_bytes 4 (- 10 :: u32) = [246, 255, 255, 255]" "le_bytes 2 (0x78 :: u16) = [0x78, 0]"
  "le_bytes 4 (0 :: u32) = [0, 0, 0, 0]" "le_bytes 4 (18 :: u32) = [18, 0, 0, 0]"
  by code_simp+

lemma assemble_lazy:
  "assemble lazy_instrs = [11, 0, 8, 5, 0, 0, 0, 7, 246, 255, 255, 255, 1, 0x78, 0, 12, 0, 10]"
  by (simp add: lazy_instrs_def lazy_bytes reop_byte_def)

lemma lazy_compiled:
  assumes "error_msg \<noteq> []"
  shows "lre_compile 2 error_msg lazy_pattern LRE_FLAG_STICKY always (\<lambda>_. False) = Some (Byte_Code lazy_code)"
proof -
  let ?s = "lazy_state 7 (lazy_head @ [1, 0x78, 0]) 22 22"
  let ?c = "lazy_head @ [1, 0x78, 0, 12, 0, 10] @ replicate 8 0"
  have e: "emit_all ?s [[reop_byte REOP_save_end], [0], [reop_byte REOP_match]] = Some (lazy_state 7 ?c 25 33)"
    by (simp add: emit_all_def lazy_state_def lazy_head_def buffer_eval always_def)
  have d: "dbuf_inv (byte_code (lazy_state 7 ?c 25 33))" "\<not> dbuf_error (byte_code (lazy_state 7 ?c 25 33))"
    by (simp_all add: lazy_state_def lazy_head_def dbuf_inv_def dbuf_error_def)
  have data: "dbuf_data (byte_code (lazy_state 7 ?c 25 33)) = [32, 0, 0] @ le_bytes 4 (0 :: u32) @ assemble lazy_instrs"
    by (simp add: lazy_state_def lazy_head_def dbuf_data_def assemble_lazy lazy_bytes)
  have flat: "list_all flat_instr lazy_instrs" by (simp add: lazy_instrs_def flat_instr_def)
  have st: "at ?s (buf_ptr ?s) = Some 0" "ps_capture_count ?s = 1" "db_size (group_names ?s) = 0"
    by (simp_all add: at_def rd_def lazy_state_def dbuf_init2_def)
  obtain s2 where s2: "compile_epilogue ?s = Some (outcome.Done s2)"
    "take (code_size s2) (db_buf (byte_code s2)) = [32, 1, 0] @ le_bytes 4 (of_nat (length (assemble lazy_instrs)) :: u32) @ assemble lazy_instrs"
    using compile_epilogue_flat [OF e d(1) data flat st d(2)] by blast
  have "take (code_size s2) (db_buf (byte_code s2)) = lazy_code"
    using s2(2) by (simp add: assemble_lazy lazy_bytes lazy_code_def)
  then show ?thesis using s2(1) assms
    by (simp only: lre_compile_def lazy_prologue bind.bind_lunit numeral_2_eq_2 lazy_parse andthen_def option.case outcome.case wr_def)
      (simp del: append.simps)
qed

text \<open>The three states of the endless match at position \<open>p\<close>: at the split, at the character and at the jump back.\<close>

definition lazy_saved :: "nat \<Rightarrow> REExecState" where
  "lazy_saved p = \<lparr>rs_type = RE_EXEC_STATE_SPLIT, rs_count = 0, rs_cptr = p, rs_pc = 14, rs_capture = [Some p, None], rs_stack = []\<rparr>"

definition lazy_states :: "nat \<Rightarrow> re_state set" where
  "lazy_states p = (\<Union>z. {try_state 9 p [Some p, None] [] z, try_state 19 p [Some p, None] [lazy_saved p] z, try_state 14 p [Some p, None] [] z})"

definition lazy_context :: "u8 list \<Rightarrow> REExecContext \<Rightarrow> bool" where
  "lazy_context text s \<longleftrightarrow>
     bc_buf s = lazy_code \<and> cbuf s = text \<and> cbuf_type s = 0 \<and> \<not> ignore_case s \<and> capture_count s = 1 \<and> (\<forall>n. lre_realloc_ok s n)"

lemma lazy_instr_at:
  assumes "lazy_context text s"
  shows "instr_at s 7 REOP_save_start [0]" "instr_at s 9 REOP_split_goto_first (le_bytes 4 (5 :: u32))"
    "instr_at s 14 REOP_goto (le_bytes 4 (- 10 :: u32))" "instr_at s 19 REOP_char (le_bytes 2 (ucast (0x78 :: u8) :: u16))"
proof -
  let ?h = "[32, 1, 0, 18, 0, 0, 0] :: u8 list"
  have bc: "bc_buf s = ?h @ assemble lazy_instrs" using assms by (simp add: lazy_context_def lazy_code_def)
  note i = instr_at_assemble [of s ?h]
  show "instr_at s 7 REOP_save_start [0]"
    by (rule i [of "[]" _ _ "drop 1 lazy_instrs"]) (simp_all add: bc lazy_instrs_def)
  show "instr_at s 9 REOP_split_goto_first (le_bytes 4 (5 :: u32))"
    by (rule i [of "take 1 lazy_instrs" _ _ "drop 2 lazy_instrs"]) (simp_all add: bc lazy_instrs_def)
  show "instr_at s 14 REOP_goto (le_bytes 4 (- 10 :: u32))"
    by (rule i [of "take 2 lazy_instrs" _ _ "drop 3 lazy_instrs"]) (simp_all add: bc lazy_instrs_def)
  have "(ucast (0x78 :: u8) :: u16) = 0x78" by code_simp
  then show "instr_at s 19 REOP_char (le_bytes 2 (ucast (0x78 :: u8) :: u16))"
    by (intro i [of "take 3 lazy_instrs" _ _ "drop 4 lazy_instrs"]) (simp_all add: bc lazy_instrs_def)
qed

lemma jump_lazy: "jump 14 5 = Some 19" "jump 19 (- 10) = Some 9"
  by code_simp+

lemma lazy_unwind:
  "unwind s False (try_state a q [b, c] [lazy_saved p] z) [lazy_saved p] = Some (Inr (try_state 14 p [Some p, None] [] z))"
  by (simp add: lazy_saved_def pop_state_def restore_capture_def pop_state1_def restore_stack_def memcpy_def)

lemma lazy_round:
  assumes "lazy_context text s" "\<not> (p < length text \<and> text ! p = 0x78)" "st \<in> lazy_states p"
  shows "\<exists>st'\<in>lazy_states p. runs s 1 st st'"
proof -
  note i = lazy_instr_at [OF assms(1)]
  have c: "cbuf s = text" "cbuf_type s = 0" "\<not> ignore_case s" "capture_count s = 1" "\<forall>n. lre_realloc_ok s n"
    using assms(1) by (simp_all add: lazy_context_def)
  obtain z where "st = try_state 9 p [Some p, None] [] z \<or> st = try_state 19 p [Some p, None] [lazy_saved p] z \<or>
      st = try_state 14 p [Some p, None] [] z"
    using assms(3) by (auto simp: lazy_states_def)
  then consider (split) "st = try_state 9 p [Some p, None] [] z" | (char) "st = try_state 19 p [Some p, None] [lazy_saved p] z"
    | (return) "st = try_state 14 p [Some p, None] [] z" by blast
  then show ?thesis
  proof cases
    case split
    define z' where "z' = (if 1 > z then if z * 3 div 2 < 8 then 8 else z * 3 div 2 else z)"
    have "get_u32 (bc_buf s) 10 = Some 5" using instr_at_args(3) [OF i(2)] by simp
    then have "reop_step s REOP_split_goto_first (try_state 10 p [Some p, None] [] z) =
        Some (Next (try_state 19 p [Some p, None] [lazy_saved p] z'))"
      using c jump_lazy by (simp add: reop_step_def do_split_def push_state_def Let_def lazy_saved_def rd_n_def z'_def)
    then have "runs s 1 st (try_state 19 p [Some p, None] [lazy_saved p] z')"
      unfolding split using i(2) by (intro runs_step [where op = REOP_split_goto_first]) (auto simp: after_step_def)
    then show ?thesis by (auto simp: lazy_states_def)
  next
    case char
    have "instr_at s (pc st) REOP_char (le_bytes 2 (ucast (0x78 :: u8) :: u16))" using i(4) by (simp add: char)
    from char_step(2) [OF this c(2,3)] obtain q where
      "reop_step s REOP_char (st\<lparr>pc := pc st + 1\<rparr>) = Some (No_Match (st\<lparr>pc := pc st + 3, cptr := q\<rparr>))"
      using assms(2) c(1) by (auto simp: char)
    then have "runs s 1 st (try_state 14 p [Some p, None] [] z)"
      using i(4) by (intro runs_step [where op = REOP_char]) (auto simp: char after_step_def lazy_unwind after_unwind_def simp del: unwind.simps)
    then show ?thesis by (auto simp: lazy_states_def)
  next
    case return
    have "get_u32 (bc_buf s) 15 = Some (- 10)" using instr_at_args(3) [OF i(3)] by simp
    then have "runs s 1 st (try_state 9 p [Some p, None] [] z)"
      unfolding return using i(3) jump_lazy(2)
      by (intro runs_step [where op = REOP_goto]) (auto simp: after_step_def reop_step_def do_goto_def)
    then show ?thesis by (auto simp: lazy_states_def)
  qed
qed

text \<open>C28: A match that never ends. The pattern \<^verbatim>\<open>(?:)*?x\<close> compiles, and at every position of every subject where there is
  no \<^verbatim>\<open>x\<close> the matcher runs forever: no number of instructions is enough. The compiler adds the test that an iteration
  has consumed something only to greedy quantifiers, so the empty group is repeated at the same position again and
  again.\<close>

theorem lazy_empty_quantifier_diverges:
  assumes "\<not> (cindex < length text \<and> text ! cindex = 0x78)" "error_msg \<noteq> []"
  shows "\<exists>bc. lre_compile 2 error_msg (map asc ''(?:)*?x'') LRE_FLAG_STICKY always (\<lambda>_. False) = Some (Byte_Code bc) \<and>
    (\<forall>steps. lre_exec steps always bc text cindex 0 = Timeout)"
proof -
  have always: "All always" by (simp add: always_def [abs_def])
  have g: "get_u8 lazy_code 0 = Some 32" "get_u8 lazy_code 1 = Some 1" "get_u8 lazy_code 2 = Some 0"
    by (simp_all add: lazy_code_def get_u8_def rd_def)
  obtain s where s: "exec_context always lazy_code text 0 = Some s" "lazy_context text s" "stack_size_max s = 0"
    using g always by (simp add: exec_context_def re_header_defs lazy_context_def Let_def LRE_FLAG_IGNORECASE_def)
  have init: "init_state s cindex = try_state 7 cindex [None, None] [] 0"
    using s(2,3) by (simp add: init_state_def try_state_def lazy_context_def RE_HEADER_LEN_def numeral_2_eq_2)
  have "get_u8 (bc_buf s) 8 = Some 0" using instr_at_args(1) [OF lazy_instr_at(1) [OF s(2)]] by simp
  then have r: "runs s 1 (try_state 7 cindex [None, None] [] 0) (try_state 9 cindex [Some cindex, None] [] 0)"
    using s(2) lazy_instr_at(1) [OF s(2)]
    by (intro runs_step [where op = REOP_save_start]) (auto simp: after_step_def reop_step_def do_save_def wr_def lazy_context_def)
  have "lre_exec_backtrack steps s False (try_state 9 cindex [Some cindex, None] [] 0) = Timeout" for steps
    by (rule runs_forever [OF lazy_round [OF s(2) assms(1)]]) (auto simp: lazy_states_def)
  then have "lre_exec_backtrack steps s False (try_state 7 cindex [None, None] [] 0) = Timeout" for steps
    using r by (cases steps) (simp_all add: runs_def)
  then have "lre_exec steps always lazy_code text cindex 0 = Timeout" for steps
    using s(1) init by (simp add: lre_exec_def)
  then show ?thesis using lazy_compiled [OF assms(2)] by (auto simp: lazy_pattern_def)
qed

theorem lazy_empty_quantifier_diverges_witness:
  "\<exists>bc. lre_compile 2 [0] (map asc ''(?:)*?x'') LRE_FLAG_STICKY always (\<lambda>_. False) = Some (Byte_Code bc) \<and>
    (\<forall>steps. lre_exec steps always bc [0x79] 0 0 = Timeout)"
  by (rule lazy_empty_quantifier_diverges) simp_all

end
