(* ===== verification/Bf_Limbs.thy ===== *)
theory Bf_Limbs
  imports Prelude
begin

text \<open>
  The multi-limb integers under the arbitrary precision numbers of \<^verbatim>\<open>src/qjs/libbf.c\<close>: addition,
  subtraction, shifts, multiplication and comparison of arrays of limbs. A limb has 64 bits and an intermediate
  product 128 bits, as on the platforms with a 64-bit pointer; the least significant limb comes first. An operand is the
  block seen from the pointer that is passed, so \<^verbatim>\<open>tab + i\<close> is \<open>drop i tab\<close>, and reading more limbs than the block has
  is \<open>None\<close>. The loops read limb \<open>i\<close> of the operands before they store limb \<open>i\<close> of the result, so the limbs that a
  function stores are returned as a list, also for the calls where the result replaces an operand.
\<close>

section \<open>Limbs\<close>

type_synonym limb = "64 word"
type_synonym dlimb = "128 word"

definition LIMB_BITS :: nat where "LIMB_BITS = 64"

definition UDIV1NORM_THRESHOLD :: nat where "UDIV1NORM_THRESHOLD = 3"
definition DIVNORM_LARGE_THRESHOLD :: nat where "DIVNORM_LARGE_THRESHOLD = 50"

section \<open>Addition and subtraction\<close>

fun add_loop :: "limb list \<Rightarrow> limb list \<Rightarrow> limb \<Rightarrow> limb list \<times> limb" where
  "add_loop (v # op1) (w # op2) k =
     (let a = v + w; k1 = a < v; a = a + k; k = of_bool (a < k \<or> k1); (res, k) = add_loop op1 op2 k
      in (a # res, k))"
| "add_loop _ _ k = ([], k)"

definition mp_add :: "limb list \<Rightarrow> limb list \<Rightarrow> nat \<Rightarrow> limb \<Rightarrow> (limb list \<times> limb) option" where
  "mp_add op1 op2 n carry = do {
     op1 \<leftarrow> rd_n op1 0 n;
     op2 \<leftarrow> rd_n op2 0 n;
     Some (add_loop op1 op2 carry) }"

fun add_ui_loop :: "limb list \<Rightarrow> limb \<Rightarrow> limb list \<times> limb" where
  "add_ui_loop (v # tab) k =
     (if k = 0 then (v # tab, 0)
      else let a = v + k; (tab, k) = add_ui_loop tab (of_bool (a < k)) in (a # tab, k))"
| "add_ui_loop [] k = ([], k)"

definition mp_add_ui :: "limb list \<Rightarrow> limb \<Rightarrow> nat \<Rightarrow> (limb list \<times> limb) option" where
  "mp_add_ui tab b n = do { tab \<leftarrow> rd_n tab 0 n; Some (add_ui_loop tab b) }"

text \<open>\<open>mp_sub\<close> and \<open>mp_neg\<close> count with a variable \<open>i\<close> of type \<^verbatim>\<open>int\<close>, although the number of limbs has 64 bits like the
  counters of the other functions: the increment of \<open>i\<close> after limb \<open>INT_MAX\<close> is undefined.\<close>

definition INT_MAX :: nat where "INT_MAX = 2147483647"

fun sub_loop :: "nat \<Rightarrow> limb list \<Rightarrow> limb list \<Rightarrow> limb \<Rightarrow> (limb list \<times> limb) option" where
  "sub_loop i (v # op1) (w # op2) k =
     (let a = v - w; k1 = a > v; v = a - k; k = of_bool (v > a \<or> k1) in
      if i = INT_MAX then None
      else do { (res, k) \<leftarrow> sub_loop (i + 1) op1 op2 k; Some (v # res, k) })"
| "sub_loop i _ _ k = Some ([], k)"

definition mp_sub :: "limb list \<Rightarrow> limb list \<Rightarrow> nat \<Rightarrow> limb \<Rightarrow> (limb list \<times> limb) option" where
  "mp_sub op1 op2 n carry = do {
     op1 \<leftarrow> rd_n op1 0 n;
     op2 \<leftarrow> rd_n op2 0 n;
     sub_loop 0 op1 op2 carry }"

definition mp_neg :: "limb list \<Rightarrow> nat \<Rightarrow> limb \<Rightarrow> (limb list \<times> limb) option" where
  "mp_neg op2 n carry = do { op2 \<leftarrow> rd_n op2 0 n; sub_loop 0 (replicate n 0) op2 carry }"

fun sub_ui_loop :: "limb list \<Rightarrow> limb \<Rightarrow> limb list \<times> limb" where
  "sub_ui_loop (v # tab) k =
     (let a = v - k; k = of_bool (a > v)
      in if k = 0 then (a # tab, k) else let (tab, k) = sub_ui_loop tab k in (a # tab, k))"
| "sub_ui_loop [] k = ([], k)"

definition mp_sub_ui :: "limb list \<Rightarrow> limb \<Rightarrow> nat \<Rightarrow> (limb list \<times> limb) option" where
  "mp_sub_ui tab b n = do { tab \<leftarrow> rd_n tab 0 n; Some (sub_ui_loop tab b) }"

section \<open>Shifts, comparison and bits\<close>

text \<open>The loop runs from the highest limb down; \<open>l\<close> is the limb above.\<close>

fun shr_loop :: "limb list \<Rightarrow> nat \<Rightarrow> limb \<Rightarrow> limb list \<times> limb" where
  "shr_loop [] shift l = ([], l)"
| "shr_loop (a # tab) shift l =
     (let (tab_r, l) = shr_loop tab shift l in ((drop_bit shift a OR push_bit (LIMB_BITS - shift) l) # tab_r, a))"

definition mp_shr :: "limb list \<Rightarrow> nat \<Rightarrow> nat \<Rightarrow> limb \<Rightarrow> (limb list \<times> limb) option" where
  "mp_shr tab n shift high =
     (if 1 \<le> shift \<and> shift < LIMB_BITS then do {
        tab \<leftarrow> rd_n tab 0 n;
        let (tab_r, l) = shr_loop tab shift high;
        Some (tab_r, l AND (push_bit shift 1 - 1)) }
      else None)"

fun cmp_loop :: "limb list \<Rightarrow> limb list \<Rightarrow> nat \<Rightarrow> int option" where
  "cmp_loop taba tabb 0 = Some 0"
| "cmp_loop taba tabb (Suc i) = do {
     a \<leftarrow> rd taba i;
     b \<leftarrow> rd tabb i;
     if a \<noteq> b then Some (if a < b then -1 else 1) else cmp_loop taba tabb i }"

definition mp_cmp :: "limb list \<Rightarrow> limb list \<Rightarrow> nat \<Rightarrow> int option" where
  "mp_cmp taba tabb n = cmp_loop taba tabb n"

definition mp_scan_nz :: "limb list \<Rightarrow> nat \<Rightarrow> bool option" where
  "mp_scan_nz tab n = do { tab \<leftarrow> rd_n tab 0 n; Some (list_ex (\<lambda>v. v \<noteq> 0) tab) }"

section \<open>Multiplication\<close>

fun mul1_loop :: "limb list \<Rightarrow> limb \<Rightarrow> limb \<Rightarrow> limb list \<times> limb" where
  "mul1_loop (a # taba) b l =
     (let t = ucast a * ucast b + ucast l :: dlimb; (tabr, l) = mul1_loop taba b (ucast (drop_bit LIMB_BITS t))
      in (ucast t # tabr, l))"
| "mul1_loop [] b l = ([], l)"

definition mp_mul1 :: "limb list \<Rightarrow> nat \<Rightarrow> limb \<Rightarrow> limb \<Rightarrow> (limb list \<times> limb) option" where
  "mp_mul1 taba n b l = do { taba \<leftarrow> rd_n taba 0 n; Some (mul1_loop taba b l) }"

fun add_mul1_loop :: "limb list \<Rightarrow> limb list \<Rightarrow> limb \<Rightarrow> limb \<Rightarrow> limb list \<times> limb" where
  "add_mul1_loop (r # tabr) (a # taba) b l =
     (let t = ucast a * ucast b + ucast l + ucast r :: dlimb;
          (tabr, l) = add_mul1_loop tabr taba b (ucast (drop_bit LIMB_BITS t))
      in (ucast t # tabr, l))"
| "add_mul1_loop _ _ b l = ([], l)"

definition mp_add_mul1 :: "limb list \<Rightarrow> limb list \<Rightarrow> nat \<Rightarrow> limb \<Rightarrow> (limb list \<times> limb) option" where
  "mp_add_mul1 tabr taba n b = do {
     tabr \<leftarrow> rd_n tabr 0 n;
     taba \<leftarrow> rd_n taba 0 n;
     Some (add_mul1_loop tabr taba b 0) }"

fun sub_mul1_loop :: "limb list \<Rightarrow> limb list \<Rightarrow> limb \<Rightarrow> limb \<Rightarrow> limb list \<times> limb" where
  "sub_mul1_loop (r # tabr) (a # taba) b l =
     (let t = ucast r - ucast a * ucast b - ucast l :: dlimb;
          (tabr, l) = sub_mul1_loop tabr taba b (ucast (- drop_bit LIMB_BITS t))
      in (ucast t # tabr, l))"
| "sub_mul1_loop _ _ b l = ([], l)"

definition mp_sub_mul1 :: "limb list \<Rightarrow> limb list \<Rightarrow> nat \<Rightarrow> limb \<Rightarrow> (limb list \<times> limb) option" where
  "mp_sub_mul1 tabr taba n b = do {
     tabr \<leftarrow> rd_n tabr 0 n;
     taba \<leftarrow> rd_n taba 0 n;
     Some (sub_mul1_loop tabr taba b 0) }"

text \<open>\<open>k\<close> rounds are left; the next one adds the product with limb \<open>i\<close> of the second operand.\<close>

fun mul_loop :: "limb list \<Rightarrow> limb list \<Rightarrow> nat \<Rightarrow> limb list \<Rightarrow> nat \<Rightarrow> nat \<Rightarrow> limb list option" where
  "mul_loop result op1 op1_size op2 i 0 = Some result"
| "mul_loop result op1 op1_size op2 i (Suc k) = do {
     b \<leftarrow> rd op2 i;
     (part, r) \<leftarrow> mp_add_mul1 (drop i result) op1 op1_size b;
     result \<leftarrow> memcpy result i part;
     result \<leftarrow> wr result (i + op1_size) r;
     mul_loop result op1 op1_size op2 (i + 1) k }"

definition mp_mul_basecase :: "limb list \<Rightarrow> limb list \<Rightarrow> nat \<Rightarrow> limb list \<Rightarrow> nat \<Rightarrow> limb list option" where
  "mp_mul_basecase result op1 op1_size op2 op2_size = do {
     b \<leftarrow> rd op2 0;
     (part, r) \<leftarrow> mp_mul1 op1 op1_size b 0;
     result \<leftarrow> memcpy result 0 part;
     result \<leftarrow> wr result op1_size r;
     mul_loop result op1 op1_size op2 1 (op2_size - 1) }"

section \<open>The value of an array of limbs\<close>

definition limb_base :: int where "limb_base = 2 ^ 64"

fun mp_val :: "limb list \<Rightarrow> int" where
  "mp_val [] = 0"
| "mp_val (a # tab) = uint a + limb_base * mp_val tab"

lemma limb_base_pos [simp]: "0 < limb_base" "limb_base \<noteq> 0" "0 \<le> limb_base"
  by (simp_all add: limb_base_def)

lemma uint_limb: "uint (a :: limb) < limb_base"
  using uint_lt2p [of a] by (simp add: limb_base_def)

lemma mp_val_append: "mp_val (xs @ ys) = mp_val xs + limb_base ^ length xs * mp_val ys"
  by (induction xs) (simp_all add: algebra_simps)

lemma mp_val_bounds: "0 \<le> mp_val xs" "mp_val xs < limb_base ^ length xs"
proof (induction xs)
  case (Cons a xs)
  have "limb_base * (mp_val xs + 1) \<le> limb_base * limb_base ^ length xs"
    by (rule mult_left_mono) (use Cons in simp_all)
  then show "0 \<le> mp_val (a # xs)" "mp_val (a # xs) < limb_base ^ length (a # xs)"
    using Cons uint_limb [of a] by (simp_all add: algebra_simps)
qed simp_all

lemma mp_val_replicate_0 [simp]: "mp_val (replicate n 0) = 0"
  by (induction n) simp_all

text \<open>One limb of each operation.\<close>

lemma add_limb_int:
  fixes x y c s t B :: int
  assumes "0 \<le> x" "0 \<le> y" "x < B" "y < B" "0 \<le> c" "c \<le> 1" "1 < B"
    and "s = (if x + y < B then x + y else x + y - B)" "t = (if s + c < B then s + c else s + c - B)"
  shows "t + B * of_bool (t < c \<or> s < x) = x + y + c"
  using assms by (auto split: if_splits)

lemma sub_limb_int:
  fixes x y c s t B :: int
  assumes "0 \<le> x" "0 \<le> y" "x < B" "y < B" "0 \<le> c" "c \<le> 1" "1 < B"
    and "s = (if y \<le> x then x - y else x - y + B)" "t = (if c \<le> s then s - c else s - c + B)"
  shows "t + y + c = x + B * of_bool (s < t \<or> x < s)"
  using assms by (auto split: if_splits)

lemma uint_limb_add: "uint (v + w :: limb) = (if uint v + uint w < limb_base then uint v + uint w else uint v + uint w - limb_base)"
  by (simp add: uint_plus_if' limb_base_def)

lemma uint_limb_sub: "uint (v - w :: limb) = (if uint w \<le> uint v then uint v - uint w else uint v - uint w + limb_base)"
  by (simp add: uint_sub_if' limb_base_def)

lemma limb_base_gt_1: "1 < limb_base"
  by (simp add: limb_base_def)

lemma uint_of_bool_limb: "uint (of_bool P :: limb) = of_bool P"
  by (cases P) simp_all

lemma add_limb:
  assumes "uint (k :: limb) \<le> 1" "a = v + w" "a' = a + k" "k' = of_bool (a' < k \<or> a < v)"
  shows "uint a' + limb_base * uint k' = uint v + uint w + uint k" "uint (k' :: limb) \<le> 1"
  using add_limb_int [OF _ _ uint_limb uint_limb _ assms(1) limb_base_gt_1 uint_limb_add [of v w] uint_limb_add [of "v + w" k]] assms(2-4)
  by (simp_all add: word_less_def uint_of_bool_limb del: of_bool_or_iff)

lemma sub_limb:
  assumes "uint (k :: limb) \<le> 1" "a = v - w" "v' = a - k" "k' = of_bool (v' > a \<or> a > v)"
  shows "uint v' + uint w + uint k = uint v + limb_base * uint k'" "uint (k' :: limb) \<le> 1"
  using sub_limb_int [OF _ _ uint_limb uint_limb _ assms(1) limb_base_gt_1 uint_limb_sub [of v w] uint_limb_sub [of "v - w" k]] assms(2-4)
  by (simp_all add: word_less_def uint_of_bool_limb del: of_bool_or_iff)

section \<open>Values of sums and differences\<close>

lemma add_loop_val:
  assumes "length xs = length ys" "uint c \<le> 1" "add_loop xs ys c = (rs, k)"
  shows "length rs = length xs \<and> uint k \<le> 1 \<and>
    mp_val rs + limb_base ^ length xs * uint k = mp_val xs + mp_val ys + uint c"
  using assms
proof (induction xs ys arbitrary: c rs k rule: list_induct2)
  case (Cons v op1 w op2)
  define a where "a = v + w"
  define a' where "a' = a + c"
  define c' :: limb where "c' = of_bool (a' < c \<or> a < v)"
  note s = add_limb [OF Cons.prems(1) a_def a'_def c'_def]
  obtain rs' where r: "add_loop op1 op2 c' = (rs', k)" "rs = a' # rs'"
    using Cons.prems(2) by (auto simp: Let_def a_def a'_def c'_def split: prod.splits)
  note ih = Cons.IH [OF s(2) r(1)]
  have "limb_base * (mp_val rs' + limb_base ^ length op1 * uint k) = limb_base * (mp_val op1 + mp_val op2 + uint c')"
    using ih by simp
  then show ?case using ih s(1) by (simp add: r(2) algebra_simps)
qed simp

lemma sub_loop_val:
  assumes "length xs = length ys" "uint c \<le> 1" "i + length xs \<le> INT_MAX"
  shows "\<exists>rs k. sub_loop i xs ys c = Some (rs, k) \<and> length rs = length xs \<and> uint k \<le> 1 \<and>
    mp_val rs + mp_val ys + uint c = mp_val xs + limb_base ^ length xs * uint k"
  using assms
proof (induction xs ys arbitrary: i c rule: list_induct2)
  case (Cons v op1 w op2)
  define a where "a = v - w"
  define a' where "a' = a - c"
  define c' :: limb where "c' = of_bool (a' > a \<or> a > v)"
  note s = sub_limb [OF Cons.prems(1) a_def a'_def c'_def]
  obtain rs k where ih: "sub_loop (i + 1) op1 op2 c' = Some (rs, k)" "length rs = length op1" "uint k \<le> 1"
      "mp_val rs + mp_val op2 + uint c' = mp_val op1 + limb_base ^ length op1 * uint k"
    using Cons.IH [OF s(2), of "i + 1"] Cons.prems(2) by auto
  have "sub_loop i (v # op1) (w # op2) c = Some (a' # rs, k)"
    using ih(1) Cons.prems(2) by (simp add: Let_def a_def a'_def c'_def)
  moreover have "limb_base * (mp_val rs + mp_val op2 + uint c') = limb_base * (mp_val op1 + limb_base ^ length op1 * uint k)"
    using ih(4) by simp
  ultimately show ?case using ih(2,3) s(1) by (simp add: algebra_simps)
qed simp

lemma sub_loop_overflow:
  assumes "length xs = length ys" "INT_MAX < i + length xs" "i \<le> INT_MAX"
  shows "sub_loop i xs ys c = None"
  using assms by (induction xs ys arbitrary: i c rule: list_induct2) (auto simp: Let_def)

lemma add_ui_limb: "uint (v + k :: limb) + limb_base * of_bool (v + k < k) = uint v + uint k"
  using uint_limb [of v] uint_limb [of k] by (simp add: word_less_def uint_limb_add)

lemma sub_ui_limb: "uint (v - k :: limb) + uint k = uint v + limb_base * of_bool (v - k > v)"
  using uint_limb [of v] uint_limb [of k] by (simp add: word_less_def uint_limb_sub)

lemma add_ui_loop_val:
  "add_ui_loop xs b = (rs, k) \<Longrightarrow> length rs = length xs \<and> mp_val rs + limb_base ^ length xs * uint k = mp_val xs + uint b"
proof (induction xs arbitrary: b rs)
  case (Cons v xs)
  show ?case
  proof (cases "b = 0")
    case False
    obtain rs' where r: "add_ui_loop xs (of_bool (v + b < b)) = (rs', k)" "rs = (v + b) # rs'"
      using Cons.prems False by (auto simp: Let_def split: prod.splits)
    have "limb_base * (mp_val rs' + limb_base ^ length xs * uint k) = limb_base * (mp_val xs + uint (of_bool (v + b < b) :: limb))"
      using Cons.IH [OF r(1)] by simp
    then show ?thesis using Cons.IH [OF r(1)] add_ui_limb [of v b] by (simp add: r(2) uint_of_bool_limb algebra_simps)
  qed (use Cons.prems in auto)
qed simp

lemma sub_ui_loop_val:
  "sub_ui_loop xs b = (rs, k) \<Longrightarrow> length rs = length xs \<and> mp_val rs + uint b = mp_val xs + limb_base ^ length xs * uint k"
proof (induction xs arbitrary: b rs)
  case (Cons v xs)
  show ?case
  proof (cases "v - b > v")
    case True
    obtain rs' where r: "sub_ui_loop xs 1 = (rs', k)" "rs = (v - b) # rs'"
      using Cons.prems True by (auto simp: Let_def split: prod.splits)
    have "limb_base * (mp_val rs' + 1) = limb_base * (mp_val xs + limb_base ^ length xs * uint k)"
      using Cons.IH [OF r(1)] by simp
    then show ?thesis using Cons.IH [OF r(1)] sub_ui_limb [of v b] True by (simp add: r(2) algebra_simps)
  next
    case False
    then show ?thesis using Cons.prems sub_ui_limb [of v b] by (auto simp: Let_def)
  qed
qed simp

section \<open>Values of products\<close>

lemma uint_low: "uint (ucast (t :: dlimb) :: limb) = uint t mod limb_base"
  by (simp add: unsigned_ucast_eq take_bit_eq_mod limb_base_def)

lemma uint_high: "uint (ucast (drop_bit LIMB_BITS (t :: dlimb)) :: limb) = uint t div limb_base"
proof -
  have "uint t div 2 ^ 64 < 2 ^ 64" using uint_lt2p [of t] by (simp add: zdiv_int)
  moreover have "uint (drop_bit 64 t) = uint t div 2 ^ 64" by (simp add: drop_bit_eq_div uint_div_distrib)
  moreover have "0 \<le> uint t div 2 ^ 64" by (simp add: pos_imp_zdiv_nonneg_iff)
  ultimately have "take_bit 64 (uint (drop_bit 64 t)) = uint t div 2 ^ 64" by (simp only: take_bit_int_eq_self)
  then show ?thesis by (simp add: unsigned_ucast_eq LIMB_BITS_def limb_base_def)
qed

lemma uint_up [simp]: "uint (ucast (a :: limb) :: dlimb) = uint a"
proof -
  have "uint a < 2 ^ 128" using uint_lt2p [of a] by simp
  then have "take_bit 128 (uint a) = uint a" by (simp add: take_bit_int_eq_self)
  then show ?thesis by (simp add: unsigned_ucast_eq)
qed

lemma mul_bound:
  fixes x y B :: int
  assumes "0 \<le> x" "x < B" "0 \<le> y" "y < B"
  shows "x * y + (B - 1) + (B - 1) < B * B"
proof -
  have "x * y \<le> (B - 1) * (B - 1)" by (rule mult_mono) (use assms in auto)
  then show ?thesis by (simp add: algebra_simps)
qed

lemma mul_limb:
  fixes a b l r :: limb
  defines "t \<equiv> ucast a * ucast b + ucast l + ucast r :: dlimb"
  shows "uint (ucast t :: limb) + limb_base * uint (ucast (drop_bit LIMB_BITS t) :: limb) = uint a * uint b + uint l + uint r"
proof -
  have b: "uint a * uint b + uint l + uint r < limb_base * limb_base"
    using mul_bound [OF uint_ge_0 uint_limb [of a] uint_ge_0 uint_limb [of b]] uint_limb [of l] uint_limb [of r] by linarith
  have "uint t = (uint a * uint b + uint l + uint r) mod 2 ^ 128"
    by (simp add: t_def uint_word_ariths mod_simps)
  then have "uint t = uint a * uint b + uint l + uint r"
    using b by (simp add: limb_base_def mod_pos_pos_trivial)
  then show ?thesis by (simp add: uint_low [of t] uint_high [of t])
qed

lemma mul1_loop_val:
  "mul1_loop xs b l = (rs, k) \<Longrightarrow> length rs = length xs \<and> mp_val rs + limb_base ^ length xs * uint k = mp_val xs * uint b + uint l"
proof (induction xs arbitrary: l rs)
  case (Cons a xs)
  define t where "t = (ucast a * ucast b + ucast l + ucast (0 :: limb) :: dlimb)"
  define l' :: limb where "l' = ucast (drop_bit LIMB_BITS t)"
  obtain rs' where r: "mul1_loop xs b l' = (rs', k)" "rs = ucast t # rs'"
    using Cons.prems by (auto simp: Let_def t_def l'_def split: prod.splits)
  have "limb_base * (mp_val rs' + limb_base ^ length xs * uint k) = limb_base * (mp_val xs * uint b + uint l')"
    using Cons.IH [OF r(1)] by simp
  then show ?case using Cons.IH [OF r(1)] mul_limb [of a b l 0] unfolding t_def [symmetric] l'_def [symmetric]
    by (simp add: r(2) algebra_simps)
qed simp

lemma add_mul1_loop_val:
  assumes "length xs = length ys" "add_mul1_loop xs ys b l = (rs, k)"
  shows "length rs = length xs \<and> mp_val rs + limb_base ^ length xs * uint k = mp_val xs + mp_val ys * uint b + uint l"
  using assms
proof (induction xs ys arbitrary: l rs rule: list_induct2)
  case (Cons r xs a ys)
  define t where "t = (ucast a * ucast b + ucast l + ucast r :: dlimb)"
  define l' :: limb where "l' = ucast (drop_bit LIMB_BITS t)"
  obtain rs' where r: "add_mul1_loop xs ys b l' = (rs', k)" "rs = ucast t # rs'"
    using Cons.prems by (auto simp: Let_def t_def l'_def split: prod.splits)
  have "limb_base * (mp_val rs' + limb_base ^ length xs * uint k) = limb_base * (mp_val xs + mp_val ys * uint b + uint l')"
    using Cons.IH [OF r(1)] by simp
  then show ?case using Cons.IH [OF r(1)] mul_limb [of a b l r] unfolding t_def [symmetric] l'_def [symmetric]
    by (simp add: r(2) algebra_simps)
qed simp

lemma sub_mul_limb:
  fixes a b l r :: limb
  defines "t \<equiv> ucast r - ucast a * ucast b - ucast l :: dlimb"
  shows "uint (ucast t :: limb) + uint a * uint b + uint l = uint r + limb_base * uint (ucast (- drop_bit LIMB_BITS t) :: limb)"
proof -
  define X where "X = uint r - uint a * uint b - uint l"
  have X: "- (limb_base * (limb_base - 1)) \<le> X" "X < limb_base"
  proof -
    have "uint a * uint b \<le> (limb_base - 1) * (limb_base - 1)"
      by (rule mult_mono) (use uint_limb [of a] uint_limb [of b] in auto)
    moreover have "(limb_base - 1) * (limb_base - 1) = limb_base * (limb_base - 1) - limb_base + 1" by (simp add: algebra_simps)
    ultimately show "- (limb_base * (limb_base - 1)) \<le> X" using uint_limb [of l] uint_ge_0 [of r] unfolding X_def by linarith
    have "0 \<le> uint a * uint b" by simp
    then show "X < limb_base" using uint_limb [of r] uint_ge_0 [of l] unfolding X_def by linarith
  qed
  have t: "uint t = X mod (limb_base * limb_base)"
    by (simp add: t_def X_def uint_word_ariths mod_simps limb_base_def)
  have neg: "uint (- w) = (- uint w) mod (limb_base * limb_base)" for w :: dlimb
    by (simp add: uint_word_ariths limb_base_def)
  have low: "uint (ucast t :: limb) = X mod limb_base" by (simp add: uint_low t mod_mod_cancel)
  have d: "- (limb_base - 1) \<le> X div limb_base" "X div limb_base \<le> 0"
  proof -
    have "(- (limb_base - 1)) * limb_base div limb_base \<le> X div limb_base"
      by (rule zdiv_mono1) (use X in \<open>simp_all add: algebra_simps\<close>)
    then show "- (limb_base - 1) \<le> X div limb_base" by (simp only: nonzero_mult_div_cancel_right [OF limb_base_pos(2)])
    have "X div limb_base \<le> (limb_base - 1) div limb_base" by (rule zdiv_mono1) (use X in simp_all)
    then show "X div limb_base \<le> 0" using limb_base_gt_1 by (simp add: div_pos_pos_trivial)
  qed
  have "uint (ucast (- drop_bit LIMB_BITS t) :: limb) = (- (X div limb_base)) mod limb_base"
  proof -
    have dd: "uint (drop_bit LIMB_BITS t) = uint t div limb_base"
      by (simp add: drop_bit_eq_div uint_div_distrib LIMB_BITS_def limb_base_def)
    have m: "X mod (limb_base * limb_base) div limb_base = (X div limb_base) mod limb_base"
      using zmod_zmult2_eq [of limb_base X limb_base] by simp
    have "uint (ucast (- drop_bit LIMB_BITS t) :: limb) = (- uint (drop_bit LIMB_BITS t)) mod limb_base"
      by (simp only: uint_low neg) (rule mod_mod_cancel, simp)
    also have "\<dots> = (- ((X div limb_base) mod limb_base)) mod limb_base" by (simp only: dd t m)
    finally show ?thesis by (simp only: mod_minus_eq)
  qed
  then have h: "uint (ucast (- drop_bit LIMB_BITS t) :: limb) = - (X div limb_base)"
    using d by (simp add: mod_pos_pos_trivial)
  have "limb_base * (X div limb_base) + X mod limb_base = uint r - uint a * uint b - uint l" by (simp flip: X_def)
  then show ?thesis unfolding low h mult_minus_right by linarith
qed

lemma sub_mul1_loop_val:
  assumes "length xs = length ys" "sub_mul1_loop xs ys b l = (rs, k)"
  shows "length rs = length xs \<and> mp_val rs + mp_val ys * uint b + uint l = mp_val xs + limb_base ^ length xs * uint k"
  using assms
proof (induction xs ys arbitrary: l rs rule: list_induct2)
  case (Cons r xs a ys)
  define t where "t = (ucast r - ucast a * ucast b - ucast l :: dlimb)"
  define l' :: limb where "l' = ucast (- drop_bit LIMB_BITS t)"
  obtain rs' where r: "sub_mul1_loop xs ys b l' = (rs', k)" "rs = ucast t # rs'"
    using Cons.prems by (auto simp: Let_def t_def l'_def split: prod.splits)
  have "limb_base * (mp_val rs' + mp_val ys * uint b + uint l') = limb_base * (mp_val xs + limb_base ^ length xs * uint k)"
    using Cons.IH [OF r(1)] by simp
  then show ?case using Cons.IH [OF r(1)] sub_mul_limb [of r a b l] unfolding t_def [symmetric] l'_def [symmetric]
    by (simp add: r(2) algebra_simps)
qed simp

section \<open>Values of shifts and comparisons\<close>

lemma cmp_loop_val:
  assumes "n \<le> length xs" "n \<le> length ys"
  shows "cmp_loop xs ys n = Some (sgn (mp_val (take n xs) - mp_val (take n ys)))"
  using assms
proof (induction n)
  case (Suc n)
  have x: "take (Suc n) xs = take n xs @ [xs ! n]" "take (Suc n) ys = take n ys @ [ys ! n]"
    using Suc.prems by (simp_all add: take_Suc_conv_app_nth)
  have b: "mp_val (take n xs) < limb_base ^ n" "0 \<le> mp_val (take n xs)" "mp_val (take n ys) < limb_base ^ n" "0 \<le> mp_val (take n ys)"
    using mp_val_bounds [of "take n xs"] mp_val_bounds [of "take n ys"] Suc.prems by simp_all
  have v: "mp_val (take (Suc n) xs) = mp_val (take n xs) + limb_base ^ n * uint (xs ! n)"
    "mp_val (take (Suc n) ys) = mp_val (take n ys) + limb_base ^ n * uint (ys ! n)"
    using Suc.prems by (simp_all add: x mp_val_append)
  have less: "mp_val p + limb_base ^ n * uint x < mp_val q + limb_base ^ n * uint y"
    if "x < y" "mp_val p < limb_base ^ n" "0 \<le> mp_val q" for p q and x y :: limb
  proof -
    have "limb_base ^ n * (uint x + 1) \<le> limb_base ^ n * uint y"
      by (rule mult_left_mono) (use that(1) in \<open>simp_all add: word_less_def\<close>)
    then show ?thesis using that(2,3) by (simp add: algebra_simps)
  qed
  have r: "rd xs n = Some (xs ! n)" "rd ys n = Some (ys ! n)" using Suc.prems by (simp_all add: rd_def)
  show ?case
  proof (cases "xs ! n = ys ! n")
    case True
    then show ?thesis using Suc r by (simp add: v)
  next
    case False
    then consider "xs ! n < ys ! n" | "ys ! n < xs ! n" by fastforce
    then show ?thesis
    proof cases
      case 1
      then show ?thesis using less [OF 1 b(1,4)] False r by (simp add: v sgn_if)
    next
      case 2
      then show ?thesis using less [OF 2 b(3,2)] False r by (simp add: v sgn_if)
    qed
  qed
qed simp

section \<open>The product of two arrays\<close>

lemma memcpy_middle: "length ys = length xs \<Longrightarrow> i = length lo \<Longrightarrow> memcpy (lo @ xs @ hi) i ys = Some (lo @ ys @ hi)"
  by (simp add: memcpy_def)

lemma wr_middle: "i = length lo \<Longrightarrow> wr (lo @ x # hi) i y = Some (lo @ y # hi)"
  by (simp add: wr_def)

lemma split_block:
  assumes "i + n < length xs"
  obtains lo mid x hi where "xs = lo @ mid @ x # hi" "length lo = i" "length mid = n"
proof -
  have "xs = take i xs @ take n (drop i xs) @ xs ! (i + n) # drop (i + n + 1) xs"
    using assms by (simp add: Cons_nth_drop_Suc) (metis add.commute append_take_drop_id drop_drop)
  then show thesis using that [of "take i xs" "take n (drop i xs)"] assms by simp
qed

lemma mul_loop_val:
  assumes "n1 \<le> length op1" "i + k \<le> length op2" "n1 + i + k \<le> length result"
    and "mp_val (take (n1 + i) result) = mp_val (take n1 op1) * mp_val (take i op2)"
  shows "\<exists>res. mul_loop result op1 n1 op2 i k = Some res \<and> length res = length result \<and>
    mp_val (take (n1 + i + k) res) = mp_val (take n1 op1) * mp_val (take (i + k) op2) \<and>
    drop (n1 + i + k) res = drop (n1 + i + k) result"
  using assms
proof (induction k arbitrary: i result)
  case (Suc k)
  obtain lo mid x hi where s: "result = lo @ mid @ x # hi" "length lo = i" "length mid = n1"
    by (rule split_block [of i n1 result]) (use Suc.prems(3) in auto)
  define b where "b = op2 ! i"
  obtain part r where p: "add_mul1_loop mid (take n1 op1) b 0 = (part, r)" by fastforce
  have v: "length part = n1" "mp_val part + limb_base ^ n1 * uint r = mp_val mid + mp_val (take n1 op1) * uint b"
    using add_mul1_loop_val [OF _ p] s(3) Suc.prems(1) by auto
  let ?res = "lo @ part @ r # hi"
  have step: "mul_loop result op1 n1 op2 i (Suc k) = mul_loop ?res op1 n1 op2 (i + 1) k"
    using Suc.prems(1,2) s p v(1) wr_middle [of "i + n1" "lo @ part" x hi r]
    by (simp add: mp_add_mul1_def rd_def rd_n_def b_def memcpy_middle)
  have b: "take (Suc i) op2 = take i op2 @ [b]" using Suc.prems(2) by (simp add: b_def take_Suc_conv_app_nth)
  have old: "mp_val (lo @ mid) = mp_val (take n1 op1) * mp_val (take i op2)" using Suc.prems(4) s by (simp add: add.commute)
  have "mp_val (lo @ part @ [r]) = mp_val (lo @ mid) + limb_base ^ i * (mp_val (take n1 op1) * uint b)"
  proof -
    have "limb_base ^ i * (mp_val part + limb_base ^ n1 * uint r) = limb_base ^ i * (mp_val mid + mp_val (take n1 op1) * uint b)"
      using v(2) by simp
    then show ?thesis using s v(1) by (simp add: mp_val_append algebra_simps)
  qed
  moreover have "mp_val (take (Suc i) op2) = mp_val (take i op2) + limb_base ^ i * uint b"
    using Suc.prems(2) by (simp add: b mp_val_append)
  ultimately have inv: "mp_val (take (n1 + (i + 1)) ?res) = mp_val (take n1 op1) * mp_val (take (i + 1) op2)"
    using s v(1) old by (simp add: algebra_simps)
  have "length ?res = length result" "drop (n1 + i + Suc k) ?res = drop (n1 + i + Suc k) result" using s v(1) by simp_all
  then show ?case unfolding step
    using Suc.IH [of "i + 1" ?res] Suc.prems inv by (auto simp: add.assoc)
qed simp

lemma mp_mul_basecase_val:
  assumes "n1 \<le> length op1" "n2 \<le> length op2" "0 < n2" "n1 + n2 \<le> length result"
  shows "\<exists>res. mp_mul_basecase result op1 n1 op2 n2 = Some res \<and> length res = length result \<and>
    mp_val (take (n1 + n2) res) = mp_val (take n1 op1) * mp_val (take n2 op2) \<and> drop (n1 + n2) res = drop (n1 + n2) result"
proof -
  obtain lo mid x hi where s: "result = lo @ mid @ x # hi" "length lo = 0" "length mid = n1"
    by (rule split_block [of 0 n1 result]) (use assms in auto)
  define b where "b = op2 ! 0"
  obtain part r where p: "mul1_loop (take n1 op1) b 0 = (part, r)" by fastforce
  have v: "length part = n1" "mp_val part + limb_base ^ n1 * uint r = mp_val (take n1 op1) * uint b"
    using mul1_loop_val [OF p] assms(1) by auto
  let ?res = "part @ r # hi"
  have b0: "rd op2 0 = Some b" using assms(2,3) by (cases op2) (auto simp: rd_def b_def)
  have step: "mp_mul_basecase result op1 n1 op2 n2 = mul_loop ?res op1 n1 op2 1 (n2 - 1)"
    using assms s p v(1) wr_middle [of n1 part x hi r] memcpy_middle [of part mid 0 "[]" "x # hi"]
    by (simp add: mp_mul_basecase_def mp_mul1_def rd_n_def b0)
  have "take 1 op2 = [b]" using assms(2,3) by (cases op2) (auto simp: b_def)
  then have inv: "mp_val (take (n1 + 1) ?res) = mp_val (take n1 op1) * mp_val (take 1 op2)"
    using v by (simp add: mp_val_append)
  have "length ?res = length result" "drop (n1 + n2) ?res = drop (n1 + n2) result" using s v(1) assms(3) by (simp_all add: drop_Cons')
  then show ?thesis unfolding step using mul_loop_val [OF assms(1) _ _ inv, of "n2 - 1"] assms by auto
qed

lemma mp_linear_vals:
  assumes "n \<le> length xs" "n \<le> length ys" "uint c \<le> 1"
  shows "\<exists>rs k. mp_add xs ys n c = Some (rs, k) \<and> length rs = n \<and> uint k \<le> 1 \<and>
      mp_val rs + limb_base ^ n * uint k = mp_val (take n xs) + mp_val (take n ys) + uint c"
    and "n < 2 ^ 31 \<Longrightarrow> \<exists>rs k. mp_sub xs ys n c = Some (rs, k) \<and> length rs = n \<and> uint k \<le> 1 \<and>
      mp_val rs = mp_val (take n xs) - mp_val (take n ys) - uint c + limb_base ^ n * uint k"
    and "n < 2 ^ 31 \<Longrightarrow> \<exists>rs k. mp_neg ys n c = Some (rs, k) \<and> length rs = n \<and> uint k \<le> 1 \<and>
      mp_val rs = - mp_val (take n ys) - uint c + limb_base ^ n * uint k"
    and "\<not> n < 2 ^ 31 \<Longrightarrow> mp_sub xs ys n c = None \<and> mp_neg ys n c = None"
    and "\<exists>rs k. mp_add_ui xs b n = Some (rs, k) \<and> length rs = n \<and>
      mp_val rs + limb_base ^ n * uint k = mp_val (take n xs) + uint b"
    and "\<exists>rs k. mp_sub_ui xs b n = Some (rs, k) \<and> length rs = n \<and>
      mp_val rs = mp_val (take n xs) - uint b + limb_base ^ n * uint k"
proof -
  have len: "length (take n xs) = length (take n ys)" "length (replicate n (0 :: limb)) = length (take n ys)" "length (take n xs) = n"
    using assms by simp_all
  note d = mp_add_def mp_sub_def mp_neg_def mp_add_ui_def mp_sub_ui_def rd_n_def
  show "\<exists>rs k. mp_add xs ys n c = Some (rs, k) \<and> length rs = n \<and> uint k \<le> 1 \<and>
      mp_val rs + limb_base ^ n * uint k = mp_val (take n xs) + mp_val (take n ys) + uint c"
    using add_loop_val [OF len(1) assms(3)] assms(1,2) by (cases "add_loop (take n xs) (take n ys) c") (simp add: d len(3))
  show "\<exists>rs k. mp_sub xs ys n c = Some (rs, k) \<and> length rs = n \<and> uint k \<le> 1 \<and>
      mp_val rs = mp_val (take n xs) - mp_val (take n ys) - uint c + limb_base ^ n * uint k" if "n < 2 ^ 31"
    using sub_loop_val [OF len(1) assms(3), of 0] assms(1,2) that by (fastforce simp: d INT_MAX_def len(3))
  show "\<exists>rs k. mp_neg ys n c = Some (rs, k) \<and> length rs = n \<and> uint k \<le> 1 \<and>
      mp_val rs = - mp_val (take n ys) - uint c + limb_base ^ n * uint k" if "n < 2 ^ 31"
    using sub_loop_val [OF len(2) assms(3), of 0] assms(1,2) that by (fastforce simp: d INT_MAX_def)
  show "mp_sub xs ys n c = None \<and> mp_neg ys n c = None" if "\<not> n < 2 ^ 31"
    using sub_loop_overflow [OF len(1), of 0] sub_loop_overflow [OF len(2), of 0] assms(1,2) that by (simp add: d INT_MAX_def len(3))
  show "\<exists>rs k. mp_add_ui xs b n = Some (rs, k) \<and> length rs = n \<and>
      mp_val rs + limb_base ^ n * uint k = mp_val (take n xs) + uint b"
    using add_ui_loop_val [of "take n xs" b] assms(1) by (cases "add_ui_loop (take n xs) b") (simp add: d)
  show "\<exists>rs k. mp_sub_ui xs b n = Some (rs, k) \<and> length rs = n \<and>
      mp_val rs = mp_val (take n xs) - uint b + limb_base ^ n * uint k"
    using sub_ui_loop_val [of "take n xs" b] assms(1) by (cases "sub_ui_loop (take n xs) b") (fastforce simp: d)
qed

section \<open>Properties\<close>

text \<open>C31: Addition and subtraction of arrays of limbs. \<open>mp_add\<close> and \<open>mp_sub\<close> on two arrays of \<open>n\<close> limbs and a carry of 0
  or 1 stay in the arrays and return \<open>n\<close> limbs and a carry of 0 or 1, which together are the exact sum and the exact
  difference; \<open>mp_neg\<close> is subtraction from zero, and \<open>mp_add_ui\<close> and \<open>mp_sub_ui\<close>, which stop as soon as nothing is
  carried on, are exact for every limb that is added or subtracted. For \<open>mp_sub\<close> and \<open>mp_neg\<close> this holds for less than
  \<open>2 ^ 31\<close> limbs; from there on their counter of type \<^verbatim>\<open>int\<close> overflows and nothing is defined.\<close>

theorem mp_add_sub_exact:
  assumes "n \<le> length xs" "n \<le> length ys" "uint c \<le> 1"
  shows "(\<exists>rs k. mp_add xs ys n c = Some (rs, k) \<and> length rs = n \<and> uint k \<le> 1 \<and>
      mp_val rs + limb_base ^ n * uint k = mp_val (take n xs) + mp_val (take n ys) + uint c) \<and>
     (if n < 2 ^ 31
      then (\<exists>rs k. mp_sub xs ys n c = Some (rs, k) \<and> length rs = n \<and> uint k \<le> 1 \<and>
          mp_val rs = mp_val (take n xs) - mp_val (take n ys) - uint c + limb_base ^ n * uint k) \<and>
        (\<exists>rs k. mp_neg ys n c = Some (rs, k) \<and> length rs = n \<and> uint k \<le> 1 \<and>
          mp_val rs = - mp_val (take n ys) - uint c + limb_base ^ n * uint k)
      else mp_sub xs ys n c = None \<and> mp_neg ys n c = None) \<and>
     (\<exists>rs k. mp_add_ui xs b n = Some (rs, k) \<and> length rs = n \<and>
      mp_val rs + limb_base ^ n * uint k = mp_val (take n xs) + uint b) \<and>
     (\<exists>rs k. mp_sub_ui xs b n = Some (rs, k) \<and> length rs = n \<and>
      mp_val rs = mp_val (take n xs) - uint b + limb_base ^ n * uint k)"
  by (cases "n < 2 ^ 31"; simp only: if_True if_False; intro conjI mp_linear_vals [OF assms] mp_linear_vals(4) [OF assms, THEN conjunct1] mp_linear_vals(4) [OF assms, THEN conjunct2])

theorem mp_add_sub_exact_witness:
  "\<exists>rs k. mp_add [- 1, - 1] [1, 0] 2 0 = Some (rs, k) \<and>
    mp_val rs + limb_base ^ 2 * uint k = mp_val [- 1, - 1] + mp_val [1, 0]"
  using mp_add_sub_exact [of 2 "[- 1, - 1]" "[1, 0]" 0 0] by fastforce

text \<open>C30: Multiplication of arrays of limbs. \<open>mp_mul_basecase\<close> on operands of \<open>n1\<close> and \<open>n2\<close> limbs, the second one not
  empty, and a result block with room for \<open>n1 + n2\<close> limbs stays in the three blocks and stores the exact product
  there, whatever the result block held before; the limbs behind the product are not touched.\<close>

theorem mp_mul_basecase_exact:
  assumes "n1 \<le> length op1" "n2 \<le> length op2" "0 < n2" "n1 + n2 \<le> length result"
  shows "\<exists>res. mp_mul_basecase result op1 n1 op2 n2 = Some res \<and> length res = length result \<and>
    mp_val (take (n1 + n2) res) = mp_val (take n1 op1) * mp_val (take n2 op2) \<and> drop (n1 + n2) res = drop (n1 + n2) result"
  using assms by (rule mp_mul_basecase_val)

theorem mp_mul_basecase_exact_witness:
  "\<exists>res. mp_mul_basecase [7, 7, 7, 7, 7] [- 1, 5] 2 [- 1, - 1] 2 = Some res \<and>
    mp_val (take 4 res) = mp_val [- 1, 5] * mp_val [- 1, - 1] \<and> drop 4 res = [7]"
  using mp_mul_basecase_exact [of 2 "[- 1, 5]" 2 "[- 1, - 1]" "[7, 7, 7, 7, 7]"] by auto

end
