(* ===== verification/Bf_Division.thy ===== *)
theory Bf_Division
  imports Bf_Limbs
begin

text \<open>
  Division of arrays of limbs, from \<^verbatim>\<open>src/qjs/libbf.c\<close>: the division of two limbs by one with a precomputed inverse,
  division of an array by one limb, and the schoolbook division of two arrays. The divisor is normalised, that is, its
  highest bit is set.
\<close>

section \<open>Two limbs by one\<close>

definition udiv1norm_init :: "limb \<Rightarrow> limb" where
  "udiv1norm_init d =
     (let a1 = - d - 1; a0 = - 1 :: limb
      in ucast ((push_bit LIMB_BITS (ucast a1) OR ucast a0 :: dlimb) div ucast d))"

text \<open>The quotient and the remainder. \<open>n1m\<close> is the sign of \<open>a0\<close>, an arithmetic shift.\<close>

definition udiv1norm :: "limb \<Rightarrow> limb \<Rightarrow> limb \<Rightarrow> limb \<Rightarrow> limb \<times> limb" where
  "udiv1norm a1 a0 d d_inv =
     (let n1m = signed_drop_bit (LIMB_BITS - 1) a0;
          n_adj = a0 + (n1m AND d);
          a = ucast d_inv * ucast (a1 - n1m) + ucast n_adj :: dlimb;
          q = ucast (drop_bit LIMB_BITS a) + a1;
          a = (push_bit LIMB_BITS (ucast a1) OR ucast a0) - ucast q * ucast d - ucast d :: dlimb;
          ah = ucast (drop_bit LIMB_BITS a) :: limb
      in (q + (1 + ah), ucast a + (ah AND d)))"

definition div2by1 :: "limb \<Rightarrow> limb \<Rightarrow> limb \<Rightarrow> limb \<times> limb" where
  "div2by1 a1 a0 b =
     (let a = push_bit LIMB_BITS (ucast a1) OR ucast a0 :: dlimb in (ucast (a div ucast b), ucast (a mod ucast b)))"

section \<open>An array by one limb\<close>

text \<open>The loop runs from the highest limb down; \<open>step\<close> divides the remainder and the next limb. A division by zero is
  undefined.\<close>

fun div1_loop :: "(limb \<Rightarrow> limb \<Rightarrow> limb \<times> limb) \<Rightarrow> limb list \<Rightarrow> limb \<Rightarrow> limb list \<times> limb" where
  "div1_loop step [] r = ([], r)"
| "div1_loop step (a # taba) r =
     (let (tabr, r) = div1_loop step taba r; (q, r) = step r a in (q # tabr, r))"

definition mp_div1norm :: "limb list \<Rightarrow> nat \<Rightarrow> limb \<Rightarrow> limb \<Rightarrow> (limb list \<times> limb) option" where
  "mp_div1norm taba n b r = do {
     taba \<leftarrow> rd_n taba 0 n;
     if b = 0 \<and> 0 < n then None
     else Some (if n \<ge> UDIV1NORM_THRESHOLD
                then let b_inv = udiv1norm_init b in div1_loop (\<lambda>r a. udiv1norm r a b b_inv) taba r
                else div1_loop (\<lambda>r a. div2by1 r a b) taba r) }"

section \<open>An array by an array\<close>

text \<open>The comparison of the first iteration: 1 unless the limbs of \<open>taba\<close> from \<open>n\<close> on are smaller than \<open>tabb\<close>.\<close>

definition first_quotient :: "limb list \<Rightarrow> limb list \<Rightarrow> nat \<Rightarrow> limb option" where
  "first_quotient win tabb nb = do { c \<leftarrow> cmp_loop win tabb nb; Some (if c < 0 then 0 else 1) }"

text \<open>Adding the divisor back while the difference is negative; \<open>fuel\<close> bounds the rounds. The caller below starts with
  two, which is enough for every divisor whose highest bit is set, the precondition of the function.\<close>

fun add_back :: "nat \<Rightarrow> limb \<Rightarrow> limb list \<Rightarrow> limb \<Rightarrow> limb list \<Rightarrow> nat \<Rightarrow> (limb \<times> limb list \<times> limb) option" where
  "add_back 0 q win hi tabb nb = None"
| "add_back (Suc fuel) q win hi tabb nb = do {
     (win, c) \<leftarrow> mp_add win tabb nb 0;
     if c \<noteq> 0 then
       if hi + 1 = 0 then Some (q - 1, win, 0) else add_back fuel (q - 1) win (hi + 1) tabb nb
     else add_back fuel (q - 1) win hi tabb nb }"

definition quotient_guess :: "limb \<Rightarrow> limb \<Rightarrow> limb \<Rightarrow> limb \<Rightarrow> limb" where
  "quotient_guess a1 a0 b1 b1_inv =
     (if a1 \<ge> b1 then - 1
      else if b1_inv \<noteq> 0 then fst (udiv1norm a1 a0 b1 b1_inv)
      else fst (div2by1 a1 a0 b1))"

text \<open>One limb of the quotient: \<open>win\<close> are the limbs \<open>i\<close> to \<open>i + nb - 1\<close> of the dividend and \<open>v\<close> the limb above.\<close>

definition divnorm_step :: "limb list \<Rightarrow> limb \<Rightarrow> limb list \<Rightarrow> nat \<Rightarrow> limb \<Rightarrow> limb \<Rightarrow> (limb \<times> limb list \<times> limb) option" where
  "divnorm_step win v tabb nb b1 b1_inv = do {
     a0 \<leftarrow> rd win (nb - 1);
     let q = quotient_guess v a0 b1 b1_inv;
     (win, r) \<leftarrow> mp_sub_mul1 win tabb nb q;
     let a = v - r;
     if a > v then add_back 2 q win a tabb nb else Some (q, win, a) }"

fun divnorm_loop :: "nat \<Rightarrow> limb list \<Rightarrow> limb list \<Rightarrow> limb list \<Rightarrow> nat \<Rightarrow> limb \<Rightarrow> limb \<Rightarrow> (limb list \<times> limb list) option" where
  "divnorm_loop 0 tabq taba tabb nb b1 b1_inv = Some (tabq, taba)"
| "divnorm_loop (Suc i) tabq taba tabb nb b1 b1_inv = do {
     win \<leftarrow> rd_n taba i nb;
     v \<leftarrow> rd taba (i + nb);
     (q, win, a) \<leftarrow> divnorm_step win v tabb nb b1 b1_inv;
     taba \<leftarrow> memcpy taba i win;
     taba \<leftarrow> wr taba (i + nb) a;
     tabq \<leftarrow> wr tabq i q;
     divnorm_loop i tabq taba tabb nb b1 b1_inv }"

text \<open>\<open>large\<close> stands for \<^verbatim>\<open>mp_divnorm_large\<close>, which takes over when both the quotient and the divisor are long.
  The comment in the source asks for \<open>na - nb \<ge> 0\<close>; below that the unsigned difference wraps around and the loops leave
  the arrays, which is \<open>None\<close> here.\<close>

definition mp_divnorm ::
  "(limb list \<Rightarrow> limb list \<Rightarrow> nat \<Rightarrow> limb list \<Rightarrow> nat \<Rightarrow> (int \<times> limb list \<times> limb list) option) \<Rightarrow>
   limb list \<Rightarrow> limb list \<Rightarrow> nat \<Rightarrow> limb list \<Rightarrow> nat \<Rightarrow> (int \<times> limb list \<times> limb list) option" where
  "mp_divnorm large tabq taba na tabb nb =
     (if nb = 0 then None
      else do {
        b1 \<leftarrow> rd tabb (nb - 1);
        if nb = 1 then do {
          (qs, r) \<leftarrow> mp_div1norm taba na b1 0;
          tabq \<leftarrow> memcpy tabq 0 qs;
          taba \<leftarrow> wr taba 0 r;
          Some (0, tabq, taba) }
        else if na < nb then None
        else do {
          let n = na - nb;
          if min n nb \<ge> DIVNORM_LARGE_THRESHOLD then large tabq taba na tabb nb
          else if n \<ge> UDIV1NORM_THRESHOLD \<and> b1 = 0 then None
          else do {
            let b1_inv = (if n \<ge> UDIV1NORM_THRESHOLD then udiv1norm_init b1 else 0);
            q \<leftarrow> first_quotient (drop n taba) tabb nb;
            tabq \<leftarrow> wr tabq n q;
            taba \<leftarrow> (if q \<noteq> 0 then do { (win, _) \<leftarrow> mp_sub (drop n taba) tabb nb 0; memcpy taba n win } else Some taba);
            (tabq, taba) \<leftarrow> divnorm_loop n tabq taba tabb nb b1 b1_inv;
            Some (0, tabq, taba) } } })"

section \<open>Correctness of the division by one limb\<close>

lemma half_base: "limb_base = 2 * 2 ^ 63"
  by (simp add: limb_base_def)

lemma uint_join: "uint (push_bit LIMB_BITS (ucast (a1 :: limb)) OR ucast (a0 :: limb) :: dlimb) = uint a1 * limb_base + uint a0"
proof -
  let ?h = "push_bit 64 (ucast a1) :: dlimb"
  have "?h AND ucast a0 = 0" by (rule bit_word_eqI) (auto simp: bit_simps dest: bit_imp_le_length)
  then have or: "?h OR ucast a0 = ?h + ucast a0" by (simp add: disjunctive_add_eq_or)
  have b: "uint a1 * 2 ^ 64 + uint a0 < 2 ^ 128" using uint_lt2p [of a1] uint_lt2p [of a0] by simp
  have h: "uint ?h = uint a1 * 2 ^ 64"
    using uint_lt2p [of a1] by (simp add: push_bit_eq_mult uint_word_ariths)
  show ?thesis using b by (simp add: or h LIMB_BITS_def limb_base_def uint_word_ariths)
qed

text \<open>The estimate of the quotient from the inverse is at most one too small.\<close>

lemma udiv_estimate:
  fixes B d a1 a0 m e t q :: int
  assumes d: "B \<le> 2 * d" "d < B" and m: "B * B - 1 = m * d + e" "0 \<le> e" "e < d"
    and a: "0 \<le> a1" "a1 < d" "0 \<le> a0" "a0 < B"
    and t: "t = 0 \<and> 2 * a0 < B \<or> t = 1 \<and> B \<le> 2 * a0"
    and q: "q = (m * a1 + a0 + t * (m - 2 * B + d)) div B"
  shows "0 \<le> (a1 * B + a0) - q * d" "(a1 * B + a0) - q * d < 2 * d"
proof -
  define U where "U = m * a1 + a0 + t * (m - 2 * B + d)"
  define K where "K = (B - d) * (a0 - t * (B - d)) + (1 + e) * (a1 + t)"
  have B: "0 < B" using d a by linarith
  have md: "m * d = B * B - 1 - e" using m by simp
  have "d * U = (m * d) * a1 + d * a0 + t * ((m * d) - 2 * B * d + d * d)" by (simp add: U_def algebra_simps)
  also have "\<dots> = B * (a1 * B + a0) - K" unfolding md K_def by (simp add: algebra_simps)
  finally have dU: "d * U = B * (a1 * B + a0) - K" .
  have K0: "0 \<le> K"
  proof -
    have "0 \<le> a0 - t * (B - d)" using t d a by auto
    then have "0 \<le> (B - d) * (a0 - t * (B - d))" using d by simp
    moreover have "0 \<le> (1 + e) * (a1 + t)" using m a t by auto
    ultimately show ?thesis by (simp add: K_def)
  qed
  have K1: "K < d * B"
  proof -
    have "a0 - t * (B - d) \<le> d - 1" using t d a by auto
    then have "(B - d) * (a0 - t * (B - d)) \<le> (B - d) * (d - 1)" using d by (simp add: mult_left_mono)
    moreover have "(1 + e) * (a1 + t) \<le> d * d" by (rule mult_mono) (use m a t d in auto)
    ultimately have "K \<le> (B - d) * (d - 1) + d * d" by (simp add: K_def)
    then show ?thesis using d by (simp add: algebra_simps)
  qed
  have qU: "q * B \<le> U" "U < q * B + B"
  proof -
    have "q = U div B" unfolding q U_def by simp
    then have "q * B + U mod B = U" by simp
    then show "q * B \<le> U" "U < q * B + B" using pos_mod_bound [OF B, of U] pos_mod_sign [OF B, of U] by linarith+
  qed
  have "B * (q * d) \<le> B * (a1 * B + a0)"
  proof -
    have "d * (q * B) \<le> d * U" using qU(1) d B by (intro mult_left_mono) auto
    then show ?thesis using dU K0 by (simp add: algebra_simps)
  qed
  then show "0 \<le> (a1 * B + a0) - q * d" using B by simp
  have "B * ((a1 * B + a0) - q * d) < B * (2 * d)"
  proof -
    have "d * U < d * (q * B + B)" using qU(2) d B by (intro mult_strict_left_mono) auto
    then show ?thesis using dU K1 by (simp add: algebra_simps)
  qed
  then show "(a1 * B + a0) - q * d < 2 * d" using B by (simp add: mult_less_cancel_left_pos)
qed

lemma uint_minus_1_limb: "uint (- 1 :: limb) = limb_base - 1"
  by (simp add: unsigned_minus_1_eq_mask mask_eq_exp_minus_1 limb_base_def)

lemma uint_neg_pred: "uint (- d - 1 :: limb) = limb_base - 1 - uint d"
proof -
  have "- d - 1 = - 1 - d" by simp
  then show ?thesis using uint_limb_sub [of "- 1" d] uint_limb [of d] by (simp only: uint_minus_1_limb) simp
qed

lemma int_le_div: "0 < d \<Longrightarrow> c * d \<le> x \<Longrightarrow> c \<le> x div (d :: int)"
  using zdiv_mono1 [of "c * d" x d] by simp

lemma int_div_less: "0 < d \<Longrightarrow> x < c * d \<Longrightarrow> x div (d :: int) < c"
proof (rule ccontr)
  assume d: "0 < d" "x < c * d" and "\<not> x div d < c"
  then have "c * d \<le> (x div d) * d" by simp
  also have "\<dots> \<le> x" using d(1) by (metis div_mult_mod_eq le_add_same_cancel1 pos_mod_sign)
  finally show False using d(2) by simp
qed

lemma udiv1norm_init_val:
  assumes "limb_base \<le> 2 * uint d"
  shows "uint (udiv1norm_init d) = (limb_base * limb_base - 1) div uint d - limb_base"
proof -
  have D: "0 < uint d" using assms limb_base_gt_1 by linarith
  have s: "(limb_base - 1 - uint d) * limb_base + (limb_base - 1) = (limb_base * limb_base - 1) + (- limb_base) * uint d"
    by (simp add: algebra_simps)
  have v: "((limb_base - 1 - uint d) * limb_base + (limb_base - 1)) div uint d = (limb_base * limb_base - 1) div uint d - limb_base"
    unfolding s using D by (subst div_mult_self1) simp_all
  have hi: "(limb_base * limb_base - 1) div uint d < 2 * limb_base"
  proof -
    have "limb_base * limb_base \<le> 2 * limb_base * uint d" using assms by simp
    then have "limb_base * limb_base - 1 < (2 * limb_base) * uint d" by linarith
    then show ?thesis by (rule int_div_less [OF D])
  qed
  have "udiv1norm_init d = ucast ((push_bit LIMB_BITS (ucast (- d - 1)) OR ucast (- 1 :: limb) :: dlimb) div ucast d)"
    by (simp add: udiv1norm_init_def)
  then have u: "uint (udiv1norm_init d) = ((limb_base * limb_base - 1) div uint d - limb_base) mod limb_base"
    by (simp only: uint_low uint_div_distrib uint_join uint_neg_pred uint_minus_1_limb uint_up v)
  have "0 \<le> (limb_base * limb_base - 1) div uint d - limb_base"
  proof -
    have "limb_base * uint d \<le> limb_base * (limb_base - 1)" using uint_limb [of d] by (intro mult_left_mono) auto
    also have "\<dots> \<le> limb_base * limb_base - 1" using limb_base_gt_1 by (simp add: algebra_simps)
    finally show ?thesis using int_le_div [OF D] by simp
  qed
  with hi show ?thesis unfolding u by (intro mod_pos_pos_trivial) linarith+
qed

lemma sign_mask: "signed_drop_bit (LIMB_BITS - 1) (a0 :: limb) = (if limb_base \<le> 2 * uint a0 then - 1 else 0)"
proof -
  have "bit a0 63 \<longleftrightarrow> limb_base \<le> 2 * uint a0"
  proof -
    have "bit a0 63 \<longleftrightarrow> odd (uint a0 div 2 ^ 63)" by (simp add: bit_iff_odd [of "uint a0"] flip: bit_uint_iff [of a0 63, simplified])
    moreover have "uint a0 div 2 ^ 63 = (if 2 ^ 63 \<le> uint a0 then 1 else 0)"
    proof (cases "2 ^ 63 \<le> uint a0")
      case True
      then have "1 \<le> uint a0 div 2 ^ 63" "uint a0 div 2 ^ 63 < 2"
        using int_le_div [of "2 ^ 63" 1 "uint a0"] int_div_less [of "2 ^ 63" "uint a0" 2] uint_lt2p [of a0] by auto
      then show ?thesis using True by simp
    next
      case False
      then show ?thesis by (simp add: div_pos_pos_trivial)
    qed
    ultimately show ?thesis by (simp add: half_base)
  qed
  moreover have "signed_drop_bit 63 a0 = (if bit a0 63 then - 1 else 0)"
    by (rule bit_word_eqI) (auto simp: bit_simps min_def Suc_le_eq)
  ultimately show ?thesis by (simp add: LIMB_BITS_def)
qed

text \<open>The correction: the estimate \<open>q\<close> is at most one too small, and the sign of what is left after one more step decides.\<close>

lemma udiv_correct:
  fixes n :: int and q d :: limb
  assumes n: "0 \<le> n - uint q * uint d" "n - uint q * uint d < 2 * uint d"
    and a: "uint (a :: dlimb) = (n - uint q * uint d - uint d) mod (limb_base * limb_base)"
    and q: "uint q + 1 < limb_base \<or> n - uint q * uint d < uint d"
    and ah: "ah = (ucast (drop_bit LIMB_BITS a) :: limb)"
  shows "uint (q + (1 + ah)) = n div uint d" "uint (ucast a + (ah AND d)) = n mod uint d"
proof -
  define X where "X = n - uint q * uint d - uint d"
  have D: "uint d < limb_base" "0 \<le> uint d" by (rule uint_limb) simp
  have X: "- uint d \<le> X" "X < uint d" using n by (simp_all add: X_def)
  have BB: "limb_base \<le> limb_base * limb_base" using limb_base_gt_1 by simp
  have res: "n div uint d = k" "n mod uint d = r" if "n = k * uint d + r" "0 \<le> r" "r < uint d" for k r
    using that by (simp_all add: div_pos_pos_trivial)
  show "uint (q + (1 + ah)) = n div uint d" "uint (ucast a + (ah AND d)) = n mod uint d"
  proof (atomize(full), cases "0 \<le> X")
    case True
    then have u: "uint a = X" using a X D BB by (simp add: X_def [symmetric] mod_pos_pos_trivial)
    have "uint ah = 0" using True X D by (simp add: ah uint_high u div_pos_pos_trivial)
    then have "ah = 0" by (simp add: uint_0_iff)
    moreover have "uint (ucast a :: limb) = X" using True X D by (simp add: uint_low u mod_pos_pos_trivial)
    moreover have "uint (q + 1) = uint q + 1"
      using q True by (auto simp: X_def uint_limb_add)
    moreover have "n = (uint q + 1) * uint d + X" by (simp add: X_def algebra_simps)
    ultimately show "uint (q + (1 + ah)) = n div uint d \<and> uint (ucast a + (ah AND d)) = n mod uint d"
      using res [of "uint q + 1" X] True X by simp
  next
    case False
    have u: "uint a = X + limb_base * limb_base"
    proof -
      have "uint a = (X + limb_base * limb_base) mod (limb_base * limb_base)" using a by (simp add: X_def)
      also have "\<dots> = X + limb_base * limb_base"
        by (rule mod_pos_pos_trivial) (use False X D BB in linarith)+
      finally show ?thesis .
    qed
    have dv: "uint a div limb_base = limb_base - 1"
    proof -
      have "limb_base - 1 \<le> uint a div limb_base"
        by (rule int_le_div) (use u X D in \<open>simp_all add: algebra_simps\<close>)
      moreover have "uint a div limb_base < limb_base"
        by (rule int_div_less) (use u False in simp_all)
      ultimately show ?thesis by simp
    qed
    then have "uint ah = uint (- 1 :: limb)" by (simp add: ah uint_high uint_minus_1_limb)
    then have h: "ah = - 1" by (simp only: word_uint_eq_iff)
    have "uint a mod limb_base = X + limb_base"
    proof -
      have "uint a mod limb_base = uint a - limb_base * (limb_base - 1)" using mult_div_mod_eq [of limb_base "uint a"] dv by simp
      then show ?thesis by (simp add: u algebra_simps)
    qed
    then have "uint (ucast a + d :: limb) = X + uint d"
      using X False D by (simp add: uint_limb_add uint_low)
    moreover have "n = uint q * uint d + (X + uint d)" by (simp add: X_def)
    ultimately show "uint (q + (1 + ah)) = n div uint d \<and> uint (ucast a + (ah AND d)) = n mod uint d"
      using res [of "uint q" "X + uint d"] X False by (simp add: h)
  qed
qed

lemma two_limbs_less:
  fixes a1 a0 d :: limb
  assumes "a1 < d"
  shows "uint a1 * limb_base + uint a0 < uint d * limb_base"
proof -
  have "(uint a1 + 1) * limb_base \<le> uint d * limb_base" using assms by (intro mult_right_mono) (auto simp: word_less_def)
  then show ?thesis using uint_limb [of a0] by (simp add: algebra_simps)
qed

lemma udiv1norm_val:
  assumes d: "limb_base \<le> 2 * uint d" and a1: "a1 < d"
  shows "uint (fst (udiv1norm a1 a0 d (udiv1norm_init d))) = (uint a1 * limb_base + uint a0) div uint d"
    and "uint (snd (udiv1norm a1 a0 d (udiv1norm_init d))) = (uint a1 * limb_base + uint a0) mod uint d"
proof -
  define n where "n = uint a1 * limb_base + uint a0"
  define m where "m = (limb_base * limb_base - 1) div uint d"
  define e where "e = (limb_base * limb_base - 1) mod uint d"
  define t :: int where "t = (if limb_base \<le> 2 * uint a0 then 1 else 0)"
  define v where "v = udiv1norm_init d"
  define n1m where "n1m = signed_drop_bit (LIMB_BITS - 1) a0"
  define n_adj where "n_adj = a0 + (n1m AND d)"
  define a where "a = (ucast v * ucast (a1 - n1m) + ucast n_adj :: dlimb)"
  define q where "q = ucast (drop_bit LIMB_BITS a) + a1"
  define a' where "a' = ((push_bit LIMB_BITS (ucast a1) OR ucast a0) - ucast q * ucast d - ucast d :: dlimb)"
  define ah where "ah = (ucast (drop_bit LIMB_BITS a') :: limb)"
  have eq: "udiv1norm a1 a0 d v = (q + (1 + ah), ucast a' + (ah AND d))"
    by (simp add: udiv1norm_def Let_def n1m_def n_adj_def a_def q_def a'_def ah_def)
  have D: "0 < uint d" "uint d < limb_base" using d limb_base_gt_1 uint_limb [of d] by linarith+
  have A: "0 \<le> uint a1" "uint a1 < uint d" "0 \<le> uint a0" "uint a0 < limb_base" using a1 uint_limb [of a0] by (simp_all add: word_less_def)
  have vv: "uint v = m - limb_base" using udiv1norm_init_val [OF d] by (simp add: v_def m_def)
  have s: "n1m = (if limb_base \<le> 2 * uint a0 then - 1 else 0)" unfolding n1m_def by (rule sign_mask)
  have adj: "uint n_adj = uint a0 + t * (uint d - limb_base)"
    using d A D by (simp add: n_adj_def s t_def uint_limb_add)
  have up: "uint (a1 - n1m) = uint a1 + t" using A D by (simp add: s t_def uint_limb_add)
  have av: "uint a = uint v * (uint a1 + t) + uint n_adj"
  proof -
    have "uint v * uint (a1 - n1m) + uint n_adj < limb_base * limb_base"
      using mul_bound [OF uint_ge_0 uint_limb [of v] uint_ge_0 uint_limb [of "a1 - n1m"]] uint_limb [of n_adj] limb_base_gt_1 by linarith
    then show ?thesis by (simp add: a_def uint_word_ariths mod_simps limb_base_def mod_pos_pos_trivial flip: up)
  qed
  define Q where "Q = (m * uint a1 + uint a0 + t * (m - 2 * limb_base + uint d)) div limb_base"
  have QA: "Q = uint a1 + uint a div limb_base"
  proof -
    have "m * uint a1 + uint a0 + t * (m - 2 * limb_base + uint d) = uint a + uint a1 * limb_base"
      by (simp add: av adj vv algebra_simps)
    then show ?thesis by (simp add: Q_def)
  qed
  have me: "limb_base * limb_base - 1 = m * uint d + e" "0 \<le> e" "e < uint d" using D by (simp_all add: m_def e_def)
  have tt: "t = 0 \<and> 2 * uint a0 < limb_base \<or> t = 1 \<and> limb_base \<le> 2 * uint a0" by (auto simp: t_def)
  note Qb = udiv_estimate [OF d D(2) me A tt Q_def, folded n_def]
  have nd: "n < limb_base * uint d" using two_limbs_less [OF a1] by (simp add: n_def mult.commute)
  have Q0: "0 \<le> Q" unfolding QA using A by (simp add: pos_imp_zdiv_nonneg_iff)
  have "Q * uint d < limb_base * uint d" using Qb(1) nd by linarith
  then have Q1: "Q < limb_base" using D(1) by (simp add: mult_less_cancel_right)
  have uq: "uint q = Q"
    using Q0 Q1 uint_high [of a] A by (simp add: q_def uint_limb_add QA)
  have ua: "uint a' = (n - uint q * uint d - uint d) mod (limb_base * limb_base)"
  proof -
    have "uint (x - y * z - w :: dlimb) = (uint x - uint y * uint z - uint w) mod (limb_base * limb_base)" for x y z w
      by (simp add: uint_word_ariths mod_simps limb_base_def)
    then show ?thesis by (simp only: a'_def uint_join uint_up n_def)
  qed
  have qq: "uint q + 1 < limb_base \<or> n - uint q * uint d < uint d"
  proof (rule ccontr)
    assume "\<not> ?thesis"
    then have "limb_base * uint d \<le> (uint q + 1) * uint d" "uint d \<le> n - uint q * uint d" using D by (auto intro: mult_right_mono)
    then show False using nd by (simp add: algebra_simps)
  qed
  note r = udiv_correct [OF Qb [folded uq] ua qq ah_def]
  show "uint (fst (udiv1norm a1 a0 d (udiv1norm_init d))) = (uint a1 * limb_base + uint a0) div uint d"
    "uint (snd (udiv1norm a1 a0 d (udiv1norm_init d))) = (uint a1 * limb_base + uint a0) mod uint d"
    using r eq by (simp_all add: v_def n_def)
qed

section \<open>Values of the division by one limb\<close>

lemma limb_less_pos: "(r :: limb) < b \<Longrightarrow> 0 < uint b"
  unfolding word_less_def by (rule le_less_trans [OF uint_ge_0])

lemma div2by1_val:
  assumes "a1 < b"
  shows "uint (fst (div2by1 a1 a0 b)) = (uint a1 * limb_base + uint a0) div uint b"
    and "uint (snd (div2by1 a1 a0 b)) = (uint a1 * limb_base + uint a0) mod uint b"
proof -
  let ?n = "uint a1 * limb_base + uint a0"
  have b: "0 < uint b" by (rule limb_less_pos [OF assms])
  have n: "0 \<le> ?n" "?n < limb_base * uint b" using two_limbs_less [OF assms, of a0] by (simp_all add: mult.commute)
  have q: "0 \<le> ?n div uint b" "?n div uint b < limb_base"
    using n b int_div_less [OF b n(2)] by (simp_all add: pos_imp_zdiv_nonneg_iff)
  have r: "0 \<le> ?n mod uint b" "?n mod uint b < limb_base"
    using b pos_mod_bound [OF b, of ?n] pos_mod_sign [OF b, of ?n] uint_limb [of b] by linarith+
  have "uint (fst (div2by1 a1 a0 b)) = (?n div uint b) mod limb_base"
    by (simp only: div2by1_def Let_def fst_conv uint_low uint_div_distrib uint_join uint_up)
  then show "uint (fst (div2by1 a1 a0 b)) = ?n div uint b" using q by (simp add: mod_pos_pos_trivial)
  have "uint (snd (div2by1 a1 a0 b)) = (?n mod uint b) mod limb_base"
    by (simp only: div2by1_def Let_def snd_conv uint_low uint_mod_distrib uint_join uint_up)
  then show "uint (snd (div2by1 a1 a0 b)) = ?n mod uint b" using r by (simp add: mod_pos_pos_trivial)
qed

lemma div1_loop_val:
  assumes step: "\<And>r a. r < b \<Longrightarrow> uint (fst (step r a)) = (uint r * limb_base + uint a) div uint b \<and>
      uint (snd (step r a)) = (uint r * limb_base + uint a) mod uint b"
    and "r < b" "div1_loop step xs r = (qs, r')"
  shows "length qs = length xs \<and> r' < b \<and> mp_val qs * uint b + uint r' = mp_val xs + limb_base ^ length xs * uint r"
  using assms(3)
proof (induction xs arbitrary: qs r')
  case Nil
  then show ?case using assms(2) by simp
next
  case (Cons a xs)
  obtain tabr r1 where l: "div1_loop step xs r = (tabr, r1)" by fastforce
  obtain q r2 where q: "step r1 a = (q, r2)" by fastforce
  have e: "qs = q # tabr" "r' = r2" using Cons.prems l q by simp_all
  note ih = Cons.IH [OF l]
  have b: "0 < uint b" by (rule limb_less_pos [OF assms(2)])
  have s: "uint q = (uint r1 * limb_base + uint a) div uint b" "uint r2 = (uint r1 * limb_base + uint a) mod uint b"
    using step [of r1 a] ih q by simp_all
  have "r2 < b" using s(2) pos_mod_bound [OF b] by (simp add: word_less_def)
  moreover have "uint q * uint b + uint r2 = uint r1 * limb_base + uint a" by (simp add: s)
  moreover have "limb_base * (mp_val tabr * uint b + uint r1) = limb_base * (mp_val xs + limb_base ^ length xs * uint r)"
    using ih by simp
  ultimately show ?case using ih by (simp add: e algebra_simps)
qed

lemma mp_div1norm_val:
  assumes "n \<le> length taba" "limb_base \<le> 2 * uint b" "r < b"
  shows "\<exists>qs r'. mp_div1norm taba n b r = Some (qs, r') \<and> length qs = n \<and> r' < b \<and>
    mp_val qs * uint b + uint r' = mp_val (take n taba) + limb_base ^ n * uint r"
proof -
  define step where "step = (if n \<ge> UDIV1NORM_THRESHOLD then (\<lambda>r a. udiv1norm r a b (udiv1norm_init b)) else (\<lambda>r a. div2by1 r a b))"
  obtain qs r' where l: "div1_loop step (take n taba) r = (qs, r')" by fastforce
  have s: "uint (fst (step r a)) = (uint r * limb_base + uint a) div uint b \<and> uint (snd (step r a)) = (uint r * limb_base + uint a) mod uint b"
    if "r < b" for r a
    using udiv1norm_val [OF assms(2) that] div2by1_val [OF that] by (simp add: step_def)
  have "mp_div1norm taba n b r = Some (qs, r')"
    using assms(1,3) l by (auto simp: mp_div1norm_def rd_n_def step_def Let_def split: if_splits)
  then show ?thesis using div1_loop_val [OF s assms(3) l] assms(1) by simp
qed

lemma euclid:
  fixes q b r v :: int
  assumes "q * b + r = v" "0 \<le> r" "r < b"
  shows "q = v div b" "r = v mod b"
  using assms by (auto simp: div_pos_pos_trivial)

section \<open>The guess of a quotient limb\<close>

text \<open>With a normalised divisor the quotient of the two highest limbs by the highest limb of the divisor is not too small
  and at most two too large.\<close>

lemma guess_bounds:
  fixes W b b1 P q B :: int
  assumes b: "b1 * P \<le> b" "b < (b1 + 1) * P" and B: "B \<le> 2 * b1" "q < B" "0 \<le> q" and P: "0 < P"
    and lo: "q * b1 * P \<le> W"
  shows "(q - 2) * b \<le> W"
proof (cases "q \<le> 2")
  case True
  have "0 \<le> b1" using B by linarith
  then have "0 \<le> b" "0 \<le> W" using b(1) P lo B(3) by (auto intro: order_trans [rotated])
  then show ?thesis using True mult_nonpos_nonneg [of "q - 2" b] by linarith
next
  case False
  have "(q - 2) * b \<le> (q - 2) * ((b1 + 1) * P)" using False b by (intro mult_left_mono) auto
  also have "\<dots> = ((q - 2) * (b1 + 1)) * P" by simp
  also have "\<dots> \<le> (q * b1) * P"
  proof (rule mult_right_mono)
    have "(q - 2) * (b1 + 1) = q * b1 + (q - 2 - 2 * b1)" by (simp add: algebra_simps)
    then show "(q - 2) * (b1 + 1) \<le> q * b1" using B by linarith
  qed (use P in simp)
  finally show ?thesis using lo by simp
qed

lemma guess_not_small:
  fixes W b b1 P q t low :: int
  assumes "b1 * P \<le> b" "W = t * P + low" "low < P" "0 < P" "t < (q + 1) * b1" "0 \<le> q"
  shows "W < (q + 1) * b"
proof -
  have "W < (t + 1) * P" using assms(2,3) by (simp add: algebra_simps)
  also have "\<dots> \<le> ((q + 1) * b1) * P" using assms(4,5) by (intro mult_right_mono) auto
  also have "\<dots> = (q + 1) * (b1 * P)" by simp
  also have "\<dots> \<le> (q + 1) * b" using assms(1,6) by (intro mult_left_mono) auto
  finally show ?thesis .
qed

lemma mp_val_last:
  assumes "xs \<noteq> []"
  shows "mp_val xs = mp_val (butlast xs) + limb_base ^ (length xs - 1) * uint (last xs)"
  using mp_val_append [of "butlast xs" "[last xs]"] assms by simp

lemma divisor_bounds:
  assumes "0 < nb" "nb \<le> length tabb" "b1 = tabb ! (nb - 1)"
  shows "uint b1 * limb_base ^ (nb - 1) \<le> mp_val (take nb tabb)" "mp_val (take nb tabb) < (uint b1 + 1) * limb_base ^ (nb - 1)"
proof -
  have t1: "take nb tabb \<noteq> []" using assms(1,2) by auto
  then have t: "take nb tabb \<noteq> []" "length (take nb tabb) = nb" "last (take nb tabb) = b1"
    using assms by (simp_all add: last_conv_nth [OF t1] min_absorb2)
  have v: "mp_val (take nb tabb) = mp_val (butlast (take nb tabb)) + limb_base ^ (nb - 1) * uint b1"
    using mp_val_last [OF t(1)] t(2,3) by simp
  note mp_val_bounds [of "butlast (take nb tabb)"]
  then show "uint b1 * limb_base ^ (nb - 1) \<le> mp_val (take nb tabb)" "mp_val (take nb tabb) < (uint b1 + 1) * limb_base ^ (nb - 1)"
    using v t(2) by (simp_all add: algebra_simps)
qed

lemma quotient_guess_val:
  assumes "limb_base \<le> 2 * uint b1" "b1_inv = 0 \<or> b1_inv = udiv1norm_init b1"
  shows "uint (quotient_guess v a0 b1 b1_inv) = (if b1 \<le> v then limb_base - 1 else (uint v * limb_base + uint a0) div uint b1)"
  using udiv1norm_val(1) [OF assms(1), of v a0] div2by1_val(1) [of v b1 a0] assms(2)
  by (auto simp: quotient_guess_def uint_minus_1_limb)

lemma guess_window:
  assumes "0 < nb" "nb \<le> length tabb" "b1 = tabb ! (nb - 1)" "limb_base \<le> 2 * uint b1" "b1_inv = 0 \<or> b1_inv = udiv1norm_init b1"
    and "length win = nb" "mp_val win + limb_base ^ nb * uint v < limb_base * mp_val (take nb tabb)"
  defines "q \<equiv> uint (quotient_guess v (win ! (nb - 1)) b1 b1_inv)"
  shows "(q - 2) * mp_val (take nb tabb) \<le> mp_val win + limb_base ^ nb * uint v"
    and "mp_val win + limb_base ^ nb * uint v < (q + 1) * mp_val (take nb tabb)"
proof -
  define P where "P = limb_base ^ (nb - 1)"
  define b where "b = mp_val (take nb tabb)"
  define low where "low = mp_val (butlast win)"
  define t where "t = uint v * limb_base + uint (win ! (nb - 1))"
  define W where "W = mp_val win + limb_base ^ nb * uint v"
  have P: "0 < P" "limb_base ^ nb = limb_base * P" using assms(1) by (simp_all add: P_def flip: power_Suc)
  have b: "uint b1 * P \<le> b" "b < (uint b1 + 1) * P" unfolding P_def b_def by (rule divisor_bounds [OF assms(1-3)])+
  have win: "win \<noteq> []" "last win = win ! (nb - 1)" using assms(1,6) by (auto simp: last_conv_nth)
  have low: "0 \<le> low" "low < P" using mp_val_bounds [of "butlast win"] assms(6) by (simp_all add: low_def P_def)
  have "mp_val win = low + P * uint (win ! (nb - 1))"
    using mp_val_last [OF win(1)] win(2) assms(6) by (simp add: low_def P_def)
  then have W: "W = t * P + low" by (simp add: W_def t_def P(2) algebra_simps)
  have b1: "0 < uint b1" using assms(4) limb_base_gt_1 by linarith
  have q: "0 \<le> q" "q < limb_base" using uint_limb by (simp_all add: q_def)
  have qv: "q = (if b1 \<le> v then limb_base - 1 else t div uint b1)"
    unfolding q_def t_def by (rule quotient_guess_val [OF assms(4,5)])
  have less: "W < (q + 1) * b"
  proof (cases "b1 \<le> v")
    case True
    then show ?thesis using assms(7) qv by (simp add: W_def b_def)
  next
    case False
    then have "q * uint b1 + t mod uint b1 = t" using qv by simp
    then have "t < (q + 1) * uint b1" using pos_mod_bound [OF b1, of t] by (simp add: algebra_simps)
    then show ?thesis by (rule guess_not_small [OF b(1) W low(2) P(1) _ q(1)])
  qed
  have "q * uint b1 \<le> t"
  proof (cases "b1 \<le> v")
    case True
    then have "limb_base * uint b1 \<le> limb_base * uint v" by (simp add: word_le_def)
    moreover have "q * uint b1 \<le> limb_base * uint b1" using q(2) b1 by (intro mult_right_mono) auto
    ultimately show ?thesis unfolding t_def using uint_ge_0 [of "win ! (nb - 1)"] by (simp only: mult.commute [of "uint v"])
  next
    case False
    then have "q * uint b1 + t mod uint b1 = t" using qv by simp
    then show ?thesis using pos_mod_sign [OF b1, of t] by linarith
  qed
  then have "q * uint b1 * P \<le> t * P" using P(1) by (intro mult_right_mono) auto
  then have "q * uint b1 * P \<le> W" using W low(1) by linarith
  from guess_bounds [OF b assms(4) q(2,1) P(1) this]
  show "(q - 2) * mp_val (take nb tabb) \<le> mp_val win + limb_base ^ nb * uint v" by (simp add: b_def W_def)
  from less show "mp_val win + limb_base ^ nb * uint v < (q + 1) * mp_val (take nb tabb)" by (simp add: b_def W_def)
qed

section \<open>One limb of the quotient\<close>

lemma limb_0_1: "uint (c :: limb) \<le> 1 \<Longrightarrow> c \<noteq> 0 \<Longrightarrow> c = 1"
proof -
  assume c: "uint c \<le> 1" "c \<noteq> 0"
  then have "uint c \<noteq> 0" by (simp add: uint_0_iff)
  with c(1) have "uint c = uint (1 :: limb)" unfolding uint_1 using uint_ge_0 [of c] by linarith
  then show "c = 1" by (simp only: word_uint_eq_iff)
qed

text \<open>\<open>X\<close> is the difference, whose highest limb \<open>hi\<close> has wrapped around; \<open>k\<close> additions of the divisor are enough.\<close>

lemma add_back_val:
  assumes "length win = nb" "nb \<le> length tabb" "b = mp_val (take nb tabb)"
    and "mp_val win + limb_base ^ nb * (uint hi - limb_base) = X" "- (int k * b) \<le> X"
  shows "\<exists>j win'. add_back k q win hi tabb nb = Some (q - of_int j, win', 0) \<and> length win' = nb \<and>
    mp_val win' = X + j * b \<and> 0 \<le> mp_val win' \<and> mp_val win' < b"
  using assms(1,4,5)
proof (induction k arbitrary: q win hi X)
  case 0
  have "0 < limb_base ^ nb * (limb_base - uint hi) - mp_val win"
  proof -
    have "limb_base ^ nb * 1 \<le> limb_base ^ nb * (limb_base - uint hi)" using uint_limb [of hi] by (intro mult_left_mono) auto
    moreover have "mp_val win < limb_base ^ nb" using mp_val_bounds(2) [of win] "0.prems"(1) by simp
    ultimately show ?thesis by linarith
  qed
  then show ?case using "0.prems" by (simp add: algebra_simps)
next
  case (Suc k)
  obtain w c where m: "mp_add win tabb nb 0 = Some (w, c)" "length w = nb" "uint c \<le> 1"
      "mp_val w + limb_base ^ nb * uint c = mp_val win + b"
    using mp_linear_vals(1) [of nb win tabb 0] Suc.prems(1) assms(2,3) by auto
  have neg: "X < 0"
  proof -
    have "limb_base ^ nb * (uint hi - limb_base) \<le> limb_base ^ nb * (- 1)" using uint_limb [of hi] by (intro mult_left_mono) auto
    moreover have "mp_val win < limb_base ^ nb" using mp_val_bounds(2) [of win] Suc.prems(1) by simp
    ultimately show ?thesis using Suc.prems(2) by linarith
  qed
  have wb: "0 \<le> mp_val w" "mp_val w < limb_base ^ nb" using mp_val_bounds [of w] m(2) by simp_all
  have X': "mp_val w + limb_base ^ nb * (uint hi + uint c - limb_base) = X + b"
    using m(4) Suc.prems(2) by (simp add: algebra_simps)
  show ?case
  proof (cases "c \<noteq> 0 \<and> hi + 1 = 0")
    case True
    have "uint c = 1" using limb_0_1 [OF m(3)] True by simp
    moreover have "hi = - 1" using True by (simp only: eq_neg_iff_add_eq_0)
    ultimately have v: "mp_val w = X + b" using X' by (simp add: uint_minus_1_limb)
    have "add_back (Suc k) q win hi tabb nb = Some (q - of_int 1, w, 0)" using m(1) True by simp
    then show ?thesis using v wb neg m(2) by (intro exI [of _ 1] exI [of _ w]) simp
  next
    case False
    have h: "uint (hi + c) = uint hi + uint c"
    proof (cases "c = 0")
      case nz: False
      then have "c = 1" by (rule limb_0_1 [OF m(3)])
      moreover have "uint hi + 1 < limb_base"
      proof (rule ccontr)
        assume "\<not> ?thesis"
        then have "uint hi = uint (- 1 :: limb)" using uint_limb [of hi] by (simp add: uint_minus_1_limb)
        then have "hi = - 1" by (simp only: word_uint_eq_iff)
        then show False using False nz by simp
      qed
      ultimately show ?thesis by (simp add: uint_limb_add)
    qed simp
    have "add_back (Suc k) q win hi tabb nb = add_back k (q - 1) w (hi + c) tabb nb"
    proof (cases "c = 0")
      case nz: False
      then have "c = 1" by (rule limb_0_1 [OF m(3)])
      then show ?thesis using m(1) False by simp
    qed (use m(1) in simp)
    moreover have "- (int k * b) \<le> X + b" using Suc.prems(3) by (simp add: algebra_simps)
    moreover have "mp_val w + limb_base ^ nb * (uint (hi + c) - limb_base) = X + b" using X' h by simp
    ultimately obtain j w' where "add_back (Suc k) q win hi tabb nb = Some (q - 1 - of_int j, w', 0)" "length w' = nb"
        "mp_val w' = X + b + j * b" "0 \<le> mp_val w'" "mp_val w' < b"
      using Suc.IH [OF m(2), of "hi + c" "X + b" "q - 1"] by auto
    then show ?thesis by (intro exI [of _ "j + 1"] exI [of _ w']) (simp add: algebra_simps)
  qed
qed

lemma divnorm_step_val:
  assumes "0 < nb" "nb \<le> length tabb" "b1 = tabb ! (nb - 1)" "limb_base \<le> 2 * uint b1" "b1_inv = 0 \<or> b1_inv = udiv1norm_init b1"
    and "length win = nb" "b = mp_val (take nb tabb)" "W = mp_val win + limb_base ^ nb * uint v" "W < limb_base * b"
  shows "\<exists>q win'. divnorm_step win v tabb nb b1 b1_inv = Some (q, win', 0) \<and> length win' = nb \<and>
    uint q * b + mp_val win' = W \<and> mp_val win' < b"
proof -
  define q where "q = quotient_guess v (win ! (nb - 1)) b1 b1_inv"
  have g: "(uint q - 2) * b \<le> W" "W < (uint q + 1) * b"
    using guess_window [OF assms(1-6), of v] assms(7-9) by (simp_all add: q_def)
  obtain w r where s: "sub_mul1_loop win (take nb tabb) q 0 = (w, r)" by fastforce
  have w: "length w = nb" "mp_val w + b * uint q = mp_val win + limb_base ^ nb * uint r"
    using sub_mul1_loop_val [OF _ s] assms(2,6,7) by auto
  have X: "mp_val w + limb_base ^ nb * (uint v - uint r) = W - uint q * b"
    using w(2) assms(8) by (simp add: algebra_simps)
  have wb: "0 \<le> mp_val w" "mp_val w < limb_base ^ nb" using mp_val_bounds [of w] w(1) by simp_all
  have step: "divnorm_step win v tabb nb b1 b1_inv = (if v - r > v then add_back 2 q w (v - r) tabb nb else Some (q, w, v - r))"
    using assms(1,2,6) s by (simp add: divnorm_step_def mp_sub_mul1_def rd_def rd_n_def q_def Let_def)
  show ?thesis
  proof (cases "uint r \<le> uint v")
    case True
    then have u: "uint (v - r) = uint v - uint r" by (simp add: uint_limb_sub)
    then have le: "\<not> v - r > v" using uint_ge_0 [of r] by (simp add: word_less_def del: uint_ge_0)
    have bB: "b < limb_base ^ nb" using mp_val_bounds(2) [of "take nb tabb"] assms(2,7) by (simp add: min_absorb2)
    have "uint v - uint r < 1"
    proof (rule ccontr)
      assume "\<not> ?thesis"
      then have "limb_base ^ nb * 1 \<le> limb_base ^ nb * (uint v - uint r)" by (intro mult_left_mono) auto
      then show False using X g(2) wb(1) bB by (simp add: algebra_simps)
    qed
    then have z: "uint v - uint r = 0" using True by linarith
    then have "v - r = 0" using u by (simp add: uint_0_iff)
    moreover have "uint q * b + mp_val w = W" "mp_val w < b" using X z g(2) by (simp_all add: algebra_simps)
    ultimately show ?thesis using step le w(1) by simp
  next
    case False
    then have u: "uint (v - r) = uint v - uint r + limb_base" by (simp add: uint_limb_sub)
    have gt: "v - r > v" using u uint_limb [of r] by (simp add: word_less_def)
    have "mp_val w + limb_base ^ nb * (uint (v - r) - limb_base) = W - uint q * b" using X u by simp
    moreover have "- (int 2 * b) \<le> W - uint q * b" using g(1) by (simp add: algebra_simps)
    ultimately obtain j w' where j: "add_back 2 q w (v - r) tabb nb = Some (q - of_int j, w', 0)" "length w' = nb"
        "mp_val w' = W - uint q * b + j * b" "0 \<le> mp_val w'" "mp_val w' < b"
      using add_back_val [OF w(1) assms(2,7)] by blast
    have e: "(uint q - j) * b + mp_val w' = W" using j(3) by (simp add: algebra_simps)
    have b0: "0 < b" using j(4,5) by linarith
    have W0: "0 \<le> W" using assms(8) mp_val_bounds(1) [of win] by simp
    have qd: "uint q - j = W div b" using euclid(1) [OF e j(4,5)] .
    then have "0 \<le> uint q - j" "uint q - j < limb_base"
      using W0 b0 int_div_less [OF b0 assms(9)] by (simp_all add: pos_imp_zdiv_nonneg_iff)
    then have "uint (q - of_int j) = uint q - j"
      by (simp add: uint_word_ariths uint_word_of_int limb_base_def mod_simps mod_pos_pos_trivial)
    then show ?thesis using step gt j e by auto
  qed
qed

section \<open>The loop over the quotient\<close>

lemma block_parts:
  assumes "i + nb < length xs"
  shows "take (Suc i + nb) xs = take i xs @ take nb (drop i xs) @ [xs ! (i + nb)]"
proof -
  have "take (Suc (i + nb)) xs = take (i + nb) xs @ [xs ! (i + nb)]" using assms by (simp add: take_Suc_conv_app_nth)
  then show "take (Suc i + nb) xs = take i xs @ take nb (drop i xs) @ [xs ! (i + nb)]" by (simp add: take_add)
qed

lemma window_down:
  assumes "i + nb < length xs" "mp_val (take nb (drop (Suc i) xs)) < b"
  shows "mp_val (take nb (drop i xs)) + limb_base ^ nb * uint (xs ! (i + nb)) < limb_base * b"
proof -
  have "take (Suc nb) (drop i xs) = take nb (drop i xs) @ [xs ! (i + nb)]" using assms(1) by (simp add: take_Suc_conv_app_nth add.commute)
  moreover have "drop i xs = xs ! i # drop (Suc i) xs" using assms(1) by (simp add: Cons_nth_drop_Suc)
  ultimately have "mp_val (take nb (drop i xs) @ [xs ! (i + nb)]) = uint (xs ! i) + limb_base * mp_val (take nb (drop (Suc i) xs))"
    by (metis mp_val.simps(2) take_Suc_Cons)
  moreover have "limb_base * (mp_val (take nb (drop (Suc i) xs)) + 1) \<le> limb_base * b" using assms(2) by (intro mult_left_mono) auto
  ultimately show ?thesis using uint_limb [of "xs ! i"] assms(1) by (simp add: mp_val_append algebra_simps)
qed

lemma divnorm_loop_val:
  assumes "0 < nb" "nb \<le> length tabb" "b1 = tabb ! (nb - 1)" "limb_base \<le> 2 * uint b1" "b1_inv = 0 \<or> b1_inv = udiv1norm_init b1"
    and "b = mp_val (take nb tabb)"
    and "i + nb \<le> length taba" "i \<le> length tabq" "mp_val (take nb (drop i taba)) < b"
  shows "\<exists>tabq' taba'. divnorm_loop i tabq taba tabb nb b1 b1_inv = Some (tabq', taba') \<and>
    length tabq' = length tabq \<and> length taba' = length taba \<and> drop i tabq' = drop i tabq \<and>
    drop (i + nb) taba' = drop (i + nb) taba \<and>
    mp_val (take i tabq') * b + mp_val (take nb taba') = mp_val (take (i + nb) taba) \<and> mp_val (take nb taba') < b"
  using assms(7-9)
proof (induction i arbitrary: tabq taba)
  case (Suc i)
  have len: "i + nb < length taba" "i < length tabq" using Suc.prems by simp_all
  define win where "win = take nb (drop i taba)"
  define v where "v = taba ! (i + nb)"
  have lw: "length win = nb" using len by (simp add: win_def)
  have W: "mp_val win + limb_base ^ nb * uint v < limb_base * b"
    unfolding win_def v_def by (rule window_down) (use len Suc.prems(3) in simp_all)
  obtain q w where st: "divnorm_step win v tabb nb b1 b1_inv = Some (q, w, 0)" "length w = nb"
      "uint q * b + mp_val w = mp_val win + limb_base ^ nb * uint v" "mp_val w < b"
    using divnorm_step_val [OF assms(1-5) lw assms(6) refl W] by blast
  define lo where "lo = take i taba"
  define hi where "hi = drop (Suc (i + nb)) taba"
  have parts: "taba = lo @ win @ v # hi" "length lo = i"
  proof -
    have "taba = take (Suc i + nb) taba @ hi" by (simp add: hi_def)
    then show "taba = lo @ win @ v # hi" using block_parts [OF len(1)] by (simp add: lo_def win_def v_def)
  qed (use len in \<open>simp add: lo_def\<close>)
  define taba1 where "taba1 = lo @ w @ 0 # hi"
  have m: "memcpy taba i w = Some (lo @ w @ v # hi)" using memcpy_middle [of w win i lo "v # hi"] parts lw st(2) by simp
  have wr1: "wr (lo @ w @ v # hi) (i + nb) 0 = Some taba1"
    using wr_middle [of "i + nb" "lo @ w" v hi 0] parts(2) st(2) by (simp add: taba1_def)
  have loop: "divnorm_loop (Suc i) tabq taba tabb nb b1 b1_inv = divnorm_loop i (tabq[i := q]) taba1 tabb nb b1 b1_inv"
    using len st(1) m wr1 by (simp add: rd_n_def rd_def win_def [symmetric] v_def [symmetric] wr_def)
  have t1: "i + nb \<le> length taba1" "i \<le> length (tabq[i := q])" "mp_val (take nb (drop i taba1)) < b"
    using parts(2) st(2,4) len by (simp_all add: taba1_def)
  from Suc.IH [OF t1] obtain tabq' taba' where ih: "divnorm_loop i (tabq[i := q]) taba1 tabb nb b1 b1_inv = Some (tabq', taba')"
      "length tabq' = length tabq" "length taba' = length taba1" "drop i tabq' = drop i (tabq[i := q])"
      "drop (i + nb) taba' = drop (i + nb) taba1"
      "mp_val (take i tabq') * b + mp_val (take nb taba') = mp_val (take (i + nb) taba1)" "mp_val (take nb taba') < b"
    by auto
  have "drop i tabq' = q # drop (Suc i) tabq" using ih(4) len(2) by (simp add: drop_update_swap Cons_nth_drop_Suc [symmetric])
  then have q: "tabq' ! i = q" "drop (Suc i) tabq' = drop (Suc i) tabq"
    using len(2) ih(2) by (metis hd_drop_conv_nth list.sel(1), metis drop_Suc list.sel(3) tl_drop)
  have "mp_val (take (Suc i) tabq') = mp_val (take i tabq') + limb_base ^ i * uint q"
    using len(2) ih(2) q(1) by (simp add: take_Suc_conv_app_nth mp_val_append)
  moreover have "mp_val (take (Suc i + nb) taba) = mp_val lo + limb_base ^ i * (uint q * b + mp_val w)"
    unfolding st(3) using parts lw by (simp add: mp_val_append algebra_simps)
  moreover have "mp_val (take (i + nb) taba1) = mp_val lo + limb_base ^ i * mp_val w"
    using parts(2) st(2) by (simp add: taba1_def mp_val_append)
  ultimately have "mp_val (take (Suc i) tabq') * b + mp_val (take nb taba') = mp_val (take (Suc i + nb) taba)"
    using ih(6) by (simp add: algebra_simps)
  moreover have "drop (Suc i + nb) taba' = drop (Suc i + nb) taba"
  proof -
    have "drop (Suc i + nb) taba' = drop 1 (drop (i + nb) taba')" by simp
    also have "\<dots> = drop (Suc i + nb) taba1" by (simp add: ih(5))
    also have "\<dots> = drop (Suc i + nb) taba" using parts lw st(2) by (simp add: taba1_def)
    finally show ?thesis .
  qed
  moreover have "length taba' = length taba" using ih(3) parts lw st(2) by (simp add: taba1_def)
  ultimately show ?case using loop ih(1,2,7) q(2) by auto
qed simp

section \<open>The whole division\<close>

lemma first_quotient_val:
  assumes "nb \<le> length win" "nb \<le> length tabb"
  shows "first_quotient win tabb nb = Some (if mp_val (take nb win) < mp_val (take nb tabb) then 0 else 1)"
  using cmp_loop_val [OF assms] by (auto simp: first_quotient_def sgn_if)

text \<open>After the first iteration the window at the top of the dividend is smaller than the divisor.\<close>

lemma first_iteration:
  assumes "0 < nb" "nb \<le> length tabb" "limb_base \<le> 2 * uint (tabb ! (nb - 1))" "nb < 2 ^ 31"
    and "n + nb \<le> length taba" "b = mp_val (take nb tabb)"
  shows "\<exists>q taba'. first_quotient (drop n taba) tabb nb = Some q \<and> uint q \<le> 1 \<and>
    (if q \<noteq> 0 then do { (win, _) \<leftarrow> mp_sub (drop n taba) tabb nb 0; memcpy taba n win } else Some taba) = Some taba' \<and>
    length taba' = length taba \<and> mp_val (take nb (drop n taba')) < b \<and>
    mp_val (take (n + nb) taba) = limb_base ^ n * (uint q * b) + mp_val (take (n + nb) taba')"
proof -
  define lo where "lo = take n taba"
  define win where "win = take nb (drop n taba)"
  define hi where "hi = drop (n + nb) taba"
  have parts: "taba = lo @ win @ hi" "length lo = n" "length win = nb"
  proof -
    have "taba = take (n + nb) taba @ hi" by (simp add: hi_def)
    then show "taba = lo @ win @ hi" by (simp add: lo_def win_def take_add)
  qed (use assms(5) in \<open>simp_all add: lo_def win_def\<close>)
  have fq: "first_quotient (drop n taba) tabb nb = Some (if mp_val win < b then 0 else 1)"
    unfolding win_def assms(6) by (rule first_quotient_val) (use assms(2,5) in simp_all)
  show ?thesis
  proof (cases "mp_val win < b")
    case True
    then show ?thesis using fq by (simp add: win_def)
  next
    case False
    obtain w k where m: "mp_sub (drop n taba) tabb nb 0 = Some (w, k)" "length w = nb"
        "mp_val w = mp_val win - b + limb_base ^ nb * uint k"
    proof -
      have "nb \<le> length (drop n taba)" using assms(5) by simp
      then show ?thesis using that mp_linear_vals(2) [of nb "drop n taba" tabb 0] assms(2,4)
        by (fastforce simp: win_def assms(6))
    qed
    have wb: "mp_val w < limb_base ^ nb" using mp_val_bounds(2) [of w] m(2) by simp
    have "uint k < 1"
    proof (rule ccontr)
      assume "\<not> ?thesis"
      then have "limb_base ^ nb * 1 \<le> limb_base ^ nb * uint k" by (intro mult_left_mono) auto
      then show False using wb m(3) False by linarith
    qed
    then have "uint k = 0" using uint_ge_0 [of k] by linarith
    then have w: "mp_val w = mp_val win - b" using m(3) by simp
    have "limb_base ^ nb \<le> 2 * b"
    proof -
      have P: "limb_base ^ nb = limb_base * limb_base ^ (nb - 1)" using assms(1) by (simp flip: power_Suc)
      have "limb_base * limb_base ^ (nb - 1) \<le> (2 * uint (tabb ! (nb - 1))) * limb_base ^ (nb - 1)"
        by (rule mult_right_mono [OF assms(3)]) simp
      moreover have "(2 * uint (tabb ! (nb - 1))) * limb_base ^ (nb - 1) \<le> 2 * b"
        using divisor_bounds(1) [OF assms(1,2) refl] unfolding assms(6) by simp
      ultimately show ?thesis using P by linarith
    qed
    moreover have "mp_val win < limb_base ^ nb" using mp_val_bounds(2) [of win] parts(3) by simp
    ultimately have "mp_val w < b" using w by linarith
    moreover have "memcpy taba n w = Some (lo @ w @ hi)" using memcpy_middle [of w win n lo hi] parts m(2) by simp
    moreover have "mp_val (take (n + nb) taba) = limb_base ^ n * (1 * b) + mp_val (take (n + nb) (lo @ w @ hi))"
    proof -
      have "mp_val win = b + mp_val w" using w by simp
      then show ?thesis using parts m(2) by (simp add: mp_val_append algebra_simps)
    qed
    ultimately show ?thesis using fq False m(1,2) parts by auto
  qed
qed

lemma mp_divnorm_one:
  assumes "0 < na" "na \<le> length taba" "0 < length tabb" "na \<le> length tabq" "limb_base \<le> 2 * uint (tabb ! 0)"
  shows "\<exists>tabq' taba'. mp_divnorm large tabq taba na tabb 1 = Some (0, tabq', taba') \<and>
    mp_val (take na tabq') = mp_val (take na taba) div mp_val (take 1 tabb) \<and>
    mp_val (take 1 taba') = mp_val (take na taba) mod mp_val (take 1 tabb)"
proof -
  define b where "b = tabb ! 0"
  have b: "rd tabb 0 = Some b" "mp_val (take 1 tabb) = uint b" "0 < b"
    using assms(3,5) limb_base_gt_1 by (cases tabb; auto simp: rd_def b_def word_less_def)+
  obtain qs r where d: "mp_div1norm taba na b 0 = Some (qs, r)" "length qs = na" "r < b"
      "mp_val qs * uint b + uint r = mp_val (take na taba)"
    using mp_div1norm_val [OF assms(2) assms(5) [folded b_def] b(3)] by auto
  have q: "mp_val qs = mp_val (take na taba) div uint b" "uint r = mp_val (take na taba) mod uint b"
    using euclid [OF d(4)] d(3) by (simp_all add: word_less_def)
  have m: "memcpy tabq 0 qs = Some (qs @ drop na tabq)" using d(2) assms(4) by (simp add: memcpy_def)
  have "mp_divnorm large tabq taba na tabb 1 = Some (0, qs @ drop na tabq, taba[0 := r])"
  proof -
    have "0 < length taba" using assms(1,2) by linarith
    then show ?thesis using d(1) m b(1) by (simp add: mp_divnorm_def wr_def)
  qed
  moreover have "take 1 (taba[0 := r]) = [r]" using assms(1,2) by (cases taba) auto
  ultimately show ?thesis using q d(2) b(2) by simp
qed

lemma mp_divnorm_many:
  assumes "1 < nb" "nb \<le> na" "na \<le> length taba" "nb \<le> length tabb" "na - nb < length tabq"
    and "limb_base \<le> 2 * uint (tabb ! (nb - 1))" "min (na - nb) nb < DIVNORM_LARGE_THRESHOLD" "nb < 2 ^ 31"
  shows "\<exists>tabq' taba'. mp_divnorm large tabq taba na tabb nb = Some (0, tabq', taba') \<and>
    mp_val (take (na - nb + 1) tabq') = mp_val (take na taba) div mp_val (take nb tabb) \<and>
    mp_val (take nb taba') = mp_val (take na taba) mod mp_val (take nb tabb)"
proof -
  define n where "n = na - nb"
  define b where "b = mp_val (take nb tabb)"
  define b1 where "b1 = tabb ! (nb - 1)"
  define b1_inv where "b1_inv = (if n \<ge> UDIV1NORM_THRESHOLD then udiv1norm_init b1 else 0)"
  have na: "na = n + nb" "0 < nb" "n < length tabq" using assms(1,2,5) by (simp_all add: n_def)
  obtain q taba1 where f: "first_quotient (drop n taba) tabb nb = Some q" "uint q \<le> 1"
      "(if q \<noteq> 0 then do { (win, _) \<leftarrow> mp_sub (drop n taba) tabb nb 0; memcpy taba n win } else Some taba) = Some taba1"
      "length taba1 = length taba" "mp_val (take nb (drop n taba1)) < b"
      "mp_val (take (n + nb) taba) = limb_base ^ n * (uint q * b) + mp_val (take (n + nb) taba1)"
    using first_iteration [OF na(2) assms(4,6,8) _ b_def, of n taba] assms(3) na(1) by auto
  have inv: "b1_inv = 0 \<or> b1_inv = udiv1norm_init b1" by (simp add: b1_inv_def)
  obtain tabq' taba' where l: "divnorm_loop n (tabq[n := q]) taba1 tabb nb b1 b1_inv = Some (tabq', taba')"
      "length tabq' = length tabq" "drop n tabq' = drop n (tabq[n := q])"
      "mp_val (take n tabq') * b + mp_val (take nb taba') = mp_val (take (n + nb) taba1)" "mp_val (take nb taba') < b"
    using divnorm_loop_val [OF na(2) assms(4) b1_def assms(6) [folded b1_def] inv b_def, of n taba1 "tabq[n := q]"]
      f(4,5) assms(3) na by auto
  have rd: "rd tabb (nb - 1) = Some b1" using assms(1,4) by (simp add: rd_def b1_def)
  have b1: "b1 \<noteq> 0" using assms(6) limb_base_gt_1 by (auto simp: b1_def)
  have "mp_divnorm large tabq taba na tabb nb = Some (0, tabq', taba')"
  proof -
    have "\<not> min n nb \<ge> DIVNORM_LARGE_THRESHOLD" using assms(7) by (simp only: not_le n_def)
    then have "mp_divnorm large tabq taba na tabb nb = do {
        tabq \<leftarrow> wr tabq n q;
        taba \<leftarrow> (if q \<noteq> 0 then do { (win, _) \<leftarrow> mp_sub (drop n taba) tabb nb 0; memcpy taba n win } else Some taba);
        (tabq, taba) \<leftarrow> divnorm_loop n tabq taba tabb nb b1 b1_inv;
        Some (0, tabq, taba) }"
      using assms(1,2) rd f(1) b1 by (simp only: mp_divnorm_def Let_def n_def [symmetric] b1_inv_def [symmetric]) (simp add: b1_inv_def)
    then show ?thesis using f(3) l(1) na(3) by (simp only: wr_def if_True bind.bind_lunit prod.case)
  qed
  moreover have "tabq' ! n = q"
    using l(2,3) na(3) by (metis hd_drop_conv_nth length_list_update nth_list_update_eq)
  then have "mp_val (take (n + 1) tabq') = mp_val (take n tabq') + limb_base ^ n * uint q"
    using l(2) na(3) by (simp add: take_Suc_conv_app_nth mp_val_append)
  then have e: "mp_val (take (n + 1) tabq') * b + mp_val (take nb taba') = mp_val (take na taba)"
    using l(4) f(6) na(1) by (simp add: algebra_simps)
  note euclid [OF e mp_val_bounds(1) l(5)]
  ultimately show ?thesis by (simp add: b_def n_def)
qed

section \<open>Properties\<close>

text \<open>C32: Division of arrays of limbs. For a divisor of \<open>nb\<close> limbs whose highest bit is set, a dividend of \<open>na \<ge> nb\<close>
  limbs and room for \<open>na - nb + 1\<close> limbs of the quotient, \<open>mp_divnorm\<close> stays in its arrays, ends (no limb of the
  quotient needs more than two corrections) and leaves the exact quotient in \<open>tabq\<close> and the exact remainder in the low
  \<open>nb\<close> limbs of \<open>taba\<close>. This covers the division by one limb, with and without the precomputed inverse, and the schoolbook
  division up to the size where \<open>mp_divnorm_large\<close> takes over.\<close>

theorem mp_divnorm_exact:
  assumes "0 < nb" "nb \<le> na" "na \<le> length taba" "nb \<le> length tabb" "na - nb < length tabq"
    and "limb_base \<le> 2 * uint (tabb ! (nb - 1))"
    and "nb = 1 \<or> min (na - nb) nb < DIVNORM_LARGE_THRESHOLD" "nb < 2 ^ 31"
  shows "\<exists>tabq' taba'. mp_divnorm large tabq taba na tabb nb = Some (0, tabq', taba') \<and>
    mp_val (take (na - nb + 1) tabq') = mp_val (take na taba) div mp_val (take nb tabb) \<and>
    mp_val (take nb taba') = mp_val (take na taba) mod mp_val (take nb tabb)"
proof (cases "nb = 1")
  case True
  then show ?thesis using mp_divnorm_one [of na taba tabb tabq large] assms by (cases tabb) simp_all
next
  case False
  then show ?thesis using mp_divnorm_many [of nb na taba tabb tabq large] assms by simp
qed

theorem mp_divnorm_exact_witness:
  "\<exists>tabq' taba'. mp_divnorm (\<lambda>_ _ _ _ _. None) [0, 0, 0] [5, 7, - 1, 9] 4 [1, - 1] 2 = Some (0, tabq', taba') \<and>
    mp_val (take 3 tabq') = mp_val [5, 7, - 1, 9] div mp_val [1, - 1] \<and> mp_val (take 2 taba') = mp_val [5, 7, - 1, 9] mod mp_val [1, - 1]"
  using mp_divnorm_exact [of 2 4 "[5, 7, - 1, 9]" "[1, - 1]" "[0, 0, 0]" "\<lambda>_ _ _ _ _. None"]
  by (simp add: uint_minus_1_limb DIVNORM_LARGE_THRESHOLD_def limb_base_def)

end
