(* ===== verification/Spec2Isabelle.thy ===== *)
theory Spec2Isabelle
  imports Cutils Dyn_Buf Utf8 Char_Range Rqsort_Correct List_Head Unicode_Case Unicode_Tables Unicode_Lookup Unicode_Prop Unicode_Prop_Case Unicode_Prop_Correct Unicode_Script Unicode_Norm_Props Regexp_Code Regexp_Exec Regexp_Safe Regexp_Compile Regexp_Class Regexp_Literal Regexp_Buffer Regexp_Errors Bf_Limbs Bf_Division
begin

text \<open>
  A verification development for the C support libraries of the JavaScript engine that rapidrows embeds.

  \<^bold>\<open>The program.\<close> rapidrows is an API server; its script endpoints run JavaScript in the engine under
  \<^verbatim>\<open>src/qjs\<close>. The engine rests on a few C libraries that hold the memory-critical algorithms, and these
  are what is modelled here: byte and string helpers, the dynamic buffer, UTF-8, sorting and the intrusive lists of
  \<^verbatim>\<open>cutils.c\<close>, \<^verbatim>\<open>cutils.h\<close> and \<^verbatim>\<open>list.h\<close>; the Unicode library \<^verbatim>\<open>libunicode.c\<close> with the
  tables of \<^verbatim>\<open>libunicode-table.h\<close>; the regular expression library \<^verbatim>\<open>libregexp.c\<close>; and the limb arithmetic of
  \<^verbatim>\<open>libbf.c\<close>. The dynamic
  buffer is used by the normaliser and by the regular expression compiler, character ranges and case conversion by
  both, the sorting routine by typed arrays.

  \<^bold>\<open>How the code is represented.\<close> A machine integer whose bits or wrap-around matter is a word of its width. Sizes,
  positions and counts are natural numbers, and a C \<^verbatim>\<open>int\<close> that is only counted with is a natural number or an integer:
  the overflow is written out where the code can meet it (the counters of \<^verbatim>\<open>mp_sub\<close> and \<^verbatim>\<open>mp_neg\<close>, the length in
  \<^verbatim>\<open>pstrcat\<close>, the sizes of \<^verbatim>\<open>DynBuf\<close>). The fields \<^verbatim>\<open>len\<close> and \<^verbatim>\<open>size\<close> of \<^verbatim>\<open>CharRange\<close> are natural numbers without
  such a limit; \<open>cr_realloc_int\<close> and \<open>canonical_length\<close> say up to which size, and that a canonical range of code points is
  small enough. A block of memory is a list; a
  read or write outside of it, an assertion that fails and any other undefined behaviour is the value \<open>None\<close>, so that
  memory safety of an operation reads "the operation returns \<open>Some\<close>" (\<open>Prelude\<close>). A return code of the C function
  is part of the result. The allocator is a parameter, a predicate that says which requests are granted. Tables are
  literal lists with the entries of the source, cut into parts where they are long.

  \<^bold>\<open>Loops and bounds.\<close> Loops are recursive functions with a measure, with four exceptions. The interpreter of regular
  expressions carries fuel, because there is byte code that never ends; running out is a result of its own.
  \<open>to_nfd_rec\<close> carries the depth of its recursion, and a depth of three is shown to be enough for every input. In
  the compiler \<open>re_parse_disjunction\<close> carries the depth to which groups are nested, and the loops over alternatives,
  terms and the members of a class carry the length of the pattern; running out is the outcome \<open>Exhausted\<close>, or
  \<open>Fuel_Exhausted\<close> for \<open>lre_compile\<close>, and never \<open>None\<close>. The loop of \<open>mp_divnorm\<close> that adds the divisor back makes at
  most two rounds, which is shown to be enough.

  \<^bold>\<open>Theories and sources.\<close>
  \<^item> \<open>Cutils\<close>: \<^verbatim>\<open>pstrcpy\<close>, \<^verbatim>\<open>pstrcat\<close>, \<^verbatim>\<open>strstart\<close>, \<^verbatim>\<open>has_suffix\<close>, byte access and byte order of
    \<^verbatim>\<open>cutils\<close>; truncation, prefix and suffix tests; loads after stores, as lemmas for the buffers.
  \<^item> \<open>Dyn_Buf\<close>: \<^verbatim>\<open>DynBuf\<close> and \<^verbatim>\<open>dbuf_insert\<close>; the buffer invariant, and the locale \<open>append_buffer\<close> that says why
    clients may append without testing every result.
  \<^item> \<open>Utf8\<close>: encoder and decoder; round trip, shortest form, reads stay in a terminated block.
  \<^item> \<open>Char_Range\<close>: \<^verbatim>\<open>cr_op\<close>, \<^verbatim>\<open>cr_invert\<close> and the other operations on sorted boundary arrays, against sets of
    code points.
  \<^item> \<open>Rqsort\<close>, \<open>Rqsort_Bytes\<close>, \<open>Rqsort_Correct\<close>: \<^verbatim>\<open>rqsort\<close> with its heap sort fallback and byte exchange
    functions; permutation for every comparison function, sortedness for consistent ones, and \<^verbatim>\<open>js_typed_array_sort\<close> with the comparators of all classes of typed arrays,
    floats included, where the script gives no comparison function.
  \<^item> \<open>List_Head\<close>: \<^verbatim>\<open>list.h\<close> on an explicit heap; the represented sequence under insertion, deletion and iteration.
  \<^item> \<open>Unicode_Case\<close>: \<^verbatim>\<open>lre_case_conv\<close> and \<^verbatim>\<open>lre_canonicalize\<close>; \<open>Unicode_Tables\<close>, \<open>Unicode_Lookup\<close>: the indexed
    property tables, against a linear reading.
  \<^item> \<open>Unicode_Prop\<close>, \<open>Unicode_Prop_Case\<close>, \<open>Unicode_Prop_Correct\<close>, \<open>Unicode_Script\<close>: the ranges of general
    categories, binary properties, scripts and case changes, against the sets the tables describe; the locales
    \<open>range_source\<close> and \<open>run_table\<close> state what the readers of run-length encoded tables share.
  \<^item> \<open>Unicode_Norm_Tables\<close>, \<open>Unicode_Normalize\<close>: \<^verbatim>\<open>unicode_normalize\<close> with decomposition, combining classes, canonical
    ordering and composition. \<open>Unicode_Cc\<close>, \<open>Unicode_Norm_Correct\<close>: combining classes and canonical ordering;
    \<open>Unicode_Decomp\<close>, \<open>Unicode_Decomp_Check\<close>: the random access of the decomposition tables agrees with reading them
    in order, and one pass over the tables shows sizes, bounds and the levels that make the recursion end;
    \<open>Unicode_Nfd\<close>, \<open>Unicode_Norm_Props\<close>: the decomposed forms, Hangul syllables and the properties.
  \<^item> \<open>Regexp_Code\<close>, \<open>Regexp_Exec\<close>, \<open>Regexp_Safe\<close>: byte code, the backtracking interpreter \<^verbatim>\<open>lre_exec\<close>, and a
    byte code verifier whose acceptance implies that no run leaves the code, the subject, the captures or the stack.
  \<^item> \<open>Regexp_Parse\<close>, \<open>Regexp_Compile\<close>: the compiler \<^verbatim>\<open>lre_compile\<close>. The pattern is a block that ends with a zero, a
    position is an offset in it, and every function returns \<open>Done\<close> with its result, \<open>Failed\<close> with the message in
    the state, \<open>Never\<close> where a Unicode script lookup does not return, or \<open>Exhausted\<close> where the bound is used up; the depth of the C stack is a predicate
    on the nesting.
  \<^item> \<open>Regexp_Class\<close>, \<open>Regexp_Literal\<close>: compiler and matcher together. The instruction for a character class matches
    the members of the class; a pattern without operators compiles to known code, under every allocator, and running
    it finds the first occurrence in a number of steps that is given.
  \<^item> \<open>Regexp_Buffer\<close>: a buffer whose error flag is set stays as it is, whatever the compiler does next. \<open>Regexp_Errors\<close>: a
    refused allocation that the compiler overlooks between two alternatives, and a pattern on which the matcher never ends.
  \<^item> \<open>Bf_Limbs\<close>: the arrays of limbs of \<^verbatim>\<open>libbf.c\<close>; the value of an array as an integer, and that addition, subtraction
    and schoolbook multiplication are exact. \<open>Bf_Division\<close>: division by a normalised divisor, exact quotient and remainder;
    \<^verbatim>\<open>mp_divnorm_large\<close> is a parameter.

  \<^bold>\<open>Not modelled.\<close> The parser, compiler, interpreter and garbage collector of \<^verbatim>\<open>quickjs.c\<close> and, of
  \<^verbatim>\<open>libbf.c\<close>, the floating point numbers on top of the arrays of limbs with their transcendental functions and the
  number theoretic transform, whose size is out of proportion with the rest; functions that only print (\<^verbatim>\<open>cr_dump\<close>, \<^verbatim>\<open>lre_dump_bytecode\<close>); the bindings of \<^verbatim>\<open>wrap.h\<close> and the Go
  code of the server, which is not C.
\<close>

end
